(* ===== verification/Dolda_Prelude.thy ===== *)
theory Dolda_Prelude
  imports Complex_Main "HOL-Library.Word"
begin

text \<open>
  Shared vocabulary of the development: the machine integers and byte strings of the Rust
  code, \<open>?\<close>-propagation of errors, slices and \<open>copy_from_slice\<close> on byte buffers, the
  little- and big-endian encodings of integers, and the ordered and unordered maps
  (\<open>BTreeMap\<close>, \<open>HashMap\<close>) as association lists, each with the lemmas the components share.
\<close>

unbundle bit_operations_syntax

section \<open>Types\<close>

type_synonym u8 = "8 word"
type_synonym u16 = "16 word"
type_synonym u32 = "32 word"
type_synonym u64 = "64 word"
type_synonym usize = "64 word" \<comment> \<open>the code is built for 64-bit targets\<close>
type_synonym bytes = "u8 list"

text \<open>What an operating-system call answers when it fails; the code only prints it.\<close>

datatype io_error = IoError string | UnexpectedEof

section \<open>Error propagation\<close>

text \<open>\<open>and_then r f\<close> is the code's \<open>r?\<close> followed by \<open>f\<close>: an error returns early.\<close>

fun and_then :: "'e + 'a \<Rightarrow> ('a \<Rightarrow> 'e + 'b) \<Rightarrow> 'e + 'b" where
  "and_then (Inl e) f = Inl e"
| "and_then (Inr x) f = f x"

fun map_err :: "('e \<Rightarrow> 'f) \<Rightarrow> 'e + 'a \<Rightarrow> 'f + 'a" where
  "map_err g (Inl e) = Inl (g e)"
| "map_err g (Inr x) = Inr x"

named_theorems result_iffs \<open>when a computation with errors returns a value\<close>

lemma and_then_Inr_iff [result_iffs]: "and_then r f = Inr y \<longleftrightarrow> (\<exists>x. r = Inr x \<and> f x = Inr y)"
  by (cases r) auto

lemma and_then_Inl_iff [result_iffs]:
  "and_then r f = Inl e \<longleftrightarrow> r = Inl e \<or> (\<exists>x. r = Inr x \<and> f x = Inl e)"
  by (cases r) auto

lemma map_err_Inr_iff [result_iffs]: "map_err g r = Inr y \<longleftrightarrow> r = Inr y"
  by (cases r) auto

lemma map_err_Inl_iff [result_iffs]: "map_err g r = Inl f \<longleftrightarrow> (\<exists>e. r = Inl e \<and> f = g e)"
  by (cases r) auto

lemma guard_Inr_iff [result_iffs]: "(if P then Inl e else r) = Inr x \<longleftrightarrow> \<not> P \<and> r = Inr x"
  by simp

section \<open>Programs\<close>

text \<open>A program is a sequence of operations on a state. An error ends it, in the state of that moment;
  \<open>None\<close> stands for a run that does not return, or panics.\<close>

type_synonym ('s, 'e, 'a) run = "'s \<Rightarrow> (('e + 'a) \<times> 's) option"

definition run_bind :: "('s, 'e, 'a) run \<Rightarrow> ('a \<Rightarrow> ('s, 'e, 'b) run) \<Rightarrow> ('s, 'e, 'b) run" where
  "run_bind first next st =
     (case first st of
        None \<Rightarrow> None
      | Some (Inl e, st') \<Rightarrow> Some (Inl e, st')
      | Some (Inr x, st') \<Rightarrow> next x st')"

definition run_return :: "'a \<Rightarrow> ('s, 'e, 'a) run" where
  "run_return x st = Some (Inr x, st)"

definition run_unwrap :: "'a option \<Rightarrow> ('s, 'e, 'a) run" where
  "run_unwrap x st = map_option (\<lambda>y. (Inr y, st)) x"

fun run_each :: "('a \<Rightarrow> ('s, 'e, unit) run) \<Rightarrow> 'a list \<Rightarrow> ('s, 'e, unit) run" where
  "run_each body [] = run_return ()"
| "run_each body (x # xs) = run_bind (body x) (\<lambda>_. run_each body xs)"

lemma run_bind_unwrap [simp]: "run_bind (run_unwrap (Some x)) next st = next x st"
  by (simp add: run_bind_def run_unwrap_def)

lemma run_bind_return [simp]: "run_bind (run_return x) next st = next x st"
  by (simp add: run_bind_def run_return_def)

definition run_try :: "('e1 \<Rightarrow> 'e) \<Rightarrow> 'e1 + 'a \<Rightarrow> ('s, 'e, 'a) run" where
  "run_try err res st = Some (map_err err res, st)"

fun run_fold :: "('a \<Rightarrow> 'b \<Rightarrow> ('s, 'e, 'b) run) \<Rightarrow> 'a list \<Rightarrow> 'b \<Rightarrow> ('s, 'e, 'b) run" where
  "run_fold body [] acc = run_return acc"
| "run_fold body (x # xs) acc = run_bind (body x acc) (run_fold body xs)"

lemma run_try_bind [simp]: "run_bind (run_try err (Inr x)) next st = next x st"
  by (simp add: run_bind_def run_try_def)

lemma run_fold_invariant:
  assumes "P 0 acc st"
    and "\<And>i acc st. P i acc st \<Longrightarrow> i < length xs \<Longrightarrow>
      \<exists>acc' st'. body (xs ! i) acc st = Some (Inr acc', st') \<and> P (Suc i) acc' st'"
  shows "\<exists>acc' st'. run_fold body xs acc st = Some (Inr acc', st') \<and> P (length xs) acc' st'"
  using assms
proof (induction xs arbitrary: P acc st)
  case Nil
  then show ?case by (simp add: run_return_def)
next
  case (Cons x xs)
  from Cons.prems(2) [OF Cons.prems(1)] obtain acc1 st1 where
    one: "body x acc st = Some (Inr acc1, st1)" "P (Suc 0) acc1 st1" by auto
  have "\<exists>acc' st'. run_fold body xs acc1 st1 = Some (Inr acc', st') \<and> P (Suc (length xs)) acc' st'"
  proof (rule Cons.IH [of "\<lambda>i. P (Suc i)", OF one(2)])
    fix i acc st assume "P (Suc i) acc st" "i < length xs"
    with Cons.prems(2) [of "Suc i" acc st] show
      "\<exists>acc' st'. body (xs ! i) acc st = Some (Inr acc', st') \<and> P (Suc (Suc i)) acc' st'" by simp
  qed
  with one(1) show ?case by (simp add: run_bind_def)
qed

section \<open>Slices\<close>

text \<open>\<open>&xs[i..j]\<close>, and \<open>xs[i..i + ys.len()].copy_from_slice(ys)\<close>; both in range.\<close>

definition slice_of :: "nat \<Rightarrow> nat \<Rightarrow> 'a list \<Rightarrow> 'a list" where
  "slice_of i j xs = take (j - i) (drop i xs)"

definition write_at :: "'a list \<Rightarrow> nat \<Rightarrow> 'a list \<Rightarrow> 'a list" where
  "write_at xs i ys = take i xs @ ys @ drop (i + length ys) xs"

named_theorems slice_simps \<open>lengths and contents of slices\<close>

lemma length_concat_le: "\<forall>b \<in> set bs. length b \<le> n \<Longrightarrow> length (concat bs) \<le> length bs * n"
  by (induction bs) auto

lemma length_slice [slice_simps]: "j \<le> length xs \<Longrightarrow> length (slice_of i j xs) = j - i"
  by (simp add: slice_of_def)

lemma slice_append_left [slice_simps]: "j \<le> length xs \<Longrightarrow> slice_of i j (xs @ ys) = slice_of i j xs"
  by (simp add: slice_of_def)

lemma slice_append_right [slice_simps]:
  "length xs \<le> i \<Longrightarrow> slice_of i j (xs @ ys) = slice_of (i - length xs) (j - length xs) ys"
  by (simp add: slice_of_def)

lemma slice_all [slice_simps]: "slice_of 0 (length xs) xs = xs"
  by (simp add: slice_of_def)

lemma slice_all' [slice_simps]: "j = length xs \<Longrightarrow> slice_of 0 j xs = xs"
  by (simp add: slice_of_def)

lemma slice_replicate [slice_simps]:
  "slice_of i j (replicate n x) = replicate (min (j - i) (n - i)) x"
  by (simp add: slice_of_def min_def)

lemma slice_split:
  assumes "i \<le> j" "j \<le> k"
  shows "slice_of i j xs @ slice_of j k xs = slice_of i k xs"
proof -
  from assms have "k - i = (j - i) + (k - j)" and "j = i + (j - i)" by simp_all
  then show ?thesis
    by (metis slice_of_def take_add drop_drop add.commute)
qed

lemma slice_of_update [slice_simps]:
  "slice_of i j (xs[k := x])
    = (if i \<le> k \<and> k < j then (slice_of i j xs)[k - i := x] else slice_of i j xs)"
proof (cases "i \<le> k")
  case True
  then show ?thesis
    by (auto simp: slice_of_def drop_update_swap take_update_swap list_update_beyond)
next
  case False
  then show ?thesis by (simp add: slice_of_def)
qed

lemma length_write_at [slice_simps]:
  "i + length ys \<le> length xs \<Longrightarrow> length (write_at xs i ys) = length xs"
  by (simp add: write_at_def)

lemma take_write_at_before [slice_simps]:
  "n \<le> i \<Longrightarrow> i \<le> length xs \<Longrightarrow> take n (write_at xs i ys) = take n xs"
  by (simp add: write_at_def min_def)

lemma take_write_at [slice_simps]:
  "i \<le> length xs \<Longrightarrow> take (i + length ys) (write_at xs i ys) = take i xs @ ys"
  by (simp add: write_at_def)

lemma slice_write_at_same:
  "i + length ys \<le> length xs \<Longrightarrow> slice_of i (i + length ys) (write_at xs i ys) = ys"
  by (simp add: slice_of_def write_at_def)

lemma slice_write_at_apart:
  assumes "i + length ys \<le> length xs" "k \<le> i \<or> i + length ys \<le> j"
  shows "slice_of j k (write_at xs i ys) = slice_of j k xs"
proof (rule disjE [OF assms(2)])
  assume "k \<le> i"
  then have "take k (write_at xs i ys) = take k xs" using assms(1) by (simp add: slice_simps)
  then show ?thesis by (metis slice_of_def drop_take)
next
  assume "i + length ys \<le> j"
  then have "drop j (write_at xs i ys) = drop j xs"
    using assms(1) by (simp add: write_at_def)
  then show ?thesis by (simp add: slice_of_def)
qed

text \<open>\<open>File::set_len\<close>: truncate, or extend with zero bytes.\<close>

definition set_len :: "nat \<Rightarrow> bytes \<Rightarrow> bytes" where
  "set_len n bs = take n bs @ replicate (n - length bs) 0"

lemma length_set_len [simp]: "length (set_len n bs) = n"
  by (simp add: set_len_def)

section \<open>Integers as bytes\<close>

text \<open>
  \<open>to_le_bytes\<close> of an integer of \<open>n\<close> bytes is \<open>le_bytes n\<close>, \<open>from_le_bytes\<close> is
  \<open>le_word\<close>; the big-endian versions reverse the bytes.
\<close>

fun le_bytes :: "nat \<Rightarrow> 'a::len word \<Rightarrow> bytes" where
  "le_bytes 0 w = []"
| "le_bytes (Suc n) w = ucast w # le_bytes n (drop_bit 8 w)"

fun le_word :: "bytes \<Rightarrow> 'a::len word" where
  "le_word [] = 0"
| "le_word (b # bs) = ucast b OR push_bit 8 (le_word bs)"

definition be_bytes :: "nat \<Rightarrow> 'a::len word \<Rightarrow> bytes" where
  "be_bytes n w = rev (le_bytes n w)"

definition be_word :: "bytes \<Rightarrow> 'a::len word" where
  "be_word bs = le_word (rev bs)"

lemma length_le_bytes [simp]: "length (le_bytes n w) = n"
  by (induction n arbitrary: w) auto

lemma length_be_bytes [simp]: "length (be_bytes n w) = n"
  by (simp add: be_bytes_def)

lemma le_word_le_bytes: "le_word (le_bytes n w) = take_bit (8 * n) (w :: 'a::len word)"
proof (induction n arbitrary: w)
  case 0
  show ?case by simp
next
  case (Suc n)
  show ?case
    by (rule bit_word_eqI) (auto simp: Suc bit_simps)
qed

lemma le_word_zeros [simp]: "le_word (replicate n 0) = 0"
  by (induction n) simp_all

lemma bit_le_word:
  "bit (le_word bs :: 'a::len word) k
    \<longleftrightarrow> k < LENGTH('a) \<and> k div 8 < length bs \<and> bit (bs ! (k div 8)) (k mod 8)"
proof (induction bs arbitrary: k)
  case Nil
  show ?case by simp
next
  case (Cons b bs)
  show ?case
  proof (cases "k < 8")
    case True
    then show ?thesis by (auto simp: bit_simps)
  next
    case False
    then have "k div 8 = Suc ((k - 8) div 8)" and "k mod 8 = (k - 8) mod 8"
      by (simp_all add: le_div_geq le_mod_geq)
    with False show ?thesis
      by (auto simp: bit_simps Cons dest: bit_imp_le_length)
  qed
qed

lemma nth_le_bytes: "i < n \<Longrightarrow> le_bytes n w ! i = ucast (drop_bit (8 * i) w)"
  by (induction n arbitrary: w i) (auto simp: nth_Cons add.commute split: nat.splits)

lemma le_bytes_le_word:
  assumes "length bs = n" and "8 * n \<le> LENGTH('a)"
  shows "le_bytes n (le_word bs :: 'a::len word) = bs"
proof (rule nth_equalityI)
  show "length (le_bytes n (le_word bs :: 'a word)) = length bs"
    using assms by simp
next
  fix i assume "i < length (le_bytes n (le_word bs :: 'a word))"
  then have "i < n" by simp
  show "le_bytes n (le_word bs :: 'a word) ! i = bs ! i"
  proof (rule bit_word_eqI)
    fix k assume "k < LENGTH(8)"
    with \<open>i < n\<close> assms show "bit (le_bytes n (le_word bs :: 'a word) ! i) k = bit (bs ! i) k"
      by (auto simp: nth_le_bytes bit_simps bit_le_word)
  qed
qed

lemma le_word_inverse:
  fixes w :: "'a::len word"
  assumes "8 * n = LENGTH('a)"
  shows "le_word (le_bytes n w) = w"
  by (simp add: le_word_le_bytes assms)

lemma be_word_inverse:
  fixes w :: "'a::len word"
  assumes "8 * n = LENGTH('a)"
  shows "be_word (be_bytes n w) = w"
  using assms by (simp add: be_word_def be_bytes_def le_word_inverse)

lemma be_bytes_be_word:
  assumes "length bs = n" and "8 * n \<le> LENGTH('a)"
  shows "be_bytes n (be_word bs :: 'a::len word) = bs"
  using assms by (simp add: be_word_def be_bytes_def le_bytes_le_word)

text \<open>The widths the formats use.\<close>

lemma le_word32 [simp]: "le_word (le_bytes 4 w) = (w :: u32)"
  by (rule le_word_inverse) simp

lemma le_word64 [simp]: "le_word (le_bytes 8 w) = (w :: u64)"
  by (rule le_word_inverse) simp

lemma be_word16 [simp]: "be_word (be_bytes 2 w) = (w :: u16)"
  by (rule be_word_inverse) simp

lemma be_word32 [simp]: "be_word (be_bytes 4 w) = (w :: u32)"
  by (rule be_word_inverse) simp

lemma be_word64 [simp]: "be_word (be_bytes 8 w) = (w :: u64)"
  by (rule be_word_inverse) simp

section \<open>Wrap-around\<close>

text \<open>
  Sums of \<open>u64\<close> values wrap in the code (the release profile has no overflow checks, and the
  atomic operations always wrap). These say when a sum does not.
\<close>

named_theorems no_wrap \<open>sums that stay in range\<close>

lemma unat_of_nat64 [no_wrap]: "n < 2 ^ 64 \<Longrightarrow> unat (of_nat n :: u64) = n"
  by (simp add: unat_of_nat take_bit_nat_eq_self)

lemma unat_of_nat32 [no_wrap]: "n < 2 ^ 32 \<Longrightarrow> unat (of_nat n :: u32) = n"
  by (simp add: unat_of_nat take_bit_nat_eq_self)

lemma unat_add_of_nat64 [no_wrap]:
  "unat p + n < 2 ^ 64 \<Longrightarrow> unat (p + of_nat n :: u64) = unat p + n"
  by (simp add: unat_word_ariths unat_of_nat take_bit_nat_eq_self)

lemma of_nat_eq_iff64:
  "i < 2 ^ 64 \<Longrightarrow> j < 2 ^ 64 \<Longrightarrow> (of_nat i :: u64) = of_nat j \<longleftrightarrow> i = j"
  by (metis unat_of_nat64)

lemma unat_Suc64 [no_wrap]: "unat p + 1 < 2 ^ 64 \<Longrightarrow> unat (p + 1 :: u64) = unat p + 1"
  using unat_add_of_nat64 [of p 1] by simp

definition saturating_sub :: "'a::len word \<Rightarrow> 'a word \<Rightarrow> 'a word" where
  "saturating_sub a b = (if a < b then 0 else a - b)"

lemma unat_saturating_sub: "unat (saturating_sub a b) = unat a - unat b"
  by (auto simp: saturating_sub_def unat_sub_if_size word_less_nat_alt)

section \<open>Maps with an order of iteration\<close>

text \<open>
  A \<open>BTreeMap\<close> is its list of entries in ascending order of keys; \<open>btree_insert\<close> replaces
  the value of a key that is present. \<open>map_of\<close> is \<open>get\<close> and \<open>length\<close> is \<open>len\<close>.
\<close>

fun btree_insert :: "'k::linorder \<Rightarrow> 'v \<Rightarrow> ('k \<times> 'v) list \<Rightarrow> ('k \<times> 'v) list" where
  "btree_insert k v [] = [(k, v)]"
| "btree_insert k v ((k', v') # m) =
     (if k < k' then (k, v) # (k', v') # m
      else if k = k' then (k, v) # m
      else (k', v') # btree_insert k v m)"

lemma map_of_btree_insert [simp]: "map_of (btree_insert k v m) = (map_of m)(k \<mapsto> v)"
  by (induction k v m rule: btree_insert.induct) (auto simp: fun_eq_iff)

lemma btree_insert_max: "\<forall>k' \<in> fst ` set m. k' < k \<Longrightarrow> btree_insert k v m = m @ [(k, v)]"
  by (induction k v m rule: btree_insert.induct) auto

text \<open>
  A \<open>HashMap\<close> that the code iterates over is a list of entries with distinct keys;
  \<open>hash_insert\<close> replaces the value of a key that is present.
\<close>

fun hash_insert :: "'k \<Rightarrow> 'v \<Rightarrow> ('k \<times> 'v) list \<Rightarrow> ('k \<times> 'v) list" where
  "hash_insert k v [] = [(k, v)]"
| "hash_insert k v ((k', v') # m) = (if k = k' then (k, v) # m else (k', v') # hash_insert k v m)"

definition hash_remove :: "'k \<Rightarrow> ('k \<times> 'v) list \<Rightarrow> ('k \<times> 'v) list" where
  "hash_remove k m = filter (\<lambda>(k', _). k' \<noteq> k) m"

lemma map_of_hash_insert [simp]: "map_of (hash_insert k v m) = (map_of m)(k \<mapsto> v)"
  by (induction k v m rule: hash_insert.induct) (auto simp: fun_eq_iff)

lemma hash_insert_new: "k \<notin> fst ` set m \<Longrightarrow> hash_insert k v m = m @ [(k, v)]"
  by (induction k v m rule: hash_insert.induct) auto

lemma keys_hash_insert [simp]: "fst ` set (hash_insert k v m) = insert k (fst ` set m)"
  by (induction k v m rule: hash_insert.induct) auto

lemma distinct_hash_insert [simp]:
  "distinct (map fst m) \<Longrightarrow> distinct (map fst (hash_insert k v m))"
proof (induction k v m rule: hash_insert.induct)
  case (2 k v k' v' m)
  then show ?case using keys_hash_insert [of k v m] by auto
qed simp

lemma map_of_hash_remove [simp]: "map_of (hash_remove k m) = (map_of m)(k := None)"
  by (induction m) (auto simp: hash_remove_def fun_eq_iff)

lemma distinct_hash_remove [simp]:
  "distinct (map fst m) \<Longrightarrow> distinct (map fst (hash_remove k m))"
  by (induction m) (auto simp: hash_remove_def)

lemma set_hash_insert: "set (hash_insert k v m) \<subseteq> insert (k, v) (set m)"
  by (induction k v m rule: hash_insert.induct) auto

lemma set_btree_insert: "set (btree_insert k v m) \<subseteq> insert (k, v) (set m)"
  by (induction k v m rule: btree_insert.induct) auto

lemma keys_btree_insert: "fst ` set (btree_insert k v m) = insert k (fst ` set m)"
  by (induction k v m rule: btree_insert.induct) auto

lemma sorted_btree_insert:
  "sorted (map fst m) \<Longrightarrow> distinct (map fst m) \<Longrightarrow>
    sorted (map fst (btree_insert k v m)) \<and> distinct (map fst (btree_insert k v m))"
proof (induction k v m rule: btree_insert.induct)
  case (2 k v k' v' m)
  then show ?case using keys_btree_insert [of k v m] by (auto simp: image_iff dest: less_imp_le)
qed simp

section \<open>Floating-point numbers\<close>

text \<open>A double-precision number as the code compares it.\<close>

datatype f64 = NaN | NegInf | PosInf | Fin rat

fun f64_less :: "f64 \<Rightarrow> f64 \<Rightarrow> bool" where
  "f64_less (Fin a) (Fin b) = (a < b)"
| "f64_less NegInf (Fin b) = True"
| "f64_less NegInf PosInf = True"
| "f64_less (Fin a) PosInf = True"
| "f64_less _ _ = False"

text \<open>
  The nearest double to a positive rational number (ties to even, 53 significant bits); the
  code converts and divides integers below \<open>2 ^ 64\<close>, so no exponent is out of range.
\<close>

fun bit_length :: "nat \<Rightarrow> nat" where
  "bit_length n = (if n = 0 then 0 else Suc (bit_length (n div 2)))"

declare bit_length.simps [simp del]

definition round_half_even :: "nat \<Rightarrow> nat \<Rightarrow> nat" where
  "round_half_even a b =
     (let q = a div b; r = a mod b in if 2 * r < b \<or> (2 * r = b \<and> even q) then q else q + 1)"

definition round_f64 :: "nat \<Rightarrow> nat \<Rightarrow> rat" where
  "round_f64 a b =
     (if a = 0 then 0
      else let up = bit_length b; a' = a * 2 ^ up;
               e = (if a' \<ge> b * 2 ^ (bit_length a' - bit_length b)
                    then bit_length a' - bit_length b else bit_length a' - bit_length b - 1);
               m = (if e \<le> 52 then round_half_even (a' * 2 ^ (52 - e)) b
                    else round_half_even a' (b * 2 ^ (e - 52)))
           in (if e \<le> 52 then of_nat m / 2 ^ (52 - e) else of_nat m * 2 ^ (e - 52)) / 2 ^ up)"

text \<open>\<open>a as f64 / b as f64\<close> for \<open>b > 0\<close>.\<close>

definition f64_ratio :: "nat \<Rightarrow> nat \<Rightarrow> f64" where
  "f64_ratio a b =
     (let (p, q) = quotient_of (round_f64 a 1 / round_f64 b 1)
      in Fin (round_f64 (nat p) (nat q)))"

section \<open>Strings\<close>

text \<open>\<open>s.contains(pat)\<close>.\<close>

definition contains_str :: "'a list \<Rightarrow> 'a list \<Rightarrow> bool" where
  "contains_str pat s \<longleftrightarrow> list_ex (\<lambda>i. take (length pat) (drop i s) = pat) [0..<length s + 1]"

lemma contains_str_iff: "contains_str pat s \<longleftrightarrow> (\<exists>a b. s = a @ pat @ b)"
proof
  assume "contains_str pat s"
  then obtain i where "i \<le> length s" "take (length pat) (drop i s) = pat"
    unfolding contains_str_def list_ex_iff
    by (metis (no_types, lifting) atLeastLessThan_iff less_Suc_eq_le set_upt Suc_eq_plus1)
  then have "s = take i s @ pat @ drop (length pat) (drop i s)"
    by (metis append_take_drop_id)
  then show "\<exists>a b. s = a @ pat @ b" by blast
next
  assume "\<exists>a b. s = a @ pat @ b"
  then obtain a b where "s = a @ pat @ b" by blast
  then show "contains_str pat s"
    by (auto simp: contains_str_def list_ex_iff intro!: bexI [of _ "length a"])
qed

lemma contains_char_iff: "contains_str [c] s \<longleftrightarrow> c \<in> set s"
  by (auto simp: contains_str_iff in_set_conv_decomp)

text \<open>Two dots do not reach across a separator.\<close>

lemma two_dots_sep:
  "contains_str ''..'' (xs @ CHR ''/'' # ys) \<longleftrightarrow> contains_str ''..'' xs \<or> contains_str ''..'' ys"
proof
  assume "contains_str ''..'' (xs @ CHR ''/'' # ys)"
  then obtain a b where "xs @ CHR ''/'' # ys = a @ ''..'' @ b" by (auto simp: contains_str_iff)
  then obtain us where "xs @ us = a \<and> CHR ''/'' # ys = us @ ''..'' @ b
      \<or> xs = a @ us \<and> us @ CHR ''/'' # ys = ''..'' @ b"
    by (auto simp: append_eq_append_conv2)
  then show "contains_str ''..'' xs \<or> contains_str ''..'' ys"
  proof
    assume "xs @ us = a \<and> CHR ''/'' # ys = us @ ''..'' @ b"
    then have "ys = tl us @ ''..'' @ b" by (cases us) auto
    then show ?thesis unfolding contains_str_iff by blast
  next
    assume us: "xs = a @ us \<and> us @ CHR ''/'' # ys = ''..'' @ b"
    then obtain vs where "us = ''..'' @ vs" by (cases us; cases "tl us") auto
    with us show ?thesis unfolding contains_str_iff by blast
  qed
next
  assume "contains_str ''..'' xs \<or> contains_str ''..'' ys"
  then consider a b where "xs = a @ ''..'' @ b" | a b where "ys = a @ ''..'' @ b"
    by (auto simp: contains_str_iff)
  then show "contains_str ''..'' (xs @ CHR ''/'' # ys)"
  proof cases
    case 1
    then have "xs @ CHR ''/'' # ys = a @ ''..'' @ (b @ CHR ''/'' # ys)" by simp
    then show ?thesis unfolding contains_str_iff by blast
  next
    case 2
    then have "xs @ CHR ''/'' # ys = (xs @ CHR ''/'' # a) @ ''..'' @ b" by simp
    then show ?thesis unfolding contains_str_iff by blast
  qed
qed

section \<open>Numbers in file names\<close>

text \<open>\<open>{}\<close> of an unsigned integer: its decimal digits.\<close>

fun nat_string :: "nat \<Rightarrow> string" where
  "nat_string n =
     (if n < 10 then [char_of (48 + n)] else nat_string (n div 10) @ [char_of (48 + n mod 10)])"

declare nat_string.simps [simp del]

text \<open>\<open>{:#x}\<close>: lower-case hexadecimal digits after \<open>0x\<close>.\<close>

fun hex_digits :: "nat \<Rightarrow> string" where
  "hex_digits n =
     (let d = [if n mod 16 < 10 then char_of (48 + n mod 16) else char_of (87 + n mod 16)]
      in if n < 16 then d else hex_digits (n div 16) @ d)"

declare hex_digits.simps [simp del]

definition string_nat :: "string \<Rightarrow> nat" where
  "string_nat = foldl (\<lambda>a c. 10 * a + (of_char c - 48)) 0"

lemma string_nat_snoc: "string_nat (s @ [c]) = 10 * string_nat s + (of_char c - 48)"
  by (simp add: string_nat_def)

lemma string_nat_nat_string: "string_nat (nat_string n) = n"
proof (induction n rule: nat_string.induct)
  case (1 n)
  show ?case
  proof (cases "n < 10")
    case True
    then show ?thesis
      by (subst nat_string.simps) (simp add: string_nat_def)
  next
    case False
    then show ?thesis
      using 1 by (subst nat_string.simps) (simp add: string_nat_snoc)
  qed
qed

lemma nat_string_inj [simp]: "nat_string m = nat_string n \<longleftrightarrow> m = n"
  by (metis string_nat_nat_string)

lemma char_of_digit:
  assumes "d < 10"
  shows "char_of (48 + d :: nat) \<noteq> CHR ''_''" and "char_of (48 + d :: nat) \<noteq> CHR ''.''"
proof -
  have "of_char (char_of (48 + d :: nat)) = 48 + d" using assms by simp
  then show "char_of (48 + d :: nat) \<noteq> CHR ''_''" and "char_of (48 + d :: nat) \<noteq> CHR ''.''"
    using assms by (auto dest!: arg_cong [where f = "of_char :: char \<Rightarrow> nat"])
qed

lemma nat_string_digits: "c \<in> set (nat_string n) \<Longrightarrow> c \<noteq> CHR ''_'' \<and> c \<noteq> CHR ''.''"
proof (induction n rule: nat_string.induct)
  case (1 n)
  show ?case
  proof (cases "n < 10")
    case True
    with "1.prems" show ?thesis by (subst (asm) nat_string.simps) (simp add: char_of_digit)
  next
    case False
    with 1 char_of_digit [of "n mod 10"] show ?thesis by (subst (asm) (2) nat_string.simps) auto
  qed
qed

text \<open>A number followed by a separator is read back unambiguously.\<close>

lemma nat_string_sep:
  assumes "nat_string m @ x # xs = nat_string n @ x # ys" and "x = CHR ''_'' \<or> x = CHR ''.''"
  shows "m = n \<and> xs = ys"
proof -
  have "takeWhile (\<lambda>c. c \<noteq> x) (nat_string k @ x # zs) = nat_string k" for k zs
    using assms(2) nat_string_digits [of _ k] by (auto simp: takeWhile_append2)
  with assms(1) have "nat_string m = nat_string n" by metis
  with assms(1) show ?thesis by simp
qed

lemma length_nat_string: "n < 10 ^ k \<Longrightarrow> 0 < k \<Longrightarrow> length (nat_string n) \<le> k"
proof (induction n arbitrary: k rule: nat_string.induct)
  case (1 n)
  show ?case
  proof (cases "n < 10")
    case True
    with 1 show ?thesis by (subst nat_string.simps) simp
  next
    case False
    with "1.prems" have "k \<noteq> 1" by (intro notI) simp
    with "1.prems"(2) obtain j where j: "k = Suc j" "0 < j" by (cases k) auto
    with "1.prems"(1) have "n div 10 < 10 ^ j" by simp
    with 1(1) [OF False this j(2)] False j(1) show ?thesis by (subst nat_string.simps) simp
  qed
qed

lemma nat_string_pos: "0 < length (nat_string n)"
  by (subst nat_string.simps) simp

lemma length_nat_string_digits:
  "length (nat_string n) = 1 \<longleftrightarrow> n < 10" "length (nat_string n) \<ge> 2 \<longleftrightarrow> n \<ge> 10"
  using nat_string_pos [of "n div 10"] by (subst nat_string.simps, simp)+

text \<open>The bytes of a text in ASCII.\<close>

definition string_bytes :: "string \<Rightarrow> bytes" where
  "string_bytes s = map of_char s"

lemma length_string_bytes [simp]: "length (string_bytes s) = length s"
  by (simp add: string_bytes_def)

end
