(* ===== verification/Record_Format.thy ===== *)
theory Record_Format
  imports Dolda_Prelude
begin

text \<open>
  The on-disk record format of \<open>src/record.rs\<close>: a 20-byte header (magic, length, CRC32,
  timestamp, all little-endian) and the payload. CRC32 is the function of the third-party crate
  \<open>crc32fast\<close> and therefore an argument \<open>crc\<close> of every definition that uses it: the
  checksum of all the bytes given to one \<open>Hasher\<close>, in order. The clock is an argument too.

  The theorems: \<open>deserialize\<close> inverts \<open>serialize\<close> and accepts nothing else; every proper
  prefix of a frame is reported as incomplete; a frame whose payload was changed is accepted only
  if the checksum does not see the change.
\<close>

section \<open>Data\<close>

definition RECORD_MAGIC :: u32 where
  "RECORD_MAGIC = 0xD01DAC0D"

definition RECORD_HEADER_SIZE :: nat where
  "RECORD_HEADER_SIZE = 20"

definition MAX_RECORD_SIZE :: nat where
  "MAX_RECORD_SIZE = 100 * 1024 * 1024"

record drecord =
  rec_timestamp :: u64
  rec_data :: bytes

record framed_record =
  fr_bytes :: bytes
  fr_offset :: u64

datatype record_error =
    InvalidMagic u32
  | RecordTooLarge nat
  | ChecksumMismatch (expected_crc: u32) (actual_crc: u32)
  | IncompleteRecord (expected_len: nat) (actual_len: nat)
  | RecordIo io_error

section \<open>Operations\<close>

definition record_new :: "u64 \<Rightarrow> bytes \<Rightarrow> record_error + drecord" where
  "record_new now data =
     (if length data > MAX_RECORD_SIZE then Inl (RecordTooLarge (length data))
      else Inr \<lparr>rec_timestamp = now, rec_data = data\<rparr>)"

definition with_timestamp :: "bytes \<Rightarrow> u64 \<Rightarrow> record_error + drecord" where
  "with_timestamp data timestamp =
     (if length data > MAX_RECORD_SIZE then Inl (RecordTooLarge (length data))
      else Inr \<lparr>rec_timestamp = timestamp, rec_data = data\<rparr>)"

definition calculate_checksum :: "(bytes \<Rightarrow> u32) \<Rightarrow> u64 \<Rightarrow> bytes \<Rightarrow> u32" where
  "calculate_checksum crc timestamp data = crc (le_bytes 8 timestamp @ data)"

definition serialize :: "(bytes \<Rightarrow> u32) \<Rightarrow> drecord \<Rightarrow> framed_record" where
  "serialize crc r =
     (let data_len = of_nat (length (rec_data r)) :: u32;
          checksum = calculate_checksum crc (rec_timestamp r) (rec_data r)
      in \<lparr>fr_bytes = le_bytes 4 RECORD_MAGIC @ le_bytes 4 data_len @ le_bytes 4 checksum
            @ le_bytes 8 (rec_timestamp r) @ rec_data r,
          fr_offset = 0\<rparr>)"

definition deserialize :: "(bytes \<Rightarrow> u32) \<Rightarrow> bytes \<Rightarrow> record_error + drecord \<times> nat" where
  "deserialize crc bs =
     (if length bs < RECORD_HEADER_SIZE
      then Inl (IncompleteRecord RECORD_HEADER_SIZE (length bs))
      else let magic = le_word (slice_of 0 4 bs) :: u32 in
      if magic \<noteq> RECORD_MAGIC then Inl (InvalidMagic magic)
      else let data_len = unat (le_word (slice_of 4 8 bs) :: u32) in
      if data_len > MAX_RECORD_SIZE then Inl (RecordTooLarge data_len)
      else let total_size = RECORD_HEADER_SIZE + data_len in
      if length bs < total_size then Inl (IncompleteRecord total_size (length bs))
      else let stored_checksum = le_word (slice_of 8 12 bs) :: u32;
               timestamp = le_word (slice_of 12 20 bs) :: u64;
               data = slice_of 20 total_size bs;
               calculated_checksum = calculate_checksum crc timestamp data
      in if stored_checksum \<noteq> calculated_checksum
         then Inl (ChecksumMismatch stored_checksum calculated_checksum)
         else Inr (\<lparr>rec_timestamp = timestamp, rec_data = data\<rparr>, total_size))"

definition serialized_size :: "drecord \<Rightarrow> nat" where
  "serialized_size r = RECORD_HEADER_SIZE + length (rec_data r)"

definition with_offset :: "framed_record \<Rightarrow> u64 \<Rightarrow> framed_record" where
  "with_offset f off = f\<lparr>fr_offset := off\<rparr>"

definition framed_size :: "framed_record \<Rightarrow> nat" where
  "framed_size f = length (fr_bytes f)"

section \<open>Frames\<close>

text \<open>What \<open>new\<close> and \<open>with_timestamp\<close> guarantee of every record they return.\<close>

definition record_ok :: "drecord \<Rightarrow> bool" where
  "record_ok r \<longleftrightarrow> length (rec_data r) \<le> MAX_RECORD_SIZE"

abbreviation frame :: "(bytes \<Rightarrow> u32) \<Rightarrow> drecord \<Rightarrow> bytes" where
  "frame crc r \<equiv> fr_bytes (serialize crc r)"

lemma record_new_ok: "record_new now data = Inr r \<Longrightarrow> record_ok r"
  by (auto simp: record_new_def record_ok_def split: if_splits)

lemma with_timestamp_ok: "with_timestamp data ts = Inr r \<Longrightarrow> record_ok r"
  by (auto simp: with_timestamp_def record_ok_def split: if_splits)

lemma length_frame [simp]: "length (frame crc r) = serialized_size r"
  by (simp add: serialize_def Let_def serialized_size_def RECORD_HEADER_SIZE_def)

lemma framed_size_serialize [simp]: "framed_size (serialize crc r) = serialized_size r"
  by (simp add: framed_size_def)

lemma serialized_size_pos [simp]: "0 < serialized_size r"
  by (simp add: serialized_size_def RECORD_HEADER_SIZE_def)

lemma record_ok_small: "record_ok r \<Longrightarrow> serialized_size r < 2 ^ 32"
  by (simp add: record_ok_def serialized_size_def RECORD_HEADER_SIZE_def MAX_RECORD_SIZE_def)

lemma record_ok_data_len: "record_ok r \<Longrightarrow> unat (of_nat (length (rec_data r)) :: u32) = length (rec_data r)"
  by (rule unat_of_nat32) (simp add: record_ok_def MAX_RECORD_SIZE_def)

text \<open>The header fields of a frame, read back from any buffer that starts with it.\<close>

lemma frame_fields:
  fixes crc r rest
  defines "bs \<equiv> frame crc r @ rest"
  shows "slice_of 0 4 bs = le_bytes 4 RECORD_MAGIC"
    and "slice_of 4 8 bs = le_bytes 4 (of_nat (length (rec_data r)) :: u32)"
    and "slice_of 8 12 bs = le_bytes 4 (calculate_checksum crc (rec_timestamp r) (rec_data r))"
    and "slice_of 12 20 bs = le_bytes 8 (rec_timestamp r)"
    and "slice_of 20 (20 + length (rec_data r)) bs = rec_data r"
  by (simp_all add: bs_def serialize_def Let_def slice_of_def)

lemmas frame_fields_only = frame_fields [where rest = "[]", unfolded append_Nil2]

lemma deserialize_frame:
  assumes "record_ok r"
  shows "deserialize crc (frame crc r @ rest) = Inr (r, serialized_size r)"
  using assms record_ok_data_len [OF assms]
  by (simp add: deserialize_def Let_def frame_fields record_ok_def serialized_size_def
      RECORD_HEADER_SIZE_def)

text \<open>A buffer is the concatenation of the five fields \<open>deserialize\<close> cuts it into.\<close>

lemma buffer_fields:
  assumes "20 \<le> n" and "n \<le> length bs"
  shows "take n bs = slice_of 0 4 bs @ slice_of 4 8 bs @ slice_of 8 12 bs @ slice_of 12 20 bs
    @ slice_of 20 n bs"
proof -
  have "slice_of 0 4 bs @ slice_of 4 8 bs @ slice_of 8 12 bs @ slice_of 12 20 bs
      @ slice_of 20 n bs = slice_of 0 n bs"
    using assms by (simp add: slice_split)
  then show ?thesis by (simp add: slice_of_def)
qed

lemma slice_word32:
  "i + 4 \<le> length bs \<Longrightarrow> j = i + 4 \<Longrightarrow> le_bytes 4 (le_word (slice_of i j bs) :: u32) = slice_of i j bs"
  by (simp add: le_bytes_le_word length_slice)

lemma slice_word64:
  "i + 8 \<le> length bs \<Longrightarrow> j = i + 8 \<Longrightarrow> le_bytes 8 (le_word (slice_of i j bs) :: u64) = slice_of i j bs"
  by (simp add: le_bytes_le_word length_slice)

lemma deserialize_sound:
  assumes "deserialize crc bs = Inr (r, n)"
  shows "record_ok r \<and> n = serialized_size r \<and> n \<le> length bs \<and> take n bs = frame crc r"
proof -
  from assms have len: "20 \<le> length bs" "n \<le> length bs"
    and magic: "le_word (slice_of 0 4 bs) = RECORD_MAGIC"
    and n: "n = 20 + unat (le_word (slice_of 4 8 bs) :: u32)"
    and max: "unat (le_word (slice_of 4 8 bs) :: u32) \<le> MAX_RECORD_SIZE"
    and ts: "rec_timestamp r = le_word (slice_of 12 20 bs)"
    and data: "rec_data r = slice_of 20 n bs"
    and crc: "le_word (slice_of 8 12 bs) = calculate_checksum crc (rec_timestamp r) (rec_data r)"
    by (auto simp: deserialize_def Let_def RECORD_HEADER_SIZE_def split: if_splits)
  have dl: "length (rec_data r) = unat (le_word (slice_of 4 8 bs) :: u32)"
    using len n by (simp add: data length_slice)
  then have dlw: "of_nat (length (rec_data r)) = (le_word (slice_of 4 8 bs) :: u32)"
    by simp
  have "le_bytes 4 RECORD_MAGIC = slice_of 0 4 bs"
    using len by (simp add: magic [symmetric] slice_word32)
  moreover have "le_bytes 4 (of_nat (length (rec_data r)) :: u32) = slice_of 4 8 bs"
    using len by (simp add: dlw slice_word32)
  moreover have "le_bytes 4 (calculate_checksum crc (rec_timestamp r) (rec_data r)) = slice_of 8 12 bs"
    unfolding crc [symmetric] using len by (simp add: slice_word32)
  moreover have "le_bytes 8 (rec_timestamp r) = slice_of 12 20 bs"
    using len by (simp add: ts slice_word64)
  ultimately have "frame crc r = take n bs"
    using buffer_fields [of n bs] len n by (simp add: serialize_def Let_def data)
  then show ?thesis
    using dl max n len by (simp add: record_ok_def serialized_size_def RECORD_HEADER_SIZE_def)
qed

section \<open>Properties\<close>

text \<open>C12: \<open>deserialize\<close> accepts a buffer exactly when it starts with the frame that
  \<open>serialize\<close> makes of some record within the size limit; it then returns that record and the
  length of its frame. So every record round-trips, whatever follows it in the buffer, no two
  records share a frame, and nothing that \<open>serialize\<close> does not produce is ever accepted.\<close>

theorem deserialize_iff_frame:
  "deserialize crc bs = Inr (r, n)
    \<longleftrightarrow> record_ok r \<and> n = serialized_size r \<and> (\<exists>rest. bs = fr_bytes (serialize crc r) @ rest)"
proof
  assume "deserialize crc bs = Inr (r, n)"
  from deserialize_sound [OF this]
  show "record_ok r \<and> n = serialized_size r \<and> (\<exists>rest. bs = frame crc r @ rest)"
    by (metis append_take_drop_id)
next
  assume "record_ok r \<and> n = serialized_size r \<and> (\<exists>rest. bs = frame crc r @ rest)"
  then show "deserialize crc bs = Inr (r, n)"
    by (auto simp: deserialize_frame)
qed

text \<open>A frame cut short anywhere is reported as \<open>IncompleteRecord\<close>, with the number of
  bytes present and the number needed: the header size while the header is not complete, the
  whole frame afterwards.\<close>

lemma deserialize_truncated:
  assumes "record_ok r" and "n < serialized_size r"
  shows "deserialize crc (take n (fr_bytes (serialize crc r)))
    = Inl (IncompleteRecord (if n < RECORD_HEADER_SIZE then RECORD_HEADER_SIZE
        else serialized_size r) n)"
proof (cases "n < RECORD_HEADER_SIZE")
  case True
  with assms show ?thesis by (simp add: deserialize_def min_def)
next
  case False
  have "slice_of i j (take n (frame crc r)) = slice_of i j (frame crc r)" if "j \<le> 20" for i j
    using that False
    by (auto simp: slice_of_def take_drop min_def RECORD_HEADER_SIZE_def)
  with False assms record_ok_data_len [OF assms(1)] show ?thesis
    by (simp add: deserialize_def Let_def frame_fields_only record_ok_def serialized_size_def
        RECORD_HEADER_SIZE_def min_def)
qed

definition sum_crc :: "bytes \<Rightarrow> u32" where
  "sum_crc bs = sum_list (map ucast bs)"

lemma deserialize_truncated_example:
  "deserialize sum_crc (take 21 (fr_bytes (serialize sum_crc \<lparr>rec_timestamp = 7, rec_data = [1, 2]\<rparr>)))
    = Inl (IncompleteRecord 22 21)"
  using deserialize_truncated [of "\<lparr>rec_timestamp = 7, rec_data = [1, 2]\<rparr>" 21 sum_crc]
  by (simp add: record_ok_def serialized_size_def RECORD_HEADER_SIZE_def MAX_RECORD_SIZE_def)

text \<open>What the CRC of \<open>crc32fast\<close> promises: changing one byte changes the checksum.\<close>

definition detects_byte_errors :: "(bytes \<Rightarrow> u32) \<Rightarrow> bool" where
  "detects_byte_errors crc \<longleftrightarrow> (\<forall>xs i b. i < length xs \<longrightarrow> b \<noteq> xs ! i \<longrightarrow> crc (xs[i := b]) \<noteq> crc xs)"

lemma le_word32_update:
  assumes "i < 4" and "b \<noteq> le_bytes 4 (w :: u32) ! i"
  shows "le_word ((le_bytes 4 w)[i := b]) \<noteq> w"
proof
  assume "le_word ((le_bytes 4 w)[i := b]) = w"
  moreover have "le_bytes 4 (le_word ((le_bytes 4 w)[i := b]) :: u32) = (le_bytes 4 w)[i := b]"
    by (rule le_bytes_le_word) simp_all
  ultimately have "(le_bytes 4 w)[i := b] = le_bytes 4 w" by simp
  then have "(le_bytes 4 w)[i := b] ! i = le_bytes 4 w ! i" by simp
  with assms show False by simp
qed

lemma frame_nth:
  assumes "8 \<le> i" "i < serialized_size r"
  shows "frame crc r ! i =
    (if i < 12 then le_bytes 4 (calculate_checksum crc (rec_timestamp r) (rec_data r)) ! (i - 8)
     else (le_bytes 8 (rec_timestamp r) @ rec_data r) ! (i - 12))"
  using assms by (auto simp: serialize_def Let_def nth_append)

lemma corrupt_frame_rejected:
  assumes ok: "record_ok r" and crc: "detects_byte_errors crc"
    and i: "i < serialized_size r" "i < 4 \<or> 8 \<le> i"
    and b: "b \<noteq> fr_bytes (serialize crc r) ! i"
  shows "(i < 4 \<longrightarrow> (\<exists>m. deserialize crc ((fr_bytes (serialize crc r))[i := b] @ rest) = Inl (InvalidMagic m)))
    \<and> (8 \<le> i \<longrightarrow> (\<exists>e a. deserialize crc ((fr_bytes (serialize crc r))[i := b] @ rest)
          = Inl (ChecksumMismatch e a)))"
proof -
  let ?f = "frame crc r" and ?n = "20 + length (rec_data r)"
  let ?cs = "calculate_checksum crc (rec_timestamp r) (rec_data r)"
  define bs where "bs = (?f @ rest)[i := b]"
  have bs: "?f[i := b] @ rest = bs" using i by (simp add: bs_def list_update_append)
  have len: "length bs = serialized_size r + length rest" by (simp add: bs_def)
  have dl: "le_word (slice_of 4 8 bs) = (of_nat (length (rec_data r)) :: u32)"
    using i by (auto simp: bs_def slice_of_update frame_fields)
  note unfold = deserialize_def Let_def len serialized_size_def RECORD_HEADER_SIZE_def dl
    record_ok_data_len [OF ok]
  show ?thesis
  proof (cases "i < 4")
    case True
    then have "slice_of 0 4 bs = (le_bytes 4 RECORD_MAGIC)[i := b]"
      by (simp add: bs_def slice_of_update frame_fields)
    moreover have "b \<noteq> le_bytes 4 RECORD_MAGIC ! i"
      using True b by (simp add: serialize_def Let_def nth_append)
    ultimately show ?thesis
      using True le_word32_update [of i b RECORD_MAGIC] by (simp add: unfold bs)
  next
    case False
    with i have i8: "8 \<le> i" by simp
    have magic: "slice_of 0 4 bs = le_bytes 4 RECORD_MAGIC"
      using i8 by (simp add: bs_def slice_of_update frame_fields)
    have body: "le_bytes 8 (le_word (slice_of 12 20 bs) :: u64) @ slice_of 20 ?n bs
        = slice_of 12 ?n bs"
      using len by (simp add: slice_word64 slice_split serialized_size_def RECORD_HEADER_SIZE_def)
    have good: "slice_of 12 ?n (?f @ rest) = le_bytes 8 (rec_timestamp r) @ rec_data r"
      using slice_split [of 12 20 ?n "?f @ rest"] by (simp add: frame_fields)
    have "le_word (slice_of 8 12 bs) \<noteq> crc (slice_of 12 ?n bs)"
    proof (cases "i < 12")
      case True
      then have "le_word ((le_bytes 4 ?cs)[i - 8 := b]) \<noteq> ?cs"
        using i8 b i(1) by (intro le_word32_update) (simp_all add: frame_nth)
      with True i8 show ?thesis
        by (simp add: bs_def slice_of_update frame_fields good calculate_checksum_def)
    next
      case False
      then have "crc ((le_bytes 8 (rec_timestamp r) @ rec_data r)[i - 12 := b]) \<noteq> ?cs"
        using crc b i i8 unfolding detects_byte_errors_def calculate_checksum_def
        by (simp add: frame_nth serialized_size_def RECORD_HEADER_SIZE_def)
      with False i show ?thesis
        by (simp add: bs_def slice_of_update frame_fields good serialized_size_def
            RECORD_HEADER_SIZE_def del: list_update_append)
    qed
    then show ?thesis
      using i8 ok by (simp add: unfold bs magic body calculate_checksum_def record_ok_def)
  qed
qed

text \<open>C31: Changing any single byte of the magic, of the stored checksum, of the timestamp or of
  the payload of a frame makes \<open>deserialize\<close> reject it: \<open>InvalidMagic\<close> for the first four
  bytes, \<open>ChecksumMismatch\<close> from byte 8 on. (The length field, bytes 4 to 7, is not covered by
  the checksum.)\<close>

theorem single_byte_corruption_detected:
  assumes ok: "record_ok r" and crc: "detects_byte_errors crc"
    and i: "i < serialized_size r" "i < 4 \<or> 8 \<le> i"
    and b: "b \<noteq> fr_bytes (serialize crc r) ! i"
  shows "(i < 4 \<longrightarrow> (\<exists>m. deserialize crc ((fr_bytes (serialize crc r))[i := b] @ rest) = Inl (InvalidMagic m)))
    \<and> (8 \<le> i \<longrightarrow> (\<exists>e a. deserialize crc ((fr_bytes (serialize crc r))[i := b] @ rest)
          = Inl (ChecksumMismatch e a)))"
  by (rule corrupt_frame_rejected [OF assms])

lemma sum_crc_detects: "detects_byte_errors sum_crc"
proof -
  have "i < length xs \<Longrightarrow> b \<noteq> xs ! i \<Longrightarrow> sum_crc (xs[i := b]) \<noteq> sum_crc xs" for xs i b
  proof (induction xs arbitrary: i)
    case (Cons x xs)
    have "ucast (ucast y :: u32) = y" for y :: u8
      by (rule bit_word_eqI) (simp add: bit_simps)
    then have "(ucast b :: u32) = ucast x \<longleftrightarrow> b = x" by metis
    with Cons show ?case
      by (cases i) (auto simp: sum_crc_def)
  qed simp
  then show ?thesis by (simp add: detects_byte_errors_def)
qed

theorem single_byte_corruption_detected_witness:
  "(\<exists>m. deserialize sum_crc
      ((fr_bytes (serialize sum_crc \<lparr>rec_timestamp = 7, rec_data = [1, 2]\<rparr>))[0 := 0] @ []) = Inl (InvalidMagic m))
    \<and> (\<exists>e a. deserialize sum_crc
      ((fr_bytes (serialize sum_crc \<lparr>rec_timestamp = 7, rec_data = [1, 2]\<rparr>))[21 := 5] @ []) = Inl (ChecksumMismatch e a))"
proof -
  let ?r = "\<lparr>rec_timestamp = 7, rec_data = [1, 2]\<rparr>"
  let ?f = "frame sum_crc ?r"
  have ok: "record_ok ?r" by (simp add: record_ok_def MAX_RECORD_SIZE_def)
  have nth: "?f ! 0 = 0x0D" "?f ! 21 = 2"
    by (simp_all add: serialize_def Let_def RECORD_MAGIC_def nth_append nth_le_bytes)
  have size: "serialized_size ?r = 22"
    by (simp add: serialized_size_def RECORD_HEADER_SIZE_def)
  note detected = single_byte_corruption_detected [OF ok sum_crc_detects, unfolded size, where rest = "[]"]
  have "\<exists>m. deserialize sum_crc (?f[0 := 0] @ []) = Inl (InvalidMagic m)"
    using detected [of 0 0] unfolding nth by (simp del: append_Nil2)
  moreover have "\<exists>e a. deserialize sum_crc (?f[21 := 5] @ []) = Inl (ChecksumMismatch e a)"
    using detected [of 21 5] unfolding nth by (simp del: append_Nil2)
  ultimately show ?thesis ..
qed

end
