(* ===== verification/Frame_Codec.thy ===== *)
theory Frame_Codec
  imports Dolda_Prelude
begin

text \<open>
  The contract between a format of self-delimiting frames and the code that reads frames laid
  out one after the other, in a segment file or in a TCP stream: the decoder returns the value
  at the front of the buffer and the number of bytes it used. Storage segments rely on it with
  the record format, connections with the network protocol.
\<close>

locale frame_codec =
  fixes enc :: "'a \<Rightarrow> bytes"
    and dec :: "bytes \<Rightarrow> 'e + 'a \<times> nat"
    and ok :: "'a \<Rightarrow> bool"
  assumes dec_enc: "ok x \<Longrightarrow> dec (enc x @ rest) = Inr (x, length (enc x))"
    and enc_nonempty: "ok x \<Longrightarrow> enc x \<noteq> []"
begin

definition encs :: "'a list \<Rightarrow> bytes" where
  "encs xs = concat (map enc xs)"

definition offset_of :: "'a list \<Rightarrow> nat \<Rightarrow> nat" where
  "offset_of xs i = length (encs (take i xs))"

lemma encs_simps [simp]:
  "encs [] = []" "encs (x # xs) = enc x @ encs xs" "encs (xs @ ys) = encs xs @ encs ys"
  by (simp_all add: encs_def)

lemma offset_of_0 [simp]: "offset_of xs 0 = 0"
  by (simp add: offset_of_def)

lemma offset_of_length [simp]: "offset_of xs (length xs) = length (encs xs)"
  by (simp add: offset_of_def)

lemma offset_of_Suc:
  "i < length xs \<Longrightarrow> offset_of xs (Suc i) = offset_of xs i + length (enc (xs ! i))"
  by (simp add: offset_of_def take_Suc_conv_app_nth)

lemma offset_of_append [simp]: "i \<le> length xs \<Longrightarrow> offset_of (xs @ ys) i = offset_of xs i"
  by (simp add: offset_of_def)

lemma encs_split:
  "i \<le> length xs \<Longrightarrow> encs xs = encs (take i xs) @ encs (drop i xs)"
  by (metis append_take_drop_id encs_simps(3))

lemma offset_of_le: "i \<le> length xs \<Longrightarrow> offset_of xs i \<le> length (encs xs)"
  using encs_split [of i xs] by (simp add: offset_of_def)

lemma drop_offset:
  "i \<le> length xs \<Longrightarrow> drop (offset_of xs i) (encs xs @ rest) = encs (drop i xs) @ rest"
  by (simp add: offset_of_def encs_split [of i xs])

lemma offset_of_less:
  assumes "i < j" "j \<le> length xs" "\<forall>x \<in> set xs. ok x"
  shows "offset_of xs i < offset_of xs j"
proof -
  have "take j xs = take i xs @ take (j - i) (drop i xs)"
    using assms(1) by (metis add_diff_inverse_nat less_imp_not_less take_add)
  moreover have "take (j - i) (drop i xs) = xs ! i # take (j - i - 1) (drop (Suc i) xs)"
    using assms by (simp add: Cons_nth_drop_Suc [symmetric] take_Cons')
  moreover have "enc (xs ! i) \<noteq> []"
    using assms by (intro enc_nonempty) simp
  ultimately show ?thesis by (simp add: offset_of_def)
qed

lemma offset_of_inj:
  assumes "\<forall>x \<in> set xs. ok x" "i \<le> length xs" "j \<le> length xs" "offset_of xs i = offset_of xs j"
  shows "i = j"
  using assms offset_of_less [of i j xs] offset_of_less [of j i xs] by (metis less_irrefl linorder_neqE_nat)

text \<open>Reading at the offset of frame \<open>i\<close> gives value \<open>i\<close>.\<close>

lemma dec_at_offset:
  assumes "\<forall>x \<in> set xs. ok x" and "i < length xs"
  shows "dec (drop (offset_of xs i) (encs xs @ rest)) = Inr (xs ! i, length (enc (xs ! i)))"
proof -
  have "drop i xs = xs ! i # drop (Suc i) xs"
    using assms(2) by (rule Cons_nth_drop_Suc [symmetric])
  moreover have "ok (xs ! i)" using assms by simp
  ultimately show ?thesis using assms(2) dec_enc [of "xs ! i"]
    by (simp add: drop_offset del: drop_append)
qed

text \<open>A sequence of values is determined by its frames.\<close>

lemma encs_inj:
  assumes "encs xs = encs ys" "\<forall>x \<in> set xs. ok x" "\<forall>y \<in> set ys. ok y"
  shows "xs = ys"
  using assms
proof (induction xs arbitrary: ys)
  case Nil
  then show ?case using enc_nonempty by (cases ys) auto
next
  case (Cons x xs)
  then have "encs ys \<noteq> []" using enc_nonempty by (metis append_is_Nil_conv encs_simps(2) list.set_intros(1))
  then obtain y ys' where ys: "ys = y # ys'" by (cases ys) auto
  with Cons.prems have "dec (enc x @ encs xs) = dec (enc y @ encs ys')" by simp
  then have "x = y"
    using Cons.prems ys dec_enc [of x "encs xs"] dec_enc [of y "encs ys'"] by simp
  with Cons ys show ?case by simp
qed

end

end
