(* ===== verification/Float64.thy ===== *)
theory Float64
  imports Dolda_Prelude
begin

text \<open>
  Arithmetic on doubles (\<open>f64\<close>), which the trading examples compute prices with. A finite double is
  the rational number it stands for, and an operation is the rounding of its exact result, to the
  nearest double, ties to even, with gradual underflow and overflow to infinity. The sign of zero
  is not kept; a division by zero takes the zero to be positive.
\<close>

type_synonym i64 = "64 word" \<comment> \<open>read with \<open>sint\<close>\<close>

section \<open>Rounding\<close>

definition f64_round :: "rat \<Rightarrow> f64" where
  "f64_round x =
     (if x = 0 then Fin 0
      else let (p, q) = quotient_of \<bar>x\<bar>;
               m = (if nat p * 2 ^ 1022 < nat q
                    then of_nat (round_half_even (nat p * 2 ^ 1074) (nat q)) / 2 ^ 1074
                    else round_f64 (nat p) (nat q))
           in if m \<ge> 2 ^ 1024 then (if x < 0 then NegInf else PosInf) else Fin (if x < 0 then - m else m))"

section \<open>Operations\<close>

fun f64_neg :: "f64 \<Rightarrow> f64" where
  "f64_neg NaN = NaN"
| "f64_neg NegInf = PosInf"
| "f64_neg PosInf = NegInf"
| "f64_neg (Fin a) = Fin (- a)"

fun f64_add :: "f64 \<Rightarrow> f64 \<Rightarrow> f64" where
  "f64_add (Fin a) (Fin b) = f64_round (a + b)"
| "f64_add NaN b = NaN"
| "f64_add a NaN = NaN"
| "f64_add PosInf NegInf = NaN"
| "f64_add NegInf PosInf = NaN"
| "f64_add PosInf b = PosInf"
| "f64_add NegInf b = NegInf"
| "f64_add a PosInf = PosInf"
| "f64_add a NegInf = NegInf"

definition f64_sub :: "f64 \<Rightarrow> f64 \<Rightarrow> f64" where
  "f64_sub a b = f64_add a (f64_neg b)"

fun f64_sign :: "f64 \<Rightarrow> int" where
  "f64_sign NaN = 0"
| "f64_sign NegInf = - 1"
| "f64_sign PosInf = 1"
| "f64_sign (Fin a) = (if a < 0 then - 1 else if a = 0 then 0 else 1)"

definition f64_infinity :: "int \<Rightarrow> f64" where
  "f64_infinity s = (if s < 0 then NegInf else if s = 0 then NaN else PosInf)"

fun f64_mul :: "f64 \<Rightarrow> f64 \<Rightarrow> f64" where
  "f64_mul (Fin a) (Fin b) = f64_round (a * b)"
| "f64_mul NaN b = NaN"
| "f64_mul a NaN = NaN"
| "f64_mul a b = f64_infinity (f64_sign a * f64_sign b)"

fun f64_div :: "f64 \<Rightarrow> f64 \<Rightarrow> f64" where
  "f64_div (Fin a) (Fin b) = (if b = 0 then f64_infinity (f64_sign (Fin a)) else f64_round (a / b))"
| "f64_div NaN b = NaN"
| "f64_div a NaN = NaN"
| "f64_div (Fin a) b = Fin 0"
| "f64_div a (Fin b) = f64_infinity (f64_sign a * (if b < 0 then - 1 else 1))"
| "f64_div a b = NaN"

text \<open>\<open>%\<close>: the remainder of a division rounded towards zero, which is exact.\<close>

fun f64_rem :: "f64 \<Rightarrow> f64 \<Rightarrow> f64" where
  "f64_rem (Fin a) (Fin b) =
     (if b = 0 then NaN
      else Fin (a - b * of_int (if a / b < 0 then - \<lfloor>- (a / b)\<rfloor> else \<lfloor>a / b\<rfloor>)))"
| "f64_rem (Fin a) NaN = NaN"
| "f64_rem (Fin a) b = Fin a"
| "f64_rem _ _ = NaN"

fun f64_abs :: "f64 \<Rightarrow> f64" where
  "f64_abs (Fin a) = Fin \<bar>a\<bar>"
| "f64_abs NaN = NaN"
| "f64_abs _ = PosInf"

text \<open>Comparisons with a NaN are false.\<close>

definition f64_le :: "f64 \<Rightarrow> f64 \<Rightarrow> bool" where
  "f64_le a b \<longleftrightarrow> a \<noteq> NaN \<and> b \<noteq> NaN \<and> \<not> f64_less b a"

text \<open>\<open>f64::min\<close> and \<open>f64::max\<close> take the other argument for a NaN.\<close>

definition f64_min :: "f64 \<Rightarrow> f64 \<Rightarrow> f64" where
  "f64_min a b = (if a = NaN then b else if b = NaN then a else if f64_less b a then b else a)"

definition f64_max :: "f64 \<Rightarrow> f64 \<Rightarrow> f64" where
  "f64_max a b = (if a = NaN then b else if b = NaN then a else if f64_less a b then b else a)"

text \<open>\<open>round()\<close>: to the nearest integer, halves away from zero.\<close>

definition round_away :: "rat \<Rightarrow> int" where
  "round_away a = (if a < 0 then - \<lfloor>- a + 1 / 2\<rfloor> else \<lfloor>a + 1 / 2\<rfloor>)"

fun f64_to_integer :: "f64 \<Rightarrow> f64" where
  "f64_to_integer (Fin a) = Fin (of_int (round_away a))"
| "f64_to_integer a = a"

text \<open>\<open>as u64\<close> and \<open>as i64\<close>: towards zero, and saturating.\<close>

definition truncate_rat :: "rat \<Rightarrow> int" where
  "truncate_rat a = (if a < 0 then - \<lfloor>- a\<rfloor> else \<lfloor>a\<rfloor>)"

fun f64_as_u64 :: "f64 \<Rightarrow> u64" where
  "f64_as_u64 (Fin a) = of_int (max 0 (min (2 ^ 64 - 1) (truncate_rat a)))"
| "f64_as_u64 PosInf = - 1"
| "f64_as_u64 _ = 0"

fun f64_as_i64 :: "f64 \<Rightarrow> i64" where
  "f64_as_i64 (Fin a) = of_int (max (- (2 ^ 63)) (min (2 ^ 63 - 1) (truncate_rat a)))"
| "f64_as_i64 PosInf = of_int (2 ^ 63 - 1)"
| "f64_as_i64 NegInf = of_int (- (2 ^ 63))"
| "f64_as_i64 NaN = 0"

definition f64_of_int :: "int \<Rightarrow> f64" where
  "f64_of_int n = f64_round (of_int n)"

text \<open>A decimal literal of the source, and \<open>iter().sum::<f64>()\<close>.\<close>

definition f64_lit :: "int \<Rightarrow> int \<Rightarrow> f64" where
  "f64_lit a b = f64_round (of_int a / of_int b)"

definition f64_sum :: "f64 list \<Rightarrow> f64" where
  "f64_sum xs = foldl f64_add (Fin 0) xs"

section \<open>Errors of rounding\<close>

lemma bit_length_pos: "0 < n \<Longrightarrow> bit_length n = Suc (bit_length (n div 2))"
  by (subst bit_length.simps) simp

lemma bit_length_bounds: "0 < n \<Longrightarrow> 2 ^ (bit_length n - 1) \<le> n \<and> n < 2 ^ bit_length n"
proof (induction n rule: bit_length.induct)
  case (1 n)
  show ?case
  proof (cases "n div 2 = 0")
    case True
    with "1.prems" have "n = 1" by simp
    then show ?thesis by (simp add: bit_length_pos bit_length.simps [of 0])
  next
    case False
    let ?k = "bit_length (n div 2)"
    from False have k: "2 ^ (?k - 1) \<le> n div 2" "n div 2 < 2 ^ ?k" "0 < ?k"
      using "1.IH" "1.prems" bit_length_pos [of "n div 2"] by auto
    then have "(2 :: nat) ^ ?k = 2 * 2 ^ (?k - 1)" by (cases ?k) auto
    with k have "2 ^ ?k \<le> n" "n < 2 * 2 ^ ?k" by linarith+
    then show ?thesis using "1.prems" by (simp add: bit_length_pos)
  qed
qed

lemma round_half_even_error:
  assumes "0 < b"
  shows "\<bar>rat_of_nat (round_half_even a b) - of_nat a / of_nat b\<bar> \<le> 1 / 2"
proof -
  let ?q = "a div b" and ?r = "a mod b"
  have "rat_of_nat a = of_nat ?q * of_nat b + of_nat ?r"
    by (metis div_mult_mod_eq of_nat_add of_nat_mult)
  then have x: "rat_of_nat a / of_nat b = of_nat ?q + of_nat ?r / of_nat b"
    using assms by (simp add: field_simps)
  have r: "rat_of_nat ?r < of_nat b" "0 \<le> rat_of_nat ?r / of_nat b"
    using assms by simp_all
  show ?thesis
  proof (cases "2 * ?r < b \<or> (2 * ?r = b \<and> even ?q)")
    case True
    then have "round_half_even a b = ?q" by (simp add: round_half_even_def Let_def)
    moreover have "2 * rat_of_nat ?r \<le> of_nat b" using True by (metis le_eq_less_or_eq of_nat_le_iff of_nat_mult of_nat_numeral)
    ultimately show ?thesis using x r assms by (simp add: field_simps)
  next
    case False
    then have "round_half_even a b = ?q + 1" by (auto simp: round_half_even_def Let_def)
    moreover have "of_nat b \<le> 2 * rat_of_nat ?r" using False by (metis linorder_not_less not_le_imp_less of_nat_le_iff of_nat_mult of_nat_numeral)
    ultimately show ?thesis using x r assms by (simp add: field_simps abs_le_iff)
  qed
qed

text \<open>The exponent that \<open>round_f64\<close> finds: the integer logarithm of the quotient.\<close>

lemma quotient_exponent:
  fixes a b :: nat
  assumes "0 < b" "b \<le> a"
  defines "e \<equiv> (if a \<ge> b * 2 ^ (bit_length a - bit_length b) then bit_length a - bit_length b
      else bit_length a - bit_length b - 1)"
  shows "b * 2 ^ e \<le> a"
proof (cases "a \<ge> b * 2 ^ (bit_length a - bit_length b)")
  case True
  then show ?thesis by (simp add: e_def)
next
  case False
  then have less: "bit_length b < bit_length a" using assms(1,2) by (cases "bit_length a - bit_length b") auto
  have "b * 2 ^ (bit_length a - bit_length b - 1) \<le> 2 ^ bit_length b * 2 ^ (bit_length a - bit_length b - 1)"
    using bit_length_bounds [OF assms(1)] by simp
  also have "\<dots> = 2 ^ (bit_length a - 1)"
    using less by (simp add: power_add [symmetric])
  also have "\<dots> \<le> a" using bit_length_bounds [of a] assms by simp
  finally show ?thesis using False by (simp add: e_def)
qed

text \<open>The relative error of a rounding to 53 significant bits.\<close>

lemma round_f64_error:
  assumes "0 < b"
  shows "\<bar>round_f64 a b - of_nat a / of_nat b\<bar> \<le> of_nat a / of_nat b / 2 ^ 53"
proof (cases "a = 0")
  case True
  then show ?thesis by (simp add: round_f64_def)
next
  case False
  define up a' e where "up = bit_length b" and "a' = a * 2 ^ up"
    and "e = (if a' \<ge> b * 2 ^ (bit_length a' - bit_length b) then bit_length a' - bit_length b
      else bit_length a' - bit_length b - 1)"
  have "b \<le> 2 ^ up" using bit_length_bounds [OF assms] by (simp add: up_def)
  also have "\<dots> \<le> a'" using False by (simp add: a'_def)
  finally have "b * 2 ^ e \<le> a'" unfolding e_def by (rule quotient_exponent [OF assms])
  then have "rat_of_nat (b * 2 ^ e) \<le> of_nat a'" by (simp only: of_nat_le_iff)
  then have e: "2 ^ e \<le> rat_of_nat a' / of_nat b" using assms by (simp add: field_simps)
  let ?m = "if e \<le> 52 then round_half_even (a' * 2 ^ (52 - e)) b else round_half_even a' (b * 2 ^ (e - 52))"
  let ?y = "if e \<le> 52 then rat_of_nat ?m / 2 ^ (52 - e) else of_nat ?m * 2 ^ (e - 52)"
  have y: "\<bar>?y - of_nat a' / of_nat b\<bar> \<le> 2 ^ e / 2 ^ 53"
  proof (cases "e \<le> 52")
    case True
    have "(2 :: rat) ^ 52 = 2 ^ e * 2 ^ (52 - e)" using True by (simp flip: power_add)
    then show ?thesis
      using round_half_even_error [OF assms, of "a' * 2 ^ (52 - e)"] True by (simp add: field_simps abs_le_iff)
  next
    case False
    have "(2 :: rat) ^ e = 2 ^ ((e - 52) + 52)" using False by simp
    also have "\<dots> = 2 ^ (e - 52) * 2 ^ 52" by (simp only: power_add)
    finally have "(2 :: rat) ^ e = 2 ^ (e - 52) * 2 ^ 52" .
    then show ?thesis
      using round_half_even_error [of "b * 2 ^ (e - 52)" a'] assms False by (simp add: field_simps abs_le_iff)
  qed
  have r: "round_f64 a b = ?y / 2 ^ up"
    using False by (simp add: round_f64_def Let_def up_def a'_def e_def)
  have ab: "rat_of_nat a / of_nat b = of_nat a' / of_nat b / 2 ^ up" by (simp add: a'_def)
  have "\<bar>round_f64 a b - of_nat a / of_nat b\<bar> = \<bar>?y - of_nat a' / of_nat b\<bar> / 2 ^ up"
    unfolding r ab by (simp only: diff_divide_distrib [symmetric] abs_divide) simp
  also have "\<dots> \<le> (of_nat a' / of_nat b / 2 ^ 53) / 2 ^ up"
    using order.trans [OF y divide_right_mono [OF e]] by (intro divide_right_mono) simp_all
  finally show ?thesis by (simp add: ab)
qed

lemma quotient_not_small:
  assumes "1 / 2 ^ k \<le> rat_of_int p / of_int q" "0 < q" "0 < p"
  shows "\<not> nat p * 2 ^ k < nat q"
proof -
  have "rat_of_int q \<le> of_int p * 2 ^ k" using assms(1,2) by (simp add: field_simps)
  then have "rat_of_int q \<le> rat_of_int (p * 2 ^ k)" by simp
  then have "q \<le> p * 2 ^ k" by (simp only: of_int_le_iff)
  then have "nat q \<le> nat (p * 2 ^ k)" by (rule nat_mono)
  also have "\<dots> = nat p * 2 ^ k" using assms(3) by (simp add: nat_mult_distrib nat_power_eq)
  finally show ?thesis by simp
qed

lemma f64_round_normal:
  assumes "1 / 2 ^ 1022 \<le> rat_of_int p / of_int q" "0 < q" "0 < p" "quotient_of \<bar>x\<bar> = (p, q)"
    and "round_f64 (nat p) (nat q) < 2 ^ 1024"
  shows "f64_round x = Fin (if x < 0 then - round_f64 (nat p) (nat q) else round_f64 (nat p) (nat q))"
proof -
  have "x \<noteq> 0" using assms(3,4) by auto
  moreover note quotient_not_small [OF assms(1-3)]
  ultimately show ?thesis using assms(4,5)
    by (simp only: f64_round_def Let_def if_False prod.case not_le [symmetric] if_cancel)
qed

lemma f64_round_error:
  assumes "1 / 2 ^ 1022 \<le> \<bar>x\<bar>" "\<bar>x\<bar> < 2 ^ 1023"
  shows "\<exists>y. f64_round x = Fin y \<and> \<bar>y - x\<bar> \<le> \<bar>x\<bar> / 2 ^ 53"
proof -
  obtain p q where pq: "quotient_of \<bar>x\<bar> = (p, q)" by fastforce
  then have q: "0 < q" and x: "\<bar>x\<bar> = of_int p / of_int q"
    using quotient_of_denom_pos quotient_of_div by blast+
  have "0 < \<bar>x\<bar>" using assms(1) by (rule less_le_trans [rotated]) simp
  then have p: "0 < p" using x q by (simp add: zero_less_divide_iff)
  let ?m = "round_f64 (nat p) (nat q)"
  have err: "\<bar>?m - \<bar>x\<bar>\<bar> \<le> \<bar>x\<bar> / 2 ^ 53"
    using round_f64_error [of "nat q" "nat p"] q p x by simp
  have "\<bar>x\<bar> / 2 ^ 53 \<le> \<bar>x\<bar>" using mult_right_mono [of 1 "2 ^ 53" "\<bar>x\<bar>"] by (simp add: divide_le_eq)
  with err have "?m \<le> 2 * \<bar>x\<bar>" by (simp only: abs_le_iff) linarith
  also have "\<dots> < 2 * 2 ^ 1023" using assms(2) by (simp only: mult_less_cancel_left) simp
  also have "\<dots> = (2 :: rat) ^ 1024" by (simp only: power_Suc [symmetric]) (rule arg_cong [where f = "\<lambda>k. 2 ^ k"], simp)
  finally have "f64_round x = Fin (if x < 0 then - ?m else ?m)"
    by (rule f64_round_normal [OF assms(1) [unfolded x] q p pq])
  moreover have "\<bar>(if x < 0 then - ?m else ?m) - x\<bar> = \<bar>?m - \<bar>x\<bar>\<bar>" by (auto simp: abs_if)
  ultimately show ?thesis using err by simp
qed

lemma bit_length_shift: "0 < n \<Longrightarrow> bit_length (n * 2 ^ k) = bit_length n + k"
proof (induction k)
  case (Suc k)
  have "n * 2 ^ Suc k div 2 = n * 2 ^ k" by simp
  with Suc show ?case by (subst bit_length_pos) simp_all
qed simp

lemma round_half_even_exact: "0 < b \<Longrightarrow> round_half_even (c * b) b = c"
  by (simp add: round_half_even_def)

lemma round_f64_dyadic:
  assumes "a < 2 ^ 53"
  shows "round_f64 a (2 ^ j) = of_nat a / 2 ^ j"
proof (cases "a = 0")
  case True
  then show ?thesis by (simp add: round_f64_def)
next
  case False
  let ?l = "bit_length a"
  have bl: "2 ^ (?l - 1) \<le> a" "0 < ?l" using False bit_length_bounds [of a] bit_length_pos [of a] by simp_all
  then have l: "?l \<le> 53"
    using assms power_increasing [of 53 "?l - 1" "2 :: nat"] by (cases "53 \<le> ?l - 1") auto
  have "bit_length (2 ^ j) = j + 1"
    using bit_length_shift [of 1 j] bit_length_pos [of 1] by (simp add: bit_length.simps [of 0])
  moreover have "bit_length (a * 2 ^ (j + 1)) = ?l + (j + 1)"
    using bit_length_shift [of a "j + 1"] False by simp
  moreover have "2 ^ j * 2 ^ ?l \<le> a * 2 ^ (j + 1)"
    using bl by (cases ?l) (simp_all add: power_add)
  ultimately have r: "round_f64 a (2 ^ j) = (if ?l \<le> 52
      then of_nat (round_half_even (a * 2 ^ (j + 1) * 2 ^ (52 - ?l)) (2 ^ j)) / 2 ^ (52 - ?l)
      else of_nat (round_half_even (a * 2 ^ (j + 1)) (2 ^ j * 2 ^ (?l - 52))) * 2 ^ (?l - 52)) / 2 ^ (j + 1)"
    using False by (simp add: round_f64_def Let_def)
  show ?thesis
  proof (cases "?l \<le> 52")
    case True
    have "a * 2 ^ (j + 1) * 2 ^ (52 - ?l) = (a * 2 * 2 ^ (52 - ?l)) * 2 ^ j" by simp
    then show ?thesis
      using True r round_half_even_exact [of "2 ^ j" "a * 2 * 2 ^ (52 - ?l)"] by (simp add: ac_simps)
  next
    case False
    then have "?l - 52 = 1" using l by simp
    then show ?thesis using False r round_half_even_exact [of "2 ^ (j + 1)" a] by (simp add: mult.commute)
  qed
qed

text \<open>A fraction with at most 53 bits over a power of two is a double.\<close>

lemma dvd_power_of_2: "d dvd (2 :: nat) ^ j \<Longrightarrow> \<exists>i \<le> j. d = 2 ^ i"
proof (induction j arbitrary: d)
  case (Suc j)
  show ?case
  proof (cases "even d")
    case True
    then obtain c where c: "d = 2 * c" by blast
    with Suc.prems have "c dvd 2 ^ j" by simp
    with Suc.IH c show ?thesis by (metis Suc_le_mono power_Suc)
  next
    case False
    then have "coprime d (2 ^ Suc j)" by simp
    with Suc.prems have "d = 1" by (metis coprime_absorb_left nat_dvd_1_iff_1)
    then show ?thesis by (metis le0 power_0)
  qed
qed simp

lemma dyadic_reduced:
  assumes "quotient_of (of_nat a / 2 ^ j) = (p, q)" "0 < a"
  shows "0 < p \<and> nat p \<le> a \<and> (\<exists>i \<le> j. nat q = 2 ^ i)"
proof -
  have q: "0 < q" "coprime p q" and eq: "rat_of_nat a / 2 ^ j = of_int p / of_int q"
    using assms(1) quotient_of_denom_pos quotient_of_coprime quotient_of_div by blast+
  from eq q(1) have "rat_of_int (int a * q) = of_int (p * 2 ^ j)" by (simp add: field_simps)
  then have aq: "int a * q = p * 2 ^ j" by (simp only: of_int_eq_iff)
  then have p: "0 < p" using assms(2) q(1) by (metis mult_pos_pos of_nat_0_less_iff zero_less_mult_pos2 zero_less_numeral zero_less_power)
  have "q dvd 2 ^ j" using aq q(2) by (metis coprime_commute coprime_dvd_mult_right_iff dvd_triv_right)
  then have "nat q dvd 2 ^ j" using q(1) by (metis int_dvd_int_iff int_nat_eq nat_0_le of_nat_numeral of_nat_power order_less_imp_le)
  then obtain i where i: "i \<le> j" "nat q = 2 ^ i" using dvd_power_of_2 by blast
  have "p dvd int a" using aq q(2) by (metis coprime_dvd_mult_left_iff dvd_triv_left)
  then have "p \<le> int a" using assms(2) zdvd_imp_le by simp
  with p i show ?thesis by auto
qed

lemma f64_round_nat_dyadic:
  assumes "0 < a" "a < 2 ^ 53" "j \<le> 1022" "\<bar>x\<bar> = of_nat a / 2 ^ j"
  shows "f64_round x = Fin x"
proof -
  obtain p q where pq: "quotient_of (of_nat a / 2 ^ j) = (p, q)" by fastforce
  from dyadic_reduced [OF this assms(1)] obtain i where
    i: "0 < p" "nat p \<le> a" "nat q = 2 ^ i" by blast
  have q: "0 < q" and eq: "rat_of_nat a / 2 ^ j = of_int p / of_int q"
    using pq quotient_of_denom_pos quotient_of_div by blast+
  have "rat_of_nat (nat p) = of_int p" "rat_of_nat (nat q) = of_int q" using i(1) q by simp_all
  then have "\<bar>x\<bar> = of_nat (nat p) / of_nat (nat q)" using assms(4) eq by simp
  moreover have "nat p < 2 ^ 53" using i(2) assms(2) by simp
  ultimately have r: "round_f64 (nat p) (nat q) = \<bar>x\<bar>"
    using round_f64_dyadic [of "nat p" i] by (simp add: i(3))
  have "(2 :: rat) ^ j \<le> 2 ^ 1022" using assms(3) by (rule power_increasing) simp
  then have "1 / 2 ^ 1022 \<le> (1 :: rat) / 2 ^ j" by (intro divide_left_mono) simp_all
  also have "\<dots> \<le> of_nat a / 2 ^ j" using assms(1) by (intro divide_right_mono) simp_all
  finally have small: "1 / 2 ^ 1022 \<le> rat_of_int p / of_int q" by (simp only: eq)
  have "\<bar>x\<bar> \<le> of_nat a"
    using assms(4) mult_left_mono [of 1 "2 ^ j" "rat_of_nat a"] by (simp add: divide_le_eq)
  also have "\<dots> < of_nat (2 ^ 53)" using assms(2) by (simp only: of_nat_less_iff)
  also have "\<dots> \<le> (2 :: rat) ^ 1024" by (simp only: of_nat_power of_nat_numeral) (rule power_increasing; simp)
  finally have "round_f64 (nat p) (nat q) < 2 ^ 1024" by (simp only: r)
  then show ?thesis
    using f64_round_normal [OF small q i(1), of x] pq assms(4) by (simp only: r) (auto simp: abs_if)
qed

lemma f64_round_dyadic:
  assumes "\<bar>n\<bar> < 2 ^ 53" "j \<le> 1022"
  shows "f64_round (of_int n / 2 ^ j) = Fin (of_int n / 2 ^ j)"
proof (cases "n = 0")
  case True
  then show ?thesis by (simp add: f64_round_def)
next
  case False
  then show ?thesis
    using assms by (intro f64_round_nat_dyadic [of "nat \<bar>n\<bar>" j]) (simp_all add: abs_divide)
qed

lemma f64_of_int_exact: "\<bar>n\<bar> < 2 ^ 53 \<Longrightarrow> f64_of_int n = Fin (of_int n)"
  using f64_round_dyadic [of n 0] by (simp add: f64_of_int_def)

text \<open>A literal between 0 and 1.\<close>

lemma f64_lit_near:
  assumes "0 < a" "a < b" "b < 2 ^ 64"
  shows "\<exists>t. f64_lit a b = Fin t \<and> \<bar>t - of_int a / of_int b\<bar> \<le> of_int a / of_int b / 2 ^ 53"
proof -
  let ?x = "rat_of_int a / of_int b"
  have "rat_of_int b \<le> 2 ^ 1022 * of_int a"
  proof -
    have "b \<le> 2 ^ 1022 * a"
    proof -
      have "b \<le> 2 ^ 1022 * 1" using assms(3) by simp
      also have "\<dots> \<le> 2 ^ 1022 * a" using assms(1) by (intro mult_left_mono) simp_all
      finally show ?thesis .
    qed
    then have "rat_of_int b \<le> of_int (2 ^ 1022 * a)" by (simp only: of_int_le_iff)
    then show ?thesis by simp
  qed
  then have "1 / 2 ^ 1022 \<le> \<bar>?x\<bar>" using assms by (simp add: divide_simps mult.commute)
  moreover have "\<bar>?x\<bar> < 2 ^ 1023"
  proof -
    have "\<bar>?x\<bar> < 1" using assms by simp
    then show ?thesis by (rule less_le_trans) simp
  qed
  ultimately show ?thesis
    using f64_round_error [of ?x] assms by (auto simp: f64_lit_def)
qed

lemma f64_lit_share:
  assumes "0 < a" "2 * a \<le> b" "b < 2 ^ 64"
  shows "\<exists>t. f64_lit a b = Fin t \<and> 0 \<le> t \<and> t \<le> 1"
proof -
  let ?x = "rat_of_int a / of_int b"
  obtain t where t: "f64_lit a b = Fin t" "\<bar>t - ?x\<bar> \<le> ?x / 2 ^ 53"
    using f64_lit_near [of a b] assms by auto
  have "2 * rat_of_int a \<le> of_int b" using assms(2) by (metis of_int_le_iff of_int_mult of_int_numeral)
  then have "0 \<le> ?x" "?x \<le> 1 / 2" using assms by (simp_all add: field_simps)
  moreover have "?x / 2 ^ 53 \<le> ?x" using \<open>0 \<le> ?x\<close> by (simp add: field_simps)
  ultimately have "0 \<le> t" "t \<le> 1" using t(2) by linarith+
  with t(1) show ?thesis by blast
qed

end
