(* ===== verification/Storage.thy ===== *)
theory Storage
  imports Record_Format Frame_Codec Float64
begin

text \<open>
  The storage engine of \<open>src/storage.rs\<close>: a \<open>RecordSegment\<close> is a memory-mapped file of fixed
  size with a write position, a record counter and an optional index; a \<open>SegmentManager\<close> rolls
  over to a new segment when a record does not fit. This theory models the operations as one
  thread runs them; \<open>Append_Race\<close> models concurrent calls of \<open>append_record\<close>.

  The operating system's answer to opening a segment file (with \<open>set_len\<close> and \<open>mmap\<close>) is the
  argument \<open>io\<close>: an error, or the bytes the file held before. Metrics and timers are left out.
\<close>

section \<open>Data\<close>

datatype storage_error =
    SegmentFull nat nat
  | StorageRecord record_error
  | StorageIo io_error
  | OffsetOutOfBounds u64
  | InvalidState

record record_offset =
  ro_offset :: u64
  ro_size :: nat

record index_entry =
  ie_record_num :: u64
  ie_offset :: u64
  ie_size :: nat
  ie_timestamp :: u64

record record_segment =
  rs_path :: string
  rs_max_size :: usize
  rs_write_pos :: u64
  rs_record_count :: u64
  rs_mmap :: bytes
  rs_index :: "(u64 \<times> index_entry) list"
  rs_index_enabled :: bool

record segment_stats =
  st_path :: string
  st_max_size :: usize
  st_used_bytes :: u64
  st_record_count :: u64
  st_index_enabled :: bool
  st_index_size :: nat

section \<open>Segments\<close>

definition record_segment_new ::
    "(string \<Rightarrow> io_error + bytes) \<Rightarrow> string \<Rightarrow> usize \<Rightarrow> bool \<Rightarrow> storage_error + record_segment" where
  "record_segment_new io path max_size index_enabled =
     and_then (map_err StorageIo (io path)) (\<lambda>old.
       Inr \<lparr>rs_path = path, rs_max_size = max_size, rs_write_pos = 0, rs_record_count = 0,
            rs_mmap = set_len (unat max_size) old, rs_index = [], rs_index_enabled = index_enabled\<rparr>)"

definition has_space :: "record_segment \<Rightarrow> nat \<Rightarrow> bool" where
  "has_space s record_size \<longleftrightarrow> rs_write_pos s + of_nat record_size \<le> rs_max_size s"

definition segment_flush :: "(string \<Rightarrow> io_error + unit) \<Rightarrow> record_segment \<Rightarrow> storage_error + unit" where
  "segment_flush io_flush s = map_err StorageIo (io_flush (rs_path s))"

definition utilization :: "record_segment \<Rightarrow> f64" where
  "utilization s = f64_mul (f64_div (f64_of_int (uint (rs_write_pos s))) (f64_of_int (uint (rs_max_size s))))
     (f64_of_int 100)"

definition append_record ::
    "(bytes \<Rightarrow> u32) \<Rightarrow> drecord \<Rightarrow> record_segment \<Rightarrow> (storage_error + record_offset) \<times> record_segment" where
  "append_record crc r s =
     (let framed = serialize crc r;
          record_size = framed_size framed;
          offset = rs_write_pos s;
          s1 = s\<lparr>rs_write_pos := offset + of_nat record_size\<rparr>
      in if offset + of_nat record_size > rs_max_size s
         then (Inl (SegmentFull record_size (unat (rs_max_size s - offset))),
               s1\<lparr>rs_write_pos := rs_write_pos s1 - of_nat record_size\<rparr>)
         else let s2 = s1\<lparr>rs_mmap := write_at (rs_mmap s1) (unat offset) (fr_bytes framed)\<rparr>;
                  record_num = rs_record_count s2;
                  s3 = s2\<lparr>rs_record_count := record_num + 1\<rparr>;
                  s4 = (if rs_index_enabled s3
                        then s3\<lparr>rs_index := btree_insert offset
                               \<lparr>ie_record_num = record_num, ie_offset = offset, ie_size = record_size,
                                ie_timestamp = rec_timestamp r\<rparr> (rs_index s3)\<rparr>
                        else s3)
              in (Inr \<lparr>ro_offset = offset, ro_size = record_size\<rparr>, s4))"

definition read_record :: "(bytes \<Rightarrow> u32) \<Rightarrow> record_segment \<Rightarrow> u64 \<Rightarrow> storage_error + drecord" where
  "read_record crc s offset =
     (let current_pos = rs_write_pos s in
      if offset \<ge> current_pos then Inl (OffsetOutOfBounds offset)
      else and_then (map_err StorageRecord
             (deserialize crc (slice_of (unat offset) (unat current_pos) (rs_mmap s))))
             (\<lambda>(r, size). Inr r))"

definition read_record_by_num ::
    "(bytes \<Rightarrow> u32) \<Rightarrow> record_segment \<Rightarrow> u64 \<Rightarrow> storage_error + drecord" where
  "read_record_by_num crc s record_num =
     (if \<not> rs_index_enabled s then Inl InvalidState
      else case find (\<lambda>e. ie_record_num e = record_num) (map snd (rs_index s)) of
          None \<Rightarrow> Inl (OffsetOutOfBounds record_num)
        | Some entry \<Rightarrow> read_record crc s (ie_offset entry))"

definition segment_stats :: "record_segment \<Rightarrow> segment_stats" where
  "segment_stats s =
     \<lparr>st_path = rs_path s, st_max_size = rs_max_size s, st_used_bytes = rs_write_pos s,
      st_record_count = rs_record_count s, st_index_enabled = rs_index_enabled s,
      st_index_size = length (rs_index s)\<rparr>"

section \<open>The record iterator\<close>

record record_iterator =
  it_current_offset :: u64
  it_end_offset :: u64

definition iter_records :: "record_segment \<Rightarrow> record_iterator" where
  "iter_records s = \<lparr>it_current_offset = 0, it_end_offset = rs_write_pos s\<rparr>"

definition iter_next ::
    "(bytes \<Rightarrow> u32) \<Rightarrow> record_segment \<Rightarrow> record_iterator
      \<Rightarrow> (storage_error + record_offset \<times> drecord) option \<times> record_iterator" where
  "iter_next crc s it =
     (if it_current_offset it \<ge> it_end_offset it then (None, it)
      else let offset = it_current_offset it in
        case read_record crc s offset of
          Inr r \<Rightarrow> let size = serialized_size r in
            (Some (Inr (\<lparr>ro_offset = offset, ro_size = size\<rparr>, r)),
             it\<lparr>it_current_offset := offset + of_nat size\<rparr>)
        | Inl e \<Rightarrow> (Some (Inl e), it))"

text \<open>\<open>for item in iter { body }\<close> with a body that can return early: the body maps the loop's
  state and an item to a value to return or a new state. No value if the loop never ends.\<close>

partial_function (option) for_records ::
    "(bytes \<Rightarrow> u32) \<Rightarrow> record_segment
      \<Rightarrow> ('s \<Rightarrow> storage_error + record_offset \<times> drecord \<Rightarrow> 'e + 's)
      \<Rightarrow> record_iterator \<Rightarrow> 's \<Rightarrow> ('e + 's) option" where
  "for_records crc s body it st =
     (case iter_next crc s it of
        (None, _) \<Rightarrow> Some (Inr st)
      | (Some item, it') \<Rightarrow>
          (case body st item of
             Inl e \<Rightarrow> Some (Inl e)
           | Inr st' \<Rightarrow> for_records crc s body it' st'))"

section \<open>What a segment holds\<close>

interpretation rc: frame_codec "\<lambda>r. fr_bytes (serialize crc r)" "deserialize crc" record_ok for crc
proof unfold_locales
  show "record_ok r \<Longrightarrow> deserialize crc (frame crc r @ rest) = Inr (r, length (frame crc r))" for r rest
    by (simp add: deserialize_frame)
  show "record_ok r \<Longrightarrow> frame crc r \<noteq> []" for r
    using serialized_size_pos [of r] by (metis length_frame length_greater_0_conv)
qed

text \<open>The bytes \<open>rs\<close> occupies, and where record \<open>i\<close> of it starts.\<close>

definition records_size :: "drecord list \<Rightarrow> nat" where
  "records_size rs = sum_list (map serialized_size rs)"

definition record_offset_at :: "drecord list \<Rightarrow> nat \<Rightarrow> nat" where
  "record_offset_at rs i = records_size (take i rs)"

definition index_of :: "drecord list \<Rightarrow> (u64 \<times> index_entry) list" where
  "index_of rs = map (\<lambda>i. (of_nat (record_offset_at rs i),
     \<lparr>ie_record_num = of_nat i, ie_offset = of_nat (record_offset_at rs i),
      ie_size = serialized_size (rs ! i), ie_timestamp = rec_timestamp (rs ! i)\<rparr>)) [0..<length rs]"

text \<open>
  The abstraction of a segment: it holds the records \<open>rs\<close>, their frames one after the other
  below the write position. A mapped file is shorter than \<open>2 ^ 63\<close> bytes (Rust's limit for any
  slice), so no sum of a position and a size wraps.
\<close>

definition segment_holds :: "(bytes \<Rightarrow> u32) \<Rightarrow> record_segment \<Rightarrow> drecord list \<Rightarrow> bool" where
  "segment_holds crc s rs \<longleftrightarrow>
     unat (rs_max_size s) < 2 ^ 63 \<and> length (rs_mmap s) = unat (rs_max_size s)
     \<and> unat (rs_write_pos s) = records_size rs \<and> records_size rs \<le> unat (rs_max_size s)
     \<and> take (records_size rs) (rs_mmap s) = concat (map (\<lambda>r. fr_bytes (serialize crc r)) rs)
     \<and> rs_record_count s = of_nat (length rs)
     \<and> rs_index s = (if rs_index_enabled s then index_of rs else [])
     \<and> (\<forall>r \<in> set rs. record_ok r)"

lemma encs_records [simp]:
  "rc.encs crc rs = concat (map (\<lambda>r. fr_bytes (serialize crc r)) rs)"
  by (simp add: rc.encs_def)

lemma records_size_simps [simp]:
  "records_size [] = 0" "records_size (r # rs) = serialized_size r + records_size rs"
  "records_size (rs @ rs') = records_size rs + records_size rs'"
  by (simp_all add: records_size_def)

lemma length_frames [simp]:
  "length (concat (map (\<lambda>r. fr_bytes (serialize crc r)) rs)) = records_size rs"
  by (induction rs) simp_all

lemma rc_offset [simp]: "rc.offset_of crc rs i = record_offset_at rs i"
  by (simp add: rc.offset_of_def record_offset_at_def)

lemma record_offset_at_append [simp]:
  "i \<le> length rs \<Longrightarrow> record_offset_at (rs @ rs') i = record_offset_at rs i"
  by (simp add: record_offset_at_def)

lemma record_offset_at_all [simp]: "record_offset_at rs (length rs) = records_size rs"
  by (simp add: record_offset_at_def)

lemma record_offset_at_Suc:
  "i < length rs \<Longrightarrow> record_offset_at rs (Suc i) = record_offset_at rs i + serialized_size (rs ! i)"
  by (simp add: record_offset_at_def take_Suc_conv_app_nth)

lemma record_offset_at_less:
  assumes "i < length rs"
  shows "record_offset_at rs i < records_size rs"
proof -
  have "records_size rs = records_size (take i rs) + records_size (drop i rs)"
    by (metis append_take_drop_id records_size_simps(3))
  moreover have "0 < records_size (drop i rs)"
    using assms by (simp add: Cons_nth_drop_Suc [symmetric])
  ultimately show ?thesis by (simp add: record_offset_at_def)
qed

lemma length_records_le_size: "length rs \<le> records_size rs"
proof (induction rs)
  case (Cons r rs)
  then show ?case using serialized_size_pos [of r] by (simp del: serialized_size_pos)
qed simp

lemma index_of_append:
  "index_of (rs @ [r]) = index_of rs @ [(of_nat (records_size rs),
     \<lparr>ie_record_num = of_nat (length rs), ie_offset = of_nat (records_size rs),
      ie_size = serialized_size r, ie_timestamp = rec_timestamp r\<rparr>)]"
  by (auto simp: index_of_def nth_append)

text \<open>Offsets below a segment's size survive the cast to \<open>u64\<close>.\<close>

lemma holds_bounds:
  assumes "segment_holds crc s rs"
  shows "records_size rs < 2 ^ 63" and "length rs < 2 ^ 63"
  using assms length_records_le_size [of rs] by (auto simp: segment_holds_def)

lemma holds_offset:
  assumes "segment_holds crc s rs" "i \<le> length rs"
  shows "unat (of_nat (record_offset_at rs i) :: u64) = record_offset_at rs i"
proof (rule unat_of_nat64)
  have "record_offset_at rs i \<le> records_size rs"
    using assms(2) record_offset_at_less [of i rs] by (cases "i < length rs") auto
  then show "record_offset_at rs i < 2 ^ 64" using holds_bounds [OF assms(1)] by simp
qed

lemma no_overflow:
  assumes "segment_holds crc s rs" "n < 2 ^ 63"
  shows "unat (rs_write_pos s + of_nat n) = records_size rs + n"
  using assms holds_bounds [OF assms(1)] unat_add_of_nat64 [of "rs_write_pos s" n]
  by (simp add: segment_holds_def)

lemma has_space_iff:
  assumes "segment_holds crc s rs" "n < 2 ^ 63"
  shows "has_space s n \<longleftrightarrow> records_size rs + n \<le> unat (rs_max_size s)"
  using no_overflow [OF assms] by (simp add: has_space_def word_le_nat_alt)

section \<open>Operations on a segment that holds records\<close>

lemma record_ok_small63: "record_ok r \<Longrightarrow> serialized_size r < 2 ^ 63"
  using record_ok_small [of r] by simp

lemma record_segment_new_holds:
  assumes "record_segment_new io path max_size idx = Inr s" and "unat max_size < 2 ^ 63"
  shows "segment_holds crc s []"
  using assms by (auto simp: record_segment_new_def result_iffs segment_holds_def index_of_def)

lemma append_record_full:
  assumes "segment_holds crc s rs" "record_ok r"
    and "\<not> records_size rs + serialized_size r \<le> unat (rs_max_size s)"
  shows "append_record crc r s
    = (Inl (SegmentFull (serialized_size r) (unat (rs_max_size s) - records_size rs)), s)"
proof -
  have "unat (rs_max_size s - rs_write_pos s) = unat (rs_max_size s) - records_size rs"
    using assms(1) by (simp add: segment_holds_def unat_sub_if_size)
  then show ?thesis
    using assms no_overflow [OF assms(1) record_ok_small63 [OF assms(2)]]
    by (simp add: append_record_def Let_def word_less_nat_alt)
qed

lemma append_record_fits:
  assumes "segment_holds crc s rs" "record_ok r"
    and "records_size rs + serialized_size r \<le> unat (rs_max_size s)"
  shows "\<exists>s'. append_record crc r s
      = (Inr \<lparr>ro_offset = of_nat (records_size rs), ro_size = serialized_size r\<rparr>, s')
    \<and> segment_holds crc s' (rs @ [r]) \<and> rs_max_size s' = rs_max_size s
    \<and> rs_index_enabled s' = rs_index_enabled s \<and> rs_path s' = rs_path s"
proof -
  note sum = no_overflow [OF assms(1) record_ok_small63 [OF assms(2)]]
  note b = holds_bounds [OF assms(1)]
  have pos: "rs_write_pos s = of_nat (records_size rs)"
    using assms(1) by (simp add: segment_holds_def) (metis of_nat_unat ucast_id)
  have idx: "btree_insert (of_nat (records_size rs)) e (index_of rs) = index_of rs @ [(of_nat (records_size rs), e)]" for e
  proof (rule btree_insert_max, clarsimp simp: index_of_def)
    fix i assume i: "i < length rs"
    then show "(of_nat (record_offset_at rs i) :: u64) < of_nat (records_size rs)"
      using holds_offset [OF assms(1), of i] holds_offset [OF assms(1), of "length rs"]
        record_offset_at_less [OF i] by (simp add: word_less_nat_alt)
  qed
  show ?thesis
    using assms sum b
    by (auto simp: append_record_def Let_def word_less_nat_alt segment_holds_def pos [symmetric]
        slice_simps idx [folded pos] index_of_append take_write_at [where ys = "frame crc r", simplified])
qed

lemma read_record_at:
  assumes "segment_holds crc s rs" "i < length rs"
  shows "read_record crc s (of_nat (record_offset_at rs i)) = Inr (rs ! i)"
proof -
  have buf: "slice_of (record_offset_at rs i) (records_size rs) (rs_mmap s)
      = drop (record_offset_at rs i) (rc.encs crc rs @ [])"
    using assms(1) by (simp add: slice_of_def segment_holds_def drop_take [symmetric])
  have "deserialize crc (slice_of (record_offset_at rs i) (records_size rs) (rs_mmap s))
      = Inr (rs ! i, serialized_size (rs ! i))"
    unfolding buf using rc.dec_at_offset [of rs i crc "[]"] assms
    by (simp add: segment_holds_def)
  then show ?thesis
    using assms holds_offset [OF assms(1), of i] record_offset_at_less [OF assms(2)]
    by (simp add: read_record_def Let_def segment_holds_def word_le_nat_alt)
qed

lemma find_map_nth:
  assumes "i < length xs" "P (f i)" "\<And>j. j < i \<Longrightarrow> \<not> P (f j)"
  shows "find P (map f [0..<length xs]) = Some (f i)"
  unfolding find_Some_iff using assms by (intro exI [of _ i]) auto

lemma read_record_by_num_nth:
  assumes "segment_holds crc s rs" "rs_index_enabled s" "i < length rs"
  shows "read_record_by_num crc s (of_nat i) = Inr (rs ! i)"
proof -
  have inj: "(of_nat j :: u64) = of_nat i \<longleftrightarrow> j = i" if "j < length rs" for j
    using that assms(3) holds_bounds(2) [OF assms(1)] by (intro of_nat_eq_iff64) auto
  have "find (\<lambda>e. ie_record_num e = of_nat i) (map snd (rs_index s))
      = Some \<lparr>ie_record_num = of_nat i, ie_offset = of_nat (record_offset_at rs i),
          ie_size = serialized_size (rs ! i), ie_timestamp = rec_timestamp (rs ! i)\<rparr>"
    using assms inj by (simp add: segment_holds_def index_of_def comp_def find_map_nth)
  then show ?thesis
    using assms read_record_at [OF assms(1,3)] by (simp add: read_record_by_num_def)
qed

lemma read_record_by_num_missing:
  assumes "segment_holds crc s rs" "rs_index_enabled s" "length rs \<le> unat n"
  shows "read_record_by_num crc s n = Inl (OffsetOutOfBounds n)"
proof -
  have "(of_nat j :: u64) \<noteq> n" if "j < length rs" for j
    using that assms(3) holds_bounds(2) [OF assms(1)] unat_of_nat64 [of j] by auto
  then have "find (\<lambda>e. ie_record_num e = n) (map snd (rs_index s)) = None"
    using assms by (auto simp: segment_holds_def index_of_def find_None_iff)
  then show ?thesis using assms by (simp add: read_record_by_num_def)
qed

text \<open>The items an iterator yields, and the loop over a list of items.\<close>

definition segment_items :: "drecord list \<Rightarrow> (storage_error + record_offset \<times> drecord) list" where
  "segment_items rs = map (\<lambda>i. Inr (\<lparr>ro_offset = of_nat (record_offset_at rs i),
     ro_size = serialized_size (rs ! i)\<rparr>, rs ! i)) [0..<length rs]"

lemma length_segment_items [simp]: "length (segment_items rs) = length rs"
  by (simp add: segment_items_def)

fun loop_over :: "('s \<Rightarrow> 'i \<Rightarrow> 'e + 's) \<Rightarrow> 'i list \<Rightarrow> 's \<Rightarrow> 'e + 's" where
  "loop_over body [] st = Inr st"
| "loop_over body (x # xs) st = and_then (body st x) (loop_over body xs)"

lemma iter_next_nth:
  assumes "segment_holds crc s rs" "i < length rs"
  shows "iter_next crc s \<lparr>it_current_offset = of_nat (record_offset_at rs i), it_end_offset = rs_write_pos s\<rparr>
    = (Some (segment_items rs ! i),
       \<lparr>it_current_offset = of_nat (record_offset_at rs (Suc i)), it_end_offset = rs_write_pos s\<rparr>)"
  using assms read_record_at [OF assms] holds_offset [OF assms(1), of i]
    record_offset_at_less [OF assms(2)]
  by (simp add: iter_next_def Let_def segment_items_def word_le_nat_alt segment_holds_def
      record_offset_at_Suc)

lemma iter_next_end:
  assumes "segment_holds crc s rs"
  shows "iter_next crc s \<lparr>it_current_offset = of_nat (records_size rs), it_end_offset = rs_write_pos s\<rparr>
    = (None, \<lparr>it_current_offset = of_nat (records_size rs), it_end_offset = rs_write_pos s\<rparr>)"
  using assms holds_offset [OF assms, of "length rs"]
  by (simp add: iter_next_def word_le_nat_alt segment_holds_def)

lemma for_records_from:
  assumes "segment_holds crc s rs" "i \<le> length rs"
  shows "for_records crc s body
      \<lparr>it_current_offset = of_nat (record_offset_at rs i), it_end_offset = rs_write_pos s\<rparr> st
    = Some (loop_over body (drop i (segment_items rs)) st)"
  using assms(2)
proof (induction "length rs - i" arbitrary: i st)
  case 0
  then have "i = length rs" by simp
  then show ?case
    by (subst for_records.simps) (simp add: segment_items_def iter_next_end [OF assms(1)])
next
  case (Suc n)
  then have i: "i < length rs" by simp
  then have "drop i (segment_items rs) = segment_items rs ! i # drop (Suc i) (segment_items rs)"
    by (simp add: Cons_nth_drop_Suc)
  moreover have "n = length rs - Suc i" "Suc i \<le> length rs" using Suc i by auto
  ultimately show ?case
    using Suc(1) [of "Suc i"]
    by (subst for_records.simps) (simp add: iter_next_nth [OF assms(1) i] split: sum.split)
qed

lemma for_records_all:
  assumes "segment_holds crc s rs"
  shows "for_records crc s body (iter_records s) st = Some (loop_over body (segment_items rs) st)"
  using for_records_from [OF assms, of 0] by (simp add: iter_records_def record_offset_at_def)

text \<open>An item that fails to read is yielded again and again: the iterator does not move past it.\<close>

lemma iter_next_stuck:
  assumes "it_current_offset it < it_end_offset it"
    and "read_record crc s (it_current_offset it) = Inl e"
  shows "iter_next crc s it = (Some (Inl e), it)"
  using assms by (simp add: iter_next_def Let_def)

lemma for_records_stuck:
  assumes "it_current_offset it < it_end_offset it"
    and "read_record crc s (it_current_offset it) = Inl e"
    and "\<And>st. \<exists>st'. body st (Inl e) = Inr st'"
  shows "for_records crc s body it st = None"
proof (rule ccontr)
  assume "for_records crc s body it st \<noteq> None"
  then obtain y where "for_records crc s body it st = Some y" by auto
  moreover have "it_current_offset it < it_end_offset it \<longrightarrow>
      read_record crc s (it_current_offset it) = Inl e \<longrightarrow>
      (\<forall>st. \<exists>st'. body st (Inl e) = Inr st') \<longrightarrow> False"
  proof (rule for_records.raw_induct [where P = "\<lambda>crc s body it st y.
        it_current_offset it < it_end_offset it \<longrightarrow> read_record crc s (it_current_offset it) = Inl e
        \<longrightarrow> (\<forall>st. \<exists>st'. body st (Inl e) = Inr st') \<longrightarrow> False", OF _ calculation])
    fix f and crc :: "bytes \<Rightarrow> u32" and s it and st :: 's and y :: "'e + 's"
      and body :: "'s \<Rightarrow> storage_error + record_offset \<times> drecord \<Rightarrow> 'e + 's"
    assume IH: "\<And>crc s body it st y. f crc s body it st = Some y \<Longrightarrow>
        it_current_offset it < it_end_offset it \<longrightarrow> read_record crc s (it_current_offset it) = Inl e
        \<longrightarrow> (\<forall>st. \<exists>st'. body st (Inl e) = Inr st') \<longrightarrow> False"
      and eq: "(case iter_next crc s it of (None, x) \<Rightarrow> Some (Inr st)
        | (Some item, it') \<Rightarrow> (case body st item of Inl e \<Rightarrow> Some (Inl e)
            | Inr st' \<Rightarrow> f crc s body it' st')) = Some y"
    show "it_current_offset it < it_end_offset it \<longrightarrow> read_record crc s (it_current_offset it) = Inl e
        \<longrightarrow> (\<forall>st. \<exists>st'. body st (Inl e) = Inr st') \<longrightarrow> False"
    proof (intro impI)
      assume stuck: "it_current_offset it < it_end_offset it"
        "read_record crc s (it_current_offset it) = Inl e"
        and go: "\<forall>st. \<exists>st'. body st (Inl e) = Inr st'"
      obtain st' where "body st (Inl e) = Inr st'" using go by blast
      with eq have "f crc s body it st' = Some y" by (simp add: iter_next_stuck [OF stuck])
      from IH [OF this] stuck go show False by blast
    qed
  qed
  ultimately show False using assms by blast
qed

section \<open>The segment manager\<close>

record segment_manager =
  sm_partition_id :: u32
  sm_segments :: "record_segment list"
  sm_current :: "nat option" \<comment> \<open>the \<open>Arc\<close> of one of the segments, by its position\<close>
  sm_segment_size :: usize
  sm_storage_dir :: string
  sm_index_enabled :: bool

text \<open>\<open>{dir}/partition_{pid}_segment_{id}.dat\<close>\<close>

definition segment_path :: "string \<Rightarrow> u32 \<Rightarrow> nat \<Rightarrow> string" where
  "segment_path dir pid segment_id =
     dir @ ''/partition_'' @ nat_string (unat pid) @ ''_segment_'' @ nat_string segment_id @ ''.dat''"

definition create_new_segment ::
    "(string \<Rightarrow> io_error + bytes) \<Rightarrow> segment_manager \<Rightarrow> (storage_error + unit) \<times> segment_manager" where
  "create_new_segment io m =
     (let segment_id = length (sm_segments m);
          path = segment_path (sm_storage_dir m) (sm_partition_id m) segment_id
      in case record_segment_new io path (sm_segment_size m) (sm_index_enabled m) of
           Inl e \<Rightarrow> (Inl e, m)
         | Inr segment \<Rightarrow> (Inr (), m\<lparr>sm_segments := sm_segments m @ [segment],
             sm_current := Some (length (sm_segments m))\<rparr>))"

definition segment_manager_new ::
    "io_error + unit \<Rightarrow> (string \<Rightarrow> io_error + bytes) \<Rightarrow> u32 \<Rightarrow> usize \<Rightarrow> string \<Rightarrow> bool
      \<Rightarrow> storage_error + segment_manager" where
  "segment_manager_new mkdir io partition_id segment_size storage_dir index_enabled =
     and_then (map_err StorageIo mkdir) (\<lambda>_.
       let manager = \<lparr>sm_partition_id = partition_id, sm_segments = [], sm_current = None,
             sm_segment_size = segment_size, sm_storage_dir = storage_dir,
             sm_index_enabled = index_enabled\<rparr>
       in case create_new_segment io manager of
            (Inl e, _) \<Rightarrow> Inl e
          | (Inr _, manager') \<Rightarrow> Inr manager')"

definition current_has_space :: "segment_manager \<Rightarrow> nat \<Rightarrow> bool" where
  "current_has_space m n =
     (case sm_current m of None \<Rightarrow> False | Some i \<Rightarrow> has_space (sm_segments m ! i) n)"

text \<open>The fast path: an answer, or fall through to creating a segment.\<close>

definition append_fast_path ::
    "(bytes \<Rightarrow> u32) \<Rightarrow> drecord \<Rightarrow> segment_manager
      \<Rightarrow> (storage_error + record_offset) option \<times> segment_manager" where
  "append_fast_path crc r m =
     (case sm_current m of
        None \<Rightarrow> (None, m)
      | Some i \<Rightarrow>
          if has_space (sm_segments m ! i) (serialized_size r)
          then let (res, segment) = append_record crc r (sm_segments m ! i);
                   m' = m\<lparr>sm_segments := (sm_segments m)[i := segment]\<rparr>
               in case res of
                    Inr offset \<Rightarrow> (Some (Inr offset), m')
                  | Inl (SegmentFull _ _) \<Rightarrow> (None, m')
                  | Inl e \<Rightarrow> (Some (Inl e), m')
          else (None, m))"

text \<open>The loop of \<open>append_record\<close>; no value if it never ends.\<close>

partial_function (option) manager_append_record ::
    "(bytes \<Rightarrow> u32) \<Rightarrow> (string \<Rightarrow> io_error + bytes) \<Rightarrow> drecord \<Rightarrow> segment_manager
      \<Rightarrow> ((storage_error + record_offset) \<times> segment_manager) option" where
  "manager_append_record crc io r m =
     (case append_fast_path crc r m of
        (Some res, m1) \<Rightarrow> Some (res, m1)
      | (None, m1) \<Rightarrow>
          if current_has_space m1 (serialized_size r) then manager_append_record crc io r m1
          else (case create_new_segment io m1 of
              (Inl e, m2) \<Rightarrow> Some (Inl e, m2)
            | (Inr _, m2) \<Rightarrow> manager_append_record crc io r m2))"

record manager_stats =
  ms_partition_id :: u32
  ms_segment_count :: nat
  ms_total_records :: u64
  ms_total_bytes :: u64
  ms_avg_utilization :: f64

definition manager_stats :: "segment_manager \<Rightarrow> manager_stats" where
  "manager_stats m =
     \<lparr>ms_partition_id = sm_partition_id m, ms_segment_count = length (sm_segments m),
      ms_total_records = sum_list (map rs_record_count (sm_segments m)),
      ms_total_bytes = sum_list (map rs_write_pos (sm_segments m)),
      ms_avg_utilization = (if sm_segments m \<noteq> []
        then f64_div (f64_sum (map utilization (sm_segments m))) (f64_of_int (int (length (sm_segments m))))
        else Fin 0)\<rparr>"

text \<open>Flushing stops at the first segment that fails; \<open>io_flush\<close> answers for the file of a path.\<close>

fun flush_record_segments ::
    "(string \<Rightarrow> io_error + unit) \<Rightarrow> record_segment list \<Rightarrow> storage_error + unit" where
  "flush_record_segments io_flush [] = Inr ()"
| "flush_record_segments io_flush (s # ss) =
     and_then (segment_flush io_flush s) (\<lambda>_. flush_record_segments io_flush ss)"

definition manager_flush :: "(string \<Rightarrow> io_error + unit) \<Rightarrow> segment_manager \<Rightarrow> storage_error + unit" where
  "manager_flush io_flush m = flush_record_segments io_flush (sm_segments m)"

section \<open>What a manager holds\<close>

text \<open>One list of records per segment; writes go to the last segment.\<close>

definition manager_holds :: "(bytes \<Rightarrow> u32) \<Rightarrow> segment_manager \<Rightarrow> drecord list list \<Rightarrow> bool" where
  "manager_holds crc m rss \<longleftrightarrow>
     list_all2 (segment_holds crc) (sm_segments m) rss \<and> sm_segments m \<noteq> []
     \<and> sm_current m = Some (length (sm_segments m) - 1)
     \<and> (\<forall>s \<in> set (sm_segments m). rs_max_size s = sm_segment_size m)
     \<and> unat (sm_segment_size m) < 2 ^ 63"

definition next_segment_path :: "segment_manager \<Rightarrow> string" where
  "next_segment_path m = segment_path (sm_storage_dir m) (sm_partition_id m) (length (sm_segments m))"

lemma manager_holds_length: "manager_holds crc m rss \<Longrightarrow> length rss = length (sm_segments m)"
  unfolding manager_holds_def by (metis list_all2_lengthD)

lemma manager_holds_nth:
  "manager_holds crc m rss \<Longrightarrow> i < length rss \<Longrightarrow> segment_holds crc (sm_segments m ! i) (rss ! i)"
  unfolding manager_holds_def by (metis list_all2_lengthD list_all2_nthD2)

lemma manager_holds_last:
  assumes "manager_holds crc m rss"
  shows "segment_holds crc (last (sm_segments m)) (last rss)" and "rss \<noteq> []"
    and "rs_max_size (last (sm_segments m)) = sm_segment_size m"
    and "sm_segments m ! (length (sm_segments m) - 1) = last (sm_segments m)"
proof -
  have ne: "sm_segments m \<noteq> []" using assms by (simp add: manager_holds_def)
  show rss: "rss \<noteq> []" using manager_holds_length [OF assms] ne by auto
  show nth: "sm_segments m ! (length (sm_segments m) - 1) = last (sm_segments m)"
    using ne by (simp add: last_conv_nth)
  show "segment_holds crc (last (sm_segments m)) (last rss)"
    using manager_holds_nth [OF assms, of "length rss - 1"] rss ne manager_holds_length [OF assms]
    by (simp add: last_conv_nth)
  show "rs_max_size (last (sm_segments m)) = sm_segment_size m"
    using assms ne by (simp add: manager_holds_def)
qed

lemma current_has_space_iff:
  assumes "manager_holds crc m rss" "record_ok r"
  shows "current_has_space m (serialized_size r)
    \<longleftrightarrow> records_size (last rss) + serialized_size r \<le> unat (sm_segment_size m)"
  using assms manager_holds_last [OF assms(1)]
    has_space_iff [OF manager_holds_last(1) [OF assms(1)] record_ok_small63 [OF assms(2)]]
  by (simp add: current_has_space_def manager_holds_def)

lemma fast_path_full:
  assumes "manager_holds crc m rss" "record_ok r"
    and "\<not> records_size (last rss) + serialized_size r \<le> unat (sm_segment_size m)"
  shows "append_fast_path crc r m = (None, m)"
proof -
  have "\<not> current_has_space m (serialized_size r)"
    using assms current_has_space_iff by blast
  then show ?thesis
    using assms(1) by (simp add: append_fast_path_def current_has_space_def manager_holds_def)
qed

lemma fast_path_fits:
  assumes "manager_holds crc m rss" "record_ok r"
    and "records_size (last rss) + serialized_size r \<le> unat (sm_segment_size m)"
  shows "\<exists>m'. append_fast_path crc r m
      = (Some (Inr \<lparr>ro_offset = of_nat (records_size (last rss)), ro_size = serialized_size r\<rparr>), m')
    \<and> manager_holds crc m' (butlast rss @ [last rss @ [r]])"
proof -
  let ?i = "length (sm_segments m) - 1"
  note last = manager_holds_last [OF assms(1)]
  have space: "has_space (sm_segments m ! ?i) (serialized_size r)"
    using current_has_space_iff [OF assms(1,2)] assms(1,3)
    by (simp add: current_has_space_def manager_holds_def)
  from append_record_fits [OF last(1) assms(2)] last assms(3) obtain s' where
    s': "append_record crc r (sm_segments m ! ?i)
      = (Inr \<lparr>ro_offset = of_nat (records_size (last rss)), ro_size = serialized_size r\<rparr>, s')"
    "segment_holds crc s' (last rss @ [r])" "rs_max_size s' = sm_segment_size m"
    by auto
  have "rss = butlast rss @ [last rss]" using last(2) by simp
  moreover have "length rss = length (sm_segments m)"
    using assms(1) by (rule manager_holds_length)
  ultimately have upd: "butlast rss @ [last rss @ [r]] = rss[?i := last rss @ [r]]"
    by (metis length_butlast list_update_length)
  have "manager_holds crc (m\<lparr>sm_segments := (sm_segments m)[?i := s']\<rparr>) (butlast rss @ [last rss @ [r]])"
    unfolding upd using assms(1) s' set_update_subset_insert [of "sm_segments m" ?i s']
    by (auto simp: manager_holds_def list_all2_update_cong)
  then show ?thesis
    using space s' assms(1) by (simp add: append_fast_path_def manager_holds_def)
qed

lemma create_new_segment_holds:
  assumes "manager_holds crc m rss" and "io (next_segment_path m) = Inr old"
  shows "\<exists>m'. create_new_segment io m = (Inr (), m') \<and> manager_holds crc m' (rss @ [[]])
    \<and> sm_segment_size m' = sm_segment_size m"
proof -
  obtain s where s: "record_segment_new io (next_segment_path m) (sm_segment_size m) (sm_index_enabled m) = Inr s"
    "rs_max_size s = sm_segment_size m"
    using assms(2) by (simp add: record_segment_new_def)
  have "segment_holds crc s []"
    using record_segment_new_holds [OF s(1)] assms(1) by (simp add: manager_holds_def)
  then show ?thesis
    using assms(1) s by (auto simp: create_new_segment_def Let_def next_segment_path_def
        manager_holds_def intro!: list_all2_appendI)
qed

lemma manager_append_fits:
  assumes "manager_holds crc m rss" "record_ok r"
    and "records_size (last rss) + serialized_size r \<le> unat (sm_segment_size m)"
  shows "\<exists>m'. manager_append_record crc io r m
      = Some (Inr \<lparr>ro_offset = of_nat (records_size (last rss)), ro_size = serialized_size r\<rparr>, m')
    \<and> manager_holds crc m' (butlast rss @ [last rss @ [r]])"
  using fast_path_fits [OF assms] by (subst manager_append_record.simps) auto

lemma manager_append_rollover:
  assumes "manager_holds crc m rss" "record_ok r"
    and "\<not> records_size (last rss) + serialized_size r \<le> unat (sm_segment_size m)"
    and "serialized_size r \<le> unat (sm_segment_size m)"
    and "io (next_segment_path m) = Inr old"
  shows "\<exists>m'. manager_append_record crc io r m
      = Some (Inr \<lparr>ro_offset = 0, ro_size = serialized_size r\<rparr>, m')
    \<and> manager_holds crc m' (rss @ [[r]])"
proof -
  from create_new_segment_holds [OF assms(1), of io old, OF assms(5)] obtain m' where
    m': "create_new_segment io m = (Inr (), m')" "manager_holds crc m' (rss @ [[]])"
    "sm_segment_size m' = sm_segment_size m" by auto
  show ?thesis
    using manager_append_fits [OF m'(2) assms(2), of io] assms m' current_has_space_iff [OF assms(1,2)]
      fast_path_full [OF assms(1-3)]
    by (subst manager_append_record.simps) simp
qed

lemma manager_append_oversize:
  assumes open_ok: "\<And>p. \<exists>old. io p = Inr old"
    and "manager_holds crc m rss" "record_ok r" "unat (sm_segment_size m) < serialized_size r"
  shows "manager_append_record crc io r m = None"
proof (rule ccontr)
  assume "manager_append_record crc io r m \<noteq> None"
  then obtain y where "manager_append_record crc io r m = Some y" by auto
  then have "\<forall>rss. (\<forall>p. \<exists>old. io p = Inr old) \<longrightarrow> manager_holds crc m rss \<longrightarrow> record_ok r
      \<longrightarrow> unat (sm_segment_size m) < serialized_size r \<longrightarrow> False"
  proof (rule manager_append_record.raw_induct [where P = "\<lambda>crc io r m y. \<forall>rss. (\<forall>p. \<exists>old. io p = Inr old)
        \<longrightarrow> manager_holds crc m rss \<longrightarrow> record_ok r
        \<longrightarrow> unat (sm_segment_size m) < serialized_size r \<longrightarrow> False", rotated])
    fix f and crc :: "bytes \<Rightarrow> u32" and io :: "string \<Rightarrow> io_error + bytes" and r m
      and y :: "(storage_error + record_offset) \<times> segment_manager"
    assume IH: "\<And>crc io r m y. f crc io r m = Some y \<Longrightarrow> \<forall>rss. (\<forall>p. \<exists>old. io p = Inr old)
        \<longrightarrow> manager_holds crc m rss \<longrightarrow> record_ok r
        \<longrightarrow> unat (sm_segment_size m) < serialized_size r \<longrightarrow> False"
      and eq: "(case append_fast_path crc r m of
          (None, m1) \<Rightarrow> if current_has_space m1 (serialized_size r) then f crc io r m1
            else (case create_new_segment io m1 of (Inl e, m2) \<Rightarrow> Some (Inl e, m2)
              | (Inr x, m2) \<Rightarrow> f crc io r m2)
        | (Some res, m1) \<Rightarrow> Some (res, m1)) = Some y"
    show "\<forall>rss. (\<forall>p. \<exists>old. io p = Inr old) \<longrightarrow> manager_holds crc m rss \<longrightarrow> record_ok r
        \<longrightarrow> unat (sm_segment_size m) < serialized_size r \<longrightarrow> False"
    proof (intro allI impI)
      fix rss
      assume io: "\<forall>p. \<exists>old. io p = Inr old" and holds: "manager_holds crc m rss"
        and ok: "record_ok r" and big: "unat (sm_segment_size m) < serialized_size r"
      from big have full: "\<not> records_size (last rss) + serialized_size r \<le> unat (sm_segment_size m)"
        by simp
      from io obtain old where "io (next_segment_path m) = Inr old" by blast
      from create_new_segment_holds [OF holds, of io, OF this] obtain m2 where
        m2: "create_new_segment io m = (Inr (), m2)" "manager_holds crc m2 (rss @ [[]])"
        "sm_segment_size m2 = sm_segment_size m" by blast
      have "f crc io r m2 = Some y"
        using eq full m2(1) fast_path_full [OF holds ok full] current_has_space_iff [OF holds ok]
        by simp
      from IH [OF this] m2 io ok big show False by auto
    qed
  qed
  with assms show False by blast
qed

section \<open>Files of the segments\<close>

lemma segment_path_inj:
  "segment_path dir p i = segment_path dir q j \<longleftrightarrow> p = q \<and> i = j"
proof
  assume "segment_path dir p i = segment_path dir q j"
  then have eq: "nat_string (unat p) @ CHR ''_'' # (''segment_'' @ nat_string i @ ''.dat'')
      = nat_string (unat q) @ CHR ''_'' # (''segment_'' @ nat_string j @ ''.dat'')"
    by (simp add: segment_path_def)
  from nat_string_sep [OF eq] show "p = q \<and> i = j" by (simp add: word_unat_eq_iff)
qed simp

section \<open>Properties\<close>

text \<open>A new segment of 100 bytes, and a record of 22 bytes, for the concrete instances.\<close>

definition demo_record :: drecord where
  "demo_record = \<lparr>rec_timestamp = 7, rec_data = [1, 2]\<rparr>"

definition demo_segment :: record_segment where
  "demo_segment = \<lparr>rs_path = ''s.dat'', rs_max_size = 100, rs_write_pos = 0, rs_record_count = 0,
     rs_mmap = set_len 100 [], rs_index = [], rs_index_enabled = True\<rparr>"

lemma demo_record_simps [simp]:
  "record_ok demo_record" "serialized_size demo_record = 22"
  by (simp_all add: demo_record_def record_ok_def MAX_RECORD_SIZE_def serialized_size_def
      RECORD_HEADER_SIZE_def)

lemma demo_segment_holds: "segment_holds crc demo_segment []"
  by (simp add: segment_holds_def demo_segment_def index_of_def)

text \<open>C4: \<open>RecordSegment::append_record\<close> refines appending to a list. On a segment that holds the
  records \<open>rs\<close>, a record that fits is stored at the end of them, the answer is the offset it was
  stored at, and the segment then holds \<open>rs @ [r]\<close>; a record that does not fit is refused with the
  needed and the available size, and the segment is exactly as before.\<close>

theorem segment_append_refines:
  assumes "segment_holds crc s rs" "record_ok r"
  shows "if records_size rs + serialized_size r \<le> unat (rs_max_size s)
    then (\<exists>s'. append_record crc r s
        = (Inr \<lparr>ro_offset = of_nat (records_size rs), ro_size = serialized_size r\<rparr>, s')
      \<and> segment_holds crc s' (rs @ [r]) \<and> rs_max_size s' = rs_max_size s)
    else append_record crc r s
      = (Inl (SegmentFull (serialized_size r) (unat (rs_max_size s) - records_size rs)), s)"
  using append_record_fits [OF assms] append_record_full [OF assms] by auto

theorem segment_append_refines_witness:
  "\<exists>s'. append_record sum_crc demo_record demo_segment = (Inr \<lparr>ro_offset = 0, ro_size = 22\<rparr>, s')
    \<and> segment_holds sum_crc s' [demo_record] \<and> rs_max_size s' = 100"
  using segment_append_refines [OF demo_segment_holds, of demo_record sum_crc]
  by (simp add: demo_segment_def)

lemma demo_appended:
  obtains s' where "append_record sum_crc demo_record demo_segment = (Inr \<lparr>ro_offset = 0, ro_size = 22\<rparr>, s')"
    "segment_holds sum_crc s' [demo_record]" "rs_index_enabled s'"
  using append_record_fits [OF demo_segment_holds, of demo_record sum_crc]
  by (auto simp: demo_segment_def)

text \<open>C24: Reading at the offset where a record was appended gives that record back, also after later
  appends; with the index enabled the same holds of reading by its number, and a number that was
  not given out yet is \<open>OffsetOutOfBounds\<close>; an offset at or past the write position is
  \<open>OffsetOutOfBounds\<close>. (Nothing is said of the other offsets before the write position, where no
  record starts: what a read returns there depends on the bytes.)\<close>

theorem segment_reads:
  assumes "segment_holds crc s rs"
  shows "(i < length rs \<longrightarrow> read_record crc s (of_nat (record_offset_at rs i)) = Inr (rs ! i))
    \<and> (rs_index_enabled s \<longrightarrow> read_record_by_num crc s n
        = (if unat n < length rs then Inr (rs ! unat n) else Inl (OffsetOutOfBounds n)))
    \<and> (rs_write_pos s \<le> off \<longrightarrow> read_record crc s off = Inl (OffsetOutOfBounds off))"
proof -
  have "read_record_by_num crc s n = Inr (rs ! unat n)" if "rs_index_enabled s" "unat n < length rs"
    using read_record_by_num_nth [OF assms that] by simp
  then show ?thesis
    using read_record_at [OF assms, of i] read_record_by_num_missing [OF assms, of n]
    by (auto simp: read_record_def)
qed

theorem segment_reads_witness:
  "\<exists>s'. snd (append_record sum_crc demo_record demo_segment) = s'
    \<and> read_record sum_crc s' 0 = Inr demo_record \<and> read_record_by_num sum_crc s' 0 = Inr demo_record
    \<and> read_record_by_num sum_crc s' 1 = Inl (OffsetOutOfBounds 1)"
proof -
  obtain s' where s': "append_record sum_crc demo_record demo_segment = (Inr \<lparr>ro_offset = 0, ro_size = 22\<rparr>, s')"
    "segment_holds sum_crc s' [demo_record]" "rs_index_enabled s'" by (rule demo_appended)
  show ?thesis
    using segment_reads [OF s'(2), of 0 0 0] segment_reads [OF s'(2), of 0 1 0] s'
    by (simp add: record_offset_at_def)
qed

text \<open>C28: Iterating over a segment yields its records in the order they were appended, each with its
  offset and size, and then ends: a loop that collects the items, leaving at the first error,
  returns all of them.\<close>

theorem iteration_yields_records:
  assumes "segment_holds crc s rs"
  shows "for_records crc s (\<lambda>acc item. and_then item (\<lambda>x. Inr (acc @ [x]))) (iter_records s) []
    = Some (Inr (map (\<lambda>i. (\<lparr>ro_offset = of_nat (record_offset_at rs i),
        ro_size = serialized_size (rs ! i)\<rparr>, rs ! i)) [0..<length rs]))"
proof -
  have "loop_over (\<lambda>acc item. and_then item (\<lambda>x. Inr (acc @ [x]))) (map Inr xs) acc = Inr (acc @ xs)"
    for acc xs :: "(record_offset \<times> drecord) list"
    by (induction xs arbitrary: acc) simp_all
  from this [of "map _ _" "[]"] show ?thesis
    by (simp add: for_records_all [OF assms] segment_items_def comp_def)
qed

theorem iteration_yields_records_witness:
  "\<exists>s'. snd (append_record sum_crc demo_record demo_segment) = s'
    \<and> for_records sum_crc s' (\<lambda>acc item. and_then item (\<lambda>x. Inr (acc @ [x]))) (iter_records s') []
      = Some (Inr [(\<lparr>ro_offset = 0, ro_size = 22\<rparr>, demo_record)])"
proof -
  obtain s' where s': "append_record sum_crc demo_record demo_segment = (Inr \<lparr>ro_offset = 0, ro_size = 22\<rparr>, s')"
    "segment_holds sum_crc s' [demo_record]" "rs_index_enabled s'" by (rule demo_appended)
  show ?thesis
    using iteration_yields_records [OF s'(2)] s'(1) by (simp add: record_offset_at_def)
qed

text \<open>An item that does not deserialize is yielded for ever: the iterator's position stays
  where it is, so a loop whose body goes on after an error never ends.\<close>

lemma iteration_stuck_on_corruption:
  assumes "it_current_offset it < it_end_offset it"
    and "read_record crc s (it_current_offset it) = Inl e"
    and "\<And>st. \<exists>st'. body st (Inl e) = Inr st'"
  shows "iter_next crc s it = (Some (Inl e), it) \<and> for_records crc s body it st = None"
proof
  show "iter_next crc s it = (Some (Inl e), it)" by (rule iter_next_stuck [OF assms(1,2)])
  show "for_records crc s body it st = None" by (rule for_records_stuck) (use assms in auto)
qed

text \<open>A segment whose write position covers zero bytes (a reservation not yet written).\<close>

definition unwritten_segment :: record_segment where
  "unwritten_segment = demo_segment\<lparr>rs_write_pos := 22\<rparr>"

lemma unwritten_read: "read_record crc unwritten_segment 0 = Inl (StorageRecord (InvalidMagic 0))"
proof -
  have "slice_of 0 22 (set_len 100 []) = replicate 22 0"
    by (simp add: set_len_def slice_simps)
  moreover have "slice_of 0 4 (replicate 22 0) = replicate 4 (0 :: u8)"
    by (simp add: slice_simps)
  ultimately have "deserialize crc (slice_of 0 22 (set_len 100 [])) = Inl (InvalidMagic 0)"
    by (simp add: deserialize_def RECORD_HEADER_SIZE_def RECORD_MAGIC_def)
  then show ?thesis
    by (simp add: read_record_def Let_def unwritten_segment_def demo_segment_def
       )
qed

definition count_readable :: "nat \<Rightarrow> storage_error + record_offset \<times> drecord \<Rightarrow> storage_error + nat" where
  "count_readable n item = (case item of Inr _ \<Rightarrow> Inr (n + 1) | Inl _ \<Rightarrow> Inr n)"

lemma iteration_stuck_on_unwritten_segment:
  "for_records sum_crc unwritten_segment count_readable (iter_records unwritten_segment) 0 = None"
proof -
  have "it_current_offset (iter_records unwritten_segment) < it_end_offset (iter_records unwritten_segment)"
    "read_record sum_crc unwritten_segment (it_current_offset (iter_records unwritten_segment))
      = Inl (StorageRecord (InvalidMagic 0))"
    using unwritten_read [of sum_crc] by (simp_all add: iter_records_def unwritten_segment_def)
  from iteration_stuck_on_corruption [OF this, of count_readable 0] show ?thesis
    by (simp add: count_readable_def)
qed

text \<open>A new manager holds one empty segment.\<close>

lemma segment_manager_new_holds:
  assumes "segment_manager_new mkdir io pid seg_size dir idx = Inr m" "unat seg_size < 2 ^ 63"
  shows "manager_holds crc m [[]]" and "sm_segment_size m = seg_size" and "sm_segments m \<noteq> []"
  using assms
  by (auto simp: segment_manager_new_def create_new_segment_def Let_def result_iffs manager_holds_def
      record_segment_new_def segment_holds_def index_of_def split: sum.splits)

lemma manager_stats_holds:
  assumes "manager_holds crc m rss"
  shows "ms_total_records (manager_stats m) = of_nat (length (concat rss))"
    and "ms_total_bytes (manager_stats m) = of_nat (records_size (concat rss))"
proof -
  have "list_all2 (segment_holds crc) (sm_segments m) rss"
    using assms by (simp add: manager_holds_def)
  then have "sum_list (map rs_record_count (sm_segments m)) = of_nat (length (concat rss))
      \<and> sum_list (map rs_write_pos (sm_segments m)) = of_nat (records_size (concat rss))"
  proof (induction rule: list_all2_induct)
    case (Cons s ss rs rss)
    then have "rs_write_pos s = of_nat (records_size rs)"
      by (simp add: segment_holds_def) (metis of_nat_unat ucast_id)
    with Cons show ?case by (simp add: segment_holds_def)
  qed simp
  then show "ms_total_records (manager_stats m) = of_nat (length (concat rss))"
    and "ms_total_bytes (manager_stats m) = of_nat (records_size (concat rss))"
    by (simp_all add: manager_stats_def)
qed

text \<open>C5: \<open>SegmentManager::append_record\<close> returns for every record that fits an empty segment, when
  the next segment's file can be opened: the manager then holds the same records as before with
  the new one last, in the last segment, where a read at the returned offset finds it; a record
  that fits the current segment goes there, any other to a new segment at offset 0; and the
  statistics count every record and every byte.\<close>

theorem manager_append_total:
  assumes "manager_holds crc m rss" "record_ok r" "serialized_size r \<le> unat (sm_segment_size m)"
    and "io (next_segment_path m) = Inr old"
  shows "\<exists>m' rss' off. manager_append_record crc io r m = Some (Inr \<lparr>ro_offset = off, ro_size = serialized_size r\<rparr>, m')
    \<and> manager_holds crc m' rss' \<and> concat rss' = concat rss @ [r]
    \<and> rss' = (if records_size (last rss) + serialized_size r \<le> unat (sm_segment_size m)
              then butlast rss @ [last rss @ [r]] else rss @ [[r]])
    \<and> read_record crc (last (sm_segments m')) off = Inr r
    \<and> ms_total_records (manager_stats m') = of_nat (length (concat rss) + 1)
    \<and> ms_total_bytes (manager_stats m') = of_nat (records_size (concat rss) + serialized_size r)"
proof -
  let ?fits = "records_size (last rss) + serialized_size r \<le> unat (sm_segment_size m)"
  let ?rss' = "if ?fits then butlast rss @ [last rss @ [r]] else rss @ [[r]]"
  let ?old = "if ?fits then last rss else []"
  have ne: "rss \<noteq> []" by (rule manager_holds_last(2) [OF assms(1)])
  have "\<exists>m'. manager_append_record crc io r m
      = Some (Inr \<lparr>ro_offset = of_nat (records_size ?old), ro_size = serialized_size r\<rparr>, m')
    \<and> manager_holds crc m' ?rss'"
    using manager_append_fits [OF assms(1,2), of io]
      manager_append_rollover [OF assms(1,2) _ assms(3), of io old] assms(4) by (cases ?fits) auto
  then obtain m' where m': "manager_append_record crc io r m
      = Some (Inr \<lparr>ro_offset = of_nat (records_size ?old), ro_size = serialized_size r\<rparr>, m')"
    "manager_holds crc m' ?rss'" by blast
  have last: "segment_holds crc (last (sm_segments m')) (?old @ [r])"
    using manager_holds_last(1) [OF m'(2)] by (simp split: if_splits)
  have read: "read_record crc (last (sm_segments m')) (of_nat (records_size ?old)) = Inr r"
    using read_record_at [OF last, of "length ?old"] by simp
  have "concat rss = concat (butlast rss) @ last rss"
    using ne by (metis append_butlast_last_id concat_append concat.simps append_Nil2)
  then have cat: "concat ?rss' = concat rss @ [r]" by simp
  show ?thesis
    using m' read cat manager_stats_holds [OF m'(2)] by (intro exI conjI refl) auto
qed

definition demo_manager :: segment_manager where
  "demo_manager = \<lparr>sm_partition_id = 1, sm_segments = [demo_segment], sm_current = Some 0,
     sm_segment_size = 100, sm_storage_dir = ''d'', sm_index_enabled = True\<rparr>"

lemma demo_manager_holds: "manager_holds crc demo_manager [[]]"
  using demo_segment_holds [of crc] by (simp add: manager_holds_def demo_manager_def demo_segment_def)

theorem manager_append_total_witness:
  "\<exists>m' off. manager_append_record sum_crc (\<lambda>_. Inr []) demo_record demo_manager
      = Some (Inr \<lparr>ro_offset = off, ro_size = 22\<rparr>, m')
    \<and> read_record sum_crc (last (sm_segments m')) off = Inr demo_record"
  using manager_append_total [OF demo_manager_holds, of demo_record "\<lambda>_. Inr []" "[]" sum_crc]
  by (auto simp: demo_manager_def)

text \<open>A record that is larger than a segment never gets an answer: as long as files can be
  created, \<open>append_record\<close> creates one segment after another and does not return.\<close>

lemma oversize_append_never_returns:
  assumes "\<And>p. \<exists>old. io p = Inr old"
    and "manager_holds crc m rss" "record_ok r" "unat (sm_segment_size m) < serialized_size r"
  shows "manager_append_record crc io r m = None"
  by (rule manager_append_oversize [OF assms])

definition big_record :: drecord where
  "big_record = \<lparr>rec_timestamp = 7, rec_data = replicate 90 0\<rparr>"

lemma oversize_append_never_returns_example:
  "manager_append_record sum_crc (\<lambda>_. Inr []) big_record demo_manager = None"
proof (rule oversize_append_never_returns)
  show "manager_holds sum_crc demo_manager [[]]" by (rule demo_manager_holds)
  show "record_ok big_record" by (simp add: record_ok_def big_record_def MAX_RECORD_SIZE_def)
  show "unat (sm_segment_size demo_manager) < serialized_size big_record"
    by (simp add: demo_manager_def big_record_def serialized_size_def RECORD_HEADER_SIZE_def)
qed simp

text \<open>Segment files are never shared: in one directory, two segments have the same file name
  only if they are the same segment of the same partition.\<close>

lemma segment_files_distinct:
  "segment_path dir p i = segment_path dir q j \<longleftrightarrow> p = q \<and> i = j"
  by (rule segment_path_inj)

end
