(* ===== verification/Append_Race.thy ===== *)
theory Append_Race
  imports Storage
begin

text \<open>
  Concurrent calls of \<open>RecordSegment::append_record\<close>, \<open>src/storage.rs\<close>. The method takes no lock
  around its reservation of space: it adds the record's size to the atomic write position, and
  subtracts it again when the record turns out not to fit. Here each of several threads
  appends one frame, and their atomic steps interleave in any order.

  While all frames fit, every thread succeeds and its bytes stay in place. Once one does not
  fit, the subtraction of one thread can hand out a range that another thread already owns.
\<close>

section \<open>Threads and their steps\<close>

text \<open>
  Where a thread is in \<open>append_record\<close>: before \<open>fetch_add\<close>, after it, returned \<open>Ok\<close>, or
  returned \<open>SegmentFull\<close> with the needed and the available size.
\<close>

datatype append_pc =
    Start bytes
  | Reserved u64 bytes
  | Stored u64 bytes
  | Refused nat nat

record shared_segment =
  ss_max_size :: usize
  ss_write_pos :: u64
  ss_mmap :: bytes
  ss_threads :: "append_pc list"

definition set_thread :: "nat \<Rightarrow> append_pc \<Rightarrow> shared_segment \<Rightarrow> shared_segment" where
  "set_thread t pc s = s\<lparr>ss_threads := (ss_threads s)[t := pc]\<rparr>"

text \<open>The next atomic step of thread \<open>t\<close>; a thread that has returned takes none. (The record count and
  the index, which are updated after the bytes are written, are left out: no step reads them.)\<close>

definition append_step :: "nat \<Rightarrow> shared_segment \<Rightarrow> shared_segment" where
  "append_step t s =
     (case ss_threads s ! t of
        Start framed \<Rightarrow>
          let offset = ss_write_pos s
          in set_thread t (Reserved offset framed)
               (s\<lparr>ss_write_pos := offset + of_nat (length framed)\<rparr>)
      | Reserved offset framed \<Rightarrow>
          if offset + of_nat (length framed) > ss_max_size s
          then set_thread t (Refused (length framed) (unat (ss_max_size s - offset)))
                 (s\<lparr>ss_write_pos := ss_write_pos s - of_nat (length framed)\<rparr>)
          else set_thread t (Stored offset framed)
                 (s\<lparr>ss_mmap := write_at (ss_mmap s) (unat offset) framed\<rparr>)
      | _ \<Rightarrow> s)"

inductive interleaving :: "shared_segment \<Rightarrow> shared_segment \<Rightarrow> bool" where
  refl: "interleaving s s"
| step: "interleaving s s' \<Longrightarrow> t < length (ss_threads s') \<Longrightarrow> interleaving s (append_step t s')"

definition run_schedule :: "nat list \<Rightarrow> shared_segment \<Rightarrow> shared_segment" where
  "run_schedule ts s = foldl (\<lambda>s t. append_step t s) s ts"

lemma append_step_threads [simp]:
  "length (ss_threads (append_step t s)) = length (ss_threads s)"
  "ss_max_size (append_step t s) = ss_max_size s"
  by (auto simp: append_step_def set_thread_def Let_def split: append_pc.split)

lemma run_schedule_interleaving:
  "\<forall>t \<in> set ts. t < length (ss_threads s) \<Longrightarrow> interleaving s (run_schedule ts s)"
proof (induction ts rule: rev_induct)
  case Nil
  show ?case by (simp add: run_schedule_def interleaving.refl)
next
  case (snoc t ts)
  have "length (ss_threads (run_schedule ts s)) = length (ss_threads s)" for ts
    by (induction ts rule: rev_induct) (simp_all add: run_schedule_def)
  with snoc interleaving.step [of s "run_schedule ts s" t] show ?case
    by (simp add: run_schedule_def)
qed

section \<open>When everything fits\<close>

text \<open>The bytes that threads have yet to reserve, and the range a thread owns.\<close>

definition to_reserve :: "append_pc list \<Rightarrow> nat" where
  "to_reserve pcs = sum_list (map (\<lambda>pc. case pc of Start framed \<Rightarrow> length framed | _ \<Rightarrow> 0) pcs)"

fun owns :: "append_pc \<Rightarrow> (nat \<times> nat) option" where
  "owns (Reserved off framed) = Some (unat off, unat off + length framed)"
| "owns (Stored off framed) = Some (unat off, unat off + length framed)"
| "owns _ = None"

definition apart :: "nat \<times> nat \<Rightarrow> nat \<times> nat \<Rightarrow> bool" where
  "apart r r' \<longleftrightarrow> snd r \<le> fst r' \<or> snd r' \<le> fst r"

definition fitting :: "shared_segment \<Rightarrow> bool" where
  "fitting s \<longleftrightarrow>
     unat (ss_max_size s) < 2 ^ 63 \<and> length (ss_mmap s) = unat (ss_max_size s)
     \<and> unat (ss_write_pos s) + to_reserve (ss_threads s) \<le> unat (ss_max_size s)"

definition ranges_ok :: "shared_segment \<Rightarrow> bool" where
  "ranges_ok s \<longleftrightarrow>
     (\<forall>t < length (ss_threads s). (\<forall>n a. ss_threads s ! t \<noteq> Refused n a)
       \<and> (\<forall>r. owns (ss_threads s ! t) = Some r \<longrightarrow> snd r \<le> unat (ss_write_pos s))
       \<and> (\<forall>off framed. ss_threads s ! t = Stored off framed \<longrightarrow>
            slice_of (unat off) (unat off + length framed) (ss_mmap s) = framed)
       \<and> (\<forall>u < length (ss_threads s). \<forall>r r'. t \<noteq> u \<longrightarrow> owns (ss_threads s ! t) = Some r \<longrightarrow>
            owns (ss_threads s ! u) = Some r' \<longrightarrow> apart r r'))"

lemma to_reserve_update:
  assumes "t < length pcs" "pcs ! t = Start framed" "\<And>f. pc \<noteq> Start f"
  shows "to_reserve (pcs[t := pc]) + length framed = to_reserve pcs"
proof -
  let ?w = "\<lambda>pc. case pc of Start framed \<Rightarrow> length framed | _ \<Rightarrow> 0"
  have "?w pc = 0" using assms(3) by (cases pc) auto
  moreover have "length framed \<le> sum_list (map ?w pcs)"
    using assms(1,2) elem_le_sum_list [of t "map ?w pcs"] by simp
  ultimately show ?thesis
    using assms(1,2) by (simp add: to_reserve_def map_update sum_list_update)
qed

lemma to_reserve_same:
  assumes "t < length pcs" "\<And>f. pcs ! t \<noteq> Start f" "\<And>f. pc \<noteq> Start f"
  shows "to_reserve (pcs[t := pc]) = to_reserve pcs"
proof -
  let ?w = "\<lambda>pc. case pc of Start framed \<Rightarrow> length framed | _ \<Rightarrow> 0"
  have "?w pc = 0" "?w (pcs ! t) = 0"
    using assms(2,3) by (cases pc; cases "pcs ! t"; auto)+
  then show ?thesis
    using assms(1) by (simp add: to_reserve_def map_update sum_list_update)
qed

lemma step_reserve:
  assumes "fitting s" "ranges_ok s" and t: "t < length (ss_threads s)" "ss_threads s ! t = Start framed"
  shows "fitting (append_step t s) \<and> ranges_ok (append_step t s)"
proof -
  let ?s' = "append_step t s" and ?p = "ss_write_pos s"
  have s': "?s' = set_thread t (Reserved ?p framed) (s\<lparr>ss_write_pos := ?p + of_nat (length framed)\<rparr>)"
    using t by (simp add: append_step_def Let_def)
  have rest: "to_reserve (ss_threads ?s') + length framed = to_reserve (ss_threads s)"
    using to_reserve_update [OF t] by (simp add: s' set_thread_def)
  have pos: "unat (?p + of_nat (length framed)) = unat ?p + length framed"
    using assms(1) rest by (intro unat_add_of_nat64) (simp add: fitting_def)
  have fits: "fitting ?s'"
    using assms(1) rest pos by (simp add: fitting_def s' set_thread_def)
  have ranges: "ranges_ok ?s'"
    using assms(2) t pos unfolding ranges_ok_def s' set_thread_def
    by (auto simp: nth_list_update apart_def)
  show ?thesis using fits ranges ..
qed

lemma ranges_okD:
  assumes "ranges_ok s" "t < length (ss_threads s)"
  shows "ss_threads s ! t \<noteq> Refused n a"
    and "owns (ss_threads s ! t) = Some r \<Longrightarrow> snd r \<le> unat (ss_write_pos s)"
    and "ss_threads s ! t = Stored off framed \<Longrightarrow>
      slice_of (unat off) (unat off + length framed) (ss_mmap s) = framed"
    and "u < length (ss_threads s) \<Longrightarrow> t \<noteq> u \<Longrightarrow> owns (ss_threads s ! t) = Some r \<Longrightarrow>
      owns (ss_threads s ! u) = Some r' \<Longrightarrow> apart r r'"
  using assms unfolding ranges_ok_def by blast+

lemma step_store:
  assumes "fitting s" "ranges_ok s"
    and t: "t < length (ss_threads s)" "ss_threads s ! t = Reserved off framed"
  shows "fitting (append_step t s) \<and> ranges_ok (append_step t s)"
proof -
  let ?s' = "append_step t s" and ?i = "unat off" and ?n = "length framed"
  have range: "?i + ?n \<le> unat (ss_write_pos s)"
    using ranges_okD(2) [OF assms(2) t(1), of "(?i, ?i + ?n)"] t(2) by simp
  then have bound: "?i + ?n \<le> unat (ss_max_size s)" using assms(1) by (simp add: fitting_def)
  have "unat (off + of_nat ?n) = ?i + ?n"
    using bound assms(1) by (intro unat_add_of_nat64) (simp add: fitting_def)
  then have s': "?s' = set_thread t (Stored off framed) (s\<lparr>ss_mmap := write_at (ss_mmap s) ?i framed\<rparr>)"
    using t bound by (simp add: append_step_def Let_def word_less_nat_alt)
  have in_mmap: "?i + ?n \<le> length (ss_mmap s)" using bound assms(1) by (simp add: fitting_def)
  have fits: "fitting ?s'"
    using assms(1) to_reserve_same [OF t(1), of "Stored off framed"] t(2) in_mmap
    by (simp add: fitting_def s' set_thread_def slice_simps)
  have others: "slice_of (unat o') (unat o' + length f') (write_at (ss_mmap s) ?i framed) = f'"
    if u: "u < length (ss_threads s)" "u \<noteq> t" "ss_threads s ! u = Stored o' f'" for u o' f'
  proof -
    have "apart (unat o', unat o' + length f') (?i, ?i + ?n)"
      using ranges_okD(4) [OF assms(2) u(1) t(1) u(2)] u(3) t(2) by simp
    then show ?thesis
      using slice_write_at_apart [OF in_mmap, of "unat o' + length f'" "unat o'"]
        ranges_okD(3) [OF assms(2) u(1,3)] by (auto simp: apart_def)
  qed
  have owned: "owns (ss_threads ?s' ! u) = owns (ss_threads s ! u)" for u
    using t by (cases "u = t") (simp_all add: s' set_thread_def)
  have "ranges_ok ?s'"
    unfolding ranges_ok_def owned
  proof (intro allI impI conjI)
    fix u assume u: "u < length (ss_threads ?s')"
    then have u': "u < length (ss_threads s)" by simp
    show "ss_threads ?s' ! u \<noteq> Refused n a" for n a
      using ranges_okD(1) [OF assms(2) u'] t(1) by (cases "u = t") (simp_all add: s' set_thread_def)
    show "snd r \<le> unat (ss_write_pos ?s')" if "owns (ss_threads s ! u) = Some r" for r
      using ranges_okD(2) [OF assms(2) u' that] by (simp add: s' set_thread_def)
    show "slice_of (unat o') (unat o' + length f') (ss_mmap ?s') = f'" if "ss_threads ?s' ! u = Stored o' f'" for o' f'
      using that others [OF u', of o' f'] slice_write_at_same [OF in_mmap] t(1)
      by (cases "u = t") (simp_all add: s' set_thread_def)
    show "apart r r'" if "v < length (ss_threads ?s')" "u \<noteq> v" "owns (ss_threads s ! u) = Some r"
      "owns (ss_threads s ! v) = Some r'" for v r r'
      using ranges_okD(4) [OF assms(2) u'] that by simp
  qed
  with fits show ?thesis ..
qed

lemma interleaving_fitting:
  assumes "interleaving s s'" "fitting s" "ranges_ok s"
  shows "fitting s' \<and> ranges_ok s'"
  using assms
proof (induction rule: interleaving.induct)
  case (step s s' t)
  then have ok: "fitting s'" "ranges_ok s'" by auto
  show ?case
  proof (cases "ss_threads s' ! t")
    case (Start framed)
    from step_reserve [OF ok step.hyps(2) this] show ?thesis .
  next
    case (Reserved off framed)
    from step_store [OF ok step.hyps(2) this] show ?thesis .
  qed (use ok in \<open>simp_all add: append_step_def\<close>)
qed simp

section \<open>Properties\<close>

text \<open>C3: Concurrent appends that all fit do not disturb each other. If the frames of all threads fit
  behind the write position, then after any interleaving no thread has been refused, every
  thread that has returned finds its whole frame at the offset it was given, and the ranges of
  any two threads are disjoint.\<close>

theorem concurrent_appends_that_fit:
  assumes "interleaving s s'" "\<forall>t < length (ss_threads s). \<exists>framed. ss_threads s ! t = Start framed"
    and "unat (ss_max_size s) < 2 ^ 63" "length (ss_mmap s) = unat (ss_max_size s)"
    and "unat (ss_write_pos s) + to_reserve (ss_threads s) \<le> unat (ss_max_size s)"
    and t: "t < length (ss_threads s')"
  shows "ss_threads s' ! t \<noteq> Refused n a
    \<and> (ss_threads s' ! t = Stored off framed \<longrightarrow>
        slice_of (unat off) (unat off + length framed) (ss_mmap s') = framed)
    \<and> (u < length (ss_threads s') \<longrightarrow> u \<noteq> t \<longrightarrow> ss_threads s' ! t = Stored off framed \<longrightarrow>
        ss_threads s' ! u = Stored off' framed' \<longrightarrow>
        unat off + length framed \<le> unat off' \<or> unat off' + length framed' \<le> unat off)"
proof -
  have "ranges_ok s" using assms(2) unfolding ranges_ok_def by fastforce
  moreover have "fitting s" using assms(3-5) by (simp add: fitting_def)
  ultimately have ok: "ranges_ok s'" using interleaving_fitting [OF assms(1)] by blast
  show ?thesis
    using ranges_okD(1) [OF ok t] ranges_okD(3) [OF ok t]
      ranges_okD(4) [OF ok t, of u "(unat off, unat off + length framed)" "(unat off', unat off' + length framed')"]
    by (auto simp: apart_def)
qed

text \<open>Two threads in an empty segment of 100 bytes.\<close>

definition two_writers :: shared_segment where
  "two_writers = \<lparr>ss_max_size = 100, ss_write_pos = 0, ss_mmap = replicate 100 0,
     ss_threads = [Start (replicate 22 1), Start (replicate 25 2)]\<rparr>"

theorem concurrent_appends_that_fit_witness:
  "slice_of 0 22 (ss_mmap (run_schedule [0, 1, 1, 0] two_writers)) = replicate 22 1"
proof -
  let ?s' = "run_schedule [0, 1, 1, 0] two_writers"
  have i: "interleaving two_writers ?s'"
    by (rule run_schedule_interleaving) (simp add: two_writers_def)
  have start: "\<forall>t < length (ss_threads two_writers). \<exists>framed. ss_threads two_writers ! t = Start framed"
    by (auto simp: two_writers_def less_Suc_eq)
  have th: "ss_threads ?s' ! 0 = Stored 0 (replicate 22 1)" "0 < length (ss_threads ?s')"
    by (simp_all add: run_schedule_def append_step_def set_thread_def two_writers_def Let_def)
  have sizes: "unat (ss_max_size two_writers) < 2 ^ 63"
    "length (ss_mmap two_writers) = unat (ss_max_size two_writers)"
    "unat (ss_write_pos two_writers) + to_reserve (ss_threads two_writers) \<le> unat (ss_max_size two_writers)"
    by (simp_all add: two_writers_def to_reserve_def)
  have "slice_of (unat (0 :: u64)) (unat (0 :: u64) + length (replicate 22 (1 :: u8))) (ss_mmap ?s') = replicate 22 1"
    using concurrent_appends_that_fit [OF i start sizes th(2)] th(1) by blast
  then show ?thesis by simp
qed

text \<open>Run without interruption, the two atomic steps of a thread are \<open>append_record\<close>: they leave
  the same write position and the same bytes, and return the same offset or the same error.\<close>

lemma uninterrupted_append:
  assumes "rs_max_size seg = ss_max_size s" "rs_write_pos seg = ss_write_pos s" "rs_mmap seg = ss_mmap s"
    and "t < length (ss_threads s)" "ss_threads s ! t = Start (fr_bytes (serialize crc r))"
  shows "let (res, seg') = append_record crc r seg; s' = run_schedule [t, t] s
    in ss_write_pos s' = rs_write_pos seg' \<and> ss_mmap s' = rs_mmap seg'
      \<and> ss_threads s' ! t = (case res of
          Inr loc \<Rightarrow> Stored (ro_offset loc) (fr_bytes (serialize crc r))
        | Inl (SegmentFull needed avail) \<Rightarrow> Refused needed avail
        | Inl _ \<Rightarrow> Start [])"
  using assms
  by (simp add: run_schedule_def append_step_def set_thread_def append_record_def Let_def framed_size_def)

lemma uninterrupted_append_example:
  "ss_write_pos (run_schedule [0, 0] (two_writers\<lparr>ss_threads := [Start (fr_bytes (serialize sum_crc demo_record))]\<rparr>))
    = rs_write_pos (snd (append_record sum_crc demo_record demo_segment))"
proof -
  let ?s = "two_writers\<lparr>ss_threads := [Start (fr_bytes (serialize sum_crc demo_record))]\<rparr>"
  have "rs_mmap demo_segment = ss_mmap ?s"
    by (simp add: demo_segment_def two_writers_def set_len_def)
  from uninterrupted_append [of demo_segment ?s 0 sum_crc demo_record, OF _ _ this] show ?thesis
    by (simp add: demo_segment_def two_writers_def case_prod_beta Let_def)
qed

text \<open>A full segment and four threads.\<close>

definition full_race :: shared_segment where
  "full_race = \<lparr>ss_max_size = 300, ss_write_pos = 240, ss_mmap = replicate 300 0,
     ss_threads = [Start (replicate 90 1), Start (replicate 30 2), Start (replicate 30 3), Start (replicate 30 4)]\<rparr>"

lemma full_race_run:
  defines "s' \<equiv> run_schedule [0, 1, 0, 2, 2, 1, 3, 3] full_race"
  shows "ss_threads s' = [Refused 90 60, Refused 30 (2 ^ 64 - 30), Stored 270 (replicate 30 3), Stored 270 (replicate 30 4)]"
    and "ss_mmap s' = write_at (write_at (replicate 300 0) 270 (replicate 30 3)) 270 (replicate 30 4)"
    and "ss_write_pos s' = 300"
  by (simp_all add: s'_def run_schedule_def append_step_def set_thread_def full_race_def Let_def)

text \<open>C7: When frames do not fit, two successful appends can get the same range. In a segment of 300
  bytes with 240 in use, thread 0 has a frame of 90 bytes and the threads 1, 2 and 3 have frames
  of 30. Threads 0 and 1 reserve and exceed the size; thread 0 gives its 90 bytes back, which
  moves the position to 270, before the end of what thread 1 had added; thread 2 is given
  offset 270; thread 1 gives back its 30 bytes, and thread 3 is given offset 270 too and
  overwrites the frame of thread 2, which had been reported as stored.\<close>

theorem race_overwrites_stored_record:
  "let s' = run_schedule [0, 1, 0, 2, 2, 1, 3, 3] full_race in
    interleaving full_race s'
    \<and> ss_threads s' ! 2 = Stored 270 (replicate 30 3) \<and> ss_threads s' ! 3 = Stored 270 (replicate 30 4)
    \<and> slice_of 270 300 (ss_mmap s') = replicate 30 4"
proof -
  have "interleaving full_race (run_schedule [0, 1, 0, 2, 2, 1, 3, 3] full_race)"
    by (rule run_schedule_interleaving) (simp add: full_race_def)
  moreover have "slice_of 270 300 (write_at (write_at (replicate 300 0) 270 (replicate 30 3)) 270 (replicate 30 4))
      = replicate 30 (4 :: u8)"
    using slice_write_at_same [of 270 "replicate 30 (4 :: u8)" "write_at (replicate 300 0) 270 (replicate 30 3)"]
    by (simp add: length_write_at)
  ultimately show ?thesis unfolding Let_def full_race_run by simp
qed

text \<open>The refusal of thread 1 in the same run reports the space that is left as \<open>max_size - offset\<close>,
  where its offset lies behind the end of the segment: the difference wraps around, and the
  error claims that \<open>2 ^ 64 - 30\<close> bytes are available when 30 were needed.\<close>

lemma refused_with_wrapped_size:
  "ss_threads (run_schedule [0, 1, 0, 2, 2, 1, 3, 3] full_race) ! 1 = Refused 30 (2 ^ 64 - 30)"
  unfolding full_race_run by simp

end
