(* ===== verification/Compaction.thy ===== *)
theory Compaction
  imports Storage
begin

text \<open>
  Compaction of segments, \<open>src/compaction.rs\<close>: the manager with its statistics and its flag that a
  compaction is running, the copying of a segment's records into a new one, the background
  worker's round, and the merging of segments. The copying loops are clients of the interface
  \<open>append_log\<close>, which the segments of \<open>Storage\<close> provide. The clock is an argument.
\<close>

section \<open>Data\<close>

datatype compaction_error =
    CompactionRecord record_error
  | CompactionIo io_error
  | CompactionStorage storage_error
  | InProgress
  | NoWork

record compaction_policy =
  cp_min_utilization :: f64
  cp_min_age :: nat \<comment> \<open>nanoseconds\<close>
  cp_max_segments_per_run :: nat
  cp_target_segment_size :: usize
  cp_auto_compact :: bool
  cp_check_interval :: nat

record compaction_stats =
  cs_total_compactions :: u64
  cs_bytes_reclaimed :: u64
  cs_records_removed :: u64
  cs_last_compaction :: "nat option"
  cs_total_duration :: nat

record compaction_manager =
  cm_policy :: compaction_policy
  cm_stats :: compaction_stats
  cm_in_progress :: bool

definition compaction_policy_default :: compaction_policy where
  "compaction_policy_default = \<lparr>cp_min_utilization = Fin 0.5, cp_min_age = 300 * 10 ^ 9,
     cp_max_segments_per_run = 5, cp_target_segment_size = 10 * 1024 * 1024,
     cp_auto_compact = True, cp_check_interval = 60 * 10 ^ 9\<rparr>"

definition compaction_stats_default :: compaction_stats where
  "compaction_stats_default = \<lparr>cs_total_compactions = 0, cs_bytes_reclaimed = 0,
     cs_records_removed = 0, cs_last_compaction = None, cs_total_duration = 0\<rparr>"

definition compaction_manager_new :: "compaction_policy \<Rightarrow> compaction_manager" where
  "compaction_manager_new policy =
     \<lparr>cm_policy = policy, cm_stats = compaction_stats_default, cm_in_progress = False\<rparr>"

section \<open>Compacting a segment\<close>

definition needs_compaction :: "compaction_manager \<Rightarrow> segment_stats \<Rightarrow> nat \<Rightarrow> bool" where
  "needs_compaction m stats age =
     (let utilization = (if st_max_size stats > 0
            then f64_ratio (unat (st_used_bytes stats)) (unat (st_max_size stats)) else Fin 1)
      in f64_less utilization (cp_min_utilization (cm_policy m)) \<and> age \<ge> cp_min_age (cm_policy m))"

definition should_keep_record :: "drecord \<Rightarrow> bool" where
  "should_keep_record r = True"

text \<open>The state of the copying loop: the new segment, records copied and skipped, bytes saved.\<close>

type_synonym copy_state = "record_segment \<times> u64 \<times> u64 \<times> u64"

fun compact_item ::
    "(bytes \<Rightarrow> u32) \<Rightarrow> copy_state \<Rightarrow> storage_error + record_offset \<times> drecord
      \<Rightarrow> compaction_error + copy_state" where
  "compact_item crc (new_segment, copied, skipped, saved) (Inr (offset, r)) =
     (if should_keep_record r
      then (case append_record crc r new_segment of
              (Inl e, _) \<Rightarrow> Inl (CompactionStorage e)
            | (Inr _, new_segment') \<Rightarrow> Inr (new_segment', copied + 1, skipped, saved))
      else Inr (new_segment, copied, skipped + 1, saved + of_nat (ro_size offset)))"
| "compact_item crc (new_segment, copied, skipped, saved) (Inl e) =
     Inr (new_segment, copied, skipped + 1, saved)"

text \<open>\<open>now\<close> and \<open>elapsed\<close> are the clock's readings at the end. No value if the loop never ends.\<close>

definition compact_segment ::
    "(bytes \<Rightarrow> u32) \<Rightarrow> (string \<Rightarrow> io_error + bytes) \<Rightarrow> nat \<times> nat \<Rightarrow> record_segment \<Rightarrow> string
      \<Rightarrow> compaction_manager \<Rightarrow> ((compaction_error + record_segment) \<times> compaction_manager) option" where
  "compact_segment crc io clock segment output_path m =
     (if cm_in_progress m then Some (Inl InProgress, m)
      else let m1 = m\<lparr>cm_in_progress := True\<rparr> in
      case record_segment_new io output_path (cp_target_segment_size (cm_policy m1))
             (st_index_enabled (segment_stats segment)) of
        Inl e \<Rightarrow> Some (Inl (CompactionStorage e), m1)
      | Inr new_segment \<Rightarrow>
          (case for_records crc segment (compact_item crc) (iter_records segment) (new_segment, 0, 0, 0) of
             None \<Rightarrow> None
           | Some (Inl e) \<Rightarrow> Some (Inl e, m1)
           | Some (Inr (new_segment', copied, skipped, saved)) \<Rightarrow>
               let (now, elapsed) = clock;
                   s = cm_stats m1;
                   m2 = m1\<lparr>cm_stats := s\<lparr>cs_total_compactions := cs_total_compactions s + 1,
                          cs_bytes_reclaimed := cs_bytes_reclaimed s + saved,
                          cs_records_removed := cs_records_removed s + skipped,
                          cs_last_compaction := Some now,
                          cs_total_duration := cs_total_duration s + elapsed\<rparr>\<rparr>
               in Some (Inr new_segment', m2\<lparr>cm_in_progress := False\<rparr>)))"

text \<open>One round of the background worker over the candidates and their ages; \<open>clock\<close> gives the
  readings for each candidate. The compacted segments are dropped.\<close>

fun worker_round ::
    "(bytes \<Rightarrow> u32) \<Rightarrow> (string \<Rightarrow> io_error + bytes) \<Rightarrow> (record_segment \<times> nat \<times> nat \<times> nat) list
      \<Rightarrow> nat \<Rightarrow> compaction_manager \<Rightarrow> (nat \<times> compaction_manager) option" where
  "worker_round crc io [] compacted m = Some (compacted, m)"
| "worker_round crc io ((segment, age, clock) # cs) compacted m =
     (let stats = segment_stats segment in
      if needs_compaction m stats age
      then (case compact_segment crc io clock segment (st_path stats @ ''.compacted'') m of
              None \<Rightarrow> None
            | Some (res, m') \<Rightarrow>
                let compacted' = (case res of Inr _ \<Rightarrow> compacted + 1 | Inl _ \<Rightarrow> compacted)
                in if compacted' \<ge> cp_max_segments_per_run (cm_policy m') then Some (compacted', m')
                   else worker_round crc io cs compacted' m')
      else worker_round crc io cs compacted m)"

section \<open>Merging segments\<close>

fun merge_item ::
    "(bytes \<Rightarrow> u32) \<Rightarrow> record_segment \<times> nat \<Rightarrow> storage_error + record_offset \<times> drecord
      \<Rightarrow> compaction_error + record_segment \<times> nat" where
  "merge_item crc (merged, copied) (Inr (offset, r)) =
     (case append_record crc r merged of
        (Inl e, _) \<Rightarrow> Inl (CompactionStorage e)
      | (Inr _, merged') \<Rightarrow> Inr (merged', copied + 1))"
| "merge_item crc (merged, copied) (Inl e) = Inr (merged, copied)"

fun merge_loop ::
    "(bytes \<Rightarrow> u32) \<Rightarrow> record_segment list \<Rightarrow> record_segment \<times> nat
      \<Rightarrow> (compaction_error + record_segment \<times> nat) option" where
  "merge_loop crc [] st = Some (Inr st)"
| "merge_loop crc (s # ss) st =
     (case for_records crc s (merge_item crc) (iter_records s) st of
        None \<Rightarrow> None
      | Some (Inl e) \<Rightarrow> Some (Inl e)
      | Some (Inr st') \<Rightarrow> merge_loop crc ss st')"

definition merge_segments ::
    "(bytes \<Rightarrow> u32) \<Rightarrow> (string \<Rightarrow> io_error + bytes) \<Rightarrow> record_segment list \<Rightarrow> string \<Rightarrow> usize \<Rightarrow> bool
      \<Rightarrow> (compaction_error + record_segment) option" where
  "merge_segments crc io segments output_path seg_size index_enabled =
     (case record_segment_new io output_path seg_size index_enabled of
        Inl e \<Rightarrow> Some (Inl (CompactionStorage e))
      | Inr merged \<Rightarrow>
          (case merge_loop crc segments (merged, 0) of
             None \<Rightarrow> None
           | Some (Inl e) \<Rightarrow> Some (Inl e)
           | Some (Inr (merged', copied)) \<Rightarrow> Some (Inr merged')))"

section \<open>The interface of an append-only log\<close>

text \<open>
  \<open>app\<close> appends a record or fails without changing the log; \<open>holds\<close> says what the log holds and
  \<open>room\<close> whether a list of records fits it.
\<close>

locale append_log =
  fixes app :: "'r \<Rightarrow> 'l \<Rightarrow> ('e + 'a) \<times> 'l" and holds :: "'l \<Rightarrow> 'r list \<Rightarrow> bool"
    and room :: "'l \<Rightarrow> 'r list \<Rightarrow> bool" and ok :: "'r \<Rightarrow> bool"
  assumes app_fits: "holds l rs \<Longrightarrow> ok r \<Longrightarrow> room l (rs @ [r]) \<Longrightarrow>
      \<exists>a l'. app r l = (Inr a, l') \<and> holds l' (rs @ [r]) \<and> room l' = room l"
    and app_full: "holds l rs \<Longrightarrow> ok r \<Longrightarrow> \<not> room l (rs @ [r]) \<Longrightarrow> \<exists>e. app r l = (Inl e, l)"
    and room_prefix: "room l (rs @ rs') \<Longrightarrow> room l rs"
    and room_held: "holds l rs \<Longrightarrow> room l rs"
begin

text \<open>A loop whose body appends every item of a log copies all records that fit, in order, and
  keeps what of its state the body keeps; it fails when they do not fit.\<close>

lemma copy_loop_fits:
  assumes body: "\<And>st x r. body st (Inr (x, r))
      = (case app r (log_of st) of (Inl e, _) \<Rightarrow> Inl (err e) | (Inr _, l') \<Rightarrow> Inr (upd st l'))"
    and upd: "\<And>st l. log_of (upd st l) = l" "\<And>st l. kept (upd st l) = kept st"
  shows "holds (log_of st) rs \<Longrightarrow> \<forall>(x, r) \<in> set xs. ok r \<Longrightarrow> room (log_of st) (rs @ map snd xs) \<Longrightarrow>
    \<exists>st'. loop_over body (map Inr xs) st = Inr st' \<and> holds (log_of st') (rs @ map snd xs)
      \<and> kept st' = kept st \<and> room (log_of st') = room (log_of st)"
proof (induction xs arbitrary: st rs)
  case (Cons y xs)
  obtain x r where y: "y = (x, r)" by force
  have "room (log_of st) (rs @ [r])"
    using Cons.prems(3) room_prefix [of "log_of st" "rs @ [r]" "map snd xs"] by (simp add: y)
  with Cons.prems app_fits [of "log_of st" rs r] obtain a l' where
    l': "app r (log_of st) = (Inr a, l')" "holds l' (rs @ [r])" "room l' = room (log_of st)"
    by (auto simp: y)
  then show ?case
    using Cons.IH [of "upd st l'" "rs @ [r]"] Cons.prems by (auto simp: y body upd)
qed simp

lemma copy_loop_full:
  assumes body: "\<And>st x r. body st (Inr (x, r))
      = (case app r (log_of st) of (Inl e, _) \<Rightarrow> Inl (err e) | (Inr _, l') \<Rightarrow> Inr (upd st l'))"
    and upd: "\<And>st l. log_of (upd st l) = l"
  shows "holds (log_of st) rs \<Longrightarrow> \<forall>(x, r) \<in> set xs. ok r \<Longrightarrow> \<not> room (log_of st) (rs @ map snd xs) \<Longrightarrow>
    \<exists>e. loop_over body (map Inr xs) st = Inl (err e)"
proof (induction xs arbitrary: st rs)
  case Nil
  then show ?case using room_held by auto
next
  case (Cons y xs)
  obtain x r where y: "y = (x, r)" by force
  show ?case
  proof (cases "room (log_of st) (rs @ [r])")
    case True
    with Cons.prems app_fits [of "log_of st" rs r] obtain a l' where
      l': "app r (log_of st) = (Inr a, l')" "holds l' (rs @ [r])" "room l' = room (log_of st)"
      by (auto simp: y)
    then show ?thesis
      using Cons.IH [of "upd st l'" "rs @ [r]"] Cons.prems by (auto simp: y body upd)
  next
    case False
    with Cons.prems app_full [of "log_of st" rs r] show ?thesis by (auto simp: y body)
  qed
qed

end

definition segment_room :: "record_segment \<Rightarrow> drecord list \<Rightarrow> bool" where
  "segment_room s rs \<longleftrightarrow> records_size rs \<le> unat (rs_max_size s)"

interpretation seg: append_log "append_record crc" "segment_holds crc" segment_room record_ok for crc
proof
  fix s rs r assume h: "segment_holds crc s rs" "record_ok r"
  show "\<exists>a s'. append_record crc r s = (Inr a, s') \<and> segment_holds crc s' (rs @ [r])
      \<and> segment_room s' = segment_room s" if "segment_room s (rs @ [r])"
    using append_record_fits [OF h] that by (force simp: segment_room_def fun_eq_iff)
  show "\<exists>e. append_record crc r s = (Inl e, s)" if "\<not> segment_room s (rs @ [r])"
    using append_record_full [OF h] that by (simp add: segment_room_def)
qed (auto simp: segment_room_def segment_holds_def)

section \<open>Copying the records of a segment\<close>

lemma segment_items_map:
  "segment_items rs = map Inr (map (\<lambda>i. (\<lparr>ro_offset = of_nat (record_offset_at rs i),
     ro_size = serialized_size (rs ! i)\<rparr>, rs ! i)) [0..<length rs])"
  by (simp add: segment_items_def)

lemma snd_segment_items: "map snd (map (\<lambda>i. (f i, rs ! i)) [0..<length rs]) = rs"
  by (simp add: comp_def map_nth)

definition compact_upd :: "copy_state \<Rightarrow> record_segment \<Rightarrow> copy_state" where
  "compact_upd st s = (s, fst (snd st) + 1, snd (snd st))"

lemma compact_item_body:
  "compact_item crc st (Inr (x, r)) = (case append_record crc r (fst st) of
     (Inl e, _) \<Rightarrow> Inl (CompactionStorage e) | (Inr _, s') \<Rightarrow> Inr (compact_upd st s'))"
  by (cases st) (simp add: should_keep_record_def compact_upd_def split: sum.split prod.split)

lemma compact_loop:
  assumes "segment_holds crc s rs" "segment_holds crc new []"
  shows "if records_size rs \<le> unat (rs_max_size new)
    then (\<exists>new' copied. for_records crc s (compact_item crc) (iter_records s) (new, 0, 0, 0)
        = Some (Inr (new', copied, 0, 0)) \<and> segment_holds crc new' rs)
    else (\<exists>e. for_records crc s (compact_item crc) (iter_records s) (new, 0, 0, 0)
        = Some (Inl (CompactionStorage e)))"
proof -
  have ok: "\<forall>r \<in> set rs. record_ok r" using assms(1) by (simp add: segment_holds_def)
  let ?items = "map (\<lambda>i. (\<lparr>ro_offset = of_nat (record_offset_at rs i),
     ro_size = serialized_size (rs ! i)\<rparr>, rs ! i)) [0..<length rs]"
  have oks: "\<forall>(x, r) \<in> set ?items. record_ok r" using ok by auto
  show ?thesis
  proof (cases "records_size rs \<le> unat (rs_max_size new)")
    case True
    from seg.copy_loop_fits [where log_of = fst and kept = "\<lambda>st. snd (snd st)" and st = "(new, 0, 0, 0)" and rs = "[]",
        OF compact_item_body [where crc = crc] _ _ _ oks] assms(2) True
    show ?thesis
      by (auto simp: for_records_all [OF assms(1)] segment_items_map compact_upd_def snd_segment_items
          segment_room_def simp del: map_map)
  next
    case False
    from seg.copy_loop_full [where log_of = fst and st = "(new, 0, 0, 0)" and rs = "[]",
        OF compact_item_body [where crc = crc] _ _ oks] assms(2) False
    show ?thesis
      by (auto simp: for_records_all [OF assms(1)] segment_items_map compact_upd_def snd_segment_items
          segment_room_def simp del: map_map)
  qed
qed

definition merge_upd :: "record_segment \<times> nat \<Rightarrow> record_segment \<Rightarrow> record_segment \<times> nat" where
  "merge_upd st s = (s, snd st + 1)"

lemma merge_item_body:
  "merge_item crc st (Inr (x, r)) = (case append_record crc r (fst st) of
     (Inl e, _) \<Rightarrow> Inl (CompactionStorage e) | (Inr _, s') \<Rightarrow> Inr (merge_upd st s'))"
  by (cases st) (simp add: merge_upd_def split: sum.split prod.split)

lemma merge_one:
  assumes "segment_holds crc s rs" "segment_holds crc (fst st) held"
  shows "if segment_room (fst st) (held @ rs)
    then (\<exists>st'. for_records crc s (merge_item crc) (iter_records s) st = Some (Inr st')
        \<and> segment_holds crc (fst st') (held @ rs) \<and> segment_room (fst st') = segment_room (fst st))
    else (\<exists>e. for_records crc s (merge_item crc) (iter_records s) st = Some (Inl (CompactionStorage e)))"
proof -
  have ok: "\<forall>r \<in> set rs. record_ok r" using assms(1) by (simp add: segment_holds_def)
  let ?items = "map (\<lambda>i. (\<lparr>ro_offset = of_nat (record_offset_at rs i),
     ro_size = serialized_size (rs ! i)\<rparr>, rs ! i)) [0..<length rs]"
  have oks: "\<forall>(x, r) \<in> set ?items. record_ok r" using ok by auto
  show ?thesis
  proof (cases "segment_room (fst st) (held @ rs)")
    case True
    from seg.copy_loop_fits [where log_of = fst and kept = "\<lambda>_. ()" and st = st and rs = held,
        OF merge_item_body [where crc = crc] _ _ _ oks] assms(2) True
    show ?thesis
      by (auto simp: for_records_all [OF assms(1)] segment_items_map merge_upd_def snd_segment_items
          simp del: map_map)
  next
    case False
    from seg.copy_loop_full [where log_of = fst and st = st and rs = held,
        OF merge_item_body [where crc = crc] _ _ oks] assms(2) False
    show ?thesis
      by (auto simp: for_records_all [OF assms(1)] segment_items_map merge_upd_def snd_segment_items
          simp del: map_map)
  qed
qed

lemma merge_loop_holds:
  assumes "list_all2 (segment_holds crc) ss rss" "segment_holds crc (fst st) held"
  shows "if segment_room (fst st) (held @ concat rss)
    then (\<exists>st'. merge_loop crc ss st = Some (Inr st') \<and> segment_holds crc (fst st') (held @ concat rss))
    else (\<exists>e. merge_loop crc ss st = Some (Inl (CompactionStorage e)))"
  using assms
proof (induction arbitrary: st held rule: list_all2_induct)
  case Nil
  then show ?case using seg.room_held by simp
next
  case (Cons s ss rs rss)
  show ?case
  proof (cases "segment_room (fst st) (held @ rs)")
    case True
    with merge_one [OF Cons.hyps(1) Cons.prems] obtain st' where
      "for_records crc s (merge_item crc) (iter_records s) st = Some (Inr st')"
      "segment_holds crc (fst st') (held @ rs)" "segment_room (fst st') = segment_room (fst st)" by auto
    with Cons.IH [of st' "held @ rs"] show ?thesis by (auto split: if_split_asm)
  next
    case False
    then have "\<not> segment_room (fst st) (held @ concat (rs # rss))"
      using seg.room_prefix [of "fst st" "held @ rs" "concat rss"] by auto
    with False merge_one [OF Cons.hyps(1) Cons.prems] show ?thesis by auto
  qed
qed

section \<open>Properties\<close>

lemma compact_segment_copies:
  assumes "segment_holds crc s rs" "\<not> cm_in_progress m" and open_ok: "io path = Inr old"
    and size63: "unat (cp_target_segment_size (cm_policy m)) < 2 ^ 63"
  shows "if records_size rs \<le> unat (cp_target_segment_size (cm_policy m))
    then (\<exists>s' m'. compact_segment crc io (now, elapsed) s path m = Some (Inr s', m')
      \<and> segment_holds crc s' rs \<and> \<not> cm_in_progress m'
      \<and> cm_stats m' = (cm_stats m)\<lparr>cs_total_compactions := cs_total_compactions (cm_stats m) + 1,
          cs_last_compaction := Some now, cs_total_duration := cs_total_duration (cm_stats m) + elapsed\<rparr>)
    else (\<exists>e m'. compact_segment crc io (now, elapsed) s path m = Some (Inl (CompactionStorage e), m')
      \<and> cm_in_progress m')"
proof -
  let ?size = "cp_target_segment_size (cm_policy m)"
  obtain new where new: "record_segment_new io path ?size (st_index_enabled (segment_stats s)) = Inr new"
    "rs_max_size new = ?size"
    using open_ok by (simp add: record_segment_new_def)
  have "segment_holds crc new []" by (rule record_segment_new_holds [OF new(1) size63])
  from compact_loop [OF assms(1) this] new assms(2) show ?thesis
    by (auto simp: compact_segment_def Let_def split: if_split_asm)
qed

text \<open>C8: Compaction keeps every record. When no compaction is running, the segment holds \<open>rs\<close>, and
  the output file can be opened, the answer is a segment that holds exactly \<open>rs\<close>, in order, if
  they fit the target size; the flag is cleared again and the statistics count one compaction,
  no removed record and no reclaimed byte. If they do not fit, the answer is an error.\<close>

theorem compaction_preserves_records:
  assumes "segment_holds crc s rs" "\<not> cm_in_progress m" and open_ok: "io path = Inr old"
    and size63: "unat (cp_target_segment_size (cm_policy m)) < 2 ^ 63"
  shows "if records_size rs \<le> unat (cp_target_segment_size (cm_policy m))
    then (\<exists>s' m'. compact_segment crc io (now, elapsed) s path m = Some (Inr s', m')
      \<and> segment_holds crc s' rs \<and> \<not> cm_in_progress m'
      \<and> cm_stats m' = (cm_stats m)\<lparr>cs_total_compactions := cs_total_compactions (cm_stats m) + 1,
          cs_last_compaction := Some now, cs_total_duration := cs_total_duration (cm_stats m) + elapsed\<rparr>)
    else (\<exists>e m'. compact_segment crc io (now, elapsed) s path m = Some (Inl (CompactionStorage e), m')
      \<and> cm_in_progress m')"
  by (rule compact_segment_copies) (fact assms)+

definition demo_policy :: compaction_policy where
  "demo_policy = compaction_policy_default\<lparr>cp_target_segment_size := 50\<rparr>"

theorem compaction_preserves_records_witness:
  "\<exists>s s' m'. snd (append_record sum_crc demo_record demo_segment) = s
    \<and> compact_segment sum_crc (\<lambda>_. Inr []) (9, 2) s ''out'' (compaction_manager_new demo_policy) = Some (Inr s', m')
    \<and> segment_holds sum_crc s' [demo_record]"
proof -
  obtain s where s: "append_record sum_crc demo_record demo_segment = (Inr \<lparr>ro_offset = 0, ro_size = 22\<rparr>, s)"
    "segment_holds sum_crc s [demo_record]" by (rule demo_appended)
  show ?thesis
    using compaction_preserves_records [OF s(2), of "compaction_manager_new demo_policy" "\<lambda>_. Inr []"
        "''out''" "[]" 9 2] s(1)
    by (auto simp: compaction_manager_new_def demo_policy_def)
qed

text \<open>C33: A compaction that fails leaves the flag set: whatever the error, the manager says afterwards
  that a compaction is in progress, and every later call on it, for any segment, is refused
  with \<open>InProgress\<close>.\<close>

theorem failed_compaction_blocks_manager:
  assumes "compact_segment crc io clock s path m = Some (Inl e, m')"
  shows "cm_in_progress m' \<and> compact_segment crc io' clock' s' path' m' = Some (Inl InProgress, m')"
  using assms
  by (auto simp: compact_segment_def Let_def split: if_split_asm sum.splits option.splits prod.splits)

theorem failed_compaction_blocks_manager_witness:
  "\<exists>m'. compact_segment sum_crc (\<lambda>_. Inl (IoError ''disk'')) (9, 2) demo_segment ''out''
      (compaction_manager_new demo_policy) = Some (Inl (CompactionStorage (StorageIo (IoError ''disk''))), m')
    \<and> compact_segment sum_crc (\<lambda>_. Inr []) (9, 2) demo_segment ''out'' m' = Some (Inl InProgress, m')"
proof -
  have "compact_segment sum_crc (\<lambda>_. Inl (IoError ''disk'')) (9, 2) demo_segment ''out''
      (compaction_manager_new demo_policy) = Some (Inl (CompactionStorage (StorageIo (IoError ''disk''))),
        (compaction_manager_new demo_policy)\<lparr>cm_in_progress := True\<rparr>)"
    by (simp add: compact_segment_def compaction_manager_new_def record_segment_new_def)
  from failed_compaction_blocks_manager [OF this] this show ?thesis by blast
qed

lemma compact_item_skips: "\<exists>st'. compact_item crc st (Inl e) = Inr st'"
  by (cases st) auto

lemma corrupt_first_record:
  assumes "segment_holds crc s (r # rs)" "detects_byte_errors crc"
    and i: "i < serialized_size r" "i < 4 \<or> 8 \<le> i" and b: "b \<noteq> rs_mmap s ! i"
  shows "\<exists>e. read_record crc (s\<lparr>rs_mmap := (rs_mmap s)[i := b]\<rparr>) 0 = Inl e"
proof -
  let ?n = "records_size (r # rs)" and ?f = "fr_bytes (serialize crc r)"
  let ?rest = "concat (map (\<lambda>r. fr_bytes (serialize crc r)) rs)"
  have n: "i < ?n" using i by simp
  have mm: "take ?n (rs_mmap s) = ?f @ ?rest" and pos: "unat (rs_write_pos s) = ?n"
    and ok: "record_ok r" and len: "?n \<le> length (rs_mmap s)"
    using assms(1) by (simp_all add: segment_holds_def)
  have "rs_mmap s ! i = (?f @ ?rest) ! i" using n mm by (metis nth_take)
  then have b': "b \<noteq> ?f ! i" using b i by (simp add: nth_append)
  have "slice_of 0 ?n ((rs_mmap s)[i := b]) = ?f[i := b] @ ?rest"
    using mm i by (simp add: slice_of_def take_update_swap list_update_append)
  moreover have "\<exists>e. deserialize crc (?f[i := b] @ ?rest) = Inl e"
    using corrupt_frame_rejected [OF ok assms(2) i b', of ?rest] i(2) by auto
  moreover have "\<not> rs_write_pos s \<le> 0" using pos n by auto
  ultimately show ?thesis
    using pos by (auto simp: read_record_def Let_def)
qed

text \<open>C34: One corrupted record makes a compaction hang. If a single byte of the first record's frame
  (outside its length field) differs from what was written, \<open>compact_segment\<close> never returns:
  the record is counted as skipped for ever.\<close>

theorem compaction_hangs_on_corrupted_record:
  assumes "segment_holds crc s (r # rs)" "detects_byte_errors crc"
    and "i < serialized_size r" "i < 4 \<or> 8 \<le> i" "b \<noteq> rs_mmap s ! i"
    and "\<not> cm_in_progress m" and open_ok: "io path = Inr old"
  shows "compact_segment crc io clock (s\<lparr>rs_mmap := (rs_mmap s)[i := b]\<rparr>) path m = None"
proof -
  let ?s = "s\<lparr>rs_mmap := (rs_mmap s)[i := b]\<rparr>"
  obtain e where "read_record crc ?s 0 = Inl e" using corrupt_first_record [OF assms(1-5)] by blast
  moreover have "0 < rs_write_pos ?s"
  proof -
    have "unat (rs_write_pos s) = serialized_size r + records_size rs"
      using assms(1) by (simp add: segment_holds_def)
    then show ?thesis using assms(3) by (simp add: word_less_nat_alt)
  qed
  ultimately have "for_records crc ?s (compact_item crc) (iter_records ?s) st = None" for st
    using for_records_stuck [of "iter_records ?s" crc ?s e "compact_item crc"] compact_item_skips
    by (simp add: iter_records_def)
  then show ?thesis
    using assms(6) open_ok by (simp add: compact_segment_def record_segment_new_def)
qed

theorem compaction_hangs_on_corrupted_record_witness:
  "\<exists>s b. snd (append_record sum_crc demo_record demo_segment) = s
    \<and> compact_segment sum_crc (\<lambda>_. Inr []) (9, 2) (s\<lparr>rs_mmap := (rs_mmap s)[20 := b]\<rparr>) ''out''
        (compaction_manager_new demo_policy) = None"
proof -
  obtain s where s: "append_record sum_crc demo_record demo_segment = (Inr \<lparr>ro_offset = 0, ro_size = 22\<rparr>, s)"
    "segment_holds sum_crc s [demo_record]" by (rule demo_appended)
  have "rs_mmap s ! 20 + 1 \<noteq> rs_mmap s ! 20" by simp
  from compaction_hangs_on_corrupted_record [OF s(2) sum_crc_detects _ _ this,
      where m = "compaction_manager_new demo_policy" and io = "\<lambda>_. Inr []" and old = "[]"] s(1)
  show ?thesis by (auto simp: compaction_manager_new_def)
qed

text \<open>Merging segments yields one segment with the records of all of them, in the order of the
  segments and of the records in each, if they fit the target size, and an error otherwise.\<close>

lemma merge_concatenates_segments:
  assumes "list_all2 (segment_holds crc) ss rss" and open_ok: "io path = Inr old" and "unat seg_size < 2 ^ 63"
  shows "if records_size (concat rss) \<le> unat seg_size
    then (\<exists>s. merge_segments crc io ss path seg_size idx = Some (Inr s) \<and> segment_holds crc s (concat rss))
    else (\<exists>e. merge_segments crc io ss path seg_size idx = Some (Inl (CompactionStorage e)))"
proof -
  obtain new where new: "record_segment_new io path seg_size idx = Inr new" "rs_max_size new = seg_size"
    using open_ok by (simp add: record_segment_new_def)
  have "segment_holds crc new []" by (rule record_segment_new_holds [OF new(1) assms(3)])
  with merge_loop_holds [OF assms(1), of "(new, 0)" "[]"] new show ?thesis
    by (auto simp: merge_segments_def segment_room_def split: if_split_asm)
qed

lemma merge_concatenates_segments_example:
  "\<exists>s t. snd (append_record sum_crc demo_record demo_segment) = s
    \<and> merge_segments sum_crc (\<lambda>_. Inr []) [s, s] ''out'' 44 True = Some (Inr t)
    \<and> segment_holds sum_crc t [demo_record, demo_record]"
proof -
  obtain s where s: "append_record sum_crc demo_record demo_segment = (Inr \<lparr>ro_offset = 0, ro_size = 22\<rparr>, s)"
    "segment_holds sum_crc s [demo_record]" by (rule demo_appended)
  then have "list_all2 (segment_holds sum_crc) [s, s] [[demo_record], [demo_record]]" by simp
  from merge_concatenates_segments [OF this, of "\<lambda>_. Inr []" "''out''" "[]" 44 True] s(1)
  show ?thesis by auto
qed

end
