(* ===== verification/Byte_Queue.thy ===== *)
theory Byte_Queue
  imports Dolda_Prelude
begin

text \<open>
  What a mailbox needs of the queue that keeps its messages. The queue holds a list of byte
  strings; \<open>app\<close> appends one, and \<open>read\<close> answers the bytes from a record's start on: those of the
  record and of all records behind it. \<open>willing\<close> says that the operating system refuses nothing.
  \<open>PersistQ\<close> provides such a queue, \<open>Mailbox\<close> relies on it.
\<close>

locale byte_queue =
  fixes holds :: "'q \<Rightarrow> bytes list \<Rightarrow> bool" and app :: "bytes \<Rightarrow> 'q \<Rightarrow> ((string + 'r) \<times> 'q) option"
    and read :: "u64 \<Rightarrow> 'q \<Rightarrow> string + bytes" and capacity :: nat and willing :: bool
  assumes app_accepts: "holds q recs \<Longrightarrow> willing \<Longrightarrow> length (concat recs) + length b \<le> capacity \<Longrightarrow>
      length recs + 1 < 2 ^ 64 \<Longrightarrow> \<exists>r q'. app b q = Some (Inr r, q') \<and> holds q' (recs @ [b])"
    and read_from_start: "holds q recs \<Longrightarrow> unat i < length recs \<Longrightarrow> recs ! unat i \<noteq> [] \<Longrightarrow>
      read i q = Inr (concat (drop (unat i) recs))"
    and read_beyond: "holds q recs \<Longrightarrow> length recs \<le> unat i \<Longrightarrow> \<exists>e. read i q = Inl e"
begin

lemma read_pending:
  "holds q (recs @ b # bs) \<Longrightarrow> b \<noteq> [] \<Longrightarrow> unat i = length recs \<Longrightarrow> read i q = Inr (concat (b # bs))"
  using read_from_start [of q "recs @ b # bs" i] by simp

end

end
