(* ===== verification/PersistQ.thy ===== *)
theory PersistQ
  imports Byte_Queue Float64
begin

text \<open>
  The persistent queue of \<open>src/persistq.rs\<close>: raw segments without record headers, a segment
  manager per partition that rolls over, and the queue \<open>PersistQ\<close>, which routes a record by the
  CRC of its data, numbers the records and maps each number to a partition and an offset.

  The operating system's answers (canonical paths, creation of directories, opening, sizing
  and mapping a file) are the record \<open>os_answers\<close>; \<open>crc\<close> is \<open>crc32fast::hash\<close>; the clock is
  read into arguments. The module's performance tests are in \<open>Queue_Workloads\<close>. One call runs at
  a time.
\<close>

section \<open>Data\<close>

datatype partition_key = KeyString string | KeyInteger "64 word" | KeyTimestamp u64

record offset_mapping =
  om_partition_id :: u32
  om_local_offset :: u64

record cache_config =
  cc_enabled :: bool
  cc_size_bytes :: usize
  cc_hot_data_threshold :: f64

record persistq_config =
  pc_storage_dir :: string
  pc_segment_size :: usize
  pc_num_partitions :: u32
  pc_replication_factor :: u32
  pc_cache_config :: cache_config

record pq_segment =
  ps_path :: string
  ps_max_size :: usize
  ps_write_pos :: u64
  ps_mmap :: bytes

record pq_manager =
  pm_partition_id :: u32
  pm_segments :: "pq_segment list"
  pm_current :: "nat option" \<comment> \<open>the \<open>Arc\<close> of one of the segments, by its position\<close>
  pm_segment_size :: usize
  pm_storage_dir :: string

record persist_q =
  q_segment_managers :: "(u32 \<times> pq_manager) list"
  q_global_offset :: u64
  q_offset_map :: "(u64 \<times> offset_mapping) list"
  q_config :: persistq_config

record queue_record =
  qr_offset :: u64
  qr_data :: bytes
  qr_timestamp :: u64
  qr_partition_id :: u32

record append_result =
  ar_global_offset :: u64
  ar_partition_id :: u32
  ar_node_id :: u32
  ar_latency_us :: u64

record read_result =
  rr_record :: queue_record
  rr_cache_hit :: bool
  rr_latency_us :: u64

record persistq_statistics =
  qs_total_records :: u64
  qs_num_partitions :: nat
  qs_total_segments :: nat
  qs_replication_factor :: u32

datatype open_failure = OpenFailed string | SetLenFailed string | MapFailed string

record os_answers =
  os_canonicalize :: "string \<Rightarrow> string + string"
  os_create_dir_all :: "string \<Rightarrow> string + unit"
  os_canonicalize_again :: "string \<Rightarrow> string + string" \<comment> \<open>once the directory was created\<close>
  os_open :: "string \<Rightarrow> open_failure + bytes" \<comment> \<open>the bytes the file held\<close>
  os_flush :: "string \<Rightarrow> string + unit" \<comment> \<open>of the mapped file with this path\<close>

section \<open>Partition keys\<close>

definition simple_hash :: "bytes \<Rightarrow> u64" where
  "simple_hash = foldl (\<lambda>hash byte. hash * 33 + ucast byte) 5381"

fun partition_key_hash :: "partition_key \<Rightarrow> u64" where
  "partition_key_hash (KeyString s) = simple_hash (string_bytes s)"
| "partition_key_hash (KeyInteger i) = i"
| "partition_key_hash (KeyTimestamp t) = t"

section \<open>Segments\<close>

definition pq_segment_new :: "os_answers \<Rightarrow> string \<Rightarrow> usize \<Rightarrow> string + pq_segment" where
  "pq_segment_new os path max_size =
     (case os_open os path of
        Inl (OpenFailed e) \<Rightarrow> Inl (''Failed to open segment file: '' @ e)
      | Inl (SetLenFailed e) \<Rightarrow> Inl (''Failed to set file length: '' @ e)
      | Inl (MapFailed e) \<Rightarrow> Inl (''Failed to mmap file: '' @ e)
      | Inr old \<Rightarrow> Inr \<lparr>ps_path = path, ps_max_size = max_size, ps_write_pos = 0,
          ps_mmap = set_len (unat max_size) old\<rparr>)"

definition pq_has_space :: "pq_segment \<Rightarrow> nat \<Rightarrow> bool" where
  "pq_has_space s n \<longleftrightarrow> ps_write_pos s + of_nat n \<le> ps_max_size s"

definition pq_segment_append :: "bytes \<Rightarrow> pq_segment \<Rightarrow> (string + u64) \<times> pq_segment" where
  "pq_segment_append data s =
     (let offset = ps_write_pos s;
          s1 = s\<lparr>ps_write_pos := offset + of_nat (length data)\<rparr>
      in if offset + of_nat (length data) > ps_max_size s
         then (Inl ''Segment full'', s1\<lparr>ps_write_pos := ps_write_pos s1 - of_nat (length data)\<rparr>)
         else (Inr offset, s1\<lparr>ps_mmap := write_at (ps_mmap s1) (unat offset) data\<rparr>))"

definition pq_segment_read :: "pq_segment \<Rightarrow> usize \<Rightarrow> string + bytes" where
  "pq_segment_read s offset =
     (let current_pos = ps_write_pos s
      in if offset \<ge> current_pos then Inl ''Offset out of bounds''
         else Inr (slice_of (unat offset) (unat current_pos) (ps_mmap s)))"

definition pq_segment_flush :: "os_answers \<Rightarrow> pq_segment \<Rightarrow> string + unit" where
  "pq_segment_flush os s = map_err (\<lambda>e. ''Failed to flush mmap: '' @ e) (os_flush os (ps_path s))"

section \<open>Segment managers\<close>

definition pq_create_new_segment :: "os_answers \<Rightarrow> pq_manager \<Rightarrow> (string + unit) \<times> pq_manager" where
  "pq_create_new_segment os m =
     (let segment_id = length (pm_segments m);
          segment_path = pm_storage_dir m @ ''/partition_'' @ nat_string (unat (pm_partition_id m))
            @ ''_segment_'' @ nat_string segment_id @ ''.dat''
      in case pq_segment_new os segment_path (pm_segment_size m) of
           Inl e \<Rightarrow> (Inl e, m)
         | Inr segment \<Rightarrow> (Inr (), m\<lparr>pm_segments := pm_segments m @ [segment],
             pm_current := Some (length (pm_segments m))\<rparr>))"

definition pq_manager_new :: "os_answers \<Rightarrow> u32 \<Rightarrow> usize \<Rightarrow> string \<Rightarrow> string + pq_manager" where
  "pq_manager_new os partition_id segment_size storage_dir =
     and_then (map_err (\<lambda>e. ''Failed to create storage directory: '' @ e)
       (os_create_dir_all os storage_dir)) (\<lambda>_.
       let manager = \<lparr>pm_partition_id = partition_id, pm_segments = [], pm_current = None,
             pm_segment_size = segment_size, pm_storage_dir = storage_dir\<rparr>
       in case pq_create_new_segment os manager of
            (Inl e, _) \<Rightarrow> Inl e
          | (Inr _, manager') \<Rightarrow> Inr manager')"

definition pq_current_has_space :: "pq_manager \<Rightarrow> nat \<Rightarrow> bool" where
  "pq_current_has_space m n =
     (case pm_current m of None \<Rightarrow> False | Some i \<Rightarrow> pq_has_space (pm_segments m ! i) n)"

text \<open>The fast path: an answer, or fall through to creating a segment.\<close>

definition pq_fast_path :: "bytes \<Rightarrow> pq_manager \<Rightarrow> (string + u64) option \<times> pq_manager" where
  "pq_fast_path data m =
     (case pm_current m of
        None \<Rightarrow> (None, m)
      | Some i \<Rightarrow>
          if pq_has_space (pm_segments m ! i) (length data)
          then (if pq_has_space (pm_segments m ! i) (length data)
                then let (res, segment) = pq_segment_append data (pm_segments m ! i)
                     in (Some res, m\<lparr>pm_segments := (pm_segments m)[i := segment]\<rparr>)
                else (None, m))
          else (None, m))"

partial_function (option) pq_manager_append ::
    "os_answers \<Rightarrow> bytes \<Rightarrow> pq_manager \<Rightarrow> ((string + u64) \<times> pq_manager) option" where
  "pq_manager_append os data m =
     (case pq_fast_path data m of
        (Some res, m1) \<Rightarrow> Some (res, m1)
      | (None, m1) \<Rightarrow>
          if pq_current_has_space m1 (length data) then pq_manager_append os data m1
          else (case pq_create_new_segment os m1 of
              (Inl e, m2) \<Rightarrow> Some (Inl e, m2)
            | (Inr _, m2) \<Rightarrow> pq_manager_append os data m2))"

definition pq_manager_read :: "pq_manager \<Rightarrow> usize \<Rightarrow> string + bytes" where
  "pq_manager_read m offset =
     (case pm_segments m of [] \<Rightarrow> Inl ''No segments available'' | s # _ \<Rightarrow> pq_segment_read s offset)"

fun flush_segments :: "os_answers \<Rightarrow> pq_segment list \<Rightarrow> string + unit" where
  "flush_segments os [] = Inr ()"
| "flush_segments os (s # ss) = and_then (pq_segment_flush os s) (\<lambda>_. flush_segments os ss)"

definition pq_manager_flush :: "os_answers \<Rightarrow> pq_manager \<Rightarrow> string + unit" where
  "pq_manager_flush os m = flush_segments os (pm_segments m)"

section \<open>The queue\<close>

definition default_config :: persistq_config where
  "default_config = \<lparr>pc_storage_dir = ''/tmp/persistq'', pc_segment_size = 64 * 1024 * 1024,
     pc_num_partitions = 8, pc_replication_factor = 3,
     pc_cache_config = \<lparr>cc_enabled = True, cc_size_bytes = 512 * 1024 * 1024,
       cc_hot_data_threshold = f64_lit 1 10\<rparr>\<rparr>"

definition validate_config :: "persistq_config \<Rightarrow> string + unit" where
  "validate_config c =
     (if pc_num_partitions c = 0 then Inl ''num_partitions must be greater than 0''
      else if pc_num_partitions c > 1024 then Inl ''num_partitions must be at most 1024''
      else if pc_segment_size c < 1024 then Inl ''segment_size must be at least 1024 bytes''
      else if pc_segment_size c > 10 * 1024 * 1024 * 1024
        then Inl ''segment_size must be at most 10737418240 bytes''
      else if pc_replication_factor c = 0 then Inl ''replication_factor must be greater than 0''
      else if pc_replication_factor c > 10 then Inl ''replication_factor must be at most 10''
      else if pc_storage_dir c = [] then Inl ''storage_dir cannot be empty''
      else if contains_str ''..'' (pc_storage_dir c)
        then Inl ''storage_dir cannot contain '..' (directory traversal)''
      else if contains_str [CHR 0x00] (pc_storage_dir c)
        then Inl ''storage_dir cannot contain null bytes''
      else if f64_less (cc_hot_data_threshold (pc_cache_config c)) (Fin 0)
           \<or> f64_less (Fin 1) (cc_hot_data_threshold (pc_cache_config c))
        then Inl ''hot_data_threshold must be between 0.0 and 1.0''
      else Inr ())"

text \<open>\<open>1..=num_partitions\<close>, and the loop of \<open>PersistQ::new\<close> over it.\<close>

definition partition_ids :: "u32 \<Rightarrow> u32 list" where
  "partition_ids n = map of_nat [1..<unat n + 1]"

fun pq_managers_for :: "os_answers \<Rightarrow> usize \<Rightarrow> string \<Rightarrow> u32 list \<Rightarrow> (u32 \<times> pq_manager) list
    \<Rightarrow> string + (u32 \<times> pq_manager) list" where
  "pq_managers_for os seg_size dir [] ms = Inr ms"
| "pq_managers_for os seg_size dir (p # ps) ms =
     and_then (pq_manager_new os p seg_size dir) (\<lambda>m. pq_managers_for os seg_size dir ps (hash_insert p m ms))"

definition storage_path :: "os_answers \<Rightarrow> string \<Rightarrow> string + string" where
  "storage_path os dir =
     (case os_canonicalize os dir of
        Inr path \<Rightarrow> Inr path
      | Inl _ \<Rightarrow>
          and_then (map_err (\<lambda>e. ''Failed to create storage directory: '' @ e) (os_create_dir_all os dir))
            (\<lambda>_. map_err (\<lambda>e. ''Failed to canonicalize storage path: '' @ e) (os_canonicalize_again os dir)))"

definition persistq_new :: "os_answers \<Rightarrow> persistq_config \<Rightarrow> string + persist_q" where
  "persistq_new os config =
     and_then (validate_config config) (\<lambda>_.
     and_then (storage_path os (pc_storage_dir config)) (\<lambda>path.
       let validated_config = config\<lparr>pc_storage_dir := path\<rparr> in
       and_then (pq_managers_for os (pc_segment_size validated_config) (pc_storage_dir validated_config)
           (partition_ids (pc_num_partitions validated_config)) []) (\<lambda>segment_managers.
         Inr \<lparr>q_segment_managers = segment_managers, q_global_offset = 0, q_offset_map = [],
              q_config = validated_config\<rparr>)))"

text \<open>The partition of some data; \<open>start_time\<close> and \<open>end_time\<close> are the clock's readings.\<close>

definition partition_for_data :: "(bytes \<Rightarrow> u32) \<Rightarrow> persist_q \<Rightarrow> bytes \<Rightarrow> u32" where
  "partition_for_data crc q data = crc data mod pc_num_partitions (q_config q) + 1"

definition persistq_append ::
    "(bytes \<Rightarrow> u32) \<Rightarrow> os_answers \<Rightarrow> u64 \<times> u64 \<Rightarrow> bytes \<Rightarrow> persist_q
      \<Rightarrow> ((string + append_result) \<times> persist_q) option" where
  "persistq_append crc os clock data q =
     (let (start_time, end_time) = clock;
          partition_id = partition_for_data crc q data
      in case map_of (q_segment_managers q) partition_id of
           None \<Rightarrow> Some (Inl (''No segment manager for partition '' @ nat_string (unat partition_id)), q)
         | Some m \<Rightarrow>
             (case pq_manager_append os data m of
                None \<Rightarrow> None
              | Some (Inl e, m') \<Rightarrow>
                  Some (Inl e, q\<lparr>q_segment_managers := hash_insert partition_id m' (q_segment_managers q)\<rparr>)
              | Some (Inr local_offset, m') \<Rightarrow>
                  let global_offset = q_global_offset q;
                      q' = q\<lparr>q_segment_managers := hash_insert partition_id m' (q_segment_managers q),
                             q_global_offset := global_offset + 1,
                             q_offset_map := hash_insert global_offset
                               \<lparr>om_partition_id = partition_id, om_local_offset = local_offset\<rparr> (q_offset_map q)\<rparr>
                  in Some (Inr \<lparr>ar_global_offset = global_offset, ar_partition_id = partition_id,
                                ar_node_id = partition_id,
                                ar_latency_us = saturating_sub end_time start_time\<rparr>, q')))"

definition persistq_read :: "u64 \<times> u64 \<Rightarrow> u64 \<Rightarrow> persist_q \<Rightarrow> string + read_result" where
  "persistq_read clock global_offset q =
     (let (start_time, end_time) = clock in
      case map_of (q_offset_map q) global_offset of
        None \<Rightarrow> Inl (''Global offset '' @ nat_string (unat global_offset) @ '' not found'')
      | Some mapping \<Rightarrow>
          (case map_of (q_segment_managers q) (om_partition_id mapping) of
             None \<Rightarrow> Inl (''No segment manager for partition '' @ nat_string (unat (om_partition_id mapping)))
           | Some m \<Rightarrow>
               and_then (pq_manager_read m (om_local_offset mapping)) (\<lambda>data.
                 Inr \<lparr>rr_record = \<lparr>qr_offset = global_offset, qr_data = data,
                        qr_timestamp = start_time div 1000000, qr_partition_id = om_partition_id mapping\<rparr>,
                      rr_cache_hit = False, rr_latency_us = saturating_sub end_time start_time\<rparr>)))"

definition persistq_stats :: "persist_q \<Rightarrow> persistq_statistics" where
  "persistq_stats q =
     \<lparr>qs_total_records = q_global_offset q, qs_num_partitions = length (q_segment_managers q),
      qs_total_segments = sum_list (map (\<lambda>(_, m). length (pm_segments m)) (q_segment_managers q)),
      qs_replication_factor = pc_replication_factor (q_config q)\<rparr>"

fun flush_managers :: "os_answers \<Rightarrow> (u32 \<times> pq_manager) list \<Rightarrow> string + unit" where
  "flush_managers os [] = Inr ()"
| "flush_managers os ((_, m) # ms) = and_then (pq_manager_flush os m) (\<lambda>_. flush_managers os ms)"

definition persistq_shutdown :: "os_answers \<Rightarrow> persist_q \<Rightarrow> string + unit" where
  "persistq_shutdown os q = flush_managers os (q_segment_managers q)"

section \<open>What a segment and a manager hold\<close>

text \<open>A segment holds byte strings one after the other, without any separator; a mapped file is
  shorter than \<open>2 ^ 63\<close> bytes.\<close>

definition pq_segment_holds :: "pq_segment \<Rightarrow> bytes list \<Rightarrow> bool" where
  "pq_segment_holds s ds \<longleftrightarrow>
     unat (ps_max_size s) < 2 ^ 63 \<and> length (ps_mmap s) = unat (ps_max_size s)
     \<and> unat (ps_write_pos s) = length (concat ds) \<and> length (concat ds) \<le> unat (ps_max_size s)
     \<and> take (length (concat ds)) (ps_mmap s) = concat ds"

definition pq_manager_holds :: "pq_manager \<Rightarrow> bytes list list \<Rightarrow> bool" where
  "pq_manager_holds m dss \<longleftrightarrow>
     list_all2 pq_segment_holds (pm_segments m) dss \<and> pm_segments m \<noteq> []
     \<and> pm_current m = Some (length (pm_segments m) - 1)
     \<and> (\<forall>s \<in> set (pm_segments m). ps_max_size s = pm_segment_size m)
     \<and> unat (pm_segment_size m) < 2 ^ 63"

lemma pq_write_pos_eq: "pq_segment_holds s ds \<Longrightarrow> ps_write_pos s = of_nat (length (concat ds))"
  unfolding pq_segment_holds_def by (metis of_nat_unat ucast_id)

lemma pq_no_overflow:
  assumes "pq_segment_holds s ds" "n < 2 ^ 63"
  shows "unat (ps_write_pos s + of_nat n) = length (concat ds) + n"
  using assms unat_add_of_nat64 [of "ps_write_pos s" n] by (simp add: pq_segment_holds_def)

lemma pq_has_space_iff:
  assumes "pq_segment_holds s ds" "n < 2 ^ 63"
  shows "pq_has_space s n \<longleftrightarrow> length (concat ds) + n \<le> unat (ps_max_size s)"
  using pq_no_overflow [OF assms] by (simp add: pq_has_space_def word_le_nat_alt)

lemma pq_append_fits:
  assumes "pq_segment_holds s ds" "length (concat ds) + length data \<le> unat (ps_max_size s)"
  shows "\<exists>s'. pq_segment_append data s = (Inr (of_nat (length (concat ds))), s')
    \<and> pq_segment_holds s' (ds @ [data]) \<and> ps_max_size s' = ps_max_size s"
proof -
  have "length data < 2 ^ 63" using assms by (simp add: pq_segment_holds_def)
  note sum = pq_no_overflow [OF assms(1) this]
  show ?thesis
    using assms sum pq_write_pos_eq [OF assms(1)]
    by (auto simp: pq_segment_append_def Let_def word_less_nat_alt pq_segment_holds_def slice_simps)
qed

lemma pq_append_full:
  assumes "pq_segment_holds s ds" "length data < 2 ^ 63"
    "\<not> length (concat ds) + length data \<le> unat (ps_max_size s)"
  shows "pq_segment_append data s = (Inl ''Segment full'', s)"
  using assms(3) pq_no_overflow [OF assms(1,2)]
  by (simp add: pq_segment_append_def Let_def word_less_nat_alt)

lemma pq_read_at:
  assumes "pq_segment_holds s ds" "unat off < length (concat ds)"
  shows "pq_segment_read s off = Inr (drop (unat off) (concat ds))"
proof -
  have "slice_of (unat off) (length (concat ds)) (ps_mmap s) = drop (unat off) (concat ds)"
    using assms(1) by (metis slice_of_def drop_take pq_segment_holds_def)
  then show ?thesis
    using assms by (simp add: pq_segment_read_def Let_def word_le_nat_alt pq_segment_holds_def)
qed

lemma pq_read_past:
  assumes "pq_segment_holds s ds" "length (concat ds) \<le> unat off"
  shows "pq_segment_read s off = Inl ''Offset out of bounds''"
  using assms by (simp add: pq_segment_read_def word_le_nat_alt pq_segment_holds_def)

lemma pq_manager_holds_length: "pq_manager_holds m dss \<Longrightarrow> length dss = length (pm_segments m)"
  unfolding pq_manager_holds_def by (metis list_all2_lengthD)

lemma pq_manager_holds_last:
  assumes "pq_manager_holds m dss"
  shows "pq_segment_holds (pm_segments m ! (length (pm_segments m) - 1)) (last dss)" and "dss \<noteq> []"
    and "ps_max_size (pm_segments m ! (length (pm_segments m) - 1)) = pm_segment_size m"
proof -
  have ne: "pm_segments m \<noteq> []" using assms by (simp add: pq_manager_holds_def)
  show dss: "dss \<noteq> []" using pq_manager_holds_length [OF assms] ne by auto
  show "pq_segment_holds (pm_segments m ! (length (pm_segments m) - 1)) (last dss)"
    using assms dss ne pq_manager_holds_length [OF assms]
    by (simp add: pq_manager_holds_def last_conv_nth list_all2_nthD2)
  show "ps_max_size (pm_segments m ! (length (pm_segments m) - 1)) = pm_segment_size m"
    using assms ne by (simp add: pq_manager_holds_def)
qed

lemma pq_space_iff:
  assumes "pq_manager_holds m dss" "n < 2 ^ 63"
  shows "pq_current_has_space m n \<longleftrightarrow> length (concat (last dss)) + n \<le> unat (pm_segment_size m)"
  using pq_has_space_iff [OF pq_manager_holds_last(1) [OF assms(1)] assms(2)]
    pq_manager_holds_last(3) [OF assms(1)] assms(1)
  by (simp add: pq_current_has_space_def pq_manager_holds_def)

lemma pq_fast_path_full:
  assumes "pq_manager_holds m dss" "length data < 2 ^ 63"
    "\<not> length (concat (last dss)) + length data \<le> unat (pm_segment_size m)"
  shows "pq_fast_path data m = (None, m)"
  using assms pq_space_iff [OF assms(1,2)]
  by (simp add: pq_fast_path_def pq_current_has_space_def pq_manager_holds_def)

text \<open>What stays of a manager when it appends.\<close>

definition same_manager :: "pq_manager \<Rightarrow> pq_manager \<Rightarrow> bool" where
  "same_manager m m' \<longleftrightarrow> pm_partition_id m' = pm_partition_id m
     \<and> pm_segment_size m' = pm_segment_size m \<and> pm_storage_dir m' = pm_storage_dir m"

lemma pq_manager_append_fits:
  assumes "pq_manager_holds m dss" "length (concat (last dss)) + length data \<le> unat (pm_segment_size m)"
  shows "\<exists>m'. pq_manager_append os data m = Some (Inr (of_nat (length (concat (last dss)))), m')
    \<and> pq_manager_holds m' (butlast dss @ [last dss @ [data]]) \<and> same_manager m m'"
proof -
  let ?i = "length (pm_segments m) - 1"
  note last = pq_manager_holds_last [OF assms(1)]
  have "length data < 2 ^ 63" using assms by (simp add: pq_manager_holds_def)
  then have space: "pq_has_space (pm_segments m ! ?i) (length data)"
    using assms last pq_has_space_iff by simp
  from pq_append_fits [OF last(1), of data] assms(2) last(3) obtain s' where
    s': "pq_segment_append data (pm_segments m ! ?i) = (Inr (of_nat (length (concat (last dss)))), s')"
    "pq_segment_holds s' (last dss @ [data])" "ps_max_size s' = pm_segment_size m" by auto
  have upd: "butlast dss @ [last dss @ [data]] = dss[?i := last dss @ [data]]"
    using last(2) pq_manager_holds_length [OF assms(1)]
    by (metis append_butlast_last_id length_butlast list_update_length)
  have "pq_manager_holds (m\<lparr>pm_segments := (pm_segments m)[?i := s']\<rparr>) (butlast dss @ [last dss @ [data]])"
    unfolding upd using assms(1) s' set_update_subset_insert [of "pm_segments m" ?i s']
    by (auto simp: pq_manager_holds_def list_all2_update_cong)
  then show ?thesis
    using space s'(1) assms(1)
    by (subst pq_manager_append.simps) (auto simp: pq_fast_path_def pq_manager_holds_def same_manager_def)
qed

definition pq_next_path :: "pq_manager \<Rightarrow> string" where
  "pq_next_path m = pm_storage_dir m @ ''/partition_'' @ nat_string (unat (pm_partition_id m))
     @ ''_segment_'' @ nat_string (length (pm_segments m)) @ ''.dat''"

lemma pq_segment_new_holds:
  assumes "os_open os path = Inr old" "unat size63 < 2 ^ 63"
  shows "\<exists>s. pq_segment_new os path size63 = Inr s \<and> pq_segment_holds s [] \<and> ps_max_size s = size63"
  using assms by (simp add: pq_segment_new_def pq_segment_holds_def)

lemma pq_create_holds:
  assumes "pq_manager_holds m dss" "os_open os (pq_next_path m) = Inr old"
  shows "\<exists>m'. pq_create_new_segment os m = (Inr (), m') \<and> pq_manager_holds m' (dss @ [[]])
    \<and> same_manager m m'"
proof -
  have size63: "unat (pm_segment_size m) < 2 ^ 63" using assms(1) by (simp add: pq_manager_holds_def)
  obtain s where s: "pq_segment_new os (pq_next_path m) (pm_segment_size m) = Inr s"
    "pq_segment_holds s []" "ps_max_size s = pm_segment_size m"
    using pq_segment_new_holds [of os "pq_next_path m" old, OF assms(2) size63] by blast
  then show ?thesis
    using assms(1) by (auto simp: pq_create_new_segment_def Let_def pq_next_path_def same_manager_def
        pq_manager_holds_def intro!: list_all2_appendI)
qed

lemma pq_manager_append_rollover:
  assumes "pq_manager_holds m dss" "length data \<le> unat (pm_segment_size m)"
    "\<not> length (concat (last dss)) + length data \<le> unat (pm_segment_size m)"
    and open_ok: "os_open os (pq_next_path m) = Inr old"
  shows "\<exists>m'. pq_manager_append os data m = Some (Inr 0, m')
    \<and> pq_manager_holds m' (dss @ [[data]]) \<and> same_manager m m'"
proof -
  have small: "length data < 2 ^ 63" using assms by (simp add: pq_manager_holds_def)
  from pq_create_holds [OF assms(1), of os old, OF open_ok] obtain m' where
    m': "pq_create_new_segment os m = (Inr (), m')" "pq_manager_holds m' (dss @ [[]])" "same_manager m m'"
    by blast
  show ?thesis
    using pq_manager_append_fits [OF m'(2), of data os] assms m' small
      pq_space_iff [OF assms(1) small] pq_fast_path_full [OF assms(1) small]
    by (subst pq_manager_append.simps) (auto simp: same_manager_def)
qed

text \<open>Where the data of an append goes: the records of each segment, and the local offset.\<close>

definition placed :: "usize \<Rightarrow> bytes \<Rightarrow> bytes list list \<Rightarrow> bytes list list" where
  "placed seg_size data dss =
     (if length (concat (last dss)) + length data \<le> unat seg_size
      then butlast dss @ [last dss @ [data]] else dss @ [[data]])"

lemma pq_manager_append_ok:
  assumes "pq_manager_holds m dss" "length data \<le> unat (pm_segment_size m)"
    and open_ok: "os_open os (pq_next_path m) = Inr old"
  shows "\<exists>m'. pq_manager_append os data m
      = Some (Inr (of_nat (length (concat (butlast (last (placed (pm_segment_size m) data dss)))))), m')
    \<and> pq_manager_holds m' (placed (pm_segment_size m) data dss) \<and> same_manager m m'"
  using pq_manager_append_fits [OF assms(1), of data os]
    pq_manager_append_rollover [OF assms(1,2) _ open_ok]
  by (auto simp: placed_def)

lemma concat_placed: "dss \<noteq> [] \<Longrightarrow> concat (placed n data dss) = concat dss @ [data]"
proof -
  assume "dss \<noteq> []"
  then have "concat dss = concat (butlast dss) @ last dss"
    by (metis append_butlast_last_id concat_append concat.simps append_Nil2)
  then show ?thesis by (simp add: placed_def)
qed

lemma last_placed:
  "last (placed n data dss) = butlast (last (placed n data dss)) @ [data]" "placed n data dss \<noteq> []"
  by (auto simp: placed_def)

section \<open>What a queue holds\<close>

text \<open>
  The record with number \<open>g\<close> lies in segment \<open>j\<close> of its partition, after \<open>k\<close> other records of
  that segment; its local offset is where it starts in that segment.
\<close>

definition located :: "bytes list list \<Rightarrow> nat \<Rightarrow> u64 \<Rightarrow> bool" where
  "located dss i lo \<longleftrightarrow> (\<exists>j k. j < length dss \<and> k < length (dss ! j)
     \<and> length (concat (take j dss)) + k = i \<and> unat lo = length (concat (take k (dss ! j))))"

definition in_partition :: "(bytes \<Rightarrow> u32) \<Rightarrow> persist_q \<Rightarrow> u32 \<Rightarrow> bytes list \<Rightarrow> bytes list" where
  "in_partition crc q p recs = filter (\<lambda>d. partition_for_data crc q d = p) recs"

definition partition_holds :: "(bytes \<Rightarrow> u32) \<Rightarrow> persist_q \<Rightarrow> bytes list \<Rightarrow> bytes list list \<Rightarrow> u32 \<Rightarrow> bool" where
  "partition_holds crc q recs dss p \<longleftrightarrow> (\<exists>m. map_of (q_segment_managers q) p = Some m
     \<and> pq_manager_holds m dss \<and> pm_partition_id m = p
     \<and> pm_segment_size m = pc_segment_size (q_config q) \<and> concat dss = in_partition crc q p recs)"

definition mapping_holds ::
    "(bytes \<Rightarrow> u32) \<Rightarrow> persist_q \<Rightarrow> bytes list \<Rightarrow> (u32 \<Rightarrow> bytes list list) \<Rightarrow> u64 \<Rightarrow> bool" where
  "mapping_holds crc q recs dsm g \<longleftrightarrow>
     (if unat g < length recs
      then (\<exists>lo. map_of (q_offset_map q) g
          = Some \<lparr>om_partition_id = partition_for_data crc q (recs ! unat g), om_local_offset = lo\<rparr>
        \<and> located (dsm (partition_for_data crc q (recs ! unat g)))
            (length (in_partition crc q (partition_for_data crc q (recs ! unat g)) (take (unat g) recs))) lo)
      else map_of (q_offset_map q) g = None)"

definition queue_holds ::
    "(bytes \<Rightarrow> u32) \<Rightarrow> persist_q \<Rightarrow> bytes list \<Rightarrow> (u32 \<Rightarrow> bytes list list) \<Rightarrow> bool" where
  "queue_holds crc q recs dsm \<longleftrightarrow>
     0 < pc_num_partitions (q_config q) \<and> q_global_offset q = of_nat (length recs)
     \<and> (\<forall>p. 1 \<le> p \<and> p \<le> pc_num_partitions (q_config q) \<longrightarrow> partition_holds crc q recs (dsm p) p)
     \<and> (\<forall>g. mapping_holds crc q recs dsm g)"

lemma partition_range:
  assumes "0 < pc_num_partitions (q_config q)"
  shows "1 \<le> partition_for_data crc q data \<and> partition_for_data crc q data \<le> pc_num_partitions (q_config q)"
proof -
  let ?n = "pc_num_partitions (q_config q)" and ?r = "crc data mod pc_num_partitions (q_config q)"
  have less: "unat ?r < unat ?n"
    using assms by (simp add: unat_mod_distrib word_less_nat_alt)
  moreover have "unat ?n < 2 ^ 32" using unsigned_less [of ?n] by simp
  ultimately have "unat (?r + 1) = unat ?r + 1"
    by (simp add: unat_word_ariths)
  with less show ?thesis
    by (simp add: partition_for_data_def word_le_nat_alt)
qed

lemma located_placed:
  assumes "located dss i lo" "dss \<noteq> []"
  shows "located (placed n data dss) i lo"
proof -
  from assms(1) obtain j k where jk: "j < length dss" "k < length (dss ! j)"
    "length (concat (take j dss)) + k = i" "unat lo = length (concat (take k (dss ! j)))"
    by (auto simp: located_def)
  obtain xs y where dss: "dss = xs @ [y]" using assms(2) by (metis rev_exhaust)
  have "j < length (placed n data dss) \<and> k < length (placed n data dss ! j)
      \<and> take j (placed n data dss) = take j dss \<and> take k (placed n data dss ! j) = take k (dss ! j)"
    using jk by (auto simp: placed_def dss nth_append split: if_splits)
  then show ?thesis using jk by (auto simp: located_def)
qed

lemma located_new:
  assumes "dss \<noteq> []" "length (concat (butlast (last (placed n data dss)))) < 2 ^ 64"
  shows "located (placed n data dss) (length (concat dss))
    (of_nat (length (concat (butlast (last (placed n data dss))))))"
proof -
  let ?d = "placed n data dss" and ?j = "length (placed n data dss) - 1"
  have ne: "?d \<noteq> []" by (rule last_placed)
  then have nth: "?d ! ?j = last ?d" by (simp add: last_conv_nth)
  have "concat ?d = concat (take ?j ?d) @ last ?d"
    using ne by (metis append_butlast_last_id butlast_conv_take concat_append concat.simps append_Nil2)
  then have "concat (take ?j ?d) @ butlast (last ?d) = concat dss"
    using concat_placed [OF assms(1), of n data] last_placed(1) [of n data dss]
    by (metis append_assoc butlast_snoc)
  then have "length (concat (take ?j ?d)) + (length (last ?d) - 1) = length (concat dss)"
    by (metis length_append length_butlast)
  moreover have "length (last ?d) - 1 < length (last ?d)"
    using last_placed(1) [of n data dss] by (metis Nil_is_append_conv diff_less length_greater_0_conv
        less_numeral_extra(1) not_Cons_self2)
  moreover have "take (length (last ?d) - 1) (last ?d) = butlast (last ?d)"
    by (simp add: butlast_conv_take)
  ultimately show ?thesis
    unfolding located_def using ne nth assms(2)
    by (intro exI [of _ ?j] exI [of _ "length (last ?d) - 1"]) (simp add: unat_of_nat64)
qed

text \<open>An append changes one manager and adds one mapping.\<close>

definition appended :: "persist_q \<Rightarrow> u32 \<Rightarrow> pq_manager \<Rightarrow> u64 \<Rightarrow> persist_q" where
  "appended q p m lo = q\<lparr>q_segment_managers := hash_insert p m (q_segment_managers q),
     q_global_offset := q_global_offset q + 1,
     q_offset_map := hash_insert (q_global_offset q)
       \<lparr>om_partition_id = p, om_local_offset = lo\<rparr> (q_offset_map q)\<rparr>"

lemma appended_config [simp]:
  "q_config (appended q p m lo) = q_config q"
  "partition_for_data crc (appended q p m lo) d = partition_for_data crc q d"
  "in_partition crc (appended q p m lo) p' ds = in_partition crc q p' ds"
  by (simp_all add: appended_def partition_for_data_def in_partition_def)

lemma appended_holds:
  assumes holds: "queue_holds crc q recs dsm" and p: "p = partition_for_data crc q data"
    and len: "length recs + 1 < 2 ^ 64" and m: "map_of (q_segment_managers q) p = Some m"
    and m': "pq_manager_holds m' (placed n data (dsm p))" "same_manager m m'"
    and n: "n = pm_segment_size m"
    and lo: "lo = of_nat (length (concat (butlast (last (placed n data (dsm p))))))"
      "length (concat (butlast (last (placed n data (dsm p))))) < 2 ^ 64"
  shows "queue_holds crc (appended q p m' lo) (recs @ [data]) (dsm(p := placed n data (dsm p)))"
proof -
  have range: "1 \<le> p" "p \<le> pc_num_partitions (q_config q)"
    using holds partition_range [of q crc data] by (simp_all add: queue_holds_def p)
  then have here: "pq_manager_holds m (dsm p)" "pm_partition_id m = p"
      "pm_segment_size m = pc_segment_size (q_config q)" "concat (dsm p) = in_partition crc q p recs"
    using holds m by (auto simp: queue_holds_def partition_holds_def)
  have ne: "dsm p \<noteq> []" using pq_manager_holds_last(2) [OF here(1)] .
  have goff: "unat (q_global_offset q) = length recs"
    using holds len by (simp add: queue_holds_def unat_of_nat64)
  have part: "partition_holds crc (appended q p m' lo) (recs @ [data]) ((dsm(p := placed n data (dsm p))) p') p'"
    if "1 \<le> p'" "p' \<le> pc_num_partitions (q_config q)" for p'
  proof (cases "p' = p")
    case True
    then show ?thesis
      using m' here concat_placed [OF ne] p
      by (simp add: partition_holds_def) (simp add: appended_def same_manager_def in_partition_def)
  next
    case False
    with that holds p show ?thesis
      by (auto simp: queue_holds_def partition_holds_def in_partition_def)
        (simp add: appended_def)
  qed
  have map: "mapping_holds crc (appended q p m' lo) (recs @ [data]) (dsm(p := placed n data (dsm p))) g" for g
  proof -
    have old: "mapping_holds crc q recs dsm g" using holds by (simp add: queue_holds_def)
    consider "unat g < length recs" | "unat g = length recs" | "length recs < unat g" by linarith
    then show ?thesis
    proof cases
      case 1
      then have "g \<noteq> q_global_offset q" using goff by auto
      with 1 old located_placed [OF _ ne] show ?thesis
        by (auto simp: mapping_holds_def nth_append) (auto simp: appended_def)
    next
      case 2
      then have "g = q_global_offset q" using goff by (simp add: word_unat_eq_iff)
      with 2 located_new [OF ne lo(2)] lo here(4) p show ?thesis
        by (simp add: mapping_holds_def) (simp add: appended_def)
    next
      case 3
      then have "g \<noteq> q_global_offset q" using goff by auto
      with 3 old show ?thesis by (simp add: mapping_holds_def) (simp add: appended_def)
    qed
  qed
  show ?thesis
    using holds part map by (auto simp: queue_holds_def) (simp add: appended_def)
qed

section \<open>Creating a queue\<close>

definition os_willing :: "os_answers \<Rightarrow> bool" where
  "os_willing os \<longleftrightarrow> (\<forall>d. os_create_dir_all os d = Inr ()) \<and> (\<forall>p. \<exists>old. os_open os p = Inr old)
     \<and> (\<forall>d. \<exists>p. os_canonicalize_again os d = Inr p)"

lemma os_willing_open: "os_willing os \<Longrightarrow> \<exists>old. os_open os p = Inr old"
  unfolding os_willing_def by blast

lemma os_willing_path: "os_willing os \<Longrightarrow> \<exists>path. storage_path os dir = Inr path"
proof -
  assume "os_willing os"
  then obtain p where "os_create_dir_all os dir = Inr ()" "os_canonicalize_again os dir = Inr p"
    unfolding os_willing_def by blast
  then show ?thesis by (cases "os_canonicalize os dir") (simp_all add: storage_path_def)
qed

lemma pq_manager_new_holds:
  assumes "os_willing os" "unat seg_size < 2 ^ 63"
  shows "\<exists>m. pq_manager_new os p seg_size dir = Inr m \<and> pq_manager_holds m [[]]
    \<and> pm_partition_id m = p \<and> pm_segment_size m = seg_size"
proof -
  have "\<exists>s. pq_segment_new os path seg_size = Inr s \<and> pq_segment_holds s [] \<and> ps_max_size s = seg_size" for path
    using assms pq_segment_new_holds by (metis os_willing_def)
  then obtain seg where "\<And>path. pq_segment_new os path seg_size = Inr (seg path)"
    "\<And>path. pq_segment_holds (seg path) []" "\<And>path. ps_max_size (seg path) = seg_size"
    by metis
  then show ?thesis
    using assms
    by (simp add: pq_manager_new_def pq_create_new_segment_def Let_def os_willing_def pq_manager_holds_def)
qed

lemma length_hash_insert: "k \<notin> fst ` set m \<Longrightarrow> length (hash_insert k v m) = length m + 1"
  by (induction k v m rule: hash_insert.induct) auto

lemma pq_managers_for_ok:
  assumes "os_willing os" "unat seg_size < 2 ^ 63" "distinct ps" "fst ` set ms \<inter> set ps = {}"
  shows "\<exists>ms'. pq_managers_for os seg_size dir ps ms = Inr ms'
    \<and> length ms' = length ms + length ps
    \<and> (\<forall>p. p \<notin> set ps \<longrightarrow> map_of ms' p = map_of ms p)
    \<and> (\<forall>p \<in> set ps. \<exists>m. map_of ms' p = Some m \<and> pq_manager_holds m [[]]
          \<and> pm_partition_id m = p \<and> pm_segment_size m = seg_size)"
  using assms(3,4)
proof (induction ps arbitrary: ms)
  case (Cons p ps)
  from pq_manager_new_holds [OF assms(1,2)] obtain m where
    m: "pq_manager_new os p seg_size dir = Inr m" "pq_manager_holds m [[]]"
    "pm_partition_id m = p" "pm_segment_size m = seg_size" by blast
  have "distinct ps" "fst ` set (hash_insert p m ms) \<inter> set ps = {}" using Cons.prems by auto
  from Cons.IH [OF this] obtain ms' where ms':
    "pq_managers_for os seg_size dir ps (hash_insert p m ms) = Inr ms'"
    "length ms' = length (hash_insert p m ms) + length ps"
    "\<forall>q. q \<notin> set ps \<longrightarrow> map_of ms' q = map_of (hash_insert p m ms) q"
    "\<forall>p \<in> set ps. \<exists>m. map_of ms' p = Some m \<and> pq_manager_holds m [[]]
          \<and> pm_partition_id m = p \<and> pm_segment_size m = seg_size" by blast
  moreover have "p \<notin> fst ` set ms" using Cons.prems by auto
  ultimately show ?case
    using m Cons.prems(1) by (simp add: length_hash_insert)
qed simp

lemma partition_ids:
  "distinct (partition_ids n)" "length (partition_ids n) = unat n"
  "set (partition_ids n) = {p. 1 \<le> p \<and> p \<le> n}"
proof -
  have bound: "i < 2 ^ 32" if "i < unat n + 1" for i
  proof -
    have "unat n < 2 ^ LENGTH(32)" by (rule unsigned_less)
    then have "unat n < 2 ^ 32" by simp
    with that show ?thesis by linarith
  qed
  have inj: "inj_on (of_nat :: nat \<Rightarrow> u32) (set [1..<unat n + 1])"
    using bound unat_of_nat32 by (intro inj_onI) (metis atLeastLessThan_iff set_upt)
  then show "distinct (partition_ids n)" by (simp add: partition_ids_def distinct_map)
  show "length (partition_ids n) = unat n" by (simp add: partition_ids_def)
  have "p \<in> set (partition_ids n) \<longleftrightarrow> 1 \<le> p \<and> p \<le> n" for p
  proof
    assume "p \<in> set (partition_ids n)"
    then obtain i where i: "p = of_nat i" "1 \<le> i" "i < unat n + 1" by (auto simp: partition_ids_def simp del: upt_Suc)
    then have "unat p = i" using bound [of i] by (simp add: unat_of_nat32)
    with i show "1 \<le> p \<and> p \<le> n" by (simp add: word_le_nat_alt)
  next
    assume "1 \<le> p \<and> p \<le> n"
    then have "1 \<le> unat p" "unat p < unat n + 1" by (simp_all add: word_le_nat_alt)
    then show "p \<in> set (partition_ids n)" unfolding partition_ids_def set_map set_upt
      by (metis atLeastLessThan_iff image_eqI of_nat_unat ucast_id)
  qed
  then show "set (partition_ids n) = {p. 1 \<le> p \<and> p \<le> n}" by blast
qed

lemma queue_holds_new:
  assumes "os_willing os" "0 < n" "unat seg_size < 2 ^ 63"
    and cfg: "pc_num_partitions c = n" "pc_segment_size c = seg_size"
    and ms: "pq_managers_for os seg_size dir (partition_ids n) [] = Inr ms"
  shows "queue_holds crc \<lparr>q_segment_managers = ms, q_global_offset = 0, q_offset_map = [], q_config = c\<rparr>
      [] (\<lambda>_. [[]]) \<and> length ms = unat n"
proof -
  from pq_managers_for_ok [OF assms(1,3) partition_ids(1) [of n], of "[]" dir] ms partition_ids(2,3) [of n]
  have "length ms = unat n" and holds: "\<forall>p. 1 \<le> p \<and> p \<le> n \<longrightarrow> (\<exists>m. map_of ms p = Some m
      \<and> pq_manager_holds m [[]] \<and> pm_partition_id m = p \<and> pm_segment_size m = seg_size)"
    by auto
  with assms(2) cfg show ?thesis
    by (simp add: queue_holds_def partition_holds_def mapping_holds_def in_partition_def)
qed

lemma queue_new_ok:
  assumes "os_willing os" "validate_config c = Inr ()"
  shows "\<exists>q. persistq_new os c = Inr q \<and> queue_holds crc q [] (\<lambda>_. [[]])
    \<and> qs_total_records (persistq_stats q) = 0
    \<and> qs_num_partitions (persistq_stats q) = unat (pc_num_partitions c)
    \<and> pc_segment_size (q_config q) = pc_segment_size c
    \<and> pc_num_partitions (q_config q) = pc_num_partitions c"
proof -
  let ?n = "pc_num_partitions c" and ?size = "pc_segment_size c"
  have n: "0 < ?n" using assms(2) by (auto simp: validate_config_def word_gt_0 split: if_splits)
  have "?size \<le> 10 * 1024 * 1024 * 1024"
    using assms(2) by (auto simp: validate_config_def split: if_splits)
  then have size63: "unat ?size < 2 ^ 63" by (simp add: word_le_nat_alt)
  obtain path where path: "storage_path os (pc_storage_dir c) = Inr path"
    using os_willing_path [OF assms(1)] by blast
  obtain ms where ms: "pq_managers_for os ?size path (partition_ids ?n) [] = Inr ms"
    using pq_managers_for_ok [OF assms(1) size63 partition_ids(1) [of ?n], of "[]" path] by auto
  let ?q = "\<lparr>q_segment_managers = ms, q_global_offset = 0, q_offset_map = [],
    q_config = c\<lparr>pc_storage_dir := path\<rparr>\<rparr>"
  have "persistq_new os c = Inr ?q"
    using assms(2) path ms by (simp add: persistq_new_def)
  moreover have "queue_holds crc ?q [] (\<lambda>_. [[]])" and "length ms = unat ?n"
    using queue_holds_new [OF assms(1) n size63, of "c\<lparr>pc_storage_dir := path\<rparr>" path ms crc] ms by simp_all
  ultimately show ?thesis by (simp add: persistq_stats_def)
qed

lemma queue_append_ok:
  assumes holds: "queue_holds crc q recs dsm" and os: "os_willing os"
    and fits: "length data \<le> unat (pc_segment_size (q_config q))" and len: "length recs + 1 < 2 ^ 64"
    and p: "p = partition_for_data crc q data"
    and d: "d = placed (pc_segment_size (q_config q)) data (dsm p)"
  shows "\<exists>q'. persistq_append crc os clock data q
      = Some (Inr \<lparr>ar_global_offset = of_nat (length recs), ar_partition_id = p, ar_node_id = p,
          ar_latency_us = saturating_sub (snd clock) (fst clock)\<rparr>, q')
    \<and> queue_holds crc q' (recs @ [data]) (dsm(p := d)) \<and> q_config q' = q_config q
    \<and> map_of (q_offset_map q') (of_nat (length recs))
      = Some \<lparr>om_partition_id = p, om_local_offset = of_nat (length (concat (butlast (last d))))\<rparr>"
proof -
  have "1 \<le> p" "p \<le> pc_num_partitions (q_config q)"
    using holds partition_range [of q crc data] by (simp_all add: queue_holds_def p)
  then obtain m where m: "map_of (q_segment_managers q) p = Some m" "pq_manager_holds m (dsm p)"
    "pm_segment_size m = pc_segment_size (q_config q)"
    using holds by (auto simp: queue_holds_def partition_holds_def)
  obtain old where old: "os_open os (pq_next_path m) = Inr old"
    using os_willing_open [OF os] by blast
  let ?lo = "of_nat (length (concat (butlast (last d)))) :: u64"
  from pq_manager_append_ok [OF m(2), of data os old] old fits obtain m' where
    m': "pq_manager_append os data m = Some (Inr ?lo, m')" "pq_manager_holds m' d" "same_manager m m'"
    by (auto simp: m(3) d)
  have "length (concat (last d)) < 2 ^ 63"
    using pq_manager_holds_last(1) [OF m'(2)] by (auto simp: pq_segment_holds_def)
  moreover have "length (concat (last d)) = length (concat (butlast (last d))) + length data"
    using last_placed(1) [of "pc_segment_size (q_config q)" data "dsm p"]
    by (metis concat.simps concat_append append_Nil2 length_append d)
  ultimately have small: "length (concat (butlast (last d))) < 2 ^ 64" by simp
  have "queue_holds crc (appended q p m' ?lo) (recs @ [data]) (dsm(p := d))"
    using appended_holds [OF holds p len m(1), of m' "pm_segment_size m" ?lo] m'(2,3) small
    by (simp add: d m(3))
  moreover have "q_global_offset q = of_nat (length recs)" using holds by (simp add: queue_holds_def)
  ultimately show ?thesis
    using m(1) m'(1) p
    by (cases clock) (simp add: persistq_append_def Let_def appended_def)
qed

lemma queue_mapping:
  assumes "queue_holds crc q recs dsm" "unat g < length recs"
  obtains p lo m where "p = partition_for_data crc q (recs ! unat g)"
    "map_of (q_offset_map q) g = Some \<lparr>om_partition_id = p, om_local_offset = lo\<rparr>"
    "located (dsm p) (length (in_partition crc q p (take (unat g) recs))) lo"
    "map_of (q_segment_managers q) p = Some m" "pq_manager_holds m (dsm p)"
    "concat (dsm p) = in_partition crc q p recs"
proof -
  have "mapping_holds crc q recs dsm g" and part:
    "\<And>p. 1 \<le> p \<and> p \<le> pc_num_partitions (q_config q) \<Longrightarrow> partition_holds crc q recs (dsm p) p"
    using assms(1) by (simp_all add: queue_holds_def)
  moreover have "0 < pc_num_partitions (q_config q)" using assms(1) by (simp add: queue_holds_def)
  ultimately show ?thesis
    using assms(2) that part [OF partition_range [of q crc "recs ! unat g"]]
    by (auto simp: mapping_holds_def partition_holds_def)
qed

lemma read_first_segment:
  assumes "pq_manager_holds m (ds # dss)"
  shows "pq_manager_read m lo = (if unat lo < length (concat ds) then Inr (drop (unat lo) (concat ds))
    else Inl ''Offset out of bounds'')"
proof -
  from assms obtain s ss where "pm_segments m = s # ss" "pq_segment_holds s ds"
    by (auto simp: pq_manager_holds_def list_all2_Cons2)
  then show ?thesis
    using pq_read_at [of s ds lo] pq_read_past [of s ds lo] by (simp add: pq_manager_read_def)
qed

lemma drop_filter_at: "drop (length (filter P (take g xs))) (filter P xs) = filter P (drop g xs)"
  by (metis append_eq_conv_conj append_take_drop_id filter_append)

lemma concat_take_drop: "drop (length (concat (take k ds))) (concat ds) = concat (drop k ds)"
  by (metis append_eq_conv_conj append_take_drop_id concat_append)

section \<open>Properties\<close>

text \<open>The configurations that \<open>validate_config\<close> accepts are exactly those in the documented
  ranges, except that a hot-data threshold that is not a number passes too.\<close>

lemma validate_config_iff:
  "validate_config c = Inr () \<longleftrightarrow>
     unat (pc_num_partitions c) \<in> {1..1024} \<and> unat (pc_segment_size c) \<in> {1024..10 * 1024 ^ 3}
     \<and> unat (pc_replication_factor c) \<in> {1..10} \<and> pc_storage_dir c \<noteq> []
     \<and> (\<nexists>a b. pc_storage_dir c = a @ ''..'' @ b) \<and> CHR 0x00 \<notin> set (pc_storage_dir c)
     \<and> (cc_hot_data_threshold (pc_cache_config c) = NaN
        \<or> (\<exists>t. cc_hot_data_threshold (pc_cache_config c) = Fin t \<and> 0 \<le> t \<and> t \<le> 1))"
proof -
  have pos: "w \<noteq> 0 \<longleftrightarrow> 1 \<le> unat w" for w :: u32
    by (metis One_nat_def Suc_leI not_one_le_zero unat_0 unat_gt_0)
  have thr: "\<not> (f64_less t (Fin 0) \<or> f64_less (Fin 1) t) \<longleftrightarrow> t = NaN \<or> (\<exists>r. t = Fin r \<and> 0 \<le> r \<and> r \<le> 1)"
    for t by (cases t) auto
  have num: "pc_num_partitions c \<le> 1024 \<longleftrightarrow> unat (pc_num_partitions c) \<le> 1024"
    "1024 \<le> pc_segment_size c \<longleftrightarrow> 1024 \<le> unat (pc_segment_size c)"
    "pc_segment_size c \<le> 10 * 1024 * 1024 * 1024 \<longleftrightarrow> unat (pc_segment_size c) \<le> 10 * 1024 ^ 3"
    "pc_replication_factor c \<le> 10 \<longleftrightarrow> unat (pc_replication_factor c) \<le> 10"
    by (simp_all add: word_le_nat_alt)
  have "validate_config c = Inr () \<longleftrightarrow>
      pc_num_partitions c \<noteq> 0 \<and> pc_num_partitions c \<le> 1024
      \<and> 1024 \<le> pc_segment_size c \<and> pc_segment_size c \<le> 10 * 1024 * 1024 * 1024
      \<and> pc_replication_factor c \<noteq> 0 \<and> pc_replication_factor c \<le> 10 \<and> pc_storage_dir c \<noteq> []
      \<and> \<not> contains_str ''..'' (pc_storage_dir c) \<and> \<not> contains_str [CHR 0x00] (pc_storage_dir c)
      \<and> \<not> (f64_less (cc_hot_data_threshold (pc_cache_config c)) (Fin 0)
           \<or> f64_less (Fin 1) (cc_hot_data_threshold (pc_cache_config c)))"
    unfolding validate_config_def guard_Inr_iff not_less by simp
  then show ?thesis
    unfolding num pos thr contains_char_iff contains_str_iff [of "''..''"] by simp
qed

text \<open>When the operating system grants every request, a queue is created exactly for the valid
  configurations; it is empty, has one partition for each number from 1 to \<open>num_partitions\<close>, and
  keeps the configured segment size.\<close>

lemma new_queue_is_empty:
  assumes "os_willing os"
  shows "case validate_config c of
      Inl e \<Rightarrow> persistq_new os c = Inl e
    | Inr _ \<Rightarrow> \<exists>q. persistq_new os c = Inr q \<and> queue_holds crc q [] (\<lambda>_. [[]])
        \<and> qs_total_records (persistq_stats q) = 0
        \<and> qs_num_partitions (persistq_stats q) = unat (pc_num_partitions c)
        \<and> pc_segment_size (q_config q) = pc_segment_size c"
proof (cases "validate_config c")
  case (Inl e)
  then show ?thesis by (simp add: persistq_new_def)
next
  case (Inr u)
  then have ok: "validate_config c = Inr ()" by simp
  with queue_new_ok [OF assms ok, of crc] show ?thesis by auto
qed

definition demo_os :: os_answers where
  "demo_os = \<lparr>os_canonicalize = Inr, os_create_dir_all = (\<lambda>_. Inr ()), os_canonicalize_again = Inr,
     os_open = (\<lambda>_. Inr []), os_flush = (\<lambda>_. Inr ())\<rparr>"

definition small_config :: persistq_config where
  "small_config = default_config\<lparr>pc_segment_size := 1024\<rparr>"

lemma demo_os_willing: "os_willing demo_os"
  by (simp add: os_willing_def demo_os_def)

lemma small_config_valid: "validate_config small_config = Inr ()"
proof -
  obtain t where t: "f64_lit 1 10 = Fin t" "0 \<le> t" "t \<le> 1" using f64_lit_share [of 1 10] by auto
  show ?thesis
    using t by (simp add: small_config_def default_config_def validate_config_def contains_str_def not_less)
qed

lemma new_queue_is_empty_example:
  "\<exists>q. persistq_new demo_os small_config = Inr q \<and> queue_holds (\<lambda>_. 0) q [] (\<lambda>_. [[]])"
  using new_queue_is_empty [OF demo_os_willing, of small_config "\<lambda>_. 0"]
  by (auto simp: small_config_valid)

lemma queue_holds_total:
  "queue_holds crc q recs dsm \<Longrightarrow> qs_total_records (persistq_stats q) = of_nat (length recs)"
  by (simp add: queue_holds_def persistq_stats_def)

text \<open>C6: Appending always succeeds when the data fits a segment and files can be created. The record
  gets the next number, counted from 0 without gaps, is routed to a partition between 1 and
  \<open>num_partitions\<close> that depends only on its data, and comes after all earlier records of that
  partition; no other partition and no earlier number changes.\<close>

theorem append_extends_queue:
  assumes "queue_holds crc q recs dsm" "os_willing os"
    and "length data \<le> unat (pc_segment_size (q_config q))" "length recs + 1 < 2 ^ 64"
  shows "\<exists>q' res. persistq_append crc os clock data q = Some (Inr res, q')
    \<and> unat (ar_global_offset res) = length recs
    \<and> ar_partition_id res = partition_for_data crc q data
    \<and> 1 \<le> ar_partition_id res \<and> ar_partition_id res \<le> pc_num_partitions (q_config q)
    \<and> queue_holds crc q' (recs @ [data]) (dsm(ar_partition_id res
        := placed (pc_segment_size (q_config q)) data (dsm (ar_partition_id res))))
    \<and> qs_total_records (persistq_stats q') = of_nat (length recs + 1)"
proof -
  obtain q' where q': "persistq_append crc os clock data q
      = Some (Inr \<lparr>ar_global_offset = of_nat (length recs), ar_partition_id = partition_for_data crc q data,
          ar_node_id = partition_for_data crc q data,
          ar_latency_us = saturating_sub (snd clock) (fst clock)\<rparr>, q')"
    "queue_holds crc q' (recs @ [data]) (dsm(partition_for_data crc q data
        := placed (pc_segment_size (q_config q)) data (dsm (partition_for_data crc q data))))"
    using queue_append_ok [OF assms refl refl, of clock] by blast
  have "0 < pc_num_partitions (q_config q)" using assms(1) by (simp add: queue_holds_def)
  then show ?thesis
    using q' partition_range [of q crc data] assms(4) queue_holds_total [OF q'(2)]
    by (simp add: unat_of_nat64)
qed

lemma demo_queue:
  obtains q where "persistq_new demo_os small_config = Inr q" "queue_holds (\<lambda>_. 0) q [] (\<lambda>_. [[]])"
    "pc_segment_size (q_config q) = 1024" "partition_for_data (\<lambda>_. 0) q = (\<lambda>_. 1)"
  using queue_new_ok [OF demo_os_willing small_config_valid, of "\<lambda>_. 0"]
  by (auto simp: small_config_def partition_for_data_def fun_eq_iff)

theorem append_extends_queue_witness:
  "\<exists>q q' res. persistq_new demo_os small_config = Inr q
    \<and> persistq_append (\<lambda>_. 0) demo_os (3, 5) [1, 2] q = Some (Inr res, q')
    \<and> unat (ar_global_offset res) = 0 \<and> ar_partition_id res = 1"
proof -
  obtain q where q: "persistq_new demo_os small_config = Inr q" "queue_holds (\<lambda>_. 0) q [] (\<lambda>_. [[]])"
    "pc_segment_size (q_config q) = 1024" "partition_for_data (\<lambda>_. 0) q = (\<lambda>_. 1)" by (rule demo_queue)
  show ?thesis
    using append_extends_queue [OF q(2) demo_os_willing, of "[1, 2]" "(3, 5)"] q by auto
qed

lemma read_unknown:
  assumes "queue_holds crc q recs dsm" "length recs \<le> unat g"
  shows "persistq_read clock g q = Inl (''Global offset '' @ nat_string (unat g) @ '' not found'')"
proof -
  have "mapping_holds crc q recs dsm g" using assms(1) by (simp add: queue_holds_def)
  then show ?thesis
    using assms(2) by (cases clock) (simp add: mapping_holds_def persistq_read_def)
qed

lemma read_partition_end:
  assumes "queue_holds crc q recs dsm"
    and g: "unat g < length recs" "length (dsm (partition_for_data crc q (recs ! unat g))) = 1"
    and "p = partition_for_data crc q (recs ! unat g)"
    and bytes: "bytes = recs ! unat g @ concat (in_partition crc q p (drop (unat g + 1) recs))"
  shows "if bytes = [] then persistq_read clock g q = Inl ''Offset out of bounds''
    else \<exists>res. persistq_read clock g q = Inr res \<and> qr_data (rr_record res) = bytes
      \<and> qr_offset (rr_record res) = g \<and> qr_partition_id (rr_record res) = p"
proof -
  let ?p = "partition_for_data crc q (recs ! unat g)"
  let ?rest = "in_partition crc q ?p (drop (unat g + 1) recs)"
  note lt = g(1)
  obtain lo m where
    lo: "map_of (q_offset_map q) g = Some \<lparr>om_partition_id = ?p, om_local_offset = lo\<rparr>"
      "located (dsm ?p) (length (in_partition crc q ?p (take (unat g) recs))) lo" and
    m: "map_of (q_segment_managers q) ?p = Some m" "pq_manager_holds m (dsm ?p)"
      "concat (dsm ?p) = in_partition crc q ?p recs"
    by (rule queue_mapping [OF assms(1) lt]) blast
  from g(2) obtain ds where ds: "dsm ?p = [ds]" by (metis One_nat_def length_0_conv length_Suc_conv)
  then have lo': "unat lo = length (concat (take (length (in_partition crc q ?p (take (unat g) recs))) ds))"
    using lo(2) by (auto simp: located_def)
  have "drop (unat g) recs = recs ! unat g # drop (unat g + 1) recs"
    using lt by (simp add: Cons_nth_drop_Suc)
  then have "drop (length (in_partition crc q ?p (take (unat g) recs))) ds = recs ! unat g # ?rest"
    using m(3) ds by (simp add: in_partition_def drop_filter_at)
  then have from_lo: "drop (unat lo) (concat ds) = bytes"
    by (simp add: lo' concat_take_drop bytes assms(4))
  then have "bytes = [] \<longleftrightarrow> length (concat ds) \<le> unat lo" by (metis drop_eq_Nil2)
  then have "pq_manager_read m lo = (if bytes = [] then Inl ''Offset out of bounds'' else Inr bytes)"
    using read_first_segment [of m ds "[]" lo] m(2) ds from_lo by auto
  then show ?thesis
    using lo(1) m(1) by (cases clock) (simp add: persistq_read_def assms(4))
qed

lemma read_single:
  assumes "queue_holds crc q recs dsm"
    and g: "unat g < length recs \<and> recs ! unat g \<noteq> []
      \<and> length (dsm (partition_for_data crc q (recs ! unat g))) = 1"
  shows "\<exists>res. persistq_read clock g q = Inr res
    \<and> qr_data (rr_record res) = recs ! unat g
      @ concat (in_partition crc q (partition_for_data crc q (recs ! unat g)) (drop (unat g + 1) recs))"
  using read_partition_end [OF assms(1) _ _ refl refl, of g clock] g by auto

text \<open>C32: While a partition has a single segment, reading a number returns the data appended under it
  followed by the data of every later record of the same partition (reads have no end marker), so
  it is exactly the appended data when no later record went to the partition, with the number and
  the partition. If there are no such bytes at all (an empty record, with only empty ones after it
  in its partition), the read is the error that the offset is out of bounds. A number not given
  out yet is an error.\<close>

theorem read_single_segment:
  assumes "queue_holds crc q recs dsm"
  shows "(length recs \<le> unat g \<longrightarrow> persistq_read clock g q
        = Inl (''Global offset '' @ nat_string (unat g) @ '' not found''))
    \<and> (let p = partition_for_data crc q (recs ! unat g);
          bytes = recs ! unat g @ concat (filter (\<lambda>d. partition_for_data crc q d = p) (drop (unat g + 1) recs))
        in unat g < length recs \<and> length (dsm p) = 1 \<longrightarrow>
          (if bytes = [] then persistq_read clock g q = Inl ''Offset out of bounds''
           else \<exists>res. persistq_read clock g q = Inr res \<and> qr_data (rr_record res) = bytes
             \<and> qr_offset (rr_record res) = g \<and> qr_partition_id (rr_record res) = p))"
  using read_unknown [OF assms, of g clock] read_partition_end [OF assms _ _ refl refl, of g clock]
  unfolding Let_def in_partition_def by blast

theorem read_single_segment_witness:
  "\<exists>q q1 q2 r1 r2 r. persistq_new demo_os small_config = Inr q
    \<and> persistq_append (\<lambda>_. 0) demo_os (3, 5) [1, 2] q = Some (r1, q1)
    \<and> persistq_append (\<lambda>_. 0) demo_os (3, 5) [3] q1 = Some (r2, q2)
    \<and> persistq_read (6, 7) 0 q2 = Inr r \<and> qr_data (rr_record r) = [1, 2, 3]"
proof -
  obtain q where q: "persistq_new demo_os small_config = Inr q" "queue_holds (\<lambda>_. 0) q [] (\<lambda>_. [[]])"
    "pc_segment_size (q_config q) = 1024" "partition_for_data (\<lambda>_. 0) q = (\<lambda>_. 1)" by (rule demo_queue)
  from queue_append_ok [OF q(2) demo_os_willing, of "[1, 2]" 1 _ "(3, 5)"] q(3,4) obtain r1 q1 where
    q1: "persistq_append (\<lambda>_. 0) demo_os (3, 5) [1, 2] q = Some (r1, q1)"
      "queue_holds (\<lambda>_. 0) q1 [[1, 2]] ((\<lambda>_. [[]])(1 := [[[1, 2]]]))" "q_config q1 = q_config q"
    by (auto simp: placed_def)
  have part: "partition_for_data (\<lambda>_. 0) q1 = (\<lambda>_. 1)"
    using q(4) q1(3) by (simp add: partition_for_data_def fun_eq_iff)
  from queue_append_ok [OF q1(2) demo_os_willing, of "[3]" 1 _ "(3, 5)"] q(3) q1(3) part obtain r2 q2 where
    q2: "persistq_append (\<lambda>_. 0) demo_os (3, 5) [3] q1 = Some (r2, q2)"
      "queue_holds (\<lambda>_. 0) q2 [[1, 2], [3]] ((\<lambda>_. [[]])(1 := [[[1, 2], [3]]]))" "q_config q2 = q_config q1"
    by (auto simp: placed_def)
  have part2: "partition_for_data (\<lambda>_. 0) q2 = (\<lambda>_. 1)"
    using part q2(3) by (simp add: partition_for_data_def fun_eq_iff)
  show ?thesis
    using read_single_segment [OF q2(2), of 0 "(6, 7)"] q(1) q1(1) q2(1) part2
    by (auto simp: Let_def)
qed

lemma pq_manager_append_oversize:
  assumes "os_willing os" "pq_manager_holds m dss" "unat (pm_segment_size m) < length data"
    and "length data < 2 ^ 63"
  shows "pq_manager_append os data m = None"
proof (rule ccontr)
  assume "pq_manager_append os data m \<noteq> None"
  then obtain y where "pq_manager_append os data m = Some y" by auto
  then have "os_willing os \<longrightarrow> length data < 2 ^ 63 \<longrightarrow>
      (\<forall>dss. pq_manager_holds m dss \<longrightarrow> unat (pm_segment_size m) < length data \<longrightarrow> False)"
  proof (rule pq_manager_append.raw_induct [where P = "\<lambda>os data m y. os_willing os \<longrightarrow> length data < 2 ^ 63 \<longrightarrow>
      (\<forall>dss. pq_manager_holds m dss \<longrightarrow> unat (pm_segment_size m) < length data \<longrightarrow> False)", rotated])
    fix f and os :: os_answers and data :: bytes and m and y :: "(string + u64) \<times> pq_manager"
    assume IH: "\<And>os data m y. f os data m = Some y \<Longrightarrow> os_willing os \<longrightarrow> length data < 2 ^ 63 \<longrightarrow>
        (\<forall>dss. pq_manager_holds m dss \<longrightarrow> unat (pm_segment_size m) < length data \<longrightarrow> False)"
      and eq: "(case pq_fast_path data m of
          (None, m1) \<Rightarrow> if pq_current_has_space m1 (length data) then f os data m1
            else (case pq_create_new_segment os m1 of (Inl e, m2) \<Rightarrow> Some (Inl e, m2)
              | (Inr x, m2) \<Rightarrow> f os data m2)
        | (Some res, m1) \<Rightarrow> Some (res, m1)) = Some y"
    show "os_willing os \<longrightarrow> length data < 2 ^ 63 \<longrightarrow>
        (\<forall>dss. pq_manager_holds m dss \<longrightarrow> unat (pm_segment_size m) < length data \<longrightarrow> False)"
    proof (intro allI impI)
      fix dss
      assume os: "os_willing os" and small: "length data < 2 ^ 63"
        and holds: "pq_manager_holds m dss" and big: "unat (pm_segment_size m) < length data"
      from big have full: "\<not> length (concat (last dss)) + length data \<le> unat (pm_segment_size m)"
        by simp
      obtain old where "os_open os (pq_next_path m) = Inr old" using os_willing_open [OF os] by blast
      from pq_create_holds [OF holds, of os, OF this] obtain m2 where
        m2: "pq_create_new_segment os m = (Inr (), m2)" "pq_manager_holds m2 (dss @ [[]])"
        "same_manager m m2" by blast
      have "f os data m2 = Some y"
        using eq full m2(1) pq_fast_path_full [OF holds small full] pq_space_iff [OF holds small] by simp
      from IH [OF this] m2 os small big show False by (auto simp: same_manager_def)
    qed
  qed
  with assms show False by blast
qed

text \<open>Reads look only at the first segment of a partition. When an append rolls over to a new
  segment, reading the number it got does not return the appended data: it returns everything
  the partition's first segment holds.\<close>

lemma read_after_rollover:
  assumes "queue_holds crc q recs dsm" "os_willing os"
    and "length data \<le> unat (pc_segment_size (q_config q))" "length recs + 1 < 2 ^ 64"
    and rolls: "unat (pc_segment_size (q_config q))
      < length (concat (last (dsm (partition_for_data crc q data)))) + length data"
    and nonempty: "concat (hd (dsm (partition_for_data crc q data))) \<noteq> []"
  shows "\<exists>q' res r. persistq_append crc os clock data q = Some (Inr res, q')
    \<and> persistq_read clock' (ar_global_offset res) q' = Inr r
    \<and> qr_data (rr_record r) = concat (hd (dsm (partition_for_data crc q data)))"
proof -
  let ?p = "partition_for_data crc q data"
  let ?d = "placed (pc_segment_size (q_config q)) data (dsm ?p)"
  have d: "?d = dsm ?p @ [[data]]" using rolls by (simp add: placed_def)
  obtain q' where q': "persistq_append crc os clock data q
      = Some (Inr \<lparr>ar_global_offset = of_nat (length recs), ar_partition_id = ?p, ar_node_id = ?p,
          ar_latency_us = saturating_sub (snd clock) (fst clock)\<rparr>, q')"
    "queue_holds crc q' (recs @ [data]) (dsm(?p := ?d))" "q_config q' = q_config q"
    "map_of (q_offset_map q') (of_nat (length recs)) = Some \<lparr>om_partition_id = ?p, om_local_offset = 0\<rparr>"
    using queue_append_ok [OF assms(1-4) refl refl, of clock] by (auto simp: d)
  have p: "1 \<le> ?p" "?p \<le> pc_num_partitions (q_config q)"
    using assms(1) partition_range [of q crc data] by (simp_all add: queue_holds_def)
  then obtain m where m: "map_of (q_segment_managers q') ?p = Some m" "pq_manager_holds m ?d"
    using q'(2,3) by (auto simp: queue_holds_def partition_holds_def)
  have "partition_holds crc q recs (dsm ?p) ?p" using assms(1) p by (simp add: queue_holds_def)
  then have "dsm ?p \<noteq> []"
    unfolding partition_holds_def using pq_manager_holds_last(2) by blast
  then obtain ds dss where ds: "dsm ?p = ds # dss" by (cases "dsm ?p") auto
  have "pq_manager_read m 0 = Inr (concat ds)"
    using read_first_segment [of m ds "dss @ [[data]]" 0] m(2) d ds nonempty by simp
  then show ?thesis
    using q'(1,4) m(1) ds by (cases clock') (simp add: persistq_read_def)
qed

lemma read_after_rollover_example:
  "\<exists>q q1 q2 r1 r2 r. persistq_new demo_os small_config = Inr q
    \<and> persistq_append (\<lambda>_. 0) demo_os (3, 5) [1, 2] q = Some (r1, q1)
    \<and> persistq_append (\<lambda>_. 0) demo_os (3, 5) (replicate 1023 3) q1 = Some (Inr r2, q2)
    \<and> persistq_read (6, 7) (ar_global_offset r2) q2 = Inr r \<and> qr_data (rr_record r) = [1, 2]"
proof -
  obtain q where q: "persistq_new demo_os small_config = Inr q" "queue_holds (\<lambda>_. 0) q [] (\<lambda>_. [[]])"
    "pc_segment_size (q_config q) = 1024" "partition_for_data (\<lambda>_. 0) q = (\<lambda>_. 1)" by (rule demo_queue)
  from queue_append_ok [OF q(2) demo_os_willing, of "[1, 2]" 1 _ "(3, 5)"] q(3,4) obtain r1 q1 where
    q1: "persistq_append (\<lambda>_. 0) demo_os (3, 5) [1, 2] q = Some (r1, q1)"
      "queue_holds (\<lambda>_. 0) q1 [[1, 2]] ((\<lambda>_. [[]])(1 := [[[1, 2]]]))" "q_config q1 = q_config q"
    by (auto simp: placed_def)
  have part: "partition_for_data (\<lambda>_. 0) q1 = (\<lambda>_. 1)"
    using q(4) q1(3) by (simp add: partition_for_data_def fun_eq_iff)
  have rolls: "length (replicate 1023 (3 :: u8)) \<le> unat (pc_segment_size (q_config q1))"
    "unat (pc_segment_size (q_config q1)) < length (concat (last (((\<lambda>_. [[]])(1 := [[[1, 2 :: u8]]])) (1 :: u32))))
       + length (replicate 1023 (3 :: u8))"
    "concat (hd (((\<lambda>_. [[]])(1 := [[[1, 2 :: u8]]])) (1 :: u32))) \<noteq> []"
    "concat (hd (((\<lambda>_. [[]])(1 := [[[1, 2 :: u8]]])) (1 :: u32))) = [1, 2]"
    using q(3) q1(3) by simp_all
  have "length [[1, 2 :: u8]] + 1 < 2 ^ 64" by simp
  from read_after_rollover [OF q1(2) demo_os_willing rolls(1) this, unfolded part, OF rolls(2,3)]
  show ?thesis using q(1) q1(1) unfolding rolls(4) by blast
qed

text \<open>Data larger than a segment is never answered: \<open>append\<close> creates segment after segment.\<close>

lemma oversize_data_never_returns:
  assumes "queue_holds crc q recs dsm" "os_willing os"
    and "unat (pc_segment_size (q_config q)) < length data" "length data < 2 ^ 63"
  shows "persistq_append crc os clock data q = None"
proof -
  have "0 < pc_num_partitions (q_config q)" using assms(1) by (simp add: queue_holds_def)
  then obtain m dss where "map_of (q_segment_managers q) (partition_for_data crc q data) = Some m"
    "pq_manager_holds m dss" "pm_segment_size m = pc_segment_size (q_config q)"
    using partition_range [of q crc data] assms(1) by (auto simp: queue_holds_def partition_holds_def)
  with assms show ?thesis
    using pq_manager_append_oversize [of os m dss data]
    by (cases clock) (simp add: persistq_append_def)
qed

lemma oversize_data_never_returns_example:
  "\<exists>q. persistq_new demo_os small_config = Inr q
    \<and> persistq_append (\<lambda>_. 0) demo_os (3, 5) (replicate 1025 0) q = None"
proof -
  obtain q where q: "persistq_new demo_os small_config = Inr q" "queue_holds (\<lambda>_. 0) q [] (\<lambda>_. [[]])"
    "pc_segment_size (q_config q) = 1024" by (rule demo_queue)
  show ?thesis
    using oversize_data_never_returns [OF q(2) demo_os_willing, of "replicate 1025 0" "(3, 5)"] q
    by simp
qed

section \<open>A queue with one partition\<close>

text \<open>The queue of a mailbox: one partition, whose data is all in its first segment of 64 MB. It
  provides the contract \<open>byte_queue\<close>.\<close>

definition single_holds :: "(bytes \<Rightarrow> u32) \<Rightarrow> persist_q \<Rightarrow> bytes list \<Rightarrow> bool" where
  "single_holds crc q recs \<longleftrightarrow> pc_num_partitions (q_config q) = 1 \<and> queue_holds crc q recs (\<lambda>_. [recs])
     \<and> pc_segment_size (q_config q) = 64 * 1024 * 1024"

definition single_read :: "u64 \<times> u64 \<Rightarrow> u64 \<Rightarrow> persist_q \<Rightarrow> string + bytes" where
  "single_read clock i q = and_then (persistq_read clock i q) (\<lambda>res. Inr (qr_data (rr_record res)))"

lemma partition_one:
  assumes "pc_num_partitions (q_config q) = 1"
  shows "partition_for_data crc q d = 1" "in_partition crc q 1 ds = ds"
  using assms by (simp_all add: partition_for_data_def in_partition_def)

lemma queue_holds_cong:
  assumes "queue_holds crc q recs dsm" "pc_num_partitions (q_config q) = 1" "dsm 1 = dsm' 1"
  shows "queue_holds crc q recs dsm'"
proof -
  have "p = 1" if "1 \<le> p" "p \<le> 1" for p :: u32 using that by simp
  moreover have "mapping_holds crc q recs dsm' g = mapping_holds crc q recs dsm g" for g
    using assms(3) by (simp add: mapping_holds_def partition_one [OF assms(2)])
  ultimately show ?thesis
    using assms unfolding queue_holds_def by (metis order.refl)
qed

interpretation single: byte_queue "single_holds crc" "persistq_append crc os clock" "single_read clock"
    "64 * 1024 * 1024" "os_willing os" for crc os clock
proof
  fix q recs b and i :: u64
  assume h: "single_holds crc q recs"
  note one = partition_one [of q crc]
  show "\<exists>r q'. persistq_append crc os clock b q = Some (Inr r, q') \<and> single_holds crc q' (recs @ [b])"
    if g: "os_willing os" "length (concat recs) + length b \<le> 64 * 1024 * 1024" "length recs + 1 < 2 ^ 64"
  proof -
    have q: "pc_num_partitions (q_config q) = 1" "queue_holds crc q recs (\<lambda>_. [recs])"
      "pc_segment_size (q_config q) = 64 * 1024 * 1024" using h by (simp_all add: single_holds_def)
    from queue_append_ok [OF q(2) g(1) _ g(3) refl refl, of b clock] g(2) q(1,3)
    obtain res q' where q': "persistq_append crc os clock b q = Some (Inr res, q')"
      "queue_holds crc q' (recs @ [b]) ((\<lambda>_. [recs])(1 := [recs @ [b]]))" "q_config q' = q_config q"
      by (auto simp: placed_def one)
    have "queue_holds crc q' (recs @ [b]) (\<lambda>_. [recs @ [b]])"
      using queue_holds_cong [OF q'(2)] q'(3) q(1) by simp
    with q q' show ?thesis by (simp add: single_holds_def)
  qed
  show "single_read clock i q = Inr (concat (drop (unat i) recs))"
    if g: "unat i < length recs" "recs ! unat i \<noteq> []"
  proof -
    have q: "pc_num_partitions (q_config q) = 1" "queue_holds crc q recs (\<lambda>_. [recs])"
      using h by (simp_all add: single_holds_def)
    obtain res where "persistq_read clock i q = Inr res"
      "qr_data (rr_record res) = recs ! unat i @ concat (drop (unat i + 1) recs)"
      using read_single [OF q(2), of i clock] g by (auto simp: one [OF q(1)])
    moreover have "drop (unat i) recs = recs ! unat i # drop (unat i + 1) recs"
      using g(1) by (simp add: Cons_nth_drop_Suc)
    ultimately show ?thesis by (simp add: single_read_def)
  qed
  show "\<exists>e. single_read clock i q = Inl e" if "length recs \<le> unat i"
    using read_unknown [of crc q recs, OF _ that, of _ clock] h by (auto simp: single_holds_def single_read_def)
qed

end
