(* ===== verification/Mailbox.thy ===== *)
theory Mailbox
  imports PersistQ
begin

text \<open>
  The mailbox system of \<open>src/mailbox.rs\<close>: addresses, messages, the router, which appends a
  message to the recipient's queue, and the handles through which a mailbox sends, receives
  and peeks. The queues are those of \<open>PersistQ\<close>; a handle refers to its queue by the address,
  which is sound because the system never replaces a queue.

  The JSON encoding of \<open>serde_json\<close>, the UUIDs and the clock are parameters.
\<close>

section \<open>Data\<close>

type_synonym mailbox_address = string

datatype mailbox_error =
    PersistQError string
  | MailboxNotFound string
  | InvalidAddress string
  | MailboxSerialization string
  | MessageTooLarge nat
  | MailboxIo string

record mailbox_message =
  mm_from :: mailbox_address
  mm_to :: mailbox_address
  mm_id :: string
  mm_timestamp :: u64
  mm_body :: bytes
  mm_subject :: "string option"
  mm_reply_to :: "mailbox_address option"

record mailbox_system =
  mx_mailboxes :: "(mailbox_address \<times> persist_q) list"
  mx_base_dir :: string
  mx_default_config :: persistq_config

record mailbox =
  mb_address :: mailbox_address
  mb_read_offset :: u64

record json_codec =
  to_json :: "mailbox_message \<Rightarrow> string + bytes"
  from_json :: "bytes \<Rightarrow> string + mailbox_message"

section \<open>Addresses and messages\<close>

definition mailbox_address_new :: "string \<Rightarrow> mailbox_error + mailbox_address" where
  "mailbox_address_new address =
     (if address = [] then Inl (InvalidAddress ''Address cannot be empty'') else Inr address)"

text \<open>\<open>stamp\<close> is a fresh UUID and the clock in microseconds.\<close>

definition mailbox_message_new ::
    "string \<times> u64 \<Rightarrow> mailbox_address \<Rightarrow> mailbox_address \<Rightarrow> bytes \<Rightarrow> mailbox_message" where
  "mailbox_message_new stamp from_addr to_addr body =
     \<lparr>mm_from = from_addr, mm_to = to_addr, mm_id = fst stamp, mm_timestamp = snd stamp, mm_body = body,
      mm_subject = None, mm_reply_to = None\<rparr>"

definition with_subject :: "string \<Rightarrow> mailbox_message \<Rightarrow> mailbox_message" where
  "with_subject s m = m\<lparr>mm_subject := Some s\<rparr>"

definition with_reply_to :: "mailbox_address \<Rightarrow> mailbox_message \<Rightarrow> mailbox_message" where
  "with_reply_to a m = m\<lparr>mm_reply_to := Some a\<rparr>"

definition mailbox_message_to_bytes :: "json_codec \<Rightarrow> mailbox_message \<Rightarrow> mailbox_error + bytes" where
  "mailbox_message_to_bytes json m = map_err MailboxSerialization (to_json json m)"

definition mailbox_message_from_bytes :: "json_codec \<Rightarrow> bytes \<Rightarrow> mailbox_error + mailbox_message" where
  "mailbox_message_from_bytes json bs = map_err MailboxSerialization (from_json json bs)"

section \<open>Sending\<close>

text \<open>What sending needs from outside: the CRC and the operating system of the queue, the queue's
  clock readings, and the JSON library. No value if the queue's append does not return.\<close>

record outside =
  out_crc :: "bytes \<Rightarrow> u32"
  out_os :: os_answers
  out_clock :: "u64 \<times> u64"
  out_json :: json_codec

definition route_message ::
    "outside \<Rightarrow> mailbox_message \<Rightarrow> mailbox_system \<Rightarrow> ((mailbox_error + string) \<times> mailbox_system) option" where
  "route_message out m sys =
     (case map_of (mx_mailboxes sys) (mm_to m) of
        None \<Rightarrow> Some (Inl (MailboxNotFound (mm_to m)), sys)
      | Some dest_queue \<Rightarrow>
          (case mailbox_message_to_bytes (out_json out) m of
             Inl e \<Rightarrow> Some (Inl e, sys)
           | Inr bytes \<Rightarrow>
               (case persistq_append (out_crc out) (out_os out) (out_clock out) bytes dest_queue of
                  None \<Rightarrow> None
                | Some (res, q') \<Rightarrow>
                    let sys' = sys\<lparr>mx_mailboxes := hash_insert (mm_to m) q' (mx_mailboxes sys)\<rparr>
                    in Some (case res of Inl e \<Rightarrow> Inl (PersistQError e) | Inr _ \<Rightarrow> Inr (mm_id m), sys'))))"

definition send_to ::
    "outside \<Rightarrow> string \<times> u64 \<Rightarrow> string \<Rightarrow> bytes \<Rightarrow> mailbox \<Rightarrow> mailbox_system
      \<Rightarrow> ((mailbox_error + string) \<times> mailbox_system) option" where
  "send_to out stamp to_addr body mb sys =
     (case mailbox_address_new to_addr of
        Inl e \<Rightarrow> Some (Inl e, sys)
      | Inr addr \<Rightarrow> route_message out (mailbox_message_new stamp (mb_address mb) addr body) sys)"

definition send_with_subject ::
    "outside \<Rightarrow> string \<times> u64 \<Rightarrow> string \<Rightarrow> string \<Rightarrow> bytes \<Rightarrow> mailbox \<Rightarrow> mailbox_system
      \<Rightarrow> ((mailbox_error + string) \<times> mailbox_system) option" where
  "send_with_subject out stamp to_addr subject body mb sys =
     (case mailbox_address_new to_addr of
        Inl e \<Rightarrow> Some (Inl e, sys)
      | Inr addr \<Rightarrow>
          route_message out (with_subject subject (mailbox_message_new stamp (mb_address mb) addr body)) sys)"

definition reply ::
    "outside \<Rightarrow> string \<times> u64 \<Rightarrow> mailbox_message \<Rightarrow> bytes \<Rightarrow> mailbox \<Rightarrow> mailbox_system
      \<Rightarrow> ((mailbox_error + string) \<times> mailbox_system) option" where
  "reply out stamp original body mb sys =
     (let to_addr = (case mm_reply_to original of Some a \<Rightarrow> a | None \<Rightarrow> mm_from original);
          subject = (case mm_subject original of Some s \<Rightarrow> ''Re: '' @ s | None \<Rightarrow> ''Re: (no subject)'')
      in route_message out (with_subject subject (mailbox_message_new stamp (mb_address mb) to_addr body)) sys)"

section \<open>Receiving\<close>

text \<open>The queue of a handle; the system holds one for every handle it gave out.\<close>

definition queue_of :: "mailbox_system \<Rightarrow> mailbox \<Rightarrow> persist_q" where
  "queue_of sys mb = the (map_of (mx_mailboxes sys) (mb_address mb))"

definition read_next :: "outside \<Rightarrow> mailbox_system \<Rightarrow> mailbox \<Rightarrow> mailbox_error + bytes" where
  "read_next out sys mb =
     and_then (map_err PersistQError (persistq_read (out_clock out) (mb_read_offset mb) (queue_of sys mb)))
       (\<lambda>res. Inr (qr_data (rr_record res)))"

definition receive ::
    "outside \<Rightarrow> mailbox_system \<Rightarrow> mailbox \<Rightarrow> (mailbox_error + mailbox_message option) \<times> mailbox" where
  "receive out sys mb =
     (case read_next out sys mb of
        Inl e \<Rightarrow> (Inl e, mb)
      | Inr data \<Rightarrow>
          if data \<noteq> []
          then let mb' = mb\<lparr>mb_read_offset := mb_read_offset mb + 1\<rparr>
               in (case mailbox_message_from_bytes (out_json out) data of
                     Inl e \<Rightarrow> (Inl e, mb')
                   | Inr m \<Rightarrow> (Inr (Some m), mb'))
          else (Inr None, mb))"

definition peek :: "outside \<Rightarrow> mailbox_system \<Rightarrow> mailbox \<Rightarrow> mailbox_error + mailbox_message option" where
  "peek out sys mb =
     and_then (read_next out sys mb) (\<lambda>data.
       if data \<noteq> [] then and_then (mailbox_message_from_bytes (out_json out) data) (\<lambda>m. Inr (Some m))
       else Inr None)"

definition pending_count :: "outside \<Rightarrow> mailbox_system \<Rightarrow> mailbox \<Rightarrow> u64" where
  "pending_count out sys mb =
     (case read_next out sys mb of Inr data \<Rightarrow> (if data \<noteq> [] then 1 else 0) | Inl _ \<Rightarrow> 0)"

section \<open>The system\<close>

definition mailbox_system_new :: "os_answers \<Rightarrow> string \<Rightarrow> mailbox_error + mailbox_system" where
  "mailbox_system_new os base_dir =
     and_then (map_err MailboxIo (os_create_dir_all os base_dir)) (\<lambda>_.
       Inr \<lparr>mx_mailboxes = [], mx_base_dir = base_dir,
         mx_default_config = \<lparr>pc_storage_dir = base_dir, pc_segment_size = 64 * 1024 * 1024,
           pc_num_partitions = 1, pc_replication_factor = 1,
           pc_cache_config = \<lparr>cc_enabled = False, cc_size_bytes = 0, cc_hot_data_threshold = Fin 0\<rparr>\<rparr>\<rparr>)"

definition mailbox_dir :: "string \<Rightarrow> string \<Rightarrow> string" where
  "mailbox_dir base address =
     base @ ''/mailbox_'' @ map (\<lambda>c. if c = CHR ''@'' then CHR ''_'' else c) address"

definition create_mailbox ::
    "os_answers \<Rightarrow> string \<Rightarrow> mailbox_system \<Rightarrow> (mailbox_error + mailbox) \<times> mailbox_system" where
  "create_mailbox os address sys =
     (case mailbox_address_new address of
        Inl e \<Rightarrow> (Inl e, sys)
      | Inr addr \<Rightarrow>
          if map_of (mx_mailboxes sys) addr \<noteq> None
          then (Inl (InvalidAddress (''Mailbox '' @ [CHR 0x27] @ address @ [CHR 0x27] @ '' already exists'')), sys)
          else let dir = mailbox_dir (mx_base_dir sys) address in
          case os_create_dir_all os dir of
            Inl e \<Rightarrow> (Inl (MailboxIo e), sys)
          | Inr _ \<Rightarrow>
              (case persistq_new os ((mx_default_config sys)\<lparr>pc_storage_dir := dir\<rparr>) of
                 Inl e \<Rightarrow> (Inl (PersistQError e), sys)
               | Inr queue \<Rightarrow> (Inr \<lparr>mb_address = addr, mb_read_offset = 0\<rparr>,
                   sys\<lparr>mx_mailboxes := hash_insert addr queue (mx_mailboxes sys)\<rparr>)))"

definition get_mailbox :: "string \<Rightarrow> mailbox_system \<Rightarrow> mailbox_error + mailbox option" where
  "get_mailbox address sys =
     and_then (mailbox_address_new address) (\<lambda>addr.
       case map_of (mx_mailboxes sys) addr of
         Some _ \<Rightarrow> Inr (Some \<lparr>mb_address = addr, mb_read_offset = 0\<rparr>)
       | None \<Rightarrow> Inr None)"

definition list_mailboxes :: "mailbox_system \<Rightarrow> mailbox_address list" where
  "list_mailboxes sys = map fst (mx_mailboxes sys)"

definition mailbox_stats :: "mailbox_system \<Rightarrow> (mailbox_address \<times> u64) list" where
  "mailbox_stats sys = map (\<lambda>(addr, _). (addr, 0)) (mx_mailboxes sys)"

section \<open>What a mailbox holds\<close>

text \<open>The mailbox's queue has one segment and holds the byte strings \<open>recs\<close>; the facts about it are those
  of \<open>byte_queue\<close>.\<close>

definition mailbox_holds :: "outside \<Rightarrow> mailbox_system \<Rightarrow> mailbox_address \<Rightarrow> bytes list \<Rightarrow> bool" where
  "mailbox_holds out sys addr recs \<longleftrightarrow>
     (\<exists>q. map_of (mx_mailboxes sys) addr = Some q \<and> single_holds (out_crc out) q recs)"

lemma route_message_ok:
  assumes holds: "mailbox_holds out sys (mm_to m) recs" and "os_willing (out_os out)"
    and json: "to_json (out_json out) m = Inr b"
    and fits: "length (concat recs) + length b \<le> 64 * 1024 * 1024" and "length recs + 1 < 2 ^ 64"
  shows "\<exists>sys'. route_message out m sys = Some (Inr (mm_id m), sys')
    \<and> mailbox_holds out sys' (mm_to m) (recs @ [b])
    \<and> (\<forall>a. a \<noteq> mm_to m \<longrightarrow> map_of (mx_mailboxes sys') a = map_of (mx_mailboxes sys) a)"
proof -
  from holds obtain q where q: "map_of (mx_mailboxes sys) (mm_to m) = Some q" "single_holds (out_crc out) q recs"
    by (auto simp: mailbox_holds_def)
  from single.app_accepts [OF q(2) assms(2,4,5), of "out_clock out"] obtain res q' where
    "persistq_append (out_crc out) (out_os out) (out_clock out) b q = Some (Inr res, q')"
    "single_holds (out_crc out) q' (recs @ [b])" by blast
  with q(1) json show ?thesis
    by (simp add: route_message_def mailbox_message_to_bytes_def mailbox_holds_def)
qed

lemma read_next_single:
  assumes "map_of (mx_mailboxes sys) (mb_address mb) = Some q"
  shows "read_next out sys mb = map_err PersistQError (single_read (out_clock out) (mb_read_offset mb) q)"
  using assms by (cases "persistq_read (out_clock out) (mb_read_offset mb) q")
    (simp_all add: read_next_def single_read_def queue_of_def)

lemma read_next_pending:
  "mailbox_holds out sys (mb_address mb) (recs @ b # bs) \<Longrightarrow> b \<noteq> [] \<Longrightarrow>
    unat (mb_read_offset mb) = length recs \<Longrightarrow> read_next out sys mb = Inr (concat (b # bs))"
  by (auto simp: mailbox_holds_def read_next_single single.read_pending)

lemma read_next_last:
  "mailbox_holds out sys (mb_address mb) (recs @ [b]) \<Longrightarrow> b \<noteq> [] \<Longrightarrow> unat (mb_read_offset mb) = length recs \<Longrightarrow>
    read_next out sys mb = Inr b"
  by (simp add: read_next_pending)

lemma read_next_two:
  "mailbox_holds out sys (mb_address mb) (recs @ [b1, b2]) \<Longrightarrow> b1 \<noteq> [] \<Longrightarrow>
    unat (mb_read_offset mb) = length recs \<Longrightarrow> read_next out sys mb = Inr (b1 @ b2)"
  by (simp add: read_next_pending)

lemma read_next_beyond:
  assumes "mailbox_holds out sys (mb_address mb) recs" "length recs \<le> unat (mb_read_offset mb)"
  shows "\<exists>e. read_next out sys mb = Inl (PersistQError e)"
proof -
  from assms(1) obtain q where q: "map_of (mx_mailboxes sys) (mb_address mb) = Some q" "single_holds (out_crc out) q recs"
    by (auto simp: mailbox_holds_def)
  from single.read_beyond [OF q(2) assms(2), of "out_clock out"] show ?thesis
    by (auto simp: read_next_single [OF q(1)])
qed

text \<open>A new mailbox is empty.\<close>

lemma create_mailbox_ok:
  assumes "mailbox_system_new os base = Inr sys0" "mx_default_config sys = mx_default_config sys0"
    and "mx_base_dir sys = base" "os_willing os" "address \<noteq> []" "map_of (mx_mailboxes sys) address = None"
    and dir: "\<not> contains_str ''..'' (mailbox_dir base address)" "CHR 0x00 \<notin> set (mailbox_dir base address)"
  shows "\<exists>sys'. create_mailbox os address sys = (Inr \<lparr>mb_address = address, mb_read_offset = 0\<rparr>, sys')
    \<and> mailbox_holds (out\<lparr>out_os := os\<rparr>) sys' address []
    \<and> (\<forall>a. a \<noteq> address \<longrightarrow> map_of (mx_mailboxes sys') a = map_of (mx_mailboxes sys) a)
    \<and> mx_default_config sys' = mx_default_config sys0 \<and> mx_base_dir sys' = base"
proof -
  let ?dir = "mailbox_dir base address" and ?c = "(mx_default_config sys)\<lparr>pc_storage_dir := mailbox_dir base address\<rparr>"
  have c: "pc_num_partitions ?c = 1" "pc_segment_size ?c = 64 * 1024 * 1024" "validate_config ?c = Inr ()"
    using assms(1,2) dir contains_char_iff [of "CHR 0x00" ?dir]
    by (auto simp: mailbox_system_new_def result_iffs validate_config_def mailbox_dir_def)
  from queue_new_ok [OF assms(4) c(3), of "out_crc out"] obtain q where
    q: "persistq_new os ?c = Inr q" "queue_holds (out_crc out) q [] (\<lambda>_. [[]])"
    "pc_segment_size (q_config q) = pc_segment_size ?c" "pc_num_partitions (q_config q) = pc_num_partitions ?c" by blast
  have "os_create_dir_all os ?dir = Inr ()" using assms(4) by (simp add: os_willing_def)
  with q c assms show ?thesis
    by (simp add: create_mailbox_def mailbox_address_new_def Let_def mailbox_holds_def single_holds_def)
qed

section \<open>Properties\<close>

text \<open>C9: A message sent to a mailbox that has received everything sent to it before arrives, as long as
  all that was ever sent to the mailbox, with this message, fits its first segment (64 MiB):
  \<open>send_to\<close> returns its id, the next \<open>receive\<close> returns the message with this sender, recipient, id
  and body, and the read offset moves past it. No other mailbox changes. (The JSON library is
  assumed to read back the message it wrote, and the system to grant its requests. Once the
  queue has more segments, a receive reads from the first one, see \<open>read_after_rollover\<close>.)\<close>

theorem sent_message_is_received:
  assumes "mailbox_holds out sys to_addr recs" "os_willing (out_os out)" "to_addr \<noteq> []"
    and m: "m = mailbox_message_new stamp (mb_address sender) to_addr body"
    and json: "to_json (out_json out) m = Inr b" "b \<noteq> []" "from_json (out_json out) b = Inr m"
    and "length (concat recs) + length b \<le> 64 * 1024 * 1024" "length recs + 1 < 2 ^ 64"
    and rcv: "mb_address rcv = to_addr" "unat (mb_read_offset rcv) = length recs"
  shows "\<exists>sys'. send_to out stamp to_addr body sender sys = Some (Inr (fst stamp), sys')
    \<and> receive out sys' rcv = (Inr (Some m), rcv\<lparr>mb_read_offset := mb_read_offset rcv + 1\<rparr>)
    \<and> (\<forall>a. a \<noteq> to_addr \<longrightarrow> map_of (mx_mailboxes sys') a = map_of (mx_mailboxes sys) a)"
proof -
  have to_addr: "mm_to m = to_addr" "mm_id m = fst stamp" by (simp_all add: m mailbox_message_new_def)
  from route_message_ok [of out sys m recs b] assms to_addr obtain sys' where
    sys': "route_message out m sys = Some (Inr (fst stamp), sys')" "mailbox_holds out sys' to_addr (recs @ [b])"
    "\<forall>a. a \<noteq> to_addr \<longrightarrow> map_of (mx_mailboxes sys') a = map_of (mx_mailboxes sys) a" by auto
  have "read_next out sys' rcv = Inr b"
    using read_next_last [of out sys' rcv recs b] sys'(2) rcv json(2) by simp
  then have "receive out sys' rcv = (Inr (Some m), rcv\<lparr>mb_read_offset := mb_read_offset rcv + 1\<rparr>)"
    using json by (simp add: receive_def mailbox_message_from_bytes_def)
  moreover have "send_to out stamp to_addr body sender sys = Some (Inr (fst stamp), sys')"
    using sys'(1) assms(3) by (simp add: send_to_def mailbox_address_new_def m)
  ultimately show ?thesis using sys'(3) by blast
qed

text \<open>A system with one mailbox, and a JSON library that knows two messages.\<close>

definition first_message :: mailbox_message where
  "first_message = mailbox_message_new (''id1'', 5) ''a'' ''b'' [10]"

definition second_message :: mailbox_message where
  "second_message = mailbox_message_new (''id2'', 6) ''a'' ''b'' [20]"

definition two_message_json :: json_codec where
  "two_message_json = \<lparr>to_json = (\<lambda>m. if m = first_message then Inr [1] else if m = second_message then Inr [2]
       else Inl ''unsupported''),
     from_json = (\<lambda>bs. if bs = [1] then Inr first_message else if bs = [2] then Inr second_message
       else Inl ''trailing characters'')\<rparr>"

definition demo_outside :: outside where
  "demo_outside = \<lparr>out_crc = (\<lambda>_. 0), out_os = demo_os, out_clock = (3, 5), out_json = two_message_json\<rparr>"

lemma two_messages [simp]: "first_message \<noteq> second_message"
  by (simp add: first_message_def second_message_def mailbox_message_new_def)

lemma demo_mailbox:
  obtains sys where "mailbox_holds demo_outside sys ''b'' []"
    "mailbox_system_new demo_os ''d'' = Inr sys0 \<Longrightarrow> snd (create_mailbox demo_os ''b'' sys0) = sys"
proof -
  obtain sys0 where sys0: "mailbox_system_new demo_os ''d'' = Inr sys0"
    by (simp add: mailbox_system_new_def demo_os_def)
  then have "mx_base_dir sys0 = ''d''" "map_of (mx_mailboxes sys0) ''b'' = None"
    by (auto simp: mailbox_system_new_def demo_os_def)
  moreover have "\<not> contains_str ''..'' (mailbox_dir ''d'' ''b'')" "CHR 0x00 \<notin> set (mailbox_dir ''d'' ''b'')"
    by (simp_all add: mailbox_dir_def contains_str_def)
  ultimately obtain sys where "create_mailbox demo_os ''b'' sys0 = (Inr \<lparr>mb_address = ''b'', mb_read_offset = 0\<rparr>, sys)"
    "mailbox_holds (demo_outside\<lparr>out_os := demo_os\<rparr>) sys ''b'' []"
    using create_mailbox_ok [OF sys0 refl _ demo_os_willing, of "''b''" demo_outside] by auto
  moreover have "demo_outside\<lparr>out_os := demo_os\<rparr> = demo_outside" by (simp add: demo_outside_def)
  ultimately show ?thesis using that sys0 by (metis Inr_inject snd_conv)
qed

theorem sent_message_is_received_witness:
  "\<exists>sys sys'. mailbox_holds demo_outside sys ''b'' []
    \<and> send_to demo_outside (''id1'', 5) ''b'' [10] \<lparr>mb_address = ''a'', mb_read_offset = 0\<rparr> sys = Some (Inr ''id1'', sys')
    \<and> receive demo_outside sys' \<lparr>mb_address = ''b'', mb_read_offset = 0\<rparr>
      = (Inr (Some first_message), \<lparr>mb_address = ''b'', mb_read_offset = 1\<rparr>)"
proof -
  obtain sys where sys: "mailbox_holds demo_outside sys ''b'' []" by (rule demo_mailbox)
  have "os_willing (out_os demo_outside)" "to_json (out_json demo_outside) first_message = Inr [1]"
    "from_json (out_json demo_outside) [1] = Inr first_message"
    by (simp_all add: demo_outside_def demo_os_willing two_message_json_def)
  from sent_message_is_received [OF sys this(1) _ _ this(2) _ this(3), of "(''id1'', 5)"
      "\<lparr>mb_address = ''a'', mb_read_offset = 0\<rparr>" "[10]" "\<lparr>mb_address = ''b'', mb_read_offset = 0\<rparr>"] sys
  show ?thesis by (force simp: first_message_def)
qed

text \<open>When two messages arrive before the first is received, the first is lost. A read returns the
  bytes of both, which the JSON library refuses (trailing characters), so \<open>receive\<close> fails; but
  the read offset has moved on, and the next \<open>receive\<close> returns the second message.\<close>

lemma second_message_hides_first:
  assumes "mailbox_holds out sys addr recs" "os_willing (out_os out)" "addr \<noteq> []"
    and m: "m1 = mailbox_message_new stamp1 (mb_address sender) addr body1"
      "m2 = mailbox_message_new stamp2 (mb_address sender) addr body2"
    and json: "to_json (out_json out) m1 = Inr b1" "to_json (out_json out) m2 = Inr b2" "b1 \<noteq> []" "b2 \<noteq> []"
      "from_json (out_json out) b2 = Inr m2" "from_json (out_json out) (b1 @ b2) = Inl e"
    and "length (concat recs) + length b1 + length b2 \<le> 64 * 1024 * 1024" "length recs + 2 < 2 ^ 64"
    and rcv: "mb_address rcv = addr" "unat (mb_read_offset rcv) = length recs"
  shows "\<exists>sys1 sys2. send_to out stamp1 addr body1 sender sys = Some (Inr (fst stamp1), sys1)
    \<and> send_to out stamp2 addr body2 sender sys1 = Some (Inr (fst stamp2), sys2)
    \<and> (let (r1, rcv1) = receive out sys2 rcv; (r2, rcv2) = receive out sys2 rcv1
       in r1 = Inl (MailboxSerialization e) \<and> r2 = Inr (Some m2))"
proof -
  have addr: "mm_to m1 = addr" "mm_id m1 = fst stamp1" "mm_to m2 = addr" "mm_id m2 = fst stamp2"
    by (simp_all add: m mailbox_message_new_def)
  from route_message_ok [of out sys m1 recs b1] assms addr obtain sys1 where
    sys1: "route_message out m1 sys = Some (Inr (fst stamp1), sys1)" "mailbox_holds out sys1 addr (recs @ [b1])" by auto
  from route_message_ok [of out sys1 m2 "recs @ [b1]" b2] assms addr sys1 obtain sys2 where
    sys2: "route_message out m2 sys1 = Some (Inr (fst stamp2), sys2)" "mailbox_holds out sys2 addr (recs @ [b1, b2])"
    by auto
  have send: "send_to out stamp addr body sender s = route_message out (mailbox_message_new stamp (mb_address sender) addr body) s"
    for stamp body s using assms(3) by (simp add: send_to_def mailbox_address_new_def)
  have "read_next out sys2 rcv = Inr (b1 @ b2)"
    using read_next_two [of out sys2 rcv recs b1 b2] sys2(2) rcv json(3) by simp
  then have r1: "receive out sys2 rcv = (Inl (MailboxSerialization e), rcv\<lparr>mb_read_offset := mb_read_offset rcv + 1\<rparr>)"
    using json by (simp add: receive_def mailbox_message_from_bytes_def)
  have off: "unat (mb_read_offset rcv + 1) = length recs + 1"
    using rcv(2) assms(13) by (simp add: unat_Suc64)
  then have "read_next out sys2 (rcv\<lparr>mb_read_offset := mb_read_offset rcv + 1\<rparr>) = Inr b2"
    using read_next_last [of out sys2 "rcv\<lparr>mb_read_offset := mb_read_offset rcv + 1\<rparr>" "recs @ [b1]" b2]
      sys2(2) rcv(1) json(4) by simp
  then have "fst (receive out sys2 (rcv\<lparr>mb_read_offset := mb_read_offset rcv + 1\<rparr>)) = Inr (Some m2)"
    using json by (simp add: receive_def mailbox_message_from_bytes_def)
  then show ?thesis
    using sys1(1) sys2(1) r1 by (simp add: send m case_prod_beta Let_def)
qed

lemma second_message_hides_first_example:
  "\<exists>sys sys1 sys2. send_to demo_outside (''id1'', 5) ''b'' [10] \<lparr>mb_address = ''a'', mb_read_offset = 0\<rparr> sys = Some (Inr ''id1'', sys1)
    \<and> send_to demo_outside (''id2'', 6) ''b'' [20] \<lparr>mb_address = ''a'', mb_read_offset = 0\<rparr> sys1 = Some (Inr ''id2'', sys2)
    \<and> fst (receive demo_outside sys2 \<lparr>mb_address = ''b'', mb_read_offset = 0\<rparr>)
      = Inl (MailboxSerialization ''trailing characters'')"
proof -
  obtain sys where sys: "mailbox_holds demo_outside sys ''b'' []" by (rule demo_mailbox)
  have w: "os_willing (out_os demo_outside)" by (simp add: demo_outside_def demo_os_willing)
  have j: "to_json (out_json demo_outside) first_message = Inr [1]"
    "to_json (out_json demo_outside) second_message = Inr [2]" "[1 :: u8] \<noteq> []" "[2 :: u8] \<noteq> []"
    "from_json (out_json demo_outside) [2] = Inr second_message"
    "from_json (out_json demo_outside) ([1] @ [2]) = Inl ''trailing characters''"
    using two_messages two_messages [symmetric] by (simp_all add: demo_outside_def two_message_json_def)
  from second_message_hides_first [OF sys w _ _ _ j, of "(''id1'', 5)" "\<lparr>mb_address = ''a'', mb_read_offset = 0\<rparr>"
      "[10]" "(''id2'', 6)" "[20]" "\<lparr>mb_address = ''b'', mb_read_offset = 0\<rparr>"]
  show ?thesis by (fastforce simp: first_message_def second_message_def case_prod_beta Let_def)
qed

text \<open>\<open>receive\<close> and \<open>peek\<close> on a mailbox without a pending message return an error, never \<open>Ok(None)\<close>,
  and leave the read offset; \<open>pending_count\<close> is then 0.\<close>

lemma empty_mailbox_is_an_error:
  assumes "mailbox_holds out sys (mb_address mb) recs" "length recs \<le> unat (mb_read_offset mb)"
  shows "(\<exists>e. receive out sys mb = (Inl (PersistQError e), mb)) \<and> (\<exists>e. peek out sys mb = Inl (PersistQError e))
    \<and> pending_count out sys mb = 0"
  using read_next_beyond [OF assms] by (auto simp: receive_def peek_def pending_count_def)

lemma empty_mailbox_is_an_error_example:
  "\<exists>sys e. receive demo_outside sys \<lparr>mb_address = ''b'', mb_read_offset = 0\<rparr>
    = (Inl (PersistQError e), \<lparr>mb_address = ''b'', mb_read_offset = 0\<rparr>)"
proof -
  obtain sys where sys: "mailbox_holds demo_outside sys ''b'' []" by (rule demo_mailbox)
  then show ?thesis
    using empty_mailbox_is_an_error [of demo_outside sys "\<lparr>mb_address = ''b'', mb_read_offset = 0\<rparr>" "[]"] by auto
qed

text \<open>Addresses that differ only in \<open>@\<close> and \<open>_\<close> share a directory, so that the two mailboxes' queues map
  the same segment files.\<close>

lemma mailbox_dir_collision:
  "mailbox_dir base ''a@b'' = mailbox_dir base ''a_b''"
  by (simp add: mailbox_dir_def)

end
