(* ===== verification/Network.thy ===== *)
theory Network
  imports Frame_Codec
begin

text \<open>
  The wire protocol and the connections of \<open>src/network.rs\<close>. A TCP stream is the bytes that will
  still arrive on it, what a read reports when they are used up (\<open>UnexpectedEof\<close> when the peer
  closed it), the bytes written so far, and the error that writing meets, if any. The message
  handler of a server is a parameter with a state of its own. Establishing connections is a
  parameter of the pool.
\<close>

section \<open>Messages\<close>

datatype network_error =
    NetIo io_error
  | Serialization string
  | UnsupportedVersion u16
  | InvalidMessage string
  | ConnectionError string
  | Timeout

definition PROTOCOL_VERSION :: u16 where "PROTOCOL_VERSION = 1"

definition PROTOCOL_MAGIC :: u32 where "PROTOCOL_MAGIC = 0xD01DA001"

datatype message_type =
    Ping | Pong | AppendRequest | AppendResponse | ReadRequest | ReadResponse
  | ReplicateRequest | ReplicateResponse | HealthRequest | HealthResponse | ErrorMessage

text \<open>\<open>msg_type as u16\<close>, and its debug output.\<close>

fun message_code :: "message_type \<Rightarrow> u16" where
  "message_code Ping = 1"
| "message_code Pong = 2"
| "message_code AppendRequest = 10"
| "message_code AppendResponse = 11"
| "message_code ReadRequest = 12"
| "message_code ReadResponse = 13"
| "message_code ReplicateRequest = 20"
| "message_code ReplicateResponse = 21"
| "message_code HealthRequest = 30"
| "message_code HealthResponse = 31"
| "message_code ErrorMessage = 255"

fun message_name :: "message_type \<Rightarrow> string" where
  "message_name Ping = ''Ping''"
| "message_name Pong = ''Pong''"
| "message_name AppendRequest = ''AppendRequest''"
| "message_name AppendResponse = ''AppendResponse''"
| "message_name ReadRequest = ''ReadRequest''"
| "message_name ReadResponse = ''ReadResponse''"
| "message_name ReplicateRequest = ''ReplicateRequest''"
| "message_name ReplicateResponse = ''ReplicateResponse''"
| "message_name HealthRequest = ''HealthRequest''"
| "message_name HealthResponse = ''HealthResponse''"
| "message_name ErrorMessage = ''Error''"

definition message_type_of :: "u16 \<Rightarrow> message_type option" where
  "message_type_of code =
     (if code = 1 then Some Ping else if code = 2 then Some Pong
      else if code = 10 then Some AppendRequest else if code = 11 then Some AppendResponse
      else if code = 12 then Some ReadRequest else if code = 13 then Some ReadResponse
      else if code = 20 then Some ReplicateRequest else if code = 21 then Some ReplicateResponse
      else if code = 30 then Some HealthRequest else if code = 31 then Some HealthResponse
      else if code = 255 then Some ErrorMessage else None)"

record message_header =
  mh_magic :: u32
  mh_version :: u16
  mh_msg_type :: message_type
  mh_payload_len :: u32
  mh_request_id :: u64

definition HEADER_SIZE :: nat where "HEADER_SIZE = 4 + 2 + 2 + 4 + 8"

definition message_header_new :: "message_type \<Rightarrow> u32 \<Rightarrow> u64 \<Rightarrow> message_header" where
  "message_header_new msg_type payload_len request_id =
     \<lparr>mh_magic = PROTOCOL_MAGIC, mh_version = PROTOCOL_VERSION, mh_msg_type = msg_type,
      mh_payload_len = payload_len, mh_request_id = request_id\<rparr>"

definition header_to_bytes :: "message_header \<Rightarrow> bytes" where
  "header_to_bytes h = be_bytes 4 (mh_magic h) @ be_bytes 2 (mh_version h)
     @ be_bytes 2 (message_code (mh_msg_type h)) @ be_bytes 4 (mh_payload_len h)
     @ be_bytes 8 (mh_request_id h)"

definition header_from_bytes :: "bytes \<Rightarrow> network_error + message_header" where
  "header_from_bytes bs =
     (if length bs < HEADER_SIZE
      then Inl (InvalidMessage (''Header too short: '' @ nat_string (length bs) @ '' bytes''))
      else let magic = be_word (slice_of 0 4 bs) :: u32 in
      if magic \<noteq> PROTOCOL_MAGIC
      then Inl (InvalidMessage (''Invalid magic: 0x'' @ hex_digits (unat magic)))
      else let version = be_word (slice_of 4 6 bs) :: u16 in
      if version \<noteq> PROTOCOL_VERSION then Inl (UnsupportedVersion version)
      else let msg_type_raw = be_word (slice_of 6 8 bs) :: u16 in
      case message_type_of msg_type_raw of
        None \<Rightarrow> Inl (InvalidMessage (''Unknown message type: '' @ nat_string (unat msg_type_raw)))
      | Some msg_type \<Rightarrow>
          Inr \<lparr>mh_magic = magic, mh_version = version, mh_msg_type = msg_type,
               mh_payload_len = be_word (slice_of 8 12 bs),
               mh_request_id = be_word (slice_of 12 20 bs)\<rparr>)"

record message =
  msg_header :: message_header
  msg_payload :: bytes

definition message_new :: "message_type \<Rightarrow> bytes \<Rightarrow> u64 \<Rightarrow> message" where
  "message_new msg_type payload request_id =
     \<lparr>msg_header = message_header_new msg_type (of_nat (length payload)) request_id,
      msg_payload = payload\<rparr>"

definition message_to_bytes :: "message \<Rightarrow> bytes" where
  "message_to_bytes m = header_to_bytes (msg_header m) @ msg_payload m"

section \<open>Streams\<close>

record tcp_stream =
  ts_incoming :: bytes
  ts_ending :: io_error
  ts_written :: bytes
  ts_write_error :: "io_error option"

definition read_exact :: "nat \<Rightarrow> tcp_stream \<Rightarrow> (io_error + bytes) \<times> tcp_stream" where
  "read_exact n s =
     (if n \<le> length (ts_incoming s)
      then (Inr (take n (ts_incoming s)), s\<lparr>ts_incoming := drop n (ts_incoming s)\<rparr>)
      else (Inl (ts_ending s), s\<lparr>ts_incoming := []\<rparr>))"

definition message_read_from :: "tcp_stream \<Rightarrow> (network_error + message) \<times> tcp_stream" where
  "message_read_from s =
     (case read_exact HEADER_SIZE s of
        (Inl e, s1) \<Rightarrow> (Inl (NetIo e), s1)
      | (Inr header_bytes, s1) \<Rightarrow>
          (case header_from_bytes header_bytes of
             Inl e \<Rightarrow> (Inl e, s1)
           | Inr header \<Rightarrow>
               (case read_exact (unat (mh_payload_len header)) s1 of
                  (Inl e, s2) \<Rightarrow> (Inl (NetIo e), s2)
                | (Inr payload, s2) \<Rightarrow> (Inr \<lparr>msg_header = header, msg_payload = payload\<rparr>, s2))))"

definition message_write_to :: "message \<Rightarrow> tcp_stream \<Rightarrow> (network_error + unit) \<times> tcp_stream" where
  "message_write_to m s =
     (case ts_write_error s of
        Some e \<Rightarrow> (Inl (NetIo e), s)
      | None \<Rightarrow> (Inr (), s\<lparr>ts_written := ts_written s @ message_to_bytes m\<rparr>))"

section \<open>Clients\<close>

record connection =
  cn_addr :: string
  cn_stream :: tcp_stream
  cn_next_request_id :: u64

definition connection_connect :: "(string \<Rightarrow> io_error + tcp_stream) \<Rightarrow> string \<Rightarrow> network_error + connection" where
  "connection_connect tcp_connect addr =
     and_then (map_err NetIo (tcp_connect addr)) (\<lambda>stream.
       Inr \<lparr>cn_addr = addr, cn_stream = stream, cn_next_request_id = 1\<rparr>)"

text \<open>What the peer does between the request and the response is \<open>peer\<close>: it may let bytes arrive.\<close>

definition send_request ::
    "(tcp_stream \<Rightarrow> tcp_stream) \<Rightarrow> message_type \<Rightarrow> bytes \<Rightarrow> connection
      \<Rightarrow> (network_error + message) \<times> connection" where
  "send_request peer msg_type payload c =
     (let request_id = cn_next_request_id c;
          c1 = c\<lparr>cn_next_request_id := request_id + 1\<rparr>;
          request = message_new msg_type payload request_id
      in case message_write_to request (cn_stream c1) of
           (Inl e, s) \<Rightarrow> (Inl e, c1\<lparr>cn_stream := s\<rparr>)
         | (Inr _, s) \<Rightarrow>
             (case message_read_from (peer s) of
                (Inl e, s') \<Rightarrow> (Inl e, c1\<lparr>cn_stream := s'\<rparr>)
              | (Inr response, s') \<Rightarrow>
                  if mh_request_id (msg_header response) \<noteq> request_id
                  then (Inl (InvalidMessage (''Request ID mismatch: expected '' @ nat_string (unat request_id)
                          @ '', got '' @ nat_string (unat (mh_request_id (msg_header response))))),
                        c1\<lparr>cn_stream := s'\<rparr>)
                  else (Inr response, c1\<lparr>cn_stream := s'\<rparr>)))"

definition ping :: "(tcp_stream \<Rightarrow> tcp_stream) \<Rightarrow> connection \<Rightarrow> (network_error + unit) \<times> connection" where
  "ping peer c =
     (case send_request peer Ping [] c of
        (Inl e, c') \<Rightarrow> (Inl e, c')
      | (Inr response, c') \<Rightarrow>
          if mh_msg_type (msg_header response) \<noteq> Pong
          then (Inl (InvalidMessage (''Expected Pong, got '' @ message_name (mh_msg_type (msg_header response)))), c')
          else (Inr (), c'))"

text \<open>The pool of connections, by address.\<close>

type_synonym connection_pool = "(string \<times> connection) list"

definition pool_new :: connection_pool where "pool_new = []"

definition get_connection ::
    "(string \<Rightarrow> io_error + tcp_stream) \<Rightarrow> string \<Rightarrow> connection_pool
      \<Rightarrow> (network_error + connection) \<times> connection_pool" where
  "get_connection tcp_connect addr pool =
     (case map_of pool addr of
        Some conn \<Rightarrow> (Inr conn, pool)
      | None \<Rightarrow>
          (case connection_connect tcp_connect addr of
             Inl e \<Rightarrow> (Inl e, pool)
           | Inr conn \<Rightarrow> (Inr conn, hash_insert addr conn pool)))"

definition remove_connection :: "string \<Rightarrow> connection_pool \<Rightarrow> connection_pool" where
  "remove_connection addr pool = hash_remove addr pool"

definition connection_count :: "connection_pool \<Rightarrow> nat" where
  "connection_count pool = length pool"

section \<open>Servers\<close>

fun get_response_type :: "message_type \<Rightarrow> message_type" where
  "get_response_type Ping = Pong"
| "get_response_type AppendRequest = AppendResponse"
| "get_response_type ReadRequest = ReadResponse"
| "get_response_type ReplicateRequest = ReplicateResponse"
| "get_response_type HealthRequest = HealthResponse"
| "get_response_type _ = ErrorMessage"

lemma message_read_consumes:
  assumes "message_read_from s = (Inr m, s')"
  shows "length (ts_incoming s') < length (ts_incoming s)"
  using assms
  by (auto simp: message_read_from_def read_exact_def HEADER_SIZE_def split: if_split_asm sum.splits)

lemma message_write_incoming:
  "message_write_to m s = (r, s') \<Longrightarrow> ts_incoming s' = ts_incoming s"
  by (auto simp: message_write_to_def split: option.splits)

text \<open>\<open>handler h msg_type payload\<close> answers a payload or an error and the handler's new state.\<close>

function handle_connection ::
    "('h \<Rightarrow> message_type \<Rightarrow> bytes \<Rightarrow> (network_error + bytes) \<times> 'h) \<Rightarrow> 'h \<Rightarrow> tcp_stream
      \<Rightarrow> (network_error + unit) \<times> 'h \<times> tcp_stream" where
  "handle_connection handler h s =
     (case message_read_from s of
        (Inl (NetIo UnexpectedEof), s1) \<Rightarrow> (Inr (), h, s1)
      | (Inl e, s1) \<Rightarrow> (Inl e, h, s1)
      | (Inr m, s1) \<Rightarrow>
          (case handler h (mh_msg_type (msg_header m)) (msg_payload m) of
             (Inl e, h1) \<Rightarrow> (Inl e, h1, s1)
           | (Inr response_payload, h1) \<Rightarrow>
               (case message_write_to (message_new (get_response_type (mh_msg_type (msg_header m)))
                       response_payload (mh_request_id (msg_header m))) s1 of
                  (Inl e, s2) \<Rightarrow> (Inl e, h1, s2)
                | (Inr _, s2) \<Rightarrow> handle_connection handler h1 s2)))"
  by pat_completeness auto

termination
  by (relation "measure (\<lambda>(handler, h, s). length (ts_incoming s))")
    (auto, metis message_read_consumes message_write_incoming)

declare handle_connection.simps [simp del]

section \<open>Round trips\<close>

lemma message_type_of_iff: "message_type_of code = Some t \<longleftrightarrow> code = message_code t"
proof
  show "code = message_code t \<Longrightarrow> message_type_of code = Some t"
    by (cases t) (simp_all add: message_type_of_def)
  show "message_type_of code = Some t \<Longrightarrow> code = message_code t"
    by (auto simp: message_type_of_def split: if_split_asm)
qed

lemma message_type_of_code [simp]: "message_type_of (message_code t) = Some t"
  by (simp add: message_type_of_iff)

lemma length_header_to_bytes [simp]: "length (header_to_bytes h) = 20"
  by (simp add: header_to_bytes_def)

definition header_ok :: "message_header \<Rightarrow> bool" where
  "header_ok h \<longleftrightarrow> mh_magic h = PROTOCOL_MAGIC \<and> mh_version h = PROTOCOL_VERSION"

lemma header_slices:
  "slice_of 0 4 (header_to_bytes h @ rest) = be_bytes 4 (mh_magic h)"
  "slice_of 4 6 (header_to_bytes h @ rest) = be_bytes 2 (mh_version h)"
  "slice_of 6 8 (header_to_bytes h @ rest) = be_bytes 2 (message_code (mh_msg_type h))"
  "slice_of 8 12 (header_to_bytes h @ rest) = be_bytes 4 (mh_payload_len h)"
  "slice_of 12 20 (header_to_bytes h @ rest) = be_bytes 8 (mh_request_id h)"
  by (simp_all add: header_to_bytes_def slice_of_def)

lemma header_from_to:
  "header_ok h \<Longrightarrow> header_from_bytes (header_to_bytes h @ rest) = Inr h"
  by (simp add: header_from_bytes_def Let_def header_slices header_ok_def HEADER_SIZE_def)

lemma be_slice:
  fixes bs :: bytes
  assumes "j \<le> length bs" "8 * (j - i) \<le> LENGTH('a)"
  shows "be_bytes (j - i) (be_word (slice_of i j bs) :: 'a::len word) = slice_of i j bs"
  using assms by (intro be_bytes_be_word) (simp_all add: slice_simps)

lemma header_to_from:
  assumes "header_from_bytes bs = Inr h"
  shows "20 \<le> length bs" "header_ok h" "take 20 bs = header_to_bytes h"
proof -
  show len: "20 \<le> length bs"
    using assms by (simp add: header_from_bytes_def HEADER_SIZE_def split: if_split_asm)
  have f: "mh_magic h = be_word (slice_of 0 4 bs)" "mh_magic h = PROTOCOL_MAGIC"
    "mh_version h = be_word (slice_of 4 6 bs)" "mh_version h = PROTOCOL_VERSION"
    "message_code (mh_msg_type h) = be_word (slice_of 6 8 bs)"
    "mh_payload_len h = be_word (slice_of 8 12 bs)" "mh_request_id h = be_word (slice_of 12 20 bs)"
    using assms
    by (auto simp: header_from_bytes_def Let_def message_type_of_iff split: if_split_asm option.splits)
  then show "header_ok h" by (simp add: header_ok_def)
  have "header_to_bytes h = slice_of 0 4 bs @ slice_of 4 6 bs @ slice_of 6 8 bs @ slice_of 8 12 bs @ slice_of 12 20 bs"
    using len be_slice [of 4 bs 0, where 'a = 32] be_slice [of 6 bs 4, where 'a = 16]
      be_slice [of 8 bs 6, where 'a = 16] be_slice [of 12 bs 8, where 'a = 32]
      be_slice [of 20 bs 12, where 'a = 64]
    by (simp add: header_to_bytes_def f(1,3,5,6,7))
  also have "\<dots> = slice_of 0 20 bs" by (simp add: slice_split)
  finally show "take 20 bs = header_to_bytes h" by (simp add: slice_of_def)
qed

text \<open>A message that \<open>Message::new\<close> makes, with a payload below \<open>2 ^ 32\<close> bytes.\<close>

definition message_ok :: "message \<Rightarrow> bool" where
  "message_ok m \<longleftrightarrow> header_ok (msg_header m) \<and> unat (mh_payload_len (msg_header m)) = length (msg_payload m)"

lemma message_new_ok: "length payload < 2 ^ 32 \<Longrightarrow> message_ok (message_new t payload i)"
  by (simp add: message_ok_def message_new_def message_header_new_def header_ok_def unat_of_nat32)

lemma message_read_to_bytes:
  assumes "message_ok m" "ts_incoming s = message_to_bytes m @ rest"
  shows "message_read_from s = (Inr m, s\<lparr>ts_incoming := rest\<rparr>)"
  using assms header_from_to [of "msg_header m" "[]"]
  by (simp add: message_read_from_def read_exact_def HEADER_SIZE_def message_to_bytes_def message_ok_def)

text \<open>Decoding from a buffer: what a stream that has just these bytes yields, and how many it used.\<close>

definition message_from_bytes :: "bytes \<Rightarrow> network_error + message \<times> nat" where
  "message_from_bytes bs =
     (case message_read_from \<lparr>ts_incoming = bs, ts_ending = UnexpectedEof, ts_written = [], ts_write_error = None\<rparr> of
        (Inl e, _) \<Rightarrow> Inl e
      | (Inr m, s) \<Rightarrow> Inr (m, length bs - length (ts_incoming s)))"

interpretation wire: frame_codec message_to_bytes message_from_bytes message_ok
proof
  show "message_from_bytes (message_to_bytes m @ rest) = Inr (m, length (message_to_bytes m))"
    if "message_ok m" for m rest
    using that by (simp add: message_from_bytes_def message_read_to_bytes)
  show "message_to_bytes m \<noteq> []" for m
  proof
    assume "message_to_bytes m = []"
    then have "length (header_to_bytes (msg_header m)) = 0" by (simp add: message_to_bytes_def)
    then show False by simp
  qed
qed

section \<open>A server on a stream of requests\<close>

text \<open>What a handler that never fails answers to a list of requests, one after the other.\<close>

fun answers :: "('h \<Rightarrow> message_type \<Rightarrow> bytes \<Rightarrow> (network_error + bytes) \<times> 'h) \<Rightarrow> 'h \<Rightarrow> message list
    \<Rightarrow> (message list \<times> 'h) option" where
  "answers handler h [] = Some ([], h)"
| "answers handler h (m # ms) =
     (case handler h (mh_msg_type (msg_header m)) (msg_payload m) of
        (Inl e, _) \<Rightarrow> None
      | (Inr p, h1) \<Rightarrow>
          (case answers handler h1 ms of None \<Rightarrow> None
           | Some (rs, h2) \<Rightarrow> Some (message_new (get_response_type (mh_msg_type (msg_header m))) p
               (mh_request_id (msg_header m)) # rs, h2)))"

lemma handle_connection_requests:
  assumes "answers handler h ms = Some (rs, h')" "\<forall>m \<in> set ms. message_ok m"
    and "ts_incoming s = wire.encs ms" "ts_ending s = UnexpectedEof" "ts_write_error s = None"
  shows "handle_connection handler h s
    = (Inr (), h', s\<lparr>ts_incoming := [], ts_written := ts_written s @ wire.encs rs\<rparr>)"
  using assms
proof (induction ms arbitrary: h rs s)
  case Nil
  then show ?case
    by (subst handle_connection.simps)
      (simp add: message_read_from_def read_exact_def HEADER_SIZE_def)
next
  case (Cons m ms)
  then obtain p h1 rs' where
    p: "handler h (mh_msg_type (msg_header m)) (msg_payload m) = (Inr p, h1)"
    and rs': "answers handler h1 ms = Some (rs', h')"
      "rs = message_new (get_response_type (mh_msg_type (msg_header m))) p (mh_request_id (msg_header m)) # rs'"
    by (auto split: prod.splits sum.splits option.splits)
  have read: "message_read_from s = (Inr m, s\<lparr>ts_incoming := wire.encs ms\<rparr>)"
    using Cons.prems by (intro message_read_to_bytes) simp_all
  show ?case
    using Cons.IH [OF rs'(1), of "s\<lparr>ts_incoming := wire.encs ms, ts_written := ts_written s
        @ message_to_bytes (message_new (get_response_type (mh_msg_type (msg_header m))) p
            (mh_request_id (msg_header m)))\<rparr>"] Cons.prems rs'(2)
    by (subst handle_connection.simps) (simp add: read p message_write_to_def)
qed

section \<open>Properties\<close>

text \<open>\<open>MessageHeader::from_bytes\<close> accepts exactly the byte strings that start with the 20 bytes
  \<open>to_bytes\<close> gives for a header of this protocol's magic and version, and returns that header.\<close>

lemma header_decode_iff:
  "header_from_bytes bs = Inr h \<longleftrightarrow>
     20 \<le> length bs \<and> mh_magic h = PROTOCOL_MAGIC \<and> mh_version h = PROTOCOL_VERSION
     \<and> take 20 bs = header_to_bytes h"
proof
  show "header_from_bytes bs = Inr h \<Longrightarrow> 20 \<le> length bs \<and> mh_magic h = PROTOCOL_MAGIC
      \<and> mh_version h = PROTOCOL_VERSION \<and> take 20 bs = header_to_bytes h"
    using header_to_from [of bs h] by (simp add: header_ok_def)
next
  assume h: "20 \<le> length bs \<and> mh_magic h = PROTOCOL_MAGIC \<and> mh_version h = PROTOCOL_VERSION
    \<and> take 20 bs = header_to_bytes h"
  then have "bs = header_to_bytes h @ drop 20 bs" by (metis append_take_drop_id)
  then show "header_from_bytes bs = Inr h"
    using header_from_to [of h "drop 20 bs"] h by (simp add: header_ok_def)
qed

text \<open>C10: A server answers the requests of a connection one by one, in order: when the peer sends the
  encodings of the messages \<open>ms\<close> and closes, and the handler answers each, the server writes
  exactly the encodings of the responses, each with the type that belongs to its request's type
  and with its request's id, and ends without an error.\<close>

theorem server_answers_in_order:
  assumes "answers handler h ms = Some (rs, h')" "\<forall>m \<in> set ms. message_ok m"
    and "ts_incoming s = concat (map message_to_bytes ms)" "ts_ending s = UnexpectedEof"
    and "ts_write_error s = None"
  shows "handle_connection handler h s = (Inr (), h', s\<lparr>ts_incoming := [],
      ts_written := ts_written s @ concat (map message_to_bytes rs)\<rparr>)
    \<and> map (\<lambda>r. (mh_msg_type (msg_header r), mh_request_id (msg_header r))) rs
      = map (\<lambda>m. (get_response_type (mh_msg_type (msg_header m)), mh_request_id (msg_header m))) ms"
proof
  show "handle_connection handler h s = (Inr (), h', s\<lparr>ts_incoming := [],
      ts_written := ts_written s @ concat (map message_to_bytes rs)\<rparr>)"
    using handle_connection_requests [OF assms(1,2), of s] assms(3-5) by (simp add: wire.encs_def)
  show "map (\<lambda>r. (mh_msg_type (msg_header r), mh_request_id (msg_header r))) rs
      = map (\<lambda>m. (get_response_type (mh_msg_type (msg_header m)), mh_request_id (msg_header m))) ms"
    using assms(1)
    by (induction ms arbitrary: h rs)
      (auto simp: message_new_def message_header_new_def split: prod.splits sum.splits option.splits)
qed

definition echo :: "nat \<Rightarrow> message_type \<Rightarrow> bytes \<Rightarrow> (network_error + bytes) \<times> nat" where
  "echo n t payload = (Inr payload, n + 1)"

theorem server_answers_in_order_witness:
  "handle_connection echo 0 \<lparr>ts_incoming = concat (map message_to_bytes
        [message_new Ping [] 1, message_new ReadRequest [7] 2]), ts_ending = UnexpectedEof,
      ts_written = [], ts_write_error = None\<rparr>
    = (Inr (), 2, \<lparr>ts_incoming = [], ts_ending = UnexpectedEof, ts_written = concat (map message_to_bytes
        [message_new Pong [] 1, message_new ReadResponse [7] 2]), ts_write_error = None\<rparr>)"
proof -
  let ?ms = "[message_new Ping [] 1, message_new ReadRequest [7] 2]"
  have "answers echo 0 ?ms = Some ([message_new Pong [] 1, message_new ReadResponse [7] 2], 2)"
    by (simp add: echo_def message_new_def message_header_new_def)
  moreover have "\<forall>m \<in> set ?ms. message_ok m" by (simp add: message_new_ok)
  ultimately show ?thesis
    using server_answers_in_order [of echo 0 ?ms _ 2 "\<lparr>ts_incoming = concat (map message_to_bytes ?ms),
        ts_ending = UnexpectedEof, ts_written = [], ts_write_error = None\<rparr>"] by simp
qed

text \<open>A peer that runs \<open>handle_connection\<close> on what was written to it and sends back what it answers.\<close>

definition served_by :: "('h \<Rightarrow> message_type \<Rightarrow> bytes \<Rightarrow> (network_error + bytes) \<times> 'h) \<Rightarrow> 'h
    \<Rightarrow> tcp_stream \<Rightarrow> tcp_stream" where
  "served_by handler h s = s\<lparr>ts_incoming := ts_incoming s @ ts_written (snd (snd (handle_connection handler h
     \<lparr>ts_incoming = ts_written s, ts_ending = UnexpectedEof, ts_written = [], ts_write_error = None\<rparr>)))\<rparr>"

text \<open>Client and server together: a request sent to a server whose handler answers it with a payload
  comes back with that payload, the response type of the request's type and the request's own
  id; the next request will use the next id. (A response with another id would be refused.)\<close>

lemma request_meets_response:
  assumes "handler h t payload = (Inr answer, h')" "length payload < 2 ^ 32" "length answer < 2 ^ 32"
    and "ts_incoming (cn_stream c) = []" "ts_written (cn_stream c) = []" "ts_write_error (cn_stream c) = None"
  shows "\<exists>c'. send_request (served_by handler h) t payload c
      = (Inr (message_new (get_response_type t) answer (cn_next_request_id c)), c')
    \<and> cn_next_request_id c' = cn_next_request_id c + 1"
proof -
  let ?id = "cn_next_request_id c"
  let ?req = "message_new t payload ?id" and ?resp = "message_new (get_response_type t) answer ?id"
  let ?s = "(cn_stream c)\<lparr>ts_written := message_to_bytes ?req\<rparr>"
  have "answers handler h [?req] = Some ([?resp], h')"
    using assms(1) by (simp add: message_new_def message_header_new_def)
  from handle_connection_requests [OF this, of "\<lparr>ts_incoming = message_to_bytes ?req,
      ts_ending = UnexpectedEof, ts_written = [], ts_write_error = None\<rparr>"] assms(2)
  have "served_by handler h ?s = ?s\<lparr>ts_incoming := message_to_bytes ?resp @ []\<rparr>"
    using assms(4) by (simp add: served_by_def message_new_ok)
  moreover have "message_read_from (?s\<lparr>ts_incoming := message_to_bytes ?resp @ []\<rparr>)
      = (Inr ?resp, ?s\<lparr>ts_incoming := []\<rparr>)"
    using message_read_to_bytes [OF message_new_ok [OF assms(3)], of _ "get_response_type t" ?id "[]"] by simp
  moreover have "mh_request_id (msg_header ?resp) = ?id"
    by (simp add: message_new_def message_header_new_def)
  ultimately show ?thesis
    using assms(5,6) by (simp add: send_request_def Let_def message_write_to_def)
qed

lemma request_meets_response_example:
  "fst (send_request (served_by echo 0) AppendRequest [1, 2]
      \<lparr>cn_addr = ''a'', cn_stream = \<lparr>ts_incoming = [], ts_ending = UnexpectedEof, ts_written = [],
        ts_write_error = None\<rparr>, cn_next_request_id = 1\<rparr>) = Inr (message_new AppendResponse [1, 2] 1)"
  using request_meets_response [of echo 0 AppendRequest "[1, 2]" "[1, 2]" 1
      "\<lparr>cn_addr = ''a'', cn_stream = \<lparr>ts_incoming = [], ts_ending = UnexpectedEof, ts_written = [],
        ts_write_error = None\<rparr>, cn_next_request_id = 1\<rparr>"]
  by (auto simp: echo_def)

end
