(* ===== verification/Mailbox_Network.thy ===== *)
theory Mailbox_Network
  imports Mailbox Network
begin

text \<open>
  Mailboxes over TCP and UDP, \<open>src/mailbox_network.rs\<close>: the server, which answers requests on the
  mailbox system and keeps the handles it gave out in a cache, and the client. Streams are those
  of \<open>Network\<close>. The encoding of \<open>bincode\<close> is a parameter, and so is what UDP delivers; accepting
  connections and receiving datagrams is left to the caller, who hands each one over.
\<close>

section \<open>Data\<close>

datatype mailbox_net_error =
    MNIo io_error
  | MNMailbox mailbox_error
  | MNSerialization string
  | InvalidProtocol u8
  | AuthenticationFailed
  | MNMailboxNotFound string
  | ConnectionClosed

datatype protocol = Tcp | Udp

record network_config =
  nk_host :: string
  nk_port :: u16
  nk_protocol :: protocol
  nk_max_message_size :: nat
  nk_timeout_ms :: u64

definition network_config_default :: network_config where
  "network_config_default = \<lparr>nk_host = ''127.0.0.1'', nk_port = 9090, nk_protocol = Tcp,
     nk_max_message_size = 10 * 1024 * 1024, nk_timeout_ms = 5000\<rparr>"

record message_data =
  md_from :: string
  md_to :: string
  md_id :: string
  md_timestamp :: u64
  md_body :: bytes
  md_subject :: "string option"

datatype network_message =
    SendMessage string string bytes "string option" \<comment> \<open>to, from, body, subject\<close>
  | ReceiveMessage string
  | PeekMessage string
  | MessageResponse "message_data option"
  | SuccessMessage
  | ErrorResponse string

definition message_data_of :: "mailbox_message \<Rightarrow> message_data" where
  "message_data_of m = \<lparr>md_from = mm_from m, md_to = mm_to m, md_id = mm_id m,
     md_timestamp = mm_timestamp m, md_body = mm_body m, md_subject = mm_subject m\<rparr>"

record mailbox_server =
  sv_config :: network_config
  sv_system :: mailbox_system
  sv_mailboxes :: "(string \<times> mailbox) list"

definition mailbox_server_new :: "network_config \<Rightarrow> mailbox_system \<Rightarrow> mailbox_server" where
  "mailbox_server_new config sys = \<lparr>sv_config = config, sv_system = sys, sv_mailboxes = []\<rparr>"

text \<open>The texts of errors.\<close>

fun mailbox_error_string :: "mailbox_error \<Rightarrow> string" where
  "mailbox_error_string (PersistQError s) = ''PersistQ error: '' @ s"
| "mailbox_error_string (MailboxNotFound s) = ''Mailbox not found: '' @ s"
| "mailbox_error_string (InvalidAddress s) = ''Invalid address: '' @ s"
| "mailbox_error_string (MailboxSerialization s) = ''Serialization error: '' @ s"
| "mailbox_error_string (MessageTooLarge n) = ''Message too large: '' @ nat_string n @ '' bytes''"
| "mailbox_error_string (MailboxIo s) = ''IO error: '' @ s"

fun io_error_string :: "io_error \<Rightarrow> string" where
  "io_error_string (IoError s) = s"
| "io_error_string UnexpectedEof = ''early eof''"

fun net_error_string :: "mailbox_net_error \<Rightarrow> string" where
  "net_error_string (MNIo e) = ''IO error: '' @ io_error_string e"
| "net_error_string (MNMailbox e) = ''Mailbox error: '' @ mailbox_error_string e"
| "net_error_string (MNSerialization s) = ''Serialization error: '' @ s"
| "net_error_string (InvalidProtocol v) = ''Invalid protocol version: '' @ nat_string (unat v)"
| "net_error_string AuthenticationFailed = ''Authentication failed''"
| "net_error_string (MNMailboxNotFound s) = ''Mailbox not found: '' @ s"
| "net_error_string ConnectionClosed = ''Connection closed''"

section \<open>Answering a request\<close>

definition get_or_create_mailbox ::
    "os_answers \<Rightarrow> string \<Rightarrow> mailbox_server \<Rightarrow> (mailbox_net_error + mailbox) \<times> mailbox_server" where
  "get_or_create_mailbox os address sv =
     (case map_of (sv_mailboxes sv) address of
        Some mb \<Rightarrow> (Inr mb, sv)
      | None \<Rightarrow>
          (case get_mailbox address (sv_system sv) of
             Inl e \<Rightarrow> (Inl (MNMailbox e), sv)
           | Inr found \<Rightarrow>
               let (res, sys) = (case found of
                     Some mb \<Rightarrow> (Inr mb, sv_system sv)
                   | None \<Rightarrow> create_mailbox os address (sv_system sv));
                   sv1 = sv\<lparr>sv_system := sys\<rparr>
               in (case res of
                     Inl e \<Rightarrow> (Inl (MNMailbox e), sv1)
                   | Inr mb \<Rightarrow> (Inr mb, sv1\<lparr>sv_mailboxes := hash_insert address mb (sv_mailboxes sv1)\<rparr>))))"

text \<open>\<open>out\<close> and \<open>stamp\<close> are what a send takes from outside; no value if a queue append never returns.\<close>

definition handle_send ::
    "outside \<Rightarrow> string \<times> u64 \<Rightarrow> string \<Rightarrow> string \<Rightarrow> bytes \<Rightarrow> string option \<Rightarrow> mailbox_server
      \<Rightarrow> (network_message \<times> mailbox_server) option" where
  "handle_send out stamp to_addr from_addr body subject sv =
     (case get_or_create_mailbox (out_os out) from_addr sv of
        (Inl e, sv1) \<Rightarrow> Some (ErrorResponse (''Failed to get sender mailbox: '' @ net_error_string e), sv1)
      | (Inr sender, sv1) \<Rightarrow>
          (case (case subject of
                   Some subj \<Rightarrow> send_with_subject out stamp to_addr subj body sender (sv_system sv1)
                 | None \<Rightarrow> send_to out stamp to_addr body sender (sv_system sv1)) of
             None \<Rightarrow> None
           | Some (res, sys) \<Rightarrow>
               Some (case res of Inr _ \<Rightarrow> SuccessMessage
                     | Inl e \<Rightarrow> ErrorResponse (''Failed to send: '' @ mailbox_error_string e),
                   sv1\<lparr>sv_system := sys\<rparr>)))"

text \<open>The cached handle is shared, so that its read offset stays moved.\<close>

definition handle_receive :: "outside \<Rightarrow> string \<Rightarrow> mailbox_server \<Rightarrow> network_message \<times> mailbox_server" where
  "handle_receive out address sv =
     (case get_or_create_mailbox (out_os out) address sv of
        (Inl e, sv1) \<Rightarrow> (ErrorResponse (''Failed to get mailbox: '' @ net_error_string e), sv1)
      | (Inr mb, sv1) \<Rightarrow>
          (case receive out (sv_system sv1) mb of
             (res, mb') \<Rightarrow>
               (case res of
                  Inr (Some m) \<Rightarrow> MessageResponse (Some (message_data_of m))
                | Inr None \<Rightarrow> MessageResponse None
                | Inl e \<Rightarrow> ErrorResponse (''Failed to receive: '' @ mailbox_error_string e),
                sv1\<lparr>sv_mailboxes := hash_insert address mb' (sv_mailboxes sv1)\<rparr>)))"

definition handle_peek :: "outside \<Rightarrow> string \<Rightarrow> mailbox_server \<Rightarrow> network_message \<times> mailbox_server" where
  "handle_peek out address sv =
     (case get_or_create_mailbox (out_os out) address sv of
        (Inl e, sv1) \<Rightarrow> (ErrorResponse (''Failed to get mailbox: '' @ net_error_string e), sv1)
      | (Inr mb, sv1) \<Rightarrow>
          (case peek out (sv_system sv1) mb of
             Inr (Some m) \<Rightarrow> MessageResponse (Some (message_data_of m))
           | Inr None \<Rightarrow> MessageResponse None
           | Inl e \<Rightarrow> ErrorResponse (''Failed to peek: '' @ mailbox_error_string e), sv1))"

fun handle_message ::
    "outside \<Rightarrow> string \<times> u64 \<Rightarrow> network_message \<Rightarrow> mailbox_server
      \<Rightarrow> (network_message \<times> mailbox_server) option" where
  "handle_message out stamp (SendMessage to_addr from_addr body subject) sv =
     handle_send out stamp to_addr from_addr body subject sv"
| "handle_message out stamp (ReceiveMessage address) sv = Some (handle_receive out address sv)"
| "handle_message out stamp (PeekMessage address) sv = Some (handle_peek out address sv)"
| "handle_message out stamp _ sv = Some (ErrorResponse ''Invalid request'', sv)"

section \<open>Connections\<close>

record bincode =
  bc_enc :: "network_message \<Rightarrow> string + bytes"
  bc_dec :: "bytes \<Rightarrow> string + network_message"

definition write_all :: "bytes \<Rightarrow> tcp_stream \<Rightarrow> (io_error + unit) \<times> tcp_stream" where
  "write_all bs s =
     (case ts_write_error s of
        Some e \<Rightarrow> (Inl e, s)
      | None \<Rightarrow> (Inr (), s\<lparr>ts_written := ts_written s @ bs\<rparr>))"

definition write_framed :: "bytes \<Rightarrow> tcp_stream \<Rightarrow> (io_error + unit) \<times> tcp_stream" where
  "write_framed bs s =
     (case write_all (be_bytes 4 (of_nat (length bs) :: u32)) s of
        (Inl e, s1) \<Rightarrow> (Inl e, s1)
      | (Inr _, s1) \<Rightarrow> write_all bs s1)"

lemma write_framed_incoming: "write_framed bs s = (r, s') \<Longrightarrow> ts_incoming s' = ts_incoming s"
  by (auto simp: write_framed_def write_all_def split: option.splits)

lemma read_exact_incoming:
  "read_exact n s = (Inr bs, s') \<Longrightarrow> length (ts_incoming s') + n = length (ts_incoming s)"
  by (auto simp: read_exact_def split: if_split_asm)

text \<open>\<open>env i\<close>: what the \<open>i\<close>-th request of the connection finds outside.\<close>

function handle_tcp_connection ::
    "bincode \<Rightarrow> (nat \<Rightarrow> outside \<times> string \<times> u64) \<Rightarrow> mailbox_server \<Rightarrow> tcp_stream
      \<Rightarrow> ((mailbox_net_error + unit) \<times> mailbox_server \<times> tcp_stream) option" where
  "handle_tcp_connection bc env sv s =
     (case read_exact 4 s of
        (Inl UnexpectedEof, s1) \<Rightarrow> Some (Inr (), sv, s1)
      | (Inl e, s1) \<Rightarrow> Some (Inl (MNIo e), sv, s1)
      | (Inr len_buf, s1) \<Rightarrow>
          let msg_len = unat (be_word len_buf :: u32) in
          if msg_len > nk_max_message_size (sv_config sv)
          then Some (Inl (MNIo (IoError (''Message too large: '' @ nat_string msg_len @ '' bytes''))), sv, s1)
          else (case read_exact msg_len s1 of
             (Inl e, s2) \<Rightarrow> Some (Inl (MNIo e), sv, s2)
           | (Inr msg_buf, s2) \<Rightarrow>
               (case bc_dec bc msg_buf of
                  Inl e \<Rightarrow> Some (Inl (MNSerialization e), sv, s2)
                | Inr network_msg \<Rightarrow>
                    (case handle_message (fst (env 0)) (snd (env 0)) network_msg sv of
                       None \<Rightarrow> None
                     | Some (response, sv1) \<Rightarrow>
                         (case bc_enc bc response of
                            Inl e \<Rightarrow> Some (Inl (MNSerialization e), sv1, s2)
                          | Inr response_bytes \<Rightarrow>
                              (case write_framed response_bytes s2 of
                                 (Inl e, s3) \<Rightarrow> Some (Inl (MNIo e), sv1, s3)
                               | (Inr _, s3) \<Rightarrow> handle_tcp_connection bc (\<lambda>i. env (i + 1)) sv1 s3))))))"
  by pat_completeness auto

termination
  by (relation "measure (\<lambda>(bc, env, sv, s). length (ts_incoming s))")
    (auto dest!: read_exact_incoming [OF sym] write_framed_incoming [OF sym])

declare handle_tcp_connection.simps [simp del]

text \<open>The datagrams a UDP server receives, each with its sender, and the answers it sends; \<open>delivered\<close> says
  whether the system takes an answer, whose failure is only printed. A datagram longer than the
  buffer is cut.\<close>

fun udp_server ::
    "bincode \<Rightarrow> (nat \<Rightarrow> outside \<times> string \<times> u64) \<Rightarrow> (string \<Rightarrow> bytes \<Rightarrow> bool) \<Rightarrow> (string \<times> bytes) list
      \<Rightarrow> mailbox_server \<Rightarrow> (mailbox_server \<times> (string \<times> bytes) list) option" where
  "udp_server bc env delivered [] sv = Some (sv, [])"
| "udp_server bc env delivered ((peer_addr, packet) # packets) sv =
     (case bc_dec bc (take (nk_max_message_size (sv_config sv)) packet) of
        Inl e \<Rightarrow> udp_server bc (\<lambda>i. env (i + 1)) delivered packets sv
      | Inr network_msg \<Rightarrow>
          (case handle_message (fst (env 0)) (snd (env 0)) network_msg sv of
             None \<Rightarrow> None
           | Some (response, sv1) \<Rightarrow>
               (case udp_server bc (\<lambda>i. env (i + 1)) delivered packets sv1 of
                  None \<Rightarrow> None
                | Some (sv2, sent) \<Rightarrow>
                    (case bc_enc bc response of
                       Inl e \<Rightarrow> Some (sv2, sent)
                     | Inr response_bytes \<Rightarrow> Some (sv2,
                         if delivered peer_addr response_bytes then (peer_addr, response_bytes) # sent else sent)))))"

section \<open>Clients\<close>

text \<open>What the network does for a client: connecting, what has arrived on a stream once the peer has
  seen what was written, binding a local UDP port, and the datagram that answers a datagram.\<close>

record net_reach =
  nr_connect :: "string \<Rightarrow> io_error + tcp_stream"
  nr_peer :: "tcp_stream \<Rightarrow> tcp_stream"
  nr_udp_bind :: "io_error + unit"
  nr_udp_exchange :: "string \<Rightarrow> bytes \<Rightarrow> io_error + bytes"

record mailbox_client =
  mcl_server_addr :: string
  mcl_protocol :: protocol
  mcl_timeout :: nat

definition mailbox_client_new :: "string \<Rightarrow> protocol \<Rightarrow> mailbox_client" where
  "mailbox_client_new server_addr proto =
     \<lparr>mcl_server_addr = server_addr, mcl_protocol = proto, mcl_timeout = 5\<rparr>"

definition request_tcp ::
    "bincode \<Rightarrow> net_reach \<Rightarrow> mailbox_client \<Rightarrow> network_message \<Rightarrow> mailbox_net_error + network_message" where
  "request_tcp bc net client msg =
     and_then (map_err MNIo (nr_connect net (mcl_server_addr client))) (\<lambda>stream.
     and_then (map_err MNSerialization (bc_enc bc msg)) (\<lambda>msg_bytes.
       (case write_framed msg_bytes stream of
          (Inl e, _) \<Rightarrow> Inl (MNIo e)
        | (Inr _, s1) \<Rightarrow>
            (case read_exact 4 (nr_peer net s1) of
               (Inl e, _) \<Rightarrow> Inl (MNIo e)
             | (Inr len_buf, s2) \<Rightarrow>
                 (case read_exact (unat (be_word len_buf :: u32)) s2 of
                    (Inl e, _) \<Rightarrow> Inl (MNIo e)
                  | (Inr response_buf, _) \<Rightarrow> map_err MNSerialization (bc_dec bc response_buf))))))"

definition request_udp ::
    "bincode \<Rightarrow> net_reach \<Rightarrow> mailbox_client \<Rightarrow> network_message \<Rightarrow> mailbox_net_error + network_message" where
  "request_udp bc net client msg =
     and_then (map_err MNIo (nr_udp_bind net)) (\<lambda>_.
     and_then (map_err MNSerialization (bc_enc bc msg)) (\<lambda>msg_bytes.
     and_then (map_err MNIo (nr_udp_exchange net (mcl_server_addr client) msg_bytes)) (\<lambda>reply.
       map_err MNSerialization (bc_dec bc (take (10 * 1024 * 1024) reply)))))"

definition client_request ::
    "bincode \<Rightarrow> net_reach \<Rightarrow> mailbox_client \<Rightarrow> network_message \<Rightarrow> mailbox_net_error + network_message" where
  "client_request bc net client msg =
     (case mcl_protocol client of Tcp \<Rightarrow> request_tcp bc net client msg | Udp \<Rightarrow> request_udp bc net client msg)"

definition client_send ::
    "bincode \<Rightarrow> net_reach \<Rightarrow> string \<Rightarrow> string \<Rightarrow> bytes \<Rightarrow> mailbox_client \<Rightarrow> mailbox_net_error + unit" where
  "client_send bc net to_addr from_addr body client =
     and_then (client_request bc net client (SendMessage to_addr from_addr body None)) (\<lambda>_. Inr ())"

definition client_send_with_subject ::
    "bincode \<Rightarrow> net_reach \<Rightarrow> string \<Rightarrow> string \<Rightarrow> string \<Rightarrow> bytes \<Rightarrow> mailbox_client \<Rightarrow> mailbox_net_error + unit" where
  "client_send_with_subject bc net to_addr from_addr subject body client =
     and_then (client_request bc net client (SendMessage to_addr from_addr body (Some subject))) (\<lambda>_. Inr ())"

definition client_receive ::
    "bincode \<Rightarrow> net_reach \<Rightarrow> string \<Rightarrow> mailbox_client \<Rightarrow> mailbox_net_error + message_data option" where
  "client_receive bc net address client =
     and_then (client_request bc net client (ReceiveMessage address)) (\<lambda>response.
       case response of
         MessageResponse m \<Rightarrow> Inr m
       | ErrorResponse e \<Rightarrow> Inl (MNMailbox (MailboxNotFound e))
       | _ \<Rightarrow> Inl (InvalidProtocol 0))"

section \<open>Frames on a connection\<close>

text \<open>A message on a connection is its length and its bytes. With the decoder that reads one of them,
  this is a format of self-delimiting frames.\<close>

definition framed :: "bytes \<Rightarrow> bytes" where
  "framed bs = be_bytes 4 (of_nat (length bs) :: u32) @ bs"

definition unframe :: "bytes \<Rightarrow> io_error + bytes \<times> nat" where
  "unframe bs =
     (let n = unat (be_word (take 4 bs) :: u32) in
      if length bs < 4 \<or> length (drop 4 bs) < n then Inl UnexpectedEof else Inr (take n (drop 4 bs), 4 + n))"

interpretation len_prefixed: frame_codec framed unframe "\<lambda>bs. length bs < 2 ^ 32"
proof
  show "unframe (framed bs @ rest) = Inr (bs, length (framed bs))" if "length bs < 2 ^ 32" for bs rest
    using that by (simp add: unframe_def framed_def unat_of_nat32 Let_def)
  show "framed bs \<noteq> []" for bs
  proof
    assume "framed bs = []"
    then have "length (framed bs) = 0" by simp
    then show False by (simp add: framed_def)
  qed
qed

lemma read_exact_framed:
  assumes "length bs < 2 ^ 32" "ts_incoming s = framed bs @ rest"
  shows "read_exact 4 s = (Inr (be_bytes 4 (of_nat (length bs) :: u32)), s\<lparr>ts_incoming := bs @ rest\<rparr>)"
    and "read_exact (unat (be_word (be_bytes 4 (of_nat (length bs) :: u32)) :: u32)) (s\<lparr>ts_incoming := bs @ rest\<rparr>)
      = (Inr bs, s\<lparr>ts_incoming := rest\<rparr>)"
  using assms by (simp_all add: read_exact_def framed_def unat_of_nat32)

lemma write_framed_ok:
  "ts_write_error s = None \<Longrightarrow> write_framed bs s = (Inr (), s\<lparr>ts_written := ts_written s @ framed bs\<rparr>)"
  by (simp add: write_framed_def write_all_def framed_def)

text \<open>The answers to a list of requests, one after the other.\<close>

fun serve_all ::
    "(nat \<Rightarrow> outside \<times> string \<times> u64) \<Rightarrow> mailbox_server \<Rightarrow> network_message list
      \<Rightarrow> (network_message list \<times> mailbox_server) option" where
  "serve_all env sv [] = Some ([], sv)"
| "serve_all env sv (msg # msgs) =
     (case handle_message (fst (env 0)) (snd (env 0)) msg sv of
        None \<Rightarrow> None
      | Some (response, sv1) \<Rightarrow>
          (case serve_all (\<lambda>i. env (i + 1)) sv1 msgs of
             None \<Rightarrow> None
           | Some (responses, sv2) \<Rightarrow> Some (response # responses, sv2)))"

lemma get_or_create_config: "get_or_create_mailbox os address sv = (r, sv') \<Longrightarrow> sv_config sv' = sv_config sv"
  by (auto simp: get_or_create_mailbox_def Let_def split: option.splits sum.splits prod.splits)

lemma handle_message_config:
  "handle_message out stamp msg sv = Some (response, sv') \<Longrightarrow> sv_config sv' = sv_config sv"
  by (cases msg) (auto simp: handle_send_def handle_receive_def handle_peek_def dest!: get_or_create_config
      split: prod.splits sum.splits option.splits)

lemma handle_tcp_requests:
  assumes "serve_all env sv msgs = Some (responses, sv')"
    and "list_all2 (\<lambda>msg bs. bc_dec bc bs = Inr msg \<and> length bs \<le> nk_max_message_size (sv_config sv)
      \<and> length bs < 2 ^ 32) msgs bss"
    and "list_all2 (\<lambda>response rs. bc_enc bc response = Inr rs) responses rss"
    and "ts_incoming s = len_prefixed.encs bss" "ts_write_error s = None"
  shows "handle_tcp_connection bc env sv s
    = Some (if ts_ending s = UnexpectedEof then Inr () else Inl (MNIo (ts_ending s)), sv', s\<lparr>ts_incoming := [], ts_written := ts_written s @ len_prefixed.encs rss\<rparr>)"
  using assms
proof (induction msgs arbitrary: env sv s responses bss rss)
  case Nil
  then show ?case by (subst handle_tcp_connection.simps) (simp add: read_exact_def split: io_error.split)
next
  case (Cons msg msgs)
  from Cons.prems(2) obtain bs bss' where bs: "bss = bs # bss'" "bc_dec bc bs = Inr msg"
    "length bs \<le> nk_max_message_size (sv_config sv)" "length bs < 2 ^ 32" by (auto simp: list_all2_Cons1)
  from Cons.prems(1) obtain response sv1 responses' where
    r: "handle_message (fst (env 0)) (snd (env 0)) msg sv = Some (response, sv1)"
    "serve_all (\<lambda>i. env (i + 1)) sv1 msgs = Some (responses', sv')" "responses = response # responses'"
    by (auto split: option.splits)
  from Cons.prems(3) obtain rs rss' where rs: "rss = rs # rss'" "bc_enc bc response = Inr rs"
    by (auto simp: r(3) list_all2_Cons1)
  let ?s = "s\<lparr>ts_incoming := len_prefixed.encs bss', ts_written := ts_written s @ framed rs\<rparr>"
  have "handle_tcp_connection bc env sv s = handle_tcp_connection bc (\<lambda>i. env (i + 1)) sv1 ?s"
    using read_exact_framed [OF bs(4), of s "len_prefixed.encs bss'"] Cons.prems(4,5) bs r(1) rs(2)
    by (subst handle_tcp_connection.simps) (simp add: unat_of_nat32 write_framed_ok Let_def)
  with Cons.IH [OF r(2), of bss' rss' ?s] Cons.prems bs(1) rs(1) r(3) handle_message_config [OF r(1)]
  show ?case by simp
qed

section \<open>A client and a server\<close>

text \<open>A server at the other end of the stream: what it writes when it handles what the client wrote,
  and the state it ends in.\<close>

definition server_run ::
    "bincode \<Rightarrow> (nat \<Rightarrow> outside \<times> string \<times> u64) \<Rightarrow> mailbox_server \<Rightarrow> bytes \<Rightarrow> (mailbox_server \<times> bytes) option" where
  "server_run bc env sv sent =
     map_option (\<lambda>(_, sv', p). (sv', ts_written p)) (handle_tcp_connection bc env sv
       \<lparr>ts_incoming = sent, ts_ending = UnexpectedEof, ts_written = [], ts_write_error = None\<rparr>)"

definition reaches_server ::
    "bincode \<Rightarrow> (nat \<Rightarrow> outside \<times> string \<times> u64) \<Rightarrow> mailbox_server \<Rightarrow> net_reach" where
  "reaches_server bc env sv =
     \<lparr>nr_connect = (\<lambda>_. Inr \<lparr>ts_incoming = [], ts_ending = UnexpectedEof, ts_written = [], ts_write_error = None\<rparr>),
      nr_peer = (\<lambda>s. case server_run bc env sv (ts_written s) of
          Some (_, answer) \<Rightarrow> s\<lparr>ts_incoming := ts_incoming s @ answer\<rparr> | None \<Rightarrow> s),
      nr_udp_bind = Inr (), nr_udp_exchange = (\<lambda>_ _. Inl UnexpectedEof)\<rparr>"

definition server_after ::
    "bincode \<Rightarrow> (nat \<Rightarrow> outside \<times> string \<times> u64) \<Rightarrow> mailbox_server \<Rightarrow> network_message \<Rightarrow> mailbox_server" where
  "server_after bc env sv msg =
     (case bc_enc bc msg of
        Inl _ \<Rightarrow> sv
      | Inr bs \<Rightarrow> (case server_run bc env sv (framed bs) of Some (sv1, _) \<Rightarrow> sv1 | None \<Rightarrow> sv))"

text \<open>\<open>bincode\<close> reads back what it wrote, and the bytes fit a frame and the limit \<open>n\<close>.\<close>

definition carries :: "bincode \<Rightarrow> nat \<Rightarrow> network_message \<Rightarrow> bool" where
  "carries bc n msg \<longleftrightarrow>
     (case bc_enc bc msg of
        Inr bs \<Rightarrow> bc_dec bc bs = Inr msg \<and> length bs \<le> n \<and> length bs < 2 ^ 32
      | Inl _ \<Rightarrow> False)"

lemma carriesE:
  assumes "carries bc n msg"
  obtains bs where "bc_enc bc msg = Inr bs" "bc_dec bc bs = Inr msg" "length bs \<le> n" "length bs < 2 ^ 32"
  using assms by (auto simp: carries_def split: sum.splits)

lemma server_run_one:
  assumes "bc_enc bc msg = Inr bs" "bc_dec bc bs = Inr msg" "length bs \<le> nk_max_message_size (sv_config sv)"
    and "length bs < 2 ^ 32"
    and "handle_message (fst (env 0)) (snd (env 0)) msg sv = Some (response, sv1)" "bc_enc bc response = Inr rs"
  shows "server_run bc env sv (framed bs) = Some (sv1, framed rs)"
proof -
  have "serve_all env sv [msg] = Some ([response], sv1)" using assms(5) by simp
  from handle_tcp_requests [OF this, of bc "[bs]" "[rs]" "\<lparr>ts_incoming = framed bs, ts_ending = UnexpectedEof,
      ts_written = [], ts_write_error = None\<rparr>"] assms(1-4,6)
  show ?thesis by (simp add: server_run_def)
qed

lemma request_tcp_served:
  assumes "bc_enc bc msg = Inr bs" "server_run bc env sv (framed bs) = Some (sv1, framed rs)"
    and "bc_dec bc rs = Inr response" "length rs < 2 ^ 32"
  shows "request_tcp bc (reaches_server bc env sv) client msg = Inr response"
proof -
  let ?s = "\<lparr>ts_incoming = [], ts_ending = UnexpectedEof, ts_written = framed bs, ts_write_error = None\<rparr>"
  have "write_framed bs (?s\<lparr>ts_written := []\<rparr>) = (Inr (), ?s)"
    by (simp add: write_framed_def write_all_def framed_def)
  moreover have "nr_peer (reaches_server bc env sv) ?s = ?s\<lparr>ts_incoming := framed rs\<rparr>"
    using assms(2) by (simp add: reaches_server_def)
  moreover have "nr_connect (reaches_server bc env sv) a = Inr (?s\<lparr>ts_written := []\<rparr>)" for a
    by (simp add: reaches_server_def)
  ultimately show ?thesis
    using assms read_exact_framed [of rs "?s\<lparr>ts_incoming := framed rs\<rparr>" "[]"]
    by (simp add: request_tcp_def)
qed

lemma tcp_exchange:
  assumes "carries bc (nk_max_message_size (sv_config sv)) msg" "carries bc n response" "mcl_protocol client = Tcp"
    and "handle_message (fst (env 0)) (snd (env 0)) msg sv = Some (response, sv1)"
  shows "client_request bc (reaches_server bc env sv) client msg = Inr response"
    and "server_after bc env sv msg = sv1"
proof -
  from assms(1) obtain bs where bs: "bc_enc bc msg = Inr bs" "bc_dec bc bs = Inr msg"
    "length bs \<le> nk_max_message_size (sv_config sv)" "length bs < 2 ^ 32" by (rule carriesE)
  from assms(2) obtain rs' where rs': "bc_enc bc response = Inr rs'" "bc_dec bc rs' = Inr response" "length rs' < 2 ^ 32"
    by (rule carriesE)
  note run = server_run_one [of bc msg bs sv env response sv1, OF bs(1-4) assms(4) rs'(1)]
  show "client_request bc (reaches_server bc env sv) client msg = Inr response"
    using request_tcp_served [OF bs(1) run rs'(2,3)] assms(3) by (simp add: client_request_def)
  show "server_after bc env sv msg = sv1"
    using bs(1) run by (simp add: server_after_def)
qed

lemma cached_mailbox:
  "map_of (sv_mailboxes sv) address = Some mb \<Longrightarrow> get_or_create_mailbox os address sv = (Inr mb, sv)"
  by (simp add: get_or_create_mailbox_def)

section \<open>Properties\<close>

text \<open>C11: A message sent by one client over TCP reaches another. If the server has handles for the sender
  and the recipient, and the recipient has received everything sent to it before, then the
  client's \<open>send\<close> returns \<open>Ok\<close>, and a client's \<open>receive\<close> for the recipient, served by the state the
  first connection left behind, returns the message with its sender, recipient, id, time and
  body. This needs a mailbox of the recipient (otherwise the message is lost, see
  \<open>undelivered_send_is_ok\<close>) to which at most 64 MiB were ever sent. (The JSON and \<open>bincode\<close>
  libraries are assumed to read back what they write, the messages to fit the server's limit,
  and the system to grant the server's requests.)\<close>

theorem remote_message_arrives:
  assumes holds: "mailbox_holds out (sv_system sv) to_addr recs" "os_willing (out_os out)" "to_addr \<noteq> []"
    and cached: "map_of (sv_mailboxes sv) from_addr = Some sender" "mb_address sender = from_addr"
      "map_of (sv_mailboxes sv) to_addr = Some rcv" "mb_address rcv = to_addr" "unat (mb_read_offset rcv) = length recs"
    and m: "m = mailbox_message_new stamp from_addr to_addr body"
    and json: "to_json (out_json out) m = Inr b" "b \<noteq> []" "from_json (out_json out) b = Inr m"
    and room: "length (concat recs) + length b \<le> 64 * 1024 * 1024" "length recs + 1 < 2 ^ 64"
    and wire: "\<forall>msg \<in> {SendMessage to_addr from_addr body None, SuccessMessage, ReceiveMessage to_addr,
        MessageResponse (Some (message_data_of m))}. carries bc (nk_max_message_size (sv_config sv)) msg"
    and env: "env_s 0 = (out, stamp)" "fst (env_r 0) = out" and tcp: "mcl_protocol client_s = Tcp" "mcl_protocol client_r = Tcp"
  shows "client_send bc (reaches_server bc env_s sv) to_addr from_addr body client_s = Inr ()
    \<and> client_receive bc (reaches_server bc env_r
          (server_after bc env_s sv (SendMessage to_addr from_addr body None))) to_addr client_r
        = Inr (Some (message_data_of m))"
proof -
  let ?send = "SendMessage to_addr from_addr body None"
  have to_addr: "mm_to m = to_addr" "mm_id m = fst stamp" by (simp_all add: m mailbox_message_new_def)
  from route_message_ok [of out "sv_system sv" m recs b] holds json room to_addr obtain sys where
    sys: "route_message out m (sv_system sv) = Some (Inr (fst stamp), sys)" "mailbox_holds out sys to_addr (recs @ [b])"
    by auto
  let ?sv1 = "sv\<lparr>sv_system := sys\<rparr>"
  have sent: "handle_message (fst (env_s 0)) (snd (env_s 0)) ?send sv = Some (SuccessMessage, ?sv1)"
    using sys(1) holds(3) env(1) cached(2)
    by (simp add: handle_send_def cached_mailbox [OF cached(1)] send_to_def mailbox_address_new_def m)
  note first = tcp_exchange [where env = env_s, OF _ _ tcp(1) sent, of bc "nk_max_message_size (sv_config sv)"]
  have "read_next out sys rcv = Inr b"
    using read_next_last [of out sys rcv recs b] sys(2) cached(4,5) json(2) by simp
  then have "fst (receive out sys rcv) = Inr (Some m)"
    using json(2,3) by (simp add: receive_def mailbox_message_from_bytes_def)
  then obtain rcv' where "receive out sys rcv = (Inr (Some m), rcv')" by (metis prod.collapse)
  then have received: "handle_message (fst (env_r 0)) (snd (env_r 0)) (ReceiveMessage to_addr) ?sv1
      = Some (MessageResponse (Some (message_data_of m)), ?sv1\<lparr>sv_mailboxes := hash_insert to_addr rcv' (sv_mailboxes ?sv1)\<rparr>)"
    using env(2) cached(3) by (simp add: handle_receive_def cached_mailbox [of ?sv1 to_addr rcv])
  note second = tcp_exchange [where env = env_r, OF _ _ tcp(2) received, of bc "nk_max_message_size (sv_config sv)"]
  show ?thesis
    using first second wire by (simp add: client_send_def client_receive_def)
qed

text \<open>A codec for five messages, and a server with handles for two mailboxes.\<close>

definition five_messages :: "network_message list" where
  "five_messages = [SendMessage ''b'' ''a'' [10] None, SuccessMessage, ReceiveMessage ''b'',
     MessageResponse (Some (message_data_of first_message)),
     ErrorResponse (''Failed to send: Mailbox not found: '' @ ''b'')]"

text \<open>A codec that writes a listed message as its number.\<close>

definition listed_bincode :: "network_message list \<Rightarrow> bincode" where
  "listed_bincode msgs =
     \<lparr>bc_enc = (\<lambda>msg. case find (\<lambda>i. msgs ! i = msg) [0..<length msgs] of Some i \<Rightarrow> Inr [of_nat i] | None \<Rightarrow> Inl ''unsupported''),
      bc_dec = (\<lambda>bs. if length bs = 1 \<and> unat (hd bs) < length msgs then Inr (msgs ! unat (hd bs)) else Inl ''unknown'')\<rparr>"

lemma listed_carried:
  assumes "msg \<in> set msgs" "length msgs < 256" "1 \<le> n"
  shows "carries (listed_bincode msgs) n msg"
proof -
  obtain j where "j < length msgs" "msgs ! j = msg" using assms(1) by (metis in_set_conv_nth)
  then have "find (\<lambda>i. msgs ! i = msg) [0..<length msgs] \<noteq> None" by (auto simp: find_None_iff)
  then obtain i where i: "find (\<lambda>i. msgs ! i = msg) [0..<length msgs] = Some i" by blast
  then have "i < length msgs" "msgs ! i = msg" by (auto simp: find_Some_iff)
  moreover from this have "unat (of_nat i :: u8) = i"
    using assms(2) by (simp add: unat_of_nat take_bit_nat_eq_self)
  ultimately show ?thesis
    using i assms(3) by (simp add: carries_def listed_bincode_def)
qed

definition five_message_codec :: bincode where
  "five_message_codec = listed_bincode five_messages"

lemma five_messages_carried:
  assumes "msg \<in> set five_messages"
  shows "carries five_message_codec (nk_max_message_size network_config_default) msg"
  using listed_carried [OF assms] by (simp add: five_message_codec_def five_messages_def network_config_default_def)

definition two_handles :: "mailbox_system \<Rightarrow> mailbox_server" where
  "two_handles sys = \<lparr>sv_config = network_config_default, sv_system = sys,
     sv_mailboxes = [(''a'', \<lparr>mb_address = ''a'', mb_read_offset = 0\<rparr>), (''b'', \<lparr>mb_address = ''b'', mb_read_offset = 0\<rparr>)]\<rparr>"

theorem remote_message_arrives_witness:
  "\<exists>sys. let sv = two_handles sys; env = (\<lambda>_. (demo_outside, (''id1'', 5))) in
     client_send five_message_codec (reaches_server five_message_codec env sv) ''b'' ''a'' [10]
       (mailbox_client_new ''127.0.0.1:9090'' Tcp) = Inr ()
   \<and> client_receive five_message_codec (reaches_server five_message_codec env
         (server_after five_message_codec env sv (SendMessage ''b'' ''a'' [10] None))) ''b''
       (mailbox_client_new ''127.0.0.1:9090'' Tcp) = Inr (Some (message_data_of first_message))"
proof -
  obtain sys where sys: "mailbox_holds demo_outside sys ''b'' []" by (rule demo_mailbox)
  have json: "os_willing (out_os demo_outside)" "to_json (out_json demo_outside) first_message = Inr [1]"
    "from_json (out_json demo_outside) [1] = Inr first_message"
    by (simp_all add: demo_outside_def demo_os_willing two_message_json_def)
  have "\<forall>msg \<in> {SendMessage ''b'' ''a'' [10] None, SuccessMessage, ReceiveMessage ''b'',
      MessageResponse (Some (message_data_of first_message))}.
      carries five_message_codec (nk_max_message_size (sv_config (two_handles sys))) msg"
    using five_messages_carried by (simp add: five_messages_def two_handles_def)
  from remote_message_arrives [where out = demo_outside and sv = "two_handles sys" and recs = "[]"
      and to_addr = "''b''" and from_addr = "''a''" and body = "[10]" and m = first_message
      and stamp = "(''id1'', 5)" and b = "[1]" and sender = "\<lparr>mb_address = ''a'', mb_read_offset = 0\<rparr>"
      and rcv = "\<lparr>mb_address = ''b'', mb_read_offset = 0\<rparr>" and bc = five_message_codec
      and env_s = "\<lambda>_. (demo_outside, (''id1'', 5))" and env_r = "\<lambda>_. (demo_outside, (''id1'', 5))"
      and client_s = "mailbox_client_new ''127.0.0.1:9090'' Tcp"
      and client_r = "mailbox_client_new ''127.0.0.1:9090'' Tcp", OF _ json(1) _ _ _ _ _ _ _ json(2) _ json(3) _ _ this]
  have "client_send five_message_codec (reaches_server five_message_codec (\<lambda>_. (demo_outside, (''id1'', 5))) (two_handles sys))
        ''b'' ''a'' [10] (mailbox_client_new ''127.0.0.1:9090'' Tcp) = Inr ()
    \<and> client_receive five_message_codec (reaches_server five_message_codec (\<lambda>_. (demo_outside, (''id1'', 5)))
         (server_after five_message_codec (\<lambda>_. (demo_outside, (''id1'', 5))) (two_handles sys) (SendMessage ''b'' ''a'' [10] None)))
         ''b'' (mailbox_client_new ''127.0.0.1:9090'' Tcp) = Inr (Some (message_data_of first_message))"
    using sys by (simp add: two_handles_def first_message_def mailbox_client_new_def)
  then show ?thesis by (intro exI [of _ sys]) (simp add: Let_def)
qed

text \<open>A client is not told that a message was not delivered. When the recipient has no mailbox, the
  server answers the request with an error and stores nothing, and \<open>MailboxClient::send\<close> returns
  \<open>Ok\<close>: it looks at no answer that arrives.\<close>

lemma undelivered_send_is_ok:
  assumes absent: "map_of (mx_mailboxes (sv_system sv)) to_addr = None" "to_addr \<noteq> []"
    and cached: "map_of (sv_mailboxes sv) from_addr = Some sender"
    and wire: "carries bc (nk_max_message_size (sv_config sv)) (SendMessage to_addr from_addr body None)"
      "carries bc n (ErrorResponse (''Failed to send: Mailbox not found: '' @ to_addr))"
    and tcp: "mcl_protocol client = Tcp"
  shows "client_send bc (reaches_server bc env sv) to_addr from_addr body client = Inr ()
    \<and> handle_message (fst (env 0)) (snd (env 0)) (SendMessage to_addr from_addr body None) sv
        = Some (ErrorResponse (''Failed to send: Mailbox not found: '' @ to_addr), sv)
    \<and> server_after bc env sv (SendMessage to_addr from_addr body None) = sv"
proof -
  have h: "handle_message (fst (env 0)) (snd (env 0)) (SendMessage to_addr from_addr body None) sv
      = Some (ErrorResponse (''Failed to send: Mailbox not found: '' @ to_addr), sv)"
    using absent by (simp add: handle_send_def cached_mailbox [OF cached] send_to_def mailbox_address_new_def
        route_message_def mailbox_message_new_def)
  show ?thesis
    using tcp_exchange [where env = env, OF wire tcp h] h by (simp add: client_send_def)
qed

lemma undelivered_send_is_ok_example:
  "\<exists>sys. client_send five_message_codec
       (reaches_server five_message_codec (\<lambda>_. (demo_outside, (''id1'', 5))) (two_handles sys)) ''b'' ''a'' [10]
       (mailbox_client_new ''127.0.0.1:9090'' Tcp) = Inr ()"
proof -
  obtain sys where sys: "mailbox_system_new demo_os ''d'' = Inr sys"
    by (simp add: mailbox_system_new_def demo_os_def)
  then have "map_of (mx_mailboxes (sv_system (two_handles sys))) ''b'' = None"
    by (auto simp: mailbox_system_new_def two_handles_def demo_os_def)
  moreover have "map_of (sv_mailboxes (two_handles sys)) ''a'' = Some \<lparr>mb_address = ''a'', mb_read_offset = 0\<rparr>"
    by (simp add: two_handles_def)
  moreover have "carries five_message_codec (nk_max_message_size (sv_config (two_handles sys))) (SendMessage ''b'' ''a'' [10] None)"
    "carries five_message_codec (nk_max_message_size network_config_default)
      (ErrorResponse (''Failed to send: Mailbox not found: '' @ ''b''))"
    using five_messages_carried by (simp_all add: five_messages_def two_handles_def)
  ultimately have "client_send five_message_codec
       (reaches_server five_message_codec (\<lambda>_. (demo_outside, (''id1'', 5))) (two_handles sys)) ''b'' ''a'' [10]
       (mailbox_client_new ''127.0.0.1:9090'' Tcp) = Inr ()"
    using undelivered_send_is_ok [of "two_handles sys" "''b''" "''a''" _ five_message_codec "[10]"
        "nk_max_message_size network_config_default" "mailbox_client_new ''127.0.0.1:9090'' Tcp"
        "\<lambda>_. (demo_outside, (''id1'', 5))"] by (simp add: mailbox_client_new_def)
  then show ?thesis by blast
qed

text \<open>C13: A mailbox server answers the requests of a TCP connection in order. Given the frames of any
  number of requests that its limit admits, it handles each in the state the previous one left, writes
  the frames of the answers in the same order and nothing else, and reads all that was sent. When
  the client then closes the connection, it returns \<open>Ok\<close>, in the last state; when the connection
  ends with another error, it returns that error.\<close>

theorem tcp_server_answers_in_order:
  assumes served: "serve_all env sv msgs = Some (responses, sv')"
    and requests: "list_all2 (\<lambda>msg bs. bc_enc bc msg = Inr bs) msgs bss"
      "\<forall>msg \<in> set msgs. carries bc (nk_max_message_size (sv_config sv)) msg"
    and answers: "list_all2 (\<lambda>response rs. bc_enc bc response = Inr rs) responses rss"
    and stream: "ts_incoming s = concat (map framed bss)" "ts_write_error s = None"
  shows "handle_tcp_connection bc env sv s
    = Some (if ts_ending s = UnexpectedEof then Inr () else Inl (MNIo (ts_ending s)), sv',
        s\<lparr>ts_incoming := [], ts_written := ts_written s @ concat (map framed rss)\<rparr>)"
proof -
  have "list_all2 (\<lambda>msg bs. bc_dec bc bs = Inr msg \<and> length bs \<le> nk_max_message_size (sv_config sv)
      \<and> length bs < 2 ^ 32) msgs bss"
    using requests by (induction rule: list_all2_induct) (auto elim!: carriesE)
  from handle_tcp_requests [OF served this answers] stream
  show ?thesis by (simp add: len_prefixed.encs_def)
qed

theorem tcp_server_answers_in_order_witness:
  "\<exists>sys. handle_tcp_connection five_message_codec (\<lambda>_. (demo_outside, (''id1'', 5))) (two_handles sys)
       \<lparr>ts_incoming = framed [0] @ framed [0], ts_ending = UnexpectedEof, ts_written = [], ts_write_error = None\<rparr>
     = Some (Inr (), two_handles sys,
         \<lparr>ts_incoming = [], ts_ending = UnexpectedEof, ts_written = framed [4] @ framed [4], ts_write_error = None\<rparr>)"
proof -
  obtain sys where sys: "mailbox_system_new demo_os ''d'' = Inr sys"
    by (simp add: mailbox_system_new_def demo_os_def)
  then have absent: "map_of (mx_mailboxes (sv_system (two_handles sys))) ''b'' = None"
    by (auto simp: mailbox_system_new_def two_handles_def demo_os_def)
  have cached: "map_of (sv_mailboxes (two_handles sys)) ''a'' = Some \<lparr>mb_address = ''a'', mb_read_offset = 0\<rparr>"
    by (simp add: two_handles_def)
  let ?send = "SendMessage ''b'' ''a'' [10] None"
  let ?err = "ErrorResponse (''Failed to send: Mailbox not found: '' @ ''b'')"
  have "serve_all (\<lambda>_. (demo_outside, (''id1'', 5))) (two_handles sys) [?send, ?send]
      = Some ([?err, ?err], two_handles sys)"
    using absent by (simp add: handle_send_def cached_mailbox [OF cached] send_to_def mailbox_address_new_def
        route_message_def mailbox_message_new_def)
  from tcp_server_answers_in_order [OF this, of five_message_codec "[[0], [0]]" "[[4], [4]]"
      "\<lparr>ts_incoming = framed [0] @ framed [0], ts_ending = UnexpectedEof, ts_written = [], ts_write_error = None\<rparr>"]
  have "handle_tcp_connection five_message_codec (\<lambda>_. (demo_outside, (''id1'', 5))) (two_handles sys)
       \<lparr>ts_incoming = framed [0] @ framed [0], ts_ending = UnexpectedEof, ts_written = [], ts_write_error = None\<rparr>
     = Some (Inr (), two_handles sys,
         \<lparr>ts_incoming = [], ts_ending = UnexpectedEof, ts_written = framed [4] @ framed [4], ts_write_error = None\<rparr>)"
    using five_messages_carried [of ?send]
    by (simp add: five_messages_def two_handles_def five_message_codec_def listed_bincode_def upt_rec first_message_def)
  then show ?thesis by blast
qed

end
