(* ===== verification/Mailbox_Processor.thy ===== *)
theory Mailbox_Processor
  imports Mailbox
begin

text \<open>
  Processors of mailboxes, \<open>src/mailbox_processor.rs\<close>: the context a processor works in, the manager
  that registers processors and polls their mailboxes, and the built-in processors. A processor
  is a record of its three functions on the mailbox system; a tick of the task that polls a
  mailbox is one step of the manager. DataFusion and the JSON writer of Arrow are parameters.
\<close>

section \<open>Processors and their context\<close>

datatype processor_error =
    PMailbox mailbox_error
  | PDataFusion string
  | PStorage string
  | PSerialization string
  | PIo string
  | ProcessorNotFound string

datatype storage_backend = BinaryBackend | ParquetBackend string

record 'df processor_context =
  px_address :: mailbox_address
  px_datafusion :: "'df option"
  px_storage_backend :: storage_backend

text \<open>What a processor takes from outside: as for sending, with the id and the time of each message it
  sends, and the clock in seconds. No value if a queue append never returns.\<close>

record processor_world =
  pw_out :: outside
  pw_stamps :: "nat \<Rightarrow> string \<times> u64"
  pw_now :: u64

type_synonym processor_result = "((processor_error + unit) \<times> mailbox_system) option"

definition ctx_send_to ::
    "outside \<Rightarrow> string \<times> u64 \<Rightarrow> string \<Rightarrow> bytes \<Rightarrow> 'df processor_context \<Rightarrow> mailbox_system \<Rightarrow> processor_result" where
  "ctx_send_to out stamp to_addr body ctx sys =
     (case get_mailbox (px_address ctx) sys of
        Inl e \<Rightarrow> Some (Inl (PMailbox e), sys)
      | Inr None \<Rightarrow> Some (Inl (PMailbox (MailboxNotFound (px_address ctx))), sys)
      | Inr (Some mb) \<Rightarrow>
          map_option (\<lambda>(res, sys'). (case res of Inl e \<Rightarrow> Inl (PMailbox e) | Inr _ \<Rightarrow> Inr (), sys'))
            (send_to out stamp to_addr body mb sys))"

definition ctx_query ::
    "('df \<Rightarrow> string \<Rightarrow> string + 'batch list) \<Rightarrow> string \<Rightarrow> 'df processor_context \<Rightarrow> processor_error + 'batch list" where
  "ctx_query df_query sql ctx =
     (case px_datafusion ctx of
        Some df \<Rightarrow> map_err PDataFusion (df_query df sql)
      | None \<Rightarrow> Inl (PDataFusion ''DataFusion not enabled for this mailbox''))"

definition ctx_export_parquet ::
    "('df \<Rightarrow> string \<Rightarrow> string \<Rightarrow> string + unit) \<Rightarrow> string \<Rightarrow> string \<Rightarrow> 'df processor_context \<Rightarrow> processor_error + unit" where
  "ctx_export_parquet df_export sql path ctx =
     (case px_datafusion ctx of
        Some df \<Rightarrow> map_err PDataFusion (df_export df sql path)
      | None \<Rightarrow> Inl (PDataFusion ''DataFusion not enabled for this mailbox''))"

record 'df mailbox_processor =
  pr_process :: "processor_world \<Rightarrow> 'df processor_context \<Rightarrow> mailbox_message \<Rightarrow> mailbox_system \<Rightarrow> processor_result"
  pr_init :: "processor_world \<Rightarrow> 'df processor_context \<Rightarrow> mailbox_system \<Rightarrow> processor_result"
  pr_shutdown :: "processor_world \<Rightarrow> 'df processor_context \<Rightarrow> mailbox_system \<Rightarrow> processor_result"

text \<open>A processor that keeps the defaults of the trait for \<open>init\<close> and \<open>shutdown\<close>.\<close>

definition plain_processor ::
    "(processor_world \<Rightarrow> 'df processor_context \<Rightarrow> mailbox_message \<Rightarrow> mailbox_system \<Rightarrow> processor_result)
      \<Rightarrow> 'df mailbox_processor" where
  "plain_processor process = \<lparr>pr_process = process, pr_init = (\<lambda>_ _ sys. Some (Inr (), sys)),
     pr_shutdown = (\<lambda>_ _ sys. Some (Inr (), sys))\<rparr>"

section \<open>The manager\<close>

record processor_config =
  po_enable_sql :: bool
  po_storage_backend :: storage_backend
  po_batch_size :: nat
  po_poll_interval_ms :: u64

definition processor_config_default :: processor_config where
  "processor_config_default = \<lparr>po_enable_sql = False, po_storage_backend = BinaryBackend,
     po_batch_size = 10, po_poll_interval_ms = 100\<rparr>"

text \<open>\<open>pe_mailbox\<close> and \<open>pe_context\<close> are what the spawned task holds.\<close>

record 'df processor_entry =
  pe_processor :: "'df mailbox_processor"
  pe_config :: processor_config
  pe_mailbox :: mailbox
  pe_context :: "'df processor_context"

type_synonym 'df processor_manager = "(mailbox_address \<times> 'df processor_entry) list"

definition processor_manager_new :: "'df processor_manager" where
  "processor_manager_new = []"

definition register_processor ::
    "processor_world \<Rightarrow> string \<Rightarrow> 'df mailbox_processor \<Rightarrow> processor_config
      \<Rightarrow> 'df processor_manager \<Rightarrow> mailbox_system
      \<Rightarrow> ((processor_error + unit) \<times> 'df processor_manager \<times> mailbox_system) option" where
  "register_processor world address processor config m sys =
     (case mailbox_address_new address of
        Inl e \<Rightarrow> Some (Inl (PMailbox e), m, sys)
      | Inr addr \<Rightarrow>
          (case get_mailbox address sys of
             Inl e \<Rightarrow> Some (Inl (PMailbox e), m, sys)
           | Inr None \<Rightarrow> Some (Inl (PMailbox (MailboxNotFound address)), m, sys)
           | Inr (Some mb) \<Rightarrow>
               let datafusion = (if po_enable_sql config then None else None);
                   ctx = \<lparr>px_address = addr, px_datafusion = datafusion, px_storage_backend = po_storage_backend config\<rparr>
               in (case pr_init processor world ctx sys of
                     None \<Rightarrow> None
                   | Some (Inl e, sys') \<Rightarrow> Some (Inl e, m, sys')
                   | Some (Inr _, sys') \<Rightarrow>
                       Some (Inr (), hash_insert addr \<lparr>pe_processor = processor, pe_config = config,
                           pe_mailbox = mb, pe_context = ctx\<rparr> m, sys'))))"

definition process_messages ::
    "processor_world \<Rightarrow> 'df mailbox_processor \<Rightarrow> 'df processor_context \<Rightarrow> mailbox \<Rightarrow> mailbox_system
      \<Rightarrow> ((processor_error + unit) \<times> mailbox \<times> mailbox_system) option" where
  "process_messages world processor ctx mb sys =
     (case receive (pw_out world) sys mb of
        (Inl e, mb') \<Rightarrow> Some (Inl (PMailbox e), mb', sys)
      | (Inr None, mb') \<Rightarrow> Some (Inr (), mb', sys)
      | (Inr (Some msg), mb') \<Rightarrow>
          map_option (\<lambda>(res, sys'). (res, mb', sys')) (pr_process processor world ctx msg sys))"

text \<open>A tick of the task of one processor; an error is only logged.\<close>

definition processor_tick ::
    "processor_world \<Rightarrow> mailbox_address \<Rightarrow> 'df processor_manager \<Rightarrow> mailbox_system
      \<Rightarrow> ('df processor_manager \<times> mailbox_system) option" where
  "processor_tick world addr m sys =
     (case map_of m addr of
        None \<Rightarrow> Some (m, sys)
      | Some entry \<Rightarrow>
          map_option (\<lambda>(res, mb', sys'). (hash_insert addr (entry\<lparr>pe_mailbox := mb'\<rparr>) m, sys'))
            (process_messages world (pe_processor entry) (pe_context entry) (pe_mailbox entry) sys))"

definition shutdown_context :: "mailbox_address \<Rightarrow> 'df processor_entry \<Rightarrow> 'df processor_context" where
  "shutdown_context addr entry = \<lparr>px_address = addr, px_datafusion = None,
     px_storage_backend = po_storage_backend (pe_config entry)\<rparr>"

definition unregister_processor ::
    "processor_world \<Rightarrow> string \<Rightarrow> 'df processor_manager \<Rightarrow> mailbox_system
      \<Rightarrow> ((processor_error + unit) \<times> 'df processor_manager \<times> mailbox_system) option" where
  "unregister_processor world address m sys =
     (case mailbox_address_new address of
        Inl e \<Rightarrow> Some (Inl (PMailbox e), m, sys)
      | Inr addr \<Rightarrow>
          (case map_of m addr of
             None \<Rightarrow> Some (Inr (), m, sys)
           | Some entry \<Rightarrow>
               map_option (\<lambda>(res, sys'). (res, hash_remove addr m, sys'))
                 (pr_shutdown (pe_processor entry) world (shutdown_context addr entry) sys)))"

fun shutdown_loop ::
    "processor_world \<Rightarrow> mailbox_address list \<Rightarrow> 'df processor_manager \<Rightarrow> mailbox_system
      \<Rightarrow> ('df processor_manager \<times> mailbox_system) option" where
  "shutdown_loop world [] m sys = Some (m, sys)"
| "shutdown_loop world (addr # addrs) m sys =
     (case map_of m addr of
        None \<Rightarrow> shutdown_loop world addrs m sys
      | Some entry \<Rightarrow>
          (case pr_shutdown (pe_processor entry) world (shutdown_context addr entry) sys of
             None \<Rightarrow> None
           | Some (_, sys') \<Rightarrow> shutdown_loop world addrs (hash_remove addr m) sys'))"

definition shutdown_all ::
    "processor_world \<Rightarrow> 'df processor_manager \<Rightarrow> mailbox_system \<Rightarrow> ('df processor_manager \<times> mailbox_system) option" where
  "shutdown_all world m sys = shutdown_loop world (map fst m) m sys"

section \<open>Built-in processors\<close>

definition echo_processor :: "'df mailbox_processor" where
  "echo_processor = plain_processor (\<lambda>world ctx msg sys.
     ctx_send_to (pw_out world) (pw_stamps world 0) (mm_from msg) (mm_body msg) ctx sys)"

fun send_batches ::
    "processor_world \<Rightarrow> ('batch \<Rightarrow> string + bytes) \<Rightarrow> string \<Rightarrow> nat \<Rightarrow> 'batch list \<Rightarrow> 'df processor_context
      \<Rightarrow> mailbox_system \<Rightarrow> processor_result" where
  "send_batches world batch_json output_mailbox i [] ctx sys = Some (Inr (), sys)"
| "send_batches world batch_json output_mailbox i (b # bs) ctx sys =
     (case batch_json b of
        Inl e \<Rightarrow> Some (Inl (PStorage e), sys)
      | Inr buf \<Rightarrow>
          (case ctx_send_to (pw_out world) (pw_stamps world i) output_mailbox buf ctx sys of
             None \<Rightarrow> None
           | Some (Inl e, sys') \<Rightarrow> Some (Inl e, sys')
           | Some (Inr _, sys') \<Rightarrow> send_batches world batch_json output_mailbox (i + 1) bs ctx sys'))"

definition aggregation_processor ::
    "('df \<Rightarrow> string \<Rightarrow> string + 'batch list) \<Rightarrow> ('batch \<Rightarrow> string + bytes) \<Rightarrow> string \<Rightarrow> string \<Rightarrow> 'df mailbox_processor" where
  "aggregation_processor df_query batch_json query output_mailbox = plain_processor (\<lambda>world ctx msg sys.
     (case ctx_query df_query query ctx of
        Inl e \<Rightarrow> Some (Inl e, sys)
      | Inr results \<Rightarrow> send_batches world batch_json output_mailbox 0 results ctx sys))"

definition filter_processor :: "(mailbox_message \<Rightarrow> bool) \<Rightarrow> string \<Rightarrow> 'df mailbox_processor" where
  "filter_processor predicate output_mailbox = plain_processor (\<lambda>world ctx msg sys.
     if predicate msg then ctx_send_to (pw_out world) (pw_stamps world 0) output_mailbox (mm_body msg) ctx sys
     else Some (Inr (), sys))"

definition transform_processor :: "(bytes \<Rightarrow> bytes) \<Rightarrow> string \<Rightarrow> 'df mailbox_processor" where
  "transform_processor transform output_mailbox = plain_processor (\<lambda>world ctx msg sys.
     ctx_send_to (pw_out world) (pw_stamps world 0) output_mailbox (transform (mm_body msg)) ctx sys)"

definition path_join :: "string \<Rightarrow> string \<Rightarrow> string" where
  "path_join dir name =
     (if dir = [] then name else if last dir = CHR ''/'' then dir @ name else dir @ ''/'' @ name)"

definition parquet_export_processor ::
    "('df \<Rightarrow> string \<Rightarrow> string \<Rightarrow> string + unit) \<Rightarrow> string \<Rightarrow> 'df mailbox_processor" where
  "parquet_export_processor df_export output_dir =
     \<lparr>pr_process = (\<lambda>world ctx msg sys. Some (ctx_export_parquet df_export ''SELECT * FROM messages''
          (path_join output_dir (''export_'' @ nat_string (unat (pw_now world)) @ ''.parquet'')) ctx, sys)),
      pr_init = (\<lambda>world ctx sys. Some (map_err PIo (os_create_dir_all (out_os (pw_out world)) output_dir), sys)),
      pr_shutdown = (\<lambda>_ _ sys. Some (Inr (), sys))\<rparr>"

section \<open>Lemmas\<close>

lemma mailbox_present: "mailbox_holds out sys addr recs \<Longrightarrow> map_of (mx_mailboxes sys) addr \<noteq> None"
  by (auto simp: mailbox_holds_def)

lemma ctx_send_to_present:
  assumes "map_of (mx_mailboxes sys) (px_address ctx) \<noteq> None" "px_address ctx \<noteq> []" "to_addr \<noteq> []"
    and "route_message out (mailbox_message_new stamp (px_address ctx) to_addr body) sys = Some (Inr i, sys')"
  shows "ctx_send_to out stamp to_addr body ctx sys = Some (Inr (), sys')"
  using assms by (auto simp: ctx_send_to_def get_mailbox_def mailbox_address_new_def send_to_def)

lemma registered_context:
  assumes "register_processor world address processor config m sys = Some (Inr (), m1, sys1)"
  shows "map_of m1 address = Some \<lparr>pe_processor = processor, pe_config = config,
      pe_mailbox = \<lparr>mb_address = address, mb_read_offset = 0\<rparr>,
      pe_context = \<lparr>px_address = address, px_datafusion = None, px_storage_backend = po_storage_backend config\<rparr>\<rparr>"
proof -
  have "address \<noteq> []" using assms by (auto simp: register_processor_def mailbox_address_new_def)
  then show ?thesis
    using assms by (auto simp: register_processor_def mailbox_address_new_def get_mailbox_def Let_def
        split: option.splits sum.splits prod.splits)
qed

text \<open>The mailbox of a processor has one message that it did not take yet.\<close>

definition one_pending :: "outside \<Rightarrow> mailbox_system \<Rightarrow> mailbox_address \<Rightarrow> 'df processor_entry \<Rightarrow> bytes list
    \<Rightarrow> bytes \<Rightarrow> mailbox_message \<Rightarrow> bool" where
  "one_pending out sys addr entry received b msg \<longleftrightarrow>
     addr \<noteq> [] \<and> px_address (pe_context entry) = addr \<and> mb_address (pe_mailbox entry) = addr
     \<and> mailbox_holds out sys addr (received @ [b]) \<and> b \<noteq> []
     \<and> unat (mb_read_offset (pe_mailbox entry)) = length received \<and> from_json (out_json out) b = Inr msg"

definition taken_entry :: "'df processor_entry \<Rightarrow> 'df processor_entry" where
  "taken_entry entry = entry\<lparr>pe_mailbox := (pe_mailbox entry)\<lparr>mb_read_offset :=
     mb_read_offset (pe_mailbox entry) + 1\<rparr>\<rparr>"

text \<open>A tick of a processor that answers a message by sending another one.\<close>

lemma forward_tick:
  assumes entry: "map_of m addr = Some entry" and pending: "one_pending (pw_out world) sys addr entry received b msg"
    and proc: "pr_process (pe_processor entry) world (pe_context entry) msg sys
      = ctx_send_to (pw_out world) stamp to_addr body (pe_context entry) sys"
    and dest: "mailbox_holds (pw_out world) sys to_addr recs" "to_addr \<noteq> []" "os_willing (out_os (pw_out world))"
    and json: "to_json (out_json (pw_out world)) (mailbox_message_new stamp addr to_addr body) = Inr b'"
    and room: "length (concat recs) + length b' \<le> 64 * 1024 * 1024" "length recs + 1 < 2 ^ 64"
  shows "\<exists>sys'. processor_tick world addr m sys = Some (hash_insert addr (taken_entry entry) m, sys')
    \<and> mailbox_holds (pw_out world) sys' to_addr (recs @ [b'])
    \<and> (\<forall>a. a \<noteq> to_addr \<longrightarrow> map_of (mx_mailboxes sys') a = map_of (mx_mailboxes sys) a)"
proof -
  let ?out = "pw_out world" and ?mb = "pe_mailbox entry" and ?msg = "mailbox_message_new stamp addr to_addr body"
  have own: "addr \<noteq> []" "px_address (pe_context entry) = addr" "mb_address ?mb = addr"
    using pending by (simp_all add: one_pending_def)
  have read: "receive ?out sys ?mb = (Inr (Some msg), ?mb\<lparr>mb_read_offset := mb_read_offset ?mb + 1\<rparr>)"
    using read_next_last [of ?out sys ?mb received b] pending
    by (simp add: one_pending_def receive_def mailbox_message_from_bytes_def)
  have to_addr: "mm_to ?msg = to_addr" by (simp add: mailbox_message_new_def)
  from route_message_ok [of ?out sys ?msg recs b'] dest json room to_addr obtain sys' where
    sys': "route_message ?out ?msg sys = Some (Inr (mm_id ?msg), sys')"
    "mailbox_holds ?out sys' to_addr (recs @ [b'])"
    "\<forall>a. a \<noteq> to_addr \<longrightarrow> map_of (mx_mailboxes sys') a = map_of (mx_mailboxes sys) a" by auto
  have "map_of (mx_mailboxes sys) addr \<noteq> None"
    using pending mailbox_present by (auto simp: one_pending_def)
  then have "ctx_send_to ?out stamp to_addr body (pe_context entry) sys = Some (Inr (), sys')"
    using ctx_send_to_present [of sys "pe_context entry" to_addr ?out stamp body] own dest(2) sys'(1) by simp
  then have "processor_tick world addr m sys = Some (hash_insert addr (taken_entry entry) m, sys')"
    using entry read proc by (simp add: processor_tick_def process_messages_def taken_entry_def)
  with sys'(2,3) show ?thesis by blast
qed

text \<open>The receiver of the new message gets it, once everything before was received.\<close>

lemma receive_last:
  assumes "mailbox_holds out sys (mb_address rcv) (recs @ [b])" "b \<noteq> []" "unat (mb_read_offset rcv) = length recs"
    and "from_json (out_json out) b = Inr msg"
  shows "fst (receive out sys rcv) = Inr (Some msg)"
  using read_next_last [OF assms(1-3)] assms(2,4) by (simp add: receive_def mailbox_message_from_bytes_def)

section \<open>Properties\<close>

text \<open>The echo processor answers. When the mailbox of a registered echo processor has one pending
  message, one tick of its task takes it and sends its body back: the next message that its
  sender receives has the same body and comes from the processor's mailbox. (The sender has
  received everything sent to it before; the JSON library reads back what it wrote.)\<close>

lemma echo_processor_answers:
  assumes entry: "map_of m addr = Some entry" "pe_processor entry = echo_processor"
      "px_address (pe_context entry) = addr" "mb_address (pe_mailbox entry) = addr" "addr \<noteq> []"
    and pending: "mailbox_holds (pw_out world) sys addr (received @ [b])" "b \<noteq> []"
      "unat (mb_read_offset (pe_mailbox entry)) = length received" "from_json (out_json (pw_out world)) b = Inr msg"
    and sender: "mailbox_holds (pw_out world) sys (mm_from msg) recs" "mm_from msg \<noteq> []" "os_willing (out_os (pw_out world))"
    and answer: "answer = mailbox_message_new (pw_stamps world 0) addr (mm_from msg) (mm_body msg)"
      "to_json (out_json (pw_out world)) answer = Inr b'" "b' \<noteq> []" "from_json (out_json (pw_out world)) b' = Inr answer"
      "length (concat recs) + length b' \<le> 64 * 1024 * 1024" "length recs + 1 < 2 ^ 64"
    and rcv: "mb_address rcv = mm_from msg" "unat (mb_read_offset rcv) = length recs"
  shows "\<exists>m' sys'. processor_tick world addr m sys = Some (m', sys')
    \<and> fst (receive (pw_out world) sys' rcv) = Inr (Some answer)
    \<and> map_of m' addr = Some (entry\<lparr>pe_mailbox := (pe_mailbox entry)\<lparr>mb_read_offset :=
        mb_read_offset (pe_mailbox entry) + 1\<rparr>\<rparr>)"
proof -
  have ready: "one_pending (pw_out world) sys addr entry received b msg"
    using entry(3-5) pending by (simp add: one_pending_def)
  have proc: "pr_process (pe_processor entry) world (pe_context entry) msg sys
      = ctx_send_to (pw_out world) (pw_stamps world 0) (mm_from msg) (mm_body msg) (pe_context entry) sys"
    by (simp add: entry(2) echo_processor_def plain_processor_def)
  from forward_tick [OF entry(1) ready proc sender answer(2) [unfolded answer(1)] answer(5,6)] obtain sys' where
    "processor_tick world addr m sys = Some (hash_insert addr (taken_entry entry) m, sys')"
    "mailbox_holds (pw_out world) sys' (mm_from msg) (recs @ [b'])" by blast
  then show ?thesis
    using receive_last [of "pw_out world" sys' rcv recs b' answer] rcv answer(3,4) by (simp add: taken_entry_def)
qed

text \<open>A system with two mailboxes and a processor that echoes.\<close>

definition echo_answer :: mailbox_message where
  "echo_answer = mailbox_message_new (''id9'', 9) ''b'' ''a'' [10]"

definition echo_json :: json_codec where
  "echo_json = \<lparr>to_json = (\<lambda>m. if m = first_message then Inr [1] else if m = echo_answer then Inr [2] else Inl ''unsupported''),
     from_json = (\<lambda>bs. if bs = [1] then Inr first_message else if bs = [2] then Inr echo_answer
       else Inl ''trailing characters'')\<rparr>"

definition echo_world :: processor_world where
  "echo_world = \<lparr>pw_out = \<lparr>out_crc = (\<lambda>_. 0), out_os = demo_os, out_clock = (3, 5), out_json = echo_json\<rparr>,
     pw_stamps = (\<lambda>_. (''id9'', 9)), pw_now = 0\<rparr>"

definition echo_entry :: "unit processor_entry" where
  "echo_entry = \<lparr>pe_processor = echo_processor, pe_config = processor_config_default,
     pe_mailbox = \<lparr>mb_address = ''b'', mb_read_offset = 0\<rparr>,
     pe_context = \<lparr>px_address = ''b'', px_datafusion = None, px_storage_backend = BinaryBackend\<rparr>\<rparr>"

lemma first_not_answer [simp]: "first_message \<noteq> echo_answer"
  by (simp add: first_message_def echo_answer_def mailbox_message_new_def)

lemma holds_same_queue:
  "map_of (mx_mailboxes sys') a = map_of (mx_mailboxes sys) a \<Longrightarrow> mailbox_holds out sys a recs \<Longrightarrow> mailbox_holds out sys' a recs"
  by (simp add: mailbox_holds_def)

lemma two_empty_mailboxes:
  assumes "out_os out = demo_os" "a \<noteq> b" "a \<noteq> []" "b \<noteq> []"
    and dirs: "\<forall>x \<in> {a, b}. \<not> contains_str ''..'' (mailbox_dir ''d'' x) \<and> CHR 0x00 \<notin> set (mailbox_dir ''d'' x)"
  obtains sys where "mailbox_holds out sys a []" "mailbox_holds out sys b []"
proof -
  obtain sys0 where sys0: "mailbox_system_new demo_os ''d'' = Inr sys0"
    by (simp add: mailbox_system_new_def demo_os_def)
  then have base: "mx_base_dir sys0 = ''d''" "mx_mailboxes sys0 = []"
    by (auto simp: mailbox_system_new_def demo_os_def)
  have out: "out\<lparr>out_os := demo_os\<rparr> = out" using assms(1) by simp
  from create_mailbox_ok [OF sys0 refl base(1) demo_os_willing, of a out] base dirs assms(2,3) out
  obtain sys1 where sys1: "mailbox_holds out sys1 a []" "mx_default_config sys1 = mx_default_config sys0"
    "mx_base_dir sys1 = ''d''" "map_of (mx_mailboxes sys1) b = None" by auto
  from create_mailbox_ok [OF sys0 sys1(2,3) demo_os_willing _ sys1(4), of out] dirs assms(2,4) out
  obtain sys2 where sys2: "mailbox_holds out sys2 b []"
    "map_of (mx_mailboxes sys2) a = map_of (mx_mailboxes sys1) a" by auto
  show ?thesis using that sys2(1) holds_same_queue [OF sys2(2) sys1(1)] by blast
qed

lemma two_mailboxes:
  obtains sys where "mailbox_holds (pw_out echo_world) sys ''a'' []" "mailbox_holds (pw_out echo_world) sys ''b'' [[1]]"
proof -
  let ?out = "pw_out echo_world"
  have "out_os ?out = demo_os" by (simp add: echo_world_def)
  moreover have "\<forall>x \<in> {''a'', ''b''}. \<not> contains_str ''..'' (mailbox_dir ''d'' x) \<and> CHR 0x00 \<notin> set (mailbox_dir ''d'' x)"
    by (simp add: mailbox_dir_def contains_str_def)
  ultimately obtain sys2 where sys2: "mailbox_holds ?out sys2 ''a'' []" "mailbox_holds ?out sys2 ''b'' []"
    using two_empty_mailboxes [of ?out "''a''" "''b''"] by auto
  have "mm_to first_message = ''b''" by (simp add: first_message_def mailbox_message_new_def)
  with route_message_ok [of ?out sys2 first_message "[]" "[1]"] sys2(2) obtain sys3 where
    sys3: "mailbox_holds ?out sys3 ''b'' [[1]]" "map_of (mx_mailboxes sys3) ''a'' = map_of (mx_mailboxes sys2) ''a''"
    by (auto simp: echo_world_def demo_os_willing echo_json_def)
  with sys2(1) show ?thesis using that holds_same_queue by blast
qed

lemma echo_processor_answers_example:
  "\<exists>sys m' sys'. processor_tick echo_world ''b'' [(''b'', echo_entry)] sys = Some (m', sys')
    \<and> fst (receive (pw_out echo_world) sys' \<lparr>mb_address = ''a'', mb_read_offset = 0\<rparr>) = Inr (Some echo_answer)"
proof -
  obtain sys where sys: "mailbox_holds (pw_out echo_world) sys ''a'' []" "mailbox_holds (pw_out echo_world) sys ''b'' ([] @ [[1]])"
    using two_mailboxes by (metis append_Nil)
  have entry: "map_of [(''b'', echo_entry)] ''b'' = Some echo_entry" "pe_processor echo_entry = echo_processor"
    "px_address (pe_context echo_entry) = ''b''" "mb_address (pe_mailbox echo_entry) = ''b''" "''b'' \<noteq> []"
    "unat (mb_read_offset (pe_mailbox echo_entry)) = length ([] :: bytes list)"
    by (simp_all add: echo_entry_def)
  have from_a: "mm_from first_message = ''a''" "echo_answer = mailbox_message_new (pw_stamps echo_world 0) ''b'' (mm_from first_message) (mm_body first_message)"
    by (simp_all add: first_message_def echo_answer_def echo_world_def mailbox_message_new_def)
  have json: "from_json (out_json (pw_out echo_world)) [1] = Inr first_message"
    "to_json (out_json (pw_out echo_world)) echo_answer = Inr [2]" "from_json (out_json (pw_out echo_world)) [2] = Inr echo_answer"
    "os_willing (out_os (pw_out echo_world))"
    using first_not_answer [symmetric] by (simp_all add: echo_world_def echo_json_def demo_os_willing)
  from echo_processor_answers [OF entry(1-5) sys(2) _ entry(6) json(1) _ _ json(4) from_a(2) json(2) _ json(3),
      of "[]" "\<lparr>mb_address = ''a'', mb_read_offset = 0\<rparr>"] sys(1) from_a(1)
  show ?thesis by auto
qed

text \<open>The processors that use SQL fail on every message, whatever the configuration asks for: a
  registered processor never gets a DataFusion layer. A tick takes the pending message out of
  the mailbox, answers nobody and fails, and the error is only logged.\<close>

lemma sql_processors_lose_messages:
  assumes "register_processor world address processor config m sys = Some (Inr (), m1, sys1)"
    and "processor = aggregation_processor df_query batch_json query output_mailbox
      \<or> processor = parquet_export_processor df_export output_dir"
    and "receive (pw_out world') sys1 \<lparr>mb_address = address, mb_read_offset = 0\<rparr> = (Inr (Some msg), mb')"
  shows "\<exists>entry m2. map_of m1 address = Some entry
    \<and> process_messages world' processor (pe_context entry) (pe_mailbox entry) sys1
        = Some (Inl (PDataFusion ''DataFusion not enabled for this mailbox''), mb', sys1)
    \<and> processor_tick world' address m1 sys1 = Some (m2, sys1) \<and> map_of m2 address = Some (entry\<lparr>pe_mailbox := mb'\<rparr>)"
proof -
  let ?ctx = "\<lparr>px_address = address, px_datafusion = None, px_storage_backend = po_storage_backend config\<rparr>"
  have "pr_process processor world' ?ctx msg sys1
      = Some (Inl (PDataFusion ''DataFusion not enabled for this mailbox''), sys1)"
    using assms(2) by (auto simp: aggregation_processor_def parquet_export_processor_def plain_processor_def
        ctx_query_def ctx_export_parquet_def)
  then show ?thesis
    using registered_context [OF assms(1)] assms(3) by (simp add: process_messages_def processor_tick_def)
qed

lemma sql_processors_lose_messages_example:
  "\<exists>sys m1 entry. register_processor echo_world ''b'' (aggregation_processor (\<lambda>(_ :: unit) _. Inr [()]) (\<lambda>_. Inr [7])
        ''SELECT 1'' ''a'') (processor_config_default\<lparr>po_enable_sql := True\<rparr>) [] sys = Some (Inr (), m1, sys)
    \<and> map_of m1 ''b'' = Some entry
    \<and> process_messages echo_world (pe_processor entry) (pe_context entry) (pe_mailbox entry) sys
      = Some (Inl (PDataFusion ''DataFusion not enabled for this mailbox''), \<lparr>mb_address = ''b'', mb_read_offset = 1\<rparr>, sys)"
proof -
  let ?p = "aggregation_processor (\<lambda>(_ :: unit) _. Inr [()]) (\<lambda>_. Inr [7]) ''SELECT 1'' ''a''"
  let ?c = "processor_config_default\<lparr>po_enable_sql := True\<rparr>"
  obtain sys where sys: "mailbox_holds (pw_out echo_world) sys ''b'' [[1]]" by (rule two_mailboxes)
  have "receive (pw_out echo_world) sys \<lparr>mb_address = ''b'', mb_read_offset = 0\<rparr>
      = (Inr (Some first_message), \<lparr>mb_address = ''b'', mb_read_offset = 1\<rparr>)"
    using read_next_last [of "pw_out echo_world" sys "\<lparr>mb_address = ''b'', mb_read_offset = 0\<rparr>" "[]" "[1]"] sys
    by (simp add: receive_def mailbox_message_from_bytes_def echo_world_def echo_json_def)
  moreover obtain m1 where m1: "register_processor echo_world ''b'' ?p ?c [] sys = Some (Inr (), m1, sys)"
    using mailbox_present [OF sys] by (auto simp: register_processor_def mailbox_address_new_def get_mailbox_def
        aggregation_processor_def plain_processor_def Let_def)
  ultimately obtain entry where "map_of m1 ''b'' = Some entry"
    "process_messages echo_world ?p (pe_context entry) (pe_mailbox entry) sys
      = Some (Inl (PDataFusion ''DataFusion not enabled for this mailbox''), \<lparr>mb_address = ''b'', mb_read_offset = 1\<rparr>, sys)"
    using sql_processors_lose_messages [OF m1, of "\<lambda>_ _. Inr [()]" "\<lambda>_. Inr [7]" "''SELECT 1''" "''a''" _ _ echo_world first_message
        "\<lparr>mb_address = ''b'', mb_read_offset = 1\<rparr>"] by blast
  moreover from this(1) have "pe_processor entry = ?p" using registered_context [OF m1] by auto
  ultimately show ?thesis using m1 by metis
qed

end
