(* ===== verification/Raft.thy ===== *)
theory Raft
  imports Dolda_Prelude
begin

text \<open>
  Leader election of \<open>src/raft.rs\<close>: the persistent and the volatile state of a node, the handlers of
  vote requests and heartbeats, elections, and the command loop, which processes one command
  at a time. A second part lets any number of nodes answer any messages in any order, and
  records the votes they grant; it shows that no term has two winners.

  An \<open>Instant\<close> is a number of nanoseconds since some start; the clock and the random numbers
  are arguments.
\<close>

section \<open>Data\<close>

type_synonym node_id = u64
type_synonym raft_term = u64
type_synonym nanos = nat

datatype node_state = Follower | Candidate | Leader

datatype raft_error =
    InvalidTransition node_state node_state
  | StaleTerm raft_term raft_term
  | AlreadyVoted raft_term
  | NotLeader
  | ElectionTimeout

record raft_config =
  rc_node_id :: node_id
  rc_cluster_nodes :: "node_id list"
  rc_election_timeout_min :: nanos
  rc_election_timeout_max :: nanos
  rc_heartbeat_interval :: nanos

definition raft_config_default :: raft_config where
  "raft_config_default = \<lparr>rc_node_id = 0, rc_cluster_nodes = [], rc_election_timeout_min = 150000000,
     rc_election_timeout_max = 300000000, rc_heartbeat_interval = 50000000\<rparr>"

record vote_request =
  vq_term :: raft_term
  vq_candidate_id :: node_id
  vq_last_log_index :: u64
  vq_last_log_term :: raft_term

record vote_response =
  vr_term :: raft_term
  vr_vote_granted :: bool

record heartbeat =
  hb_term :: raft_term
  hb_leader_id :: node_id

record heartbeat_response =
  hr_term :: raft_term
  hr_success :: bool

record persistent_state =
  current_term :: raft_term
  voted_for :: "node_id option"

record volatile_state =
  vol_state :: node_state
  leader_id :: "node_id option"
  last_heartbeat :: nanos
  votes_received :: "(node_id \<times> bool) list"

datatype raft_command =
    HandleVoteRequest vote_request
  | HandleHeartbeat heartbeat
  | StartElection
  | SendHeartbeats

record raft_node =
  rn_config :: raft_config
  persistent :: persistent_state
  volatile :: volatile_state
  commands :: "raft_command list" \<comment> \<open>sent on the channel and not yet received\<close>

section \<open>State access\<close>

definition persistent_new :: persistent_state where
  "persistent_new = \<lparr>current_term = 0, voted_for = None\<rparr>"

definition volatile_new :: "nanos \<Rightarrow> volatile_state" where
  "volatile_new now = \<lparr>vol_state = Follower, leader_id = None, last_heartbeat = now, votes_received = []\<rparr>"

definition raft_node_new :: "raft_config \<Rightarrow> nanos \<Rightarrow> raft_node" where
  "raft_node_new config now = \<lparr>rn_config = config, persistent = persistent_new,
     volatile = volatile_new now, commands = []\<rparr>"

definition get_term :: "raft_node \<Rightarrow> raft_term" where
  "get_term n = current_term (persistent n)"

definition get_voted_for :: "raft_node \<Rightarrow> node_id option" where
  "get_voted_for n = voted_for (persistent n)"

definition get_state :: "raft_node \<Rightarrow> node_state" where
  "get_state n = vol_state (volatile n)"

definition get_leader :: "raft_node \<Rightarrow> node_id option" where
  "get_leader n = leader_id (volatile n)"

definition is_leader :: "raft_node \<Rightarrow> bool" where
  "is_leader n \<longleftrightarrow> get_state n = Leader"

definition set_term :: "raft_term \<Rightarrow> raft_node \<Rightarrow> raft_node" where
  "set_term t n = n\<lparr>persistent := (persistent n)\<lparr>current_term := t\<rparr>\<rparr>"

definition increment_term :: "raft_node \<Rightarrow> raft_term \<times> raft_node" where
  "increment_term n = (get_term n + 1, set_term (get_term n + 1) n)"

definition set_voted_for :: "node_id option \<Rightarrow> raft_node \<Rightarrow> raft_node" where
  "set_voted_for v n = n\<lparr>persistent := (persistent n)\<lparr>voted_for := v\<rparr>\<rparr>"

definition set_state :: "node_state \<Rightarrow> raft_node \<Rightarrow> raft_node" where
  "set_state s n = n\<lparr>volatile := (volatile n)\<lparr>vol_state := s\<rparr>\<rparr>"

definition set_leader :: "node_id option \<Rightarrow> raft_node \<Rightarrow> raft_node" where
  "set_leader l n = n\<lparr>volatile := (volatile n)\<lparr>leader_id := l\<rparr>\<rparr>"

definition update_heartbeat :: "nanos \<Rightarrow> raft_node \<Rightarrow> raft_node" where
  "update_heartbeat now n = n\<lparr>volatile := (volatile n)\<lparr>last_heartbeat := now\<rparr>\<rparr>"

definition time_since_heartbeat :: "nanos \<Rightarrow> raft_node \<Rightarrow> nanos" where
  "time_since_heartbeat now n = now - last_heartbeat (volatile n)"

definition record_vote :: "node_id \<Rightarrow> bool \<Rightarrow> raft_node \<Rightarrow> raft_node" where
  "record_vote v granted n = n\<lparr>volatile := (volatile n)
     \<lparr>votes_received := hash_insert v granted (votes_received (volatile n))\<rparr>\<rparr>"

definition count_votes :: "raft_node \<Rightarrow> nat" where
  "count_votes n = length (filter (\<lambda>granted. granted) (map snd (votes_received (volatile n))))"

definition clear_votes :: "raft_node \<Rightarrow> raft_node" where
  "clear_votes n = n\<lparr>volatile := (volatile n)\<lparr>votes_received := []\<rparr>\<rparr>"

section \<open>Handlers\<close>

text \<open>Sending is left to a later version of the code: only the guard is there.\<close>

definition send_heartbeats :: "raft_node \<Rightarrow> raft_node" where
  "send_heartbeats n = (if get_state n \<noteq> Leader then n else n)"

definition become_leader :: "raft_node \<Rightarrow> raft_node" where
  "become_leader n =
     (let n1 = set_state Leader n;
          n2 = set_leader (Some (rc_node_id (rn_config n1))) n1
      in send_heartbeats n2)"

definition votes_needed :: "raft_config \<Rightarrow> nat" where
  "votes_needed c = (length (rc_cluster_nodes c) + 1) div 2 + 1"

definition start_election :: "nanos \<Rightarrow> raft_node \<Rightarrow> raft_node" where
  "start_election now n =
     (let n1 = set_state Candidate n;
          (new_term, n2) = increment_term n1;
          n3 = set_voted_for (Some (rc_node_id (rn_config n2))) n2;
          n4 = clear_votes n3;
          n5 = record_vote (rc_node_id (rn_config n4)) True n4;
          n6 = update_heartbeat now n5
      in if count_votes n6 \<ge> votes_needed (rn_config n6) then become_leader n6 else n6)"

definition handle_vote_request :: "nanos \<Rightarrow> vote_request \<Rightarrow> raft_node \<Rightarrow> vote_response \<times> raft_node" where
  "handle_vote_request now request n =
     (let term_before = get_term n in
      if vq_term request < term_before
      then (\<lparr>vr_term = term_before, vr_vote_granted = False\<rparr>, n)
      else let n1 = (if vq_term request > term_before
                     then set_leader None (set_state Follower (set_voted_for None (set_term (vq_term request) n)))
                     else n);
               voted = get_voted_for n1
           in if voted = None \<or> voted = Some (vq_candidate_id request)
              then (\<lparr>vr_term = vq_term request, vr_vote_granted = True\<rparr>,
                    update_heartbeat now (set_voted_for (Some (vq_candidate_id request)) n1))
              else (\<lparr>vr_term = term_before, vr_vote_granted = False\<rparr>, n1))"

definition handle_heartbeat :: "nanos \<Rightarrow> heartbeat \<Rightarrow> raft_node \<Rightarrow> heartbeat_response \<times> raft_node" where
  "handle_heartbeat now hb n =
     (let term_before = get_term n in
      if hb_term hb < term_before then (\<lparr>hr_term = term_before, hr_success = False\<rparr>, n)
      else let n1 = (if hb_term hb > term_before then set_voted_for None (set_term (hb_term hb) n) else n);
               n2 = (if get_state n1 = Candidate then set_state Follower n1 else n1);
               n3 = update_heartbeat now (set_leader (Some (hb_leader_id hb)) n2)
           in (\<lparr>hr_term = hb_term hb, hr_success = True\<rparr>, n3))"

section \<open>Timers and the command loop\<close>

text \<open>\<open>rnd min max\<close> is the random number of milliseconds that \<open>gen_range(min..=max)\<close> draws.\<close>

definition random_election_timeout :: "(u64 \<Rightarrow> u64 \<Rightarrow> u64) \<Rightarrow> raft_config \<Rightarrow> nanos" where
  "random_election_timeout rnd c =
     unat (rnd (of_nat (rc_election_timeout_min c div 1000000)) (of_nat (rc_election_timeout_max c div 1000000)))
       * 1000000"

text \<open>What a timer does each time it wakes up.\<close>

definition election_tick :: "(u64 \<Rightarrow> u64 \<Rightarrow> u64) \<Rightarrow> nanos \<Rightarrow> raft_node \<Rightarrow> raft_node" where
  "election_tick rnd now n =
     (if get_state n \<noteq> Leader \<and> time_since_heartbeat now n \<ge> random_election_timeout rnd (rn_config n)
      then n\<lparr>commands := commands n @ [StartElection]\<rparr> else n)"

definition heartbeat_tick :: "raft_node \<Rightarrow> raft_node" where
  "heartbeat_tick n = (if get_state n = Leader then n\<lparr>commands := commands n @ [SendHeartbeats]\<rparr> else n)"

datatype raft_reply = VoteReply vote_response | HeartbeatReply heartbeat_response | NoReply

fun run_command :: "nanos \<Rightarrow> raft_command \<Rightarrow> raft_node \<Rightarrow> raft_reply \<times> raft_node" where
  "run_command now (HandleVoteRequest req) n =
     (let (response, n') = handle_vote_request now req n in (VoteReply response, n'))"
| "run_command now (HandleHeartbeat hb) n =
     (let (response, n') = handle_heartbeat now hb n in (HeartbeatReply response, n'))"
| "run_command now StartElection n = (NoReply, start_election now n)"
| "run_command now SendHeartbeats n = (NoReply, send_heartbeats n)"

text \<open>One round of the loop of \<open>run\<close>: receive the next command, if any, and process it.\<close>

definition run_next :: "nanos \<Rightarrow> raft_node \<Rightarrow> raft_reply \<times> raft_node" where
  "run_next now n =
     (case commands n of [] \<Rightarrow> (NoReply, n) | c # cs \<Rightarrow> run_command now c (n\<lparr>commands := cs\<rparr>))"

lemmas state_defs = get_term_def get_voted_for_def get_state_def get_leader_def set_term_def
  set_voted_for_def set_state_def set_leader_def update_heartbeat_def record_vote_def
  count_votes_def clear_votes_def increment_term_def

section \<open>What the handlers do to term, vote and state\<close>

lemma send_heartbeats_id [simp]: "send_heartbeats n = n"
  by (simp add: send_heartbeats_def)

lemma become_leader_fields [simp]:
  "get_term (become_leader n) = get_term n" "get_voted_for (become_leader n) = get_voted_for n"
  "get_state (become_leader n) = Leader" "get_leader (become_leader n) = Some (rc_node_id (rn_config n))"
  "rn_config (become_leader n) = rn_config n"
  by (simp_all add: become_leader_def Let_def state_defs)

lemma votes_needed_one: "1 \<ge> votes_needed c \<longleftrightarrow> rc_cluster_nodes c = []"
proof -
  have "(k + 1) div 2 + 1 \<le> 1 \<longleftrightarrow> k = 0" for k :: nat by presburger
  from this [of "length (rc_cluster_nodes c)"] show ?thesis by (simp add: votes_needed_def)
qed

lemma start_election_fields [simp]:
  "get_term (start_election now n) = get_term n + 1"
  "get_voted_for (start_election now n) = Some (rc_node_id (rn_config n))"
  "get_state (start_election now n) = (if rc_cluster_nodes (rn_config n) = [] then Leader else Candidate)"
  "rn_config (start_election now n) = rn_config n"
  using votes_needed_one [of "rn_config n"]
  by (simp_all add: start_election_def Let_def state_defs become_leader_def)

lemma vote_request_config [simp]: "rn_config (snd (handle_vote_request now req n)) = rn_config n"
  by (simp add: handle_vote_request_def Let_def state_defs)

lemma heartbeat_config [simp]: "rn_config (snd (handle_heartbeat now hb n)) = rn_config n"
  by (simp add: handle_heartbeat_def Let_def state_defs)

lemma vote_request_granted:
  "vr_vote_granted (fst (handle_vote_request now req n)) \<longleftrightarrow>
     get_term n < vq_term req \<or> get_term n = vq_term req
       \<and> (get_voted_for n = None \<or> get_voted_for n = Some (vq_candidate_id req))"
  by (auto simp: handle_vote_request_def Let_def state_defs)

lemma vote_request_term:
  "get_term (snd (handle_vote_request now req n)) = max (get_term n) (vq_term req)"
  "vr_term (fst (handle_vote_request now req n)) = max (get_term n) (vq_term req)"
  by (auto simp: handle_vote_request_def Let_def state_defs max_def)

lemma vote_request_vote:
  "get_voted_for (snd (handle_vote_request now req n)) =
     (if vr_vote_granted (fst (handle_vote_request now req n)) then Some (vq_candidate_id req)
      else get_voted_for n)"
  by (auto simp: handle_vote_request_def Let_def state_defs)

lemma vote_request_state:
  "get_state (snd (handle_vote_request now req n)) = (if get_term n < vq_term req then Follower else get_state n)"
  by (auto simp: handle_vote_request_def Let_def state_defs)

lemma heartbeat_fields:
  "get_term (snd (handle_heartbeat now hb n)) = max (get_term n) (hb_term hb)"
  "hr_term (fst (handle_heartbeat now hb n)) = max (get_term n) (hb_term hb)"
  "get_voted_for (snd (handle_heartbeat now hb n)) = (if get_term n < hb_term hb then None else get_voted_for n)"
  "get_state (snd (handle_heartbeat now hb n)) =
     (if get_term n \<le> hb_term hb \<and> get_state n = Candidate then Follower else get_state n)"
  "get_leader (snd (handle_heartbeat now hb n)) =
     (if get_term n \<le> hb_term hb then Some (hb_leader_id hb) else get_leader n)"
  "hr_success (fst (handle_heartbeat now hb n)) \<longleftrightarrow> get_term n \<le> hb_term hb"
  by (auto simp: handle_heartbeat_def Let_def state_defs max_def)

section \<open>Quorums\<close>

text \<open>Any two quorums have a common voter; so if no voter votes twice, there is one winner.\<close>

locale quorum_system =
  fixes quorum :: "'v set \<Rightarrow> bool"
  assumes quorums_meet: "quorum Q \<Longrightarrow> quorum Q' \<Longrightarrow> Q \<inter> Q' \<noteq> {}"
begin

lemma one_winner:
  assumes "\<And>v c c'. vote v c \<Longrightarrow> vote v c' \<Longrightarrow> c = c'"
    and "quorum Q" "\<forall>v \<in> Q. vote v c" and "quorum Q'" "\<forall>v \<in> Q'. vote v c'"
  shows "c = c'"
  using assms quorums_meet [of Q Q'] by blast

end

definition majority_of :: "node_id set \<Rightarrow> node_id set \<Rightarrow> bool" where
  "majority_of N Q \<longleftrightarrow> finite N \<and> Q \<subseteq> N \<and> card N < 2 * card Q"

interpretation majority: quorum_system "majority_of N" for N
proof
  fix Q Q' assume q: "majority_of N Q" "majority_of N Q'"
  then have "finite Q" "finite Q'" by (auto simp: majority_of_def finite_subset)
  then have "card (Q \<union> Q') + card (Q \<inter> Q') = card Q + card Q'"
    using card_Un_Int [of Q Q'] by simp
  moreover have "card (Q \<union> Q') \<le> card N" using q by (auto simp: majority_of_def intro: card_mono)
  ultimately have "card (Q \<inter> Q') \<noteq> 0" using q by (auto simp: majority_of_def)
  then show "Q \<inter> Q' \<noteq> {}" by auto
qed

text \<open>The nodes of a configuration: its own one and the listed ones (which may list it again).\<close>

definition members :: "raft_config \<Rightarrow> node_id set" where
  "members c = insert (rc_node_id c) (set (rc_cluster_nodes c))"

lemma votes_needed_majority:
  assumes "Q \<subseteq> members c" "votes_needed c \<le> card Q"
  shows "majority_of (members c) Q"
proof -
  have "card (members c) \<le> length (rc_cluster_nodes c) + 1"
    unfolding members_def by (metis One_nat_def add.right_neutral add_Suc_right card_insert_le_m1
        card_length diff_Suc_1 le_SucI le_add2 list.set(2) length_Cons)
  moreover have "length (rc_cluster_nodes c) + 1 < 2 * votes_needed c"
    unfolding votes_needed_def by presburger
  ultimately show ?thesis using assms by (simp add: majority_of_def members_def)
qed

section \<open>Many nodes\<close>

text \<open>
  The nodes of a cluster, and every vote granted so far as (voter, term, candidate). Any node
  may process any command at any time: the messages may come from anywhere, in any order. A
  node that has reached the largest term starts no election, since its term would wrap to 0.
\<close>

record cluster =
  nodes :: "node_id \<Rightarrow> raft_node"
  grants :: "(node_id \<times> raft_term \<times> node_id) set"

fun votes_cast :: "node_id \<Rightarrow> raft_command \<Rightarrow> raft_reply \<Rightarrow> raft_node \<Rightarrow> (node_id \<times> raft_term \<times> node_id) set" where
  "votes_cast v (HandleVoteRequest req) (VoteReply resp) n' =
     (if vr_vote_granted resp then {(v, vr_term resp, vq_candidate_id req)} else {})"
| "votes_cast v StartElection reply n' = {(v, get_term n', rc_node_id (rn_config n'))}"
| "votes_cast v cmd reply n' = {}"

inductive cluster_step :: "cluster \<Rightarrow> cluster \<Rightarrow> bool" where
  process: "run_command now cmd (nodes s v) = (reply, n') \<Longrightarrow>
    cmd = StartElection \<longrightarrow> get_term (nodes s v) \<noteq> - 1 \<Longrightarrow>
    cluster_step s \<lparr>nodes = (nodes s)(v := n'), grants = grants s \<union> votes_cast v cmd reply n'\<rparr>"

inductive reachable :: "(node_id \<Rightarrow> raft_config) \<Rightarrow> cluster \<Rightarrow> bool" for cfg where
  start: "reachable cfg \<lparr>nodes = (\<lambda>v. raft_node_new (cfg v) (now v)), grants = {}\<rparr>"
| step: "reachable cfg s \<Longrightarrow> cluster_step s s' \<Longrightarrow> reachable cfg s'"

inductive_cases cluster_stepE: "cluster_step s s'"

text \<open>What the votes cast so far say about a voter.\<close>

definition votes_ok :: "node_id \<Rightarrow> raft_node \<Rightarrow> (node_id \<times> raft_term \<times> node_id) set \<Rightarrow> bool" where
  "votes_ok v n g \<longleftrightarrow>
     (\<forall>t c. (v, t, c) \<in> g \<longrightarrow> t \<le> get_term n \<and> (t = get_term n \<longrightarrow> get_voted_for n = Some c))
     \<and> (\<forall>t c c'. (v, t, c) \<in> g \<longrightarrow> (v, t, c') \<in> g \<longrightarrow> c = c')"

lemma votes_ok_others [simp]: "v \<noteq> w \<Longrightarrow>
    votes_ok v n (g \<union> votes_cast w cmd reply n') \<longleftrightarrow> votes_ok v n g"
  by (cases "(w, cmd, reply, n')" rule: votes_cast.cases) (auto simp: votes_ok_def)

lemma votes_ok_mono:
  assumes "votes_ok v n g" "get_term n \<le> get_term n'"
    and "get_term n = get_term n' \<longrightarrow> get_voted_for n = None \<or> get_voted_for n' = get_voted_for n"
  shows "votes_ok v n' g"
proof -
  have "t \<le> get_term n' \<and> (t = get_term n' \<longrightarrow> get_voted_for n' = Some c)" if "(v, t, c) \<in> g" for t c
  proof -
    from assms(1) that have "t \<le> get_term n" "t = get_term n \<longrightarrow> get_voted_for n = Some c"
      by (auto simp: votes_ok_def)
    then show ?thesis using assms(2,3) by auto
  qed
  then show ?thesis using assms(1) by (simp add: votes_ok_def)
qed

lemma votes_ok_add:
  assumes "votes_ok v n' g" "get_voted_for n' = Some c"
  shows "votes_ok v n' (insert (v, get_term n', c) g)"
  using assms unfolding votes_ok_def by auto

lemma inc_less: "(t :: u64) \<noteq> - 1 \<Longrightarrow> t < t + 1"
proof -
  assume "t \<noteq> - 1"
  then have "unat t \<noteq> unat (- 1 :: u64)" by (metis word_unat_eq_iff)
  moreover have "unat (- 1 :: u64) = 2 ^ 64 - 1"
    by (simp add: unsigned_minus_1_eq_mask mask_eq_exp_minus_1)
  moreover have "unat t < 2 ^ LENGTH(64)" by (rule unsigned_less)
  ultimately have "unat t + 1 < 2 ^ 64" by simp
  then show ?thesis using unat_Suc64 [of t] by (simp add: word_less_nat_alt)
qed

lemma votes_ok_command:
  assumes ok: "votes_ok v n g" and run: "run_command now cmd n = (reply, n')"
    and room: "cmd = StartElection \<longrightarrow> get_term n \<noteq> - 1"
  shows "votes_ok v n' (g \<union> votes_cast v cmd reply n')"
proof (cases cmd)
  case (HandleVoteRequest req)
  let ?r = "handle_vote_request now req n"
  have n': "reply = VoteReply (fst ?r)" "n' = snd ?r"
    using run HandleVoteRequest by (auto simp: case_prod_beta)
  have "votes_ok v n' g"
    by (rule votes_ok_mono [OF ok])
      (auto simp: n' vote_request_term vote_request_vote vote_request_granted max_def)
  moreover have "vr_vote_granted (fst ?r) \<Longrightarrow> get_voted_for n' = Some (vq_candidate_id req)"
    by (simp add: n' vote_request_vote)
  moreover have "vr_term (fst ?r) = get_term n'" by (simp add: n' vote_request_term)
  ultimately show ?thesis
    using HandleVoteRequest n' votes_ok_add [of v n' g "vq_candidate_id req"] by simp
next
  case (HandleHeartbeat hb)
  then have "n' = snd (handle_heartbeat now hb n)" using run by (auto simp: case_prod_beta)
  then have "votes_ok v n' g"
    by (intro votes_ok_mono [OF ok]) (auto simp: heartbeat_fields max_def)
  with HandleHeartbeat show ?thesis by simp
next
  case StartElection
  then have n': "n' = start_election now n" using run by simp
  have less: "get_term n < get_term n + 1" using room StartElection inc_less by simp
  then have "votes_ok v n' g"
    by (intro votes_ok_mono [OF ok]) (auto simp: n')
  with StartElection show ?thesis
    using votes_ok_add [of v n' g "rc_node_id (rn_config n')"] by (simp add: n')
next
  case SendHeartbeats
  then show ?thesis using ok run by simp
qed

lemma run_command_config: "run_command now cmd n = (reply, n') \<Longrightarrow> rn_config n' = rn_config n"
  by (cases cmd) (auto simp: case_prod_beta)

lemma reachable_invariant:
  assumes "reachable cfg s"
  shows "\<forall>v. rn_config (nodes s v) = cfg v \<and> votes_ok v (nodes s v) (grants s)"
  using assms
proof (induction rule: reachable.induct)
  case (start now)
  show ?case by (simp add: raft_node_new_def votes_ok_def)
next
  case (step s s')
  from step.hyps(2) obtain now cmd v reply n' where
    run: "run_command now cmd (nodes s v) = (reply, n')" and
    room: "cmd = StartElection \<longrightarrow> get_term (nodes s v) \<noteq> - 1" and
    s': "s' = \<lparr>nodes = (nodes s)(v := n'), grants = grants s \<union> votes_cast v cmd reply n'\<rparr>"
    by (rule cluster_stepE)
  have "votes_ok v (nodes s v) (grants s)" using step.IH by blast
  from votes_ok_command [OF this run room] run_command_config [OF run] show ?case
    using step.IH by (auto simp: s')
qed

section \<open>Properties\<close>

text \<open>C1: Election safety. In a cluster whose nodes have the same members, at most one candidate can
  collect in one term the number of votes that \<open>start_election\<close> asks for, whatever vote
  requests, heartbeats and timeouts the nodes process, in whatever order.\<close>

theorem election_safety:
  assumes "reachable cfg s"
    and "members (cfg a) = N" "Q \<subseteq> N" "votes_needed (cfg a) \<le> card Q" "\<forall>v \<in> Q. (v, t, a) \<in> grants s"
    and "members (cfg b) = N" "Q' \<subseteq> N" "votes_needed (cfg b) \<le> card Q'" "\<forall>v \<in> Q'. (v, t, b) \<in> grants s"
  shows "a = b"
proof (rule majority.one_winner [where vote = "\<lambda>v c. (v, t, c) \<in> grants s"])
  show "(v, t, c) \<in> grants s \<Longrightarrow> (v, t, c') \<in> grants s \<Longrightarrow> c = c'" for v c c'
    using reachable_invariant [OF assms(1)] by (auto simp: votes_ok_def)
  show "majority_of N Q" using votes_needed_majority [of Q "cfg a"] assms by simp
  show "majority_of N Q'" using votes_needed_majority [of Q' "cfg b"] assms by simp
qed (use assms in auto)

text \<open>C2: No node grants its vote to two candidates in one term, its own candidacy included; and the
  vote it holds for its current term is the one it granted.\<close>

theorem one_vote_per_term:
  assumes "reachable cfg s" "(v, t, c) \<in> grants s"
  shows "((v, t, c') \<in> grants s \<longrightarrow> c' = c) \<and> t \<le> get_term (nodes s v)
    \<and> (t = get_term (nodes s v) \<longrightarrow> get_voted_for (nodes s v) = Some c)"
proof -
  have "votes_ok v (nodes s v) (grants s)" using reachable_invariant [OF assms(1)] by blast
  with assms(2) show ?thesis by (auto simp: votes_ok_def)
qed

text \<open>A node of three that votes for node 2 in term 1, and node 2, which starts that election.\<close>

definition trio :: "node_id \<Rightarrow> raft_config" where
  "trio v = raft_config_default\<lparr>rc_node_id := v, rc_cluster_nodes := filter (\<lambda>w. w \<noteq> v) [1, 2, 3]\<rparr>"

definition trio_start :: cluster where
  "trio_start = \<lparr>nodes = (\<lambda>v. raft_node_new (trio v) 0), grants = {}\<rparr>"

definition ask_for_2 :: raft_command where
  "ask_for_2 = HandleVoteRequest \<lparr>vq_term = 1, vq_candidate_id = 2, vq_last_log_index = 0, vq_last_log_term = 0\<rparr>"

lemma trio_voted:
  obtains s where "reachable trio s" "grants s = {(2, 1, 2), (1, 1, 2)}"
proof -
  have r0: "reachable trio trio_start" unfolding trio_start_def by (rule reachable.start)
  let ?n2 = "snd (run_command 5 StartElection (nodes trio_start 2))"
  let ?s1 = "\<lparr>nodes = (nodes trio_start)(2 := ?n2), grants = grants trio_start \<union> votes_cast 2 StartElection NoReply ?n2\<rparr>"
  have t0: "get_term (nodes trio_start v) = 0" "get_voted_for (nodes trio_start v) = None"
    "rn_config (nodes trio_start v) = trio v" for v
    by (simp_all add: trio_start_def raft_node_new_def state_defs persistent_new_def)
  have "cluster_step trio_start ?s1" by (rule process [of 5 StartElection]) (simp_all add: t0)
  with r0 have r1: "reachable trio ?s1" by (rule reachable.step)
  have g1: "grants ?s1 = {(2, 1, 2)}"
    by (simp add: t0) (simp add: trio_start_def trio_def raft_node_new_def)
  let ?r = "run_command 6 ask_for_2 (nodes ?s1 1)"
  let ?s2 = "\<lparr>nodes = (nodes ?s1)(1 := snd ?r), grants = grants ?s1 \<union> votes_cast 1 ask_for_2 (fst ?r) (snd ?r)\<rparr>"
  have "cluster_step ?s1 ?s2" by (rule process [of 6 ask_for_2]) (simp_all add: ask_for_2_def)
  with r1 have r2: "reachable trio ?s2" by (rule reachable.step)
  have "votes_cast 1 ask_for_2 (fst ?r) (snd ?r) = {(1, 1, 2)}"
    using t0 [of 1] by (simp add: ask_for_2_def case_prod_beta vote_request_granted vote_request_term)
  moreover have "grants ?s2 = grants ?s1 \<union> votes_cast 1 ask_for_2 (fst ?r) (snd ?r)" by simp
  ultimately have "grants ?s2 = {(2, 1, 2), (1, 1, 2)}" unfolding g1 by blast
  with r2 show ?thesis by (rule that)
qed

theorem election_safety_witness:
  "\<exists>s. reachable trio s \<and> (\<forall>v \<in> {1, 2}. (v, 1, 2) \<in> grants s)
    \<and> (\<forall>b Q'. members (trio b) = {1, 2, 3} \<longrightarrow> Q' \<subseteq> {1, 2, 3} \<longrightarrow> votes_needed (trio b) \<le> card Q'
        \<longrightarrow> (\<forall>v \<in> Q'. (v, 1, b) \<in> grants s) \<longrightarrow> 2 = b)"
proof -
  obtain s where s: "reachable trio s" "grants s = {(2, 1, 2), (1, 1, 2)}" by (rule trio_voted)
  have m: "members (trio 2) = {1, 2, 3}" by (auto simp: members_def trio_def raft_config_default_def)
  have "votes_needed (trio 2) \<le> card {1, 2 :: node_id}"
    by (simp add: votes_needed_def trio_def raft_config_default_def)
  note safe = election_safety [OF s(1) m _ this]
  show ?thesis
  proof (intro exI [of _ s] conjI allI impI)
    show "2 = b" if "members (trio b) = {1, 2, 3}" "Q' \<subseteq> {1, 2, 3}" "votes_needed (trio b) \<le> card Q'"
      "\<forall>v \<in> Q'. (v, 1, b) \<in> grants s" for b Q'
      by (rule safe [OF _ _ that]) (simp_all add: s(2))
  qed (simp_all add: s)
qed

theorem one_vote_per_term_witness:
  "\<exists>s. reachable trio s \<and> (1, 1, 2) \<in> grants s \<and> (1, 1, 3) \<notin> grants s \<and> 1 \<le> get_term (nodes s 1)"
proof -
  obtain s where s: "reachable trio s" "grants s = {(2, 1, 2), (1, 1, 2)}" by (rule trio_voted)
  then show ?thesis using one_vote_per_term [OF s(1), of 1 1 2 3] by auto
qed

text \<open>The answer to a vote request on every branch. The vote is granted exactly if the request's
  term is newer, or is the node's term and the node has not voted for another candidate; a
  newer term makes the node a follower without a leader; the answer carries the node's term
  after the request; a request of an older term changes nothing.\<close>

lemma vote_request_spec:
  "let (resp, n') = handle_vote_request now req n;
       newer = get_term n < vq_term req;
       granted = (newer \<or> get_term n = vq_term req
         \<and> (get_voted_for n = None \<or> get_voted_for n = Some (vq_candidate_id req)))
   in vr_vote_granted resp = granted \<and> vr_term resp = get_term n'
    \<and> get_term n' = max (get_term n) (vq_term req)
    \<and> get_voted_for n' = (if granted then Some (vq_candidate_id req) else get_voted_for n)
    \<and> get_state n' = (if newer then Follower else get_state n)
    \<and> get_leader n' = (if newer then None else get_leader n)
    \<and> (vq_term req < get_term n \<longrightarrow> n' = n)"
proof -
  have "get_leader (snd (handle_vote_request now req n))
      = (if get_term n < vq_term req then None else get_leader n)"
    and "vq_term req < get_term n \<Longrightarrow> snd (handle_vote_request now req n) = n"
    by (auto simp: handle_vote_request_def Let_def state_defs)
  then show ?thesis
    by (auto simp: case_prod_beta Let_def vote_request_granted vote_request_term vote_request_vote
        vote_request_state)
qed

text \<open>No command lowers a node's term, and only an election of the node's own raises it beyond
  what a message carried: after a vote request or a heartbeat the term is the larger of the
  node's and the message's, after \<open>StartElection\<close> it is the next one (mod \<open>2 ^ 64\<close>).\<close>

lemma term_of_command:
  "get_term (snd (run_command now cmd n)) =
     (case cmd of HandleVoteRequest req \<Rightarrow> max (get_term n) (vq_term req)
      | HandleHeartbeat hb \<Rightarrow> max (get_term n) (hb_term hb)
      | StartElection \<Rightarrow> get_term n + 1
      | SendHeartbeats \<Rightarrow> get_term n)"
  by (cases cmd) (simp_all add: case_prod_beta vote_request_term heartbeat_fields)

text \<open>A node becomes leader only in an election of its own, and only if its configuration lists
  no nodes at all: since no votes of others are ever counted, a node whose configuration lists
  any node (itself included) is never the leader, however long the cluster runs.\<close>

lemma never_leader_when_nodes_listed:
  assumes "reachable cfg s" "rc_cluster_nodes (cfg v) \<noteq> []"
  shows "\<not> is_leader (nodes s v)"
  using assms(1)
proof (induction rule: reachable.induct)
  case (start now)
  show ?case by (simp add: is_leader_def raft_node_new_def state_defs volatile_new_def)
next
  case (step s s')
  from step.hyps(2) obtain now cmd w reply n' where
    run: "run_command now cmd (nodes s w) = (reply, n')" and
    s': "s' = \<lparr>nodes = (nodes s)(w := n'), grants = grants s \<union> votes_cast w cmd reply n'\<rparr>"
    by (rule cluster_stepE)
  have "rn_config (nodes s v) = cfg v" using reachable_invariant [OF step.hyps(1)] by blast
  then have "get_state (snd (run_command now cmd (nodes s v))) \<noteq> Leader"
    using step.IH assms(2)
    by (cases cmd) (auto simp: is_leader_def case_prod_beta vote_request_state heartbeat_fields)
  then show ?case using step.IH run by (auto simp: s' is_leader_def)
qed

definition lonely :: "node_id \<Rightarrow> raft_config" where
  "lonely v = raft_config_default\<lparr>rc_node_id := v, rc_cluster_nodes := [v]\<rparr>"

lemma never_leader_when_nodes_listed_example:
  "\<exists>s. reachable lonely s \<and> get_term (nodes s 1) = 1 \<and> \<not> is_leader (nodes s 1)"
proof -
  let ?s0 = "\<lparr>nodes = (\<lambda>v. raft_node_new (lonely v) 0), grants = {}\<rparr>"
  let ?n = "start_election 9 (nodes ?s0 1)"
  let ?s1 = "\<lparr>nodes = (nodes ?s0)(1 := ?n), grants = grants ?s0 \<union> votes_cast 1 StartElection NoReply ?n\<rparr>"
  have t0: "get_term (raft_node_new c 0) = 0" for c
    by (simp add: raft_node_new_def state_defs persistent_new_def)
  have "cluster_step ?s0 ?s1" by (rule process [of 9 StartElection]) (simp_all add: t0)
  then have r: "reachable lonely ?s1" by (rule reachable.step [OF reachable.start])
  have "rc_cluster_nodes (lonely 1) \<noteq> []" by (simp add: lonely_def)
  from never_leader_when_nodes_listed [OF r this] r show ?thesis
    by (intro exI [of _ ?s1]) (simp add: t0)
qed

text \<open>A node whose configuration lists no nodes wins every election it starts, at once.\<close>

lemma single_node_wins:
  "is_leader (start_election now n) \<longleftrightarrow> rc_cluster_nodes (rn_config n) = []"
  by (simp add: is_leader_def)

text \<open>A heartbeat from a newer term does not depose a leader: the node takes over the term and
  the other node as its leader and answers success, but its own state stays \<open>Leader\<close>, so that
  after it two nodes act as leaders of that term.\<close>

lemma heartbeat_keeps_old_leader:
  assumes "is_leader n" "get_term n < hb_term hb"
  shows "let (resp, n') = handle_heartbeat now hb n
    in hr_success resp \<and> get_term n' = hb_term hb \<and> get_leader n' = Some (hb_leader_id hb)
      \<and> get_voted_for n' = None \<and> is_leader n'"
  using assms by (simp add: case_prod_beta heartbeat_fields is_leader_def)

lemma heartbeat_keeps_old_leader_example:
  "is_leader (snd (handle_heartbeat 8 \<lparr>hb_term = 5, hb_leader_id = 2\<rparr>
      (start_election 7 (raft_node_new raft_config_default 0))))"
proof -
  let ?n = "start_election 7 (raft_node_new raft_config_default 0)"
  have "get_term (raft_node_new raft_config_default 0) = 0"
    by (simp add: raft_node_new_def persistent_new_def get_term_def)
  moreover have "rc_cluster_nodes (rn_config (raft_node_new raft_config_default 0)) = []"
    by (simp add: raft_node_new_def raft_config_default_def)
  ultimately have "is_leader ?n" "get_term ?n < hb_term \<lparr>hb_term = 5, hb_leader_id = 2\<rparr>"
    by (simp_all add: is_leader_def)
  from heartbeat_keeps_old_leader [OF this] show ?thesis by (simp add: case_prod_beta Let_def)
qed

text \<open>A vote does not depend on the candidate's log: whatever last index and term the request
  carries, the answer and the node's new state are the same.\<close>

lemma vote_ignores_log:
  "handle_vote_request now (req\<lparr>vq_last_log_index := i, vq_last_log_term := t\<rparr>) n = handle_vote_request now req n"
  by (auto simp: handle_vote_request_def Let_def)

end
