(* ===== verification/Resilience.thy ===== *)
theory Resilience
  imports Dolda_Prelude
begin

text \<open>
  Retries, the circuit breaker, timeouts and fallbacks of \<open>src/resilience.rs\<close>. An operation is a
  function on a state of its own, so that it can answer differently each time it is called and
  the number of calls can be observed. Times are nanoseconds; the clock is an argument.
\<close>

section \<open>Data\<close>

datatype resilience_error =
    MaxRetriesExceeded nat
  | CircuitBreakerOpen
  | OperationTimeout nat
  | OperationError string

record retry_config =
  max_retries :: nat
  initial_backoff :: nat
  max_backoff :: nat
  backoff_multiplier :: f64

definition retry_config_default :: retry_config where
  "retry_config_default = \<lparr>max_retries = 3, initial_backoff = 100 * 10 ^ 6, max_backoff = 30 * 10 ^ 9,
     backoff_multiplier = Fin 2\<rparr>"

datatype circuit_state = Closed | Open | HalfOpen

record breaker_config =
  failure_threshold :: u64
  success_threshold :: u64
  breaker_timeout :: nat
  window_size :: nat

definition breaker_config_default :: breaker_config where
  "breaker_config_default = \<lparr>failure_threshold = 5, success_threshold = 2,
     breaker_timeout = 60 * 10 ^ 9, window_size = 10\<rparr>"

record circuit_breaker =
  cb_state :: circuit_state
  cb_failure_count :: u64
  cb_success_count :: u64
  cb_last_state_change :: nat
  cb_config :: breaker_config

section \<open>The circuit breaker\<close>

definition circuit_breaker_new :: "nat \<Rightarrow> breaker_config \<Rightarrow> circuit_breaker" where
  "circuit_breaker_new now config = \<lparr>cb_state = Closed, cb_failure_count = 0, cb_success_count = 0,
     cb_last_state_change = now, cb_config = config\<rparr>"

definition transition_to_open :: "nat \<Rightarrow> circuit_breaker \<Rightarrow> circuit_breaker" where
  "transition_to_open now b = b\<lparr>cb_state := Open, cb_last_state_change := now, cb_success_count := 0\<rparr>"

definition transition_to_half_open :: "nat \<Rightarrow> circuit_breaker \<Rightarrow> circuit_breaker" where
  "transition_to_half_open now b = b\<lparr>cb_state := HalfOpen, cb_last_state_change := now,
     cb_success_count := 0, cb_failure_count := 0\<rparr>"

definition transition_to_closed :: "nat \<Rightarrow> circuit_breaker \<Rightarrow> circuit_breaker" where
  "transition_to_closed now b = b\<lparr>cb_state := Closed, cb_last_state_change := now,
     cb_success_count := 0, cb_failure_count := 0\<rparr>"

definition can_proceed :: "nat \<Rightarrow> circuit_breaker \<Rightarrow> (resilience_error + unit) \<times> circuit_breaker" where
  "can_proceed now b =
     (case cb_state b of
        Closed \<Rightarrow> (Inr (), b)
      | HalfOpen \<Rightarrow> (Inr (), b)
      | Open \<Rightarrow> if now - cb_last_state_change b \<ge> breaker_timeout (cb_config b)
                then (Inr (), transition_to_half_open now b)
                else (Inl CircuitBreakerOpen, b))"

definition record_success :: "nat \<Rightarrow> circuit_breaker \<Rightarrow> circuit_breaker" where
  "record_success now b =
     (case cb_state b of
        Closed \<Rightarrow> b\<lparr>cb_failure_count := 0\<rparr>
      | HalfOpen \<Rightarrow>
          let successes = cb_success_count b + 1; b1 = b\<lparr>cb_success_count := successes\<rparr>
          in if successes \<ge> success_threshold (cb_config b) then transition_to_closed now b1 else b1
      | Open \<Rightarrow> b)"

definition record_failure :: "nat \<Rightarrow> circuit_breaker \<Rightarrow> circuit_breaker" where
  "record_failure now b =
     (case cb_state b of
        Closed \<Rightarrow>
          let failures = cb_failure_count b + 1; b1 = b\<lparr>cb_failure_count := failures\<rparr>
          in if failures \<ge> failure_threshold (cb_config b) then transition_to_open now b1 else b1
      | HalfOpen \<Rightarrow> transition_to_open now b
      | Open \<Rightarrow> b)"

text \<open>The operation answers a value or the text of its error; \<open>clock\<close> are the clock's readings
  before and after it.\<close>

definition with_circuit_breaker ::
    "nat \<times> nat \<Rightarrow> ('s \<Rightarrow> (string + 't) \<times> 's) \<Rightarrow> 's \<Rightarrow> circuit_breaker
      \<Rightarrow> (resilience_error + 't) \<times> 's \<times> circuit_breaker" where
  "with_circuit_breaker clock operation s b =
     (case can_proceed (fst clock) b of
        (Inl e, b1) \<Rightarrow> (Inl e, s, b1)
      | (Inr _, b1) \<Rightarrow>
          (case operation s of
             (Inr x, s1) \<Rightarrow> (Inr x, s1, record_success (snd clock) b1)
           | (Inl e, s1) \<Rightarrow> (Inl (OperationError e), s1, record_failure (snd clock) b1)))"

section \<open>Retries, timeouts and fallbacks\<close>

text \<open>\<open>scale\<close> is the multiplication of a duration by \<open>backoff_multiplier\<close> in floating point
  (\<open>from_secs_f64(as_secs_f64() * multiplier)\<close>), no value where it panics. The result comes with
  the state of the operation and the durations slept.\<close>

function retry_loop ::
    "(nat \<Rightarrow> nat option) \<Rightarrow> retry_config \<Rightarrow> ('s \<Rightarrow> ('e + 't) \<times> 's) \<Rightarrow> nat \<Rightarrow> nat \<Rightarrow> 's
      \<Rightarrow> ((resilience_error + 't) \<times> 's \<times> nat list) option" where
  "retry_loop scale c operation attempt backoff s =
     (case operation s of
        (Inr x, s1) \<Rightarrow> Some (Inr x, s1, [])
      | (Inl e, s1) \<Rightarrow>
          if attempt \<ge> max_retries c then Some (Inl (MaxRetriesExceeded attempt), s1, [])
          else (case scale backoff of
                  None \<Rightarrow> None
                | Some d \<Rightarrow>
                    (case retry_loop scale c operation (attempt + 1) (min d (max_backoff c)) s1 of
                       None \<Rightarrow> None
                     | Some (r, s2, slept) \<Rightarrow> Some (r, s2, backoff # slept))))"
  by pat_completeness auto

termination
  by (relation "measure (\<lambda>(scale, c, operation, attempt, backoff, s). max_retries c - attempt)") auto

declare retry_loop.simps [simp del]

definition retry_with_backoff ::
    "(nat \<Rightarrow> nat option) \<Rightarrow> retry_config \<Rightarrow> ('s \<Rightarrow> ('e + 't) \<times> 's) \<Rightarrow> 's
      \<Rightarrow> ((resilience_error + 't) \<times> 's \<times> nat list) option" where
  "retry_with_backoff scale c operation s = retry_loop scale c operation 0 (initial_backoff c) s"

text \<open>\<open>outcome\<close>: what the future yields within the duration, if it does.\<close>

definition with_timeout :: "nat \<Rightarrow> 't option \<Rightarrow> resilience_error + 't" where
  "with_timeout duration outcome = (case outcome of Some x \<Rightarrow> Inr x | None \<Rightarrow> Inl (OperationTimeout duration))"

definition with_fallback :: "('s \<Rightarrow> ('e + 't) \<times> 's) \<Rightarrow> ('s \<Rightarrow> ('e + 't) \<times> 's) \<Rightarrow> 's \<Rightarrow> ('e + 't) \<times> 's" where
  "with_fallback primary fallback s =
     (case primary s of (Inr x, s1) \<Rightarrow> (Inr x, s1) | (Inl _, s1) \<Rightarrow> fallback s1)"

section \<open>Retrying\<close>

text \<open>The state of the operation before its call number \<open>n\<close>, and what that call answers.\<close>

definition state_at :: "('s \<Rightarrow> 'r \<times> 's) \<Rightarrow> 's \<Rightarrow> nat \<Rightarrow> 's" where
  "state_at operation s n = ((\<lambda>s. snd (operation s)) ^^ n) s"

definition answer_at :: "('s \<Rightarrow> 'r \<times> 's) \<Rightarrow> 's \<Rightarrow> nat \<Rightarrow> 'r" where
  "answer_at operation s n = fst (operation (state_at operation s n))"

lemma state_at_Suc: "state_at operation s (Suc n) = state_at operation (snd (operation s)) n"
  by (simp add: state_at_def funpow_Suc_right del: funpow.simps)

lemma answer_at_Suc: "answer_at operation s (Suc n) = answer_at operation (snd (operation s)) n"
  by (simp add: answer_at_def state_at_Suc)

lemma retry_loop_succeeds:
  assumes "\<And>d. scale d \<noteq> None"
  shows "attempt + k \<le> max_retries c \<Longrightarrow> answer_at operation s k = Inr x \<Longrightarrow>
    (\<And>j. j < k \<Longrightarrow> \<exists>e. answer_at operation s j = Inl e) \<Longrightarrow>
    \<exists>slept. retry_loop scale c operation attempt backoff s
      = Some (Inr x, state_at operation s (Suc k), slept) \<and> length slept = k
      \<and> (\<forall>d \<in> set (tl slept). d \<le> max_backoff c) \<and> (k > 0 \<longrightarrow> hd slept = backoff)
      \<and> (backoff \<le> max_backoff c \<longrightarrow> (\<forall>d \<in> set slept. d \<le> max_backoff c))"
proof (induction k arbitrary: attempt backoff s)
  case 0
  then show ?case
    by (subst retry_loop.simps) (cases "operation s"; simp add: answer_at_def state_at_def)
next
  case (Suc k)
  from Suc.prems(3) [of 0] obtain e s1 where op: "operation s = (Inl e, s1)"
    by (cases "operation s") (auto simp: answer_at_def state_at_def)
  obtain d where d: "scale backoff = Some d" using assms [of backoff] by auto
  have "\<exists>e. answer_at operation s1 j = Inl e" if "j < k" for j
    using Suc.prems(3) [of "Suc j"] that op by (simp add: answer_at_Suc)
  moreover have "answer_at operation s1 k = Inr x" using Suc.prems(2) op by (simp add: answer_at_Suc)
  ultimately obtain slept where slept:
    "retry_loop scale c operation (attempt + 1) (min d (max_backoff c)) s1
      = Some (Inr x, state_at operation s1 (Suc k), slept)" "length slept = k"
    "\<forall>d \<in> set slept. d \<le> max_backoff c"
    using Suc.IH [of "attempt + 1" s1 "min d (max_backoff c)"] Suc.prems(1) by auto
  then show ?case
    using Suc.prems(1) op d by (subst retry_loop.simps) (simp add: state_at_Suc [of operation s])
qed

lemma retry_loop_fails:
  assumes "\<And>d. scale d \<noteq> None"
  shows "attempt + k = max_retries c \<Longrightarrow> (\<And>j. j \<le> k \<Longrightarrow> \<exists>e. answer_at operation s j = Inl e) \<Longrightarrow>
    \<exists>slept. retry_loop scale c operation attempt backoff s
      = Some (Inl (MaxRetriesExceeded (max_retries c)), state_at operation s (Suc k), slept) \<and> length slept = k"
proof (induction k arbitrary: attempt backoff s)
  case 0
  from "0.prems"(2) [of 0] obtain e s1 where "operation s = (Inl e, s1)"
    by (cases "operation s") (auto simp: answer_at_def state_at_def)
  with 0 show ?case by (subst retry_loop.simps) (simp add: state_at_def)
next
  case (Suc k)
  from Suc.prems(2) [of 0] obtain e s1 where op: "operation s = (Inl e, s1)"
    by (cases "operation s") (auto simp: answer_at_def state_at_def)
  obtain d where d: "scale backoff = Some d" using assms [of backoff] by auto
  have "\<exists>e. answer_at operation s1 j = Inl e" if "j \<le> k" for j
    using Suc.prems(2) [of "Suc j"] that op by (simp add: answer_at_Suc)
  with Suc.IH [of "attempt + 1" s1 "min d (max_backoff c)"] Suc.prems(1) obtain slept where
    "retry_loop scale c operation (attempt + 1) (min d (max_backoff c)) s1
      = Some (Inl (MaxRetriesExceeded (max_retries c)), state_at operation s1 (Suc k), slept)" "length slept = k"
    by auto
  then show ?case
    using Suc.prems(1) op d by (subst retry_loop.simps) (simp add: state_at_Suc [of operation s])
qed

section \<open>Runs of failures\<close>

definition record_outcome :: "nat \<times> bool \<Rightarrow> circuit_breaker \<Rightarrow> circuit_breaker" where
  "record_outcome outcome b =
     (if snd outcome then record_success (fst outcome) b else record_failure (fst outcome) b)"

definition record_outcomes :: "(nat \<times> bool) list \<Rightarrow> circuit_breaker \<Rightarrow> circuit_breaker" where
  "record_outcomes outcomes b = foldl (\<lambda>b x. record_outcome x b) b outcomes"

definition has_run :: "nat \<Rightarrow> bool list \<Rightarrow> bool" where
  "has_run n xs \<longleftrightarrow> (\<exists>ys zs. xs = ys @ replicate n False @ zs)"

definition trailing_failures :: "bool list \<Rightarrow> nat" where
  "trailing_failures xs = length (takeWhile Not (rev xs))"

lemma trailing_failures_simps [simp]:
  "trailing_failures [] = 0"
  "trailing_failures (xs @ [x]) = (if x then 0 else Suc (trailing_failures xs))"
  by (simp_all add: trailing_failures_def)

lemma trailing_suffix: "n \<le> trailing_failures xs \<longleftrightarrow> (\<exists>ys. xs = ys @ replicate n False)"
proof (induction xs arbitrary: n rule: rev_induct)
  case (snoc x xs)
  show ?case
  proof (cases n)
    case (Suc m)
    have "(\<exists>ys. xs @ [x] = ys @ replicate (Suc m) False) \<longleftrightarrow> \<not> x \<and> (\<exists>ys. xs = ys @ replicate m False)"
      by (auto simp: replicate_append_same [symmetric])
    then show ?thesis using snoc [of m] Suc by simp
  qed simp
qed auto

lemma has_run_snoc:
  assumes "0 < n"
  shows "has_run n (xs @ [x]) \<longleftrightarrow> has_run n xs \<or> n \<le> trailing_failures (xs @ [x])"
proof -
  have "has_run n (xs @ [x]) \<longleftrightarrow> has_run n xs \<or> (\<exists>ys. xs @ [x] = ys @ replicate n False)"
  proof
    assume "has_run n (xs @ [x])"
    then obtain ys zs where yz: "xs @ [x] = ys @ replicate n False @ zs" by (auto simp: has_run_def)
    show "has_run n xs \<or> (\<exists>ys. xs @ [x] = ys @ replicate n False)"
    proof (cases zs rule: rev_cases)
      case Nil
      with yz show ?thesis by auto
    next
      case (snoc zs' z)
      with yz have "xs = ys @ replicate n False @ zs'" by simp
      then show ?thesis unfolding has_run_def by blast
    qed
  next
    assume "has_run n xs \<or> (\<exists>ys. xs @ [x] = ys @ replicate n False)"
    then show "has_run n (xs @ [x])"
      unfolding has_run_def by (metis append_Nil2 append_assoc)
  qed
  then show ?thesis by (simp only: trailing_suffix)
qed

text \<open>The number of consecutive failures that opens a closed breaker.\<close>

definition opening_run :: "circuit_breaker \<Rightarrow> nat" where
  "opening_run b = max 1 (unat (failure_threshold (cb_config b)))"

lemma record_outcome_config [simp]: "cb_config (record_outcome x b) = cb_config b"
  by (auto simp: record_outcome_def record_success_def record_failure_def transition_to_open_def
      transition_to_closed_def Let_def split: circuit_state.split)

lemma record_outcomes_config [simp]: "cb_config (record_outcomes xs b) = cb_config b"
  by (induction xs rule: rev_induct) (simp_all add: record_outcomes_def)

lemma trailing_failures_replicate [simp]: "trailing_failures (replicate n False) = n"
  by (simp add: trailing_failures_def)

lemma has_run_replicate: "m < n \<Longrightarrow> \<not> has_run n (replicate m False)"
  unfolding has_run_def by (metis length_append length_replicate add.left_commute le_add1 not_le)

text \<open>The failures that a closed breaker has counted come before those that are recorded.\<close>

definition with_counted :: "circuit_breaker \<Rightarrow> (nat \<times> bool) list \<Rightarrow> bool list" where
  "with_counted b outcomes = replicate (unat (cb_failure_count b)) False @ map snd outcomes"

lemma record_outcomes_run:
  assumes "cb_state b = Closed" "unat (cb_failure_count b) < opening_run b"
    and "unat (cb_failure_count b) + length outcomes < 2 ^ 64"
  shows "if has_run (opening_run b) (with_counted b outcomes) then cb_state (record_outcomes outcomes b) = Open
    else cb_state (record_outcomes outcomes b) = Closed
      \<and> unat (cb_failure_count (record_outcomes outcomes b)) = trailing_failures (with_counted b outcomes)"
  using assms(3)
proof (induction outcomes rule: rev_induct)
  case Nil
  then show ?case using assms(1) has_run_replicate [OF assms(2)] by (simp add: record_outcomes_def with_counted_def)
next
  case (snoc x xs)
  let ?b = "record_outcomes xs b" and ?n = "opening_run b" and ?xs = "with_counted b xs"
  have n: "0 < ?n" by (simp add: opening_run_def)
  have step: "record_outcomes (xs @ [x]) b = record_outcome x ?b" by (simp add: record_outcomes_def)
  have snoc_counted: "with_counted b (xs @ [x]) = ?xs @ [snd x]" by (simp add: with_counted_def)
  show ?case
  proof (cases "has_run ?n ?xs")
    case True
    then have "cb_state ?b = Open" using snoc by simp
    with True show ?thesis
      by (simp add: step snoc_counted has_run_snoc [OF n] record_outcome_def record_success_def record_failure_def)
  next
    case False
    then have closed: "cb_state ?b = Closed" "unat (cb_failure_count ?b) = trailing_failures ?xs"
      using snoc by simp_all
    have "trailing_failures ?xs \<le> length ?xs"
      unfolding trailing_failures_def by (metis length_rev length_takeWhile_le)
    then have inc: "unat (cb_failure_count ?b + 1) = Suc (trailing_failures ?xs)"
      using closed(2) snoc.prems by (simp add: unat_Suc64 with_counted_def)
    then have "failure_threshold (cb_config b) \<le> cb_failure_count ?b + 1 \<longleftrightarrow> ?n \<le> Suc (trailing_failures ?xs)"
      by (auto simp: word_le_nat_alt opening_run_def)
    with False closed inc n show ?thesis
      by (cases "snd x") (simp_all add: step snoc_counted has_run_snoc [OF n] record_outcome_def record_success_def
          record_failure_def Let_def transition_to_open_def)
  qed
qed

section \<open>Properties\<close>

text \<open>C21: \<open>retry_with_backoff\<close> calls the operation until it succeeds, at most \<open>max_retries + 1\<close> times. If
  the first success is call number \<open>k \<le> max_retries\<close> (from 0), that value is returned after
  exactly \<open>k + 1\<close> calls and \<open>k\<close> sleeps, the first one of the initial backoff and all later ones at
  most \<open>max_backoff\<close>; if all \<open>max_retries + 1\<close> calls fail, \<open>MaxRetriesExceeded(max_retries)\<close>.\<close>

theorem retry_calls:
  assumes "\<And>d. scale d \<noteq> None"
  shows "(k \<le> max_retries c \<and> answer_at operation s k = Inr x
      \<and> (\<forall>j < k. \<exists>e. answer_at operation s j = Inl e) \<longrightarrow>
      (\<exists>slept. retry_with_backoff scale c operation s = Some (Inr x, state_at operation s (k + 1), slept)
        \<and> length slept = k \<and> (0 < k \<longrightarrow> hd slept = initial_backoff c)
        \<and> (\<forall>d \<in> set (tl slept). d \<le> max_backoff c)))
    \<and> ((\<forall>j \<le> max_retries c. \<exists>e. answer_at operation s j = Inl e) \<longrightarrow>
      (\<exists>slept. retry_with_backoff scale c operation s
          = Some (Inl (MaxRetriesExceeded (max_retries c)), state_at operation s (max_retries c + 1), slept)
        \<and> length slept = max_retries c))"
  using retry_loop_succeeds [of scale 0 k c operation s x "initial_backoff c"]
    retry_loop_fails [of scale 0 "max_retries c" c operation s "initial_backoff c"] assms
  by (auto simp: retry_with_backoff_def)

text \<open>An operation that fails until it has been called often enough.\<close>

definition succeeds_after :: "nat \<Rightarrow> nat \<Rightarrow> (string + nat) \<times> nat" where
  "succeeds_after n calls = (if calls < n then Inl ''not yet'' else Inr calls, calls + 1)"

lemma succeeds_after_at [simp]: "state_at (succeeds_after n) s k = s + k"
  by (induction k) (simp_all add: state_at_def succeeds_after_def)

definition doubled :: "nat \<Rightarrow> nat option" where
  "doubled d = Some (2 * d)"

theorem retry_calls_witness:
  "(\<exists>slept. retry_with_backoff doubled retry_config_default (succeeds_after 2) 0 = Some (Inr 2, 3, slept)
      \<and> length slept = 2)
    \<and> (\<exists>slept. retry_with_backoff doubled retry_config_default (succeeds_after 9) 0
        = Some (Inl (MaxRetriesExceeded 3), 4, slept))"
proof
  have scale: "doubled d \<noteq> None" for d by (simp add: doubled_def)
  show "\<exists>slept. retry_with_backoff doubled retry_config_default (succeeds_after 2) 0 = Some (Inr 2, 3, slept)
      \<and> length slept = 2"
    using retry_calls [of doubled 2 retry_config_default "succeeds_after 2" 0 2, OF scale]
    by (auto simp: answer_at_def succeeds_after_def retry_config_default_def)
  show "\<exists>slept. retry_with_backoff doubled retry_config_default (succeeds_after 9) 0
      = Some (Inl (MaxRetriesExceeded 3), 4, slept)"
    using retry_calls [of doubled 2 retry_config_default "succeeds_after 9" 0 2, OF scale]
    by (auto simp: answer_at_def succeeds_after_def retry_config_default_def)
qed

text \<open>C19: A closed breaker opens exactly when \<open>failure_threshold\<close> failures in a row have been recorded (at
  least one). Let the breaker have counted some failures, fewer than this. Whatever successes and
  failures are recorded on it (fewer than \<open>2 ^ 64\<close>), it is open afterwards if these, after the
  counted failures, contain such a run; otherwise it is still closed, and has counted fewer
  failures than the threshold again. A new breaker has counted none. The configured window size
  plays no role.\<close>

theorem breaker_opens_on_failure_run:
  assumes "cb_state b = Closed" "unat (cb_failure_count b) < n" "unat (cb_failure_count b) + length outcomes < 2 ^ 64"
    and "n = max 1 (unat (failure_threshold (cb_config b)))"
  shows "if \<exists>ys zs. replicate (unat (cb_failure_count b)) False @ map snd outcomes = ys @ replicate n False @ zs
    then cb_state (record_outcomes outcomes b) = Open
    else cb_state (record_outcomes outcomes b) = Closed \<and> unat (cb_failure_count (record_outcomes outcomes b)) < n"
proof -
  have n: "n = opening_run b" "0 < n" by (simp_all add: assms(4) opening_run_def)
  have "trailing_failures (with_counted b outcomes) < n" if "\<not> has_run n (with_counted b outcomes)"
  proof (rule ccontr)
    assume "\<not> ?thesis"
    then obtain ys where "with_counted b outcomes = ys @ replicate n False"
      using trailing_suffix [of n "with_counted b outcomes"] by auto
    then show False using that unfolding has_run_def by (metis append_Nil2)
  qed
  then show ?thesis
    using record_outcomes_run [OF assms(1) assms(2) [unfolded n(1)] assms(3)]
    unfolding n(1) [symmetric] has_run_def with_counted_def by (auto split: if_splits)
qed

theorem breaker_opens_on_failure_run_witness:
  "cb_state (record_outcomes [(2, False), (3, True), (4, False), (5, False)]
      (record_outcomes [(1, False)] (circuit_breaker_new 0 (breaker_config_default\<lparr>failure_threshold := 2\<rparr>)))) = Open"
proof -
  let ?b = "record_outcomes [(1, False)] (circuit_breaker_new 0 (breaker_config_default\<lparr>failure_threshold := 2\<rparr>))"
  let ?out = "[(2, False), (3, True), (4, False), (5, False)] :: (nat \<times> bool) list"
  have count: "unat (cb_failure_count ?b) = 1" and closed: "cb_state ?b = Closed"
    by (simp_all add: circuit_breaker_new_def record_outcomes_def record_outcome_def record_failure_def Let_def word_le_nat_alt)
  have b: "unat (cb_failure_count ?b) < 2" "unat (cb_failure_count ?b) + length ?out < 2 ^ 64"
    "2 = max 1 (unat (failure_threshold (cb_config ?b)))"
    unfolding count by (simp_all add: circuit_breaker_new_def)
  have "replicate (unat (cb_failure_count ?b)) False @ map snd ?out = [] @ replicate 2 False @ [True, False, False]"
    unfolding count by (simp add: numeral_2_eq_2)
  then have "\<exists>ys zs. replicate (unat (cb_failure_count ?b)) False @ map snd ?out = ys @ replicate 2 False @ zs" by blast
  with breaker_opens_on_failure_run [OF closed b] show ?thesis by (simp only: if_True)
qed

text \<open>An open breaker does not run the operation before its timeout: the answer is
  \<open>CircuitBreakerOpen\<close>, and neither the operation's state nor the breaker changes. From the timeout
  on, one operation is run as a trial: its failure opens the breaker again at once, its success
  closes it if one success is enough, and leaves it half-open otherwise.\<close>

lemma open_breaker_guards:
  assumes "cb_state b = Open"
  shows "with_circuit_breaker (t, t') operation s b =
    (if t - cb_last_state_change b < breaker_timeout (cb_config b) then (Inl CircuitBreakerOpen, s, b)
     else case operation s of
       (Inl e, s1) \<Rightarrow> (Inl (OperationError e), s1,
         b\<lparr>cb_last_state_change := t', cb_failure_count := 0, cb_success_count := 0\<rparr>)
     | (Inr x, s1) \<Rightarrow> (Inr x, s1,
         if success_threshold (cb_config b) \<le> 1
         then b\<lparr>cb_state := Closed, cb_last_state_change := t', cb_failure_count := 0, cb_success_count := 0\<rparr>
         else b\<lparr>cb_state := HalfOpen, cb_last_state_change := t, cb_failure_count := 0, cb_success_count := 1\<rparr>))"
  using assms
  by (auto simp: with_circuit_breaker_def can_proceed_def transition_to_half_open_def record_success_def
      record_failure_def transition_to_open_def transition_to_closed_def Let_def split: prod.split sum.split)

lemma open_breaker_guards_example:
  "with_circuit_breaker (5, 6) (succeeds_after 0) 0 (transition_to_open 4 (circuit_breaker_new 0 breaker_config_default))
    = (Inl CircuitBreakerOpen, 0, transition_to_open 4 (circuit_breaker_new 0 breaker_config_default))"
  using open_breaker_guards [of "transition_to_open 4 (circuit_breaker_new 0 breaker_config_default)" 5 6 "succeeds_after 0" 0]
  by (simp add: transition_to_open_def circuit_breaker_new_def breaker_config_default_def)

text \<open>Calls through a breaker, one after the other, each with its readings of the clock.\<close>

definition breaker_calls ::
    "(nat \<times> nat) list \<Rightarrow> ('s \<Rightarrow> (string + 't) \<times> 's) \<Rightarrow> 's \<Rightarrow> circuit_breaker \<Rightarrow> 's \<times> circuit_breaker" where
  "breaker_calls clocks operation s b =
     foldl (\<lambda>(s, b) clock. snd (with_circuit_breaker clock operation s b)) (s, b) clocks"

lemma state_at_step: "snd (operation (state_at operation s n)) = state_at operation s (Suc n)"
  by (simp add: state_at_def)

lemma breaker_calls_succeed:
  assumes "cb_state b = Open" "breaker_timeout (cb_config b) \<le> fst clock - cb_last_state_change b"
    and succeeds: "\<And>n. \<exists>x. answer_at operation s n = Inr x" and "k = max 1 (unat (success_threshold (cb_config b)))"
  shows "\<exists>b'. breaker_calls (clock # clocks) operation s b = (state_at operation s (length clocks + 1), b')
    \<and> cb_config b' = cb_config b
    \<and> (if k \<le> length clocks + 1 then cb_state b' = Closed
       else cb_state b' = HalfOpen \<and> unat (cb_success_count b') = length clocks + 1)"
proof (induction clocks rule: rev_induct)
  case Nil
  from succeeds [of 0] obtain x s1 where op: "operation s = (Inr x, s1)" by (cases "operation s") (auto simp: answer_at_def state_at_def)
  have "success_threshold (cb_config b) \<le> 1 \<longleftrightarrow> k = 1" using assms(4) by (auto simp: word_le_nat_alt)
  with op assms show ?case
    by (auto simp: breaker_calls_def with_circuit_breaker_def can_proceed_def transition_to_half_open_def
        record_success_def transition_to_closed_def state_at_def Let_def split: prod.split)
next
  case (snoc c clocks)
  let ?n = "length clocks + 1"
  from snoc obtain b1 where b1: "breaker_calls (clock # clocks) operation s b = (state_at operation s ?n, b1)"
    "cb_config b1 = cb_config b" "if k \<le> ?n then cb_state b1 = Closed else cb_state b1 = HalfOpen \<and> unat (cb_success_count b1) = ?n"
    by blast
  from succeeds [of ?n] obtain x where op: "operation (state_at operation s ?n) = (Inr x, state_at operation s (Suc ?n))"
    using state_at_step [of operation s ?n] by (cases "operation (state_at operation s ?n)") (auto simp: answer_at_def)
  have step: "breaker_calls (clock # clocks @ [c]) operation s b = (state_at operation s (Suc ?n), record_success (snd c) b1)"
    using b1(1,3) op by (auto simp: breaker_calls_def with_circuit_breaker_def can_proceed_def split: if_splits)
  show ?case
  proof (cases "k \<le> ?n")
    case True
    then show ?thesis using b1 step by (simp add: record_success_def)
  next
    case False
    then have "unat (cb_success_count b1) + 1 < 2 ^ 64" using b1(3) assms(4) unsigned_less [of "success_threshold (cb_config b)", where ?'a = nat] by simp
    then have "unat (cb_success_count b1 + 1) = Suc ?n" using b1(3) False by (simp add: unat_Suc64)
    moreover from this have "success_threshold (cb_config b) \<le> cb_success_count b1 + 1 \<longleftrightarrow> k \<le> Suc ?n"
      using assms(4) by (auto simp: word_le_nat_alt)
    ultimately show ?thesis
      using False b1 step by (simp add: record_success_def Let_def transition_to_closed_def)
  qed
qed

text \<open>C23: An open breaker recovers. From its timeout on, calls of an operation that succeeds are all let
  through, the first of them as a trial, and after \<open>success_threshold\<close> of them (at least one) the
  breaker is closed and stays closed; before, it is half-open.\<close>

theorem breaker_recovers:
  assumes "cb_state b = Open" "clocks \<noteq> []" "breaker_timeout (cb_config b) \<le> fst (hd clocks) - cb_last_state_change b"
    and "\<And>n. \<exists>x. answer_at operation s n = Inr x"
  shows "fst (breaker_calls clocks operation s b) = state_at operation s (length clocks)
    \<and> cb_state (snd (breaker_calls clocks operation s b))
      = (if max 1 (unat (success_threshold (cb_config b))) \<le> length clocks then Closed else HalfOpen)"
proof -
  obtain c cs where "clocks = c # cs" using assms(2) by (cases clocks) auto
  with breaker_calls_succeed [OF assms(1) _ assms(4) refl, of c cs] assms(3) show ?thesis by (auto split: if_splits)
qed

theorem breaker_recovers_witness:
  "cb_state (snd (breaker_calls [(70 * 10 ^ 9, 71 * 10 ^ 9), (72 * 10 ^ 9, 73 * 10 ^ 9)] (succeeds_after 0) 0
      (transition_to_open 4 (circuit_breaker_new 0 breaker_config_default)))) = Closed"
  using breaker_recovers [of "transition_to_open 4 (circuit_breaker_new 0 breaker_config_default)"
      "[(70 * 10 ^ 9, 71 * 10 ^ 9), (72 * 10 ^ 9, 73 * 10 ^ 9)]" "succeeds_after 0" 0]
  by (simp add: transition_to_open_def circuit_breaker_new_def breaker_config_default_def answer_at_def succeeds_after_def)

end
