(* ===== verification/Health.thy ===== *)
theory Health
  imports Dolda_Prelude
begin

text \<open>
  The health server, \<open>src/health.rs\<close>: the registered components and their states, the overall
  state, the answers to HTTP requests, and the background checks. The JSON writer and the format
  of a percentage are parameters, the clock and the memory figures of \<open>sysinfo\<close> are arguments.
  Requests are taken as ASCII text.
\<close>

section \<open>States of components\<close>

datatype health_status = Healthy | DegradedHealth | Unhealthy | UnknownHealth

definition is_healthy_status :: "health_status \<Rightarrow> bool" where
  "is_healthy_status s \<longleftrightarrow> s = Healthy"

fun http_code :: "health_status \<Rightarrow> u16" where
  "http_code Healthy = 200"
| "http_code DegradedHealth = 200"
| "http_code Unhealthy = 503"
| "http_code UnknownHealth = 503"

record component_health =
  ch_name :: string
  ch_status :: health_status
  ch_message :: string
  ch_last_check_us :: u64

record system_health =
  sh_status :: health_status
  sh_uptime_seconds :: u64
  sh_components :: "component_health list"
  sh_version :: string

record health_server =
  hs_start_time :: u64 \<comment> \<open>in seconds\<close>
  hs_components :: "component_health list"
  hs_version :: string

definition health_server_new :: "u64 \<Rightarrow> string \<Rightarrow> health_server" where
  "health_server_new now version = \<lparr>hs_start_time = now, hs_components = [], hs_version = version\<rparr>"

definition register_component :: "string \<Rightarrow> health_server \<Rightarrow> health_server" where
  "register_component name s =
     s\<lparr>hs_components := hs_components s @ [\<lparr>ch_name = name, ch_status = UnknownHealth,
         ch_message = ''Not yet checked'', ch_last_check_us = 0\<rparr>]\<rparr>"

fun update_first :: "string \<Rightarrow> (component_health \<Rightarrow> component_health) \<Rightarrow> component_health list \<Rightarrow> component_health list" where
  "update_first name f [] = []"
| "update_first name f (c # cs) = (if ch_name c = name then f c # cs else c # update_first name f cs)"

definition update_component :: "u64 \<Rightarrow> string \<Rightarrow> health_status \<Rightarrow> string \<Rightarrow> health_server \<Rightarrow> health_server" where
  "update_component now_us name status message s =
     s\<lparr>hs_components := update_first name
        (\<lambda>c. c\<lparr>ch_status := status, ch_message := message, ch_last_check_us := now_us\<rparr>) (hs_components s)\<rparr>"

fun status_rank :: "health_status \<Rightarrow> nat" where
  "status_rank Healthy = 0"
| "status_rank DegradedHealth = 1"
| "status_rank Unhealthy = 2"
| "status_rank UnknownHealth = 3"

text \<open>\<open>max_by_key\<close>: of several greatest elements, the last one.\<close>

fun max_by_rank :: "health_status list \<Rightarrow> health_status option" where
  "max_by_rank [] = None"
| "max_by_rank (s # ss) =
     (case max_by_rank ss of
        None \<Rightarrow> Some s
      | Some t \<Rightarrow> if status_rank s > status_rank t then Some s else Some t)"

definition get_health :: "u64 \<Rightarrow> health_server \<Rightarrow> system_health" where
  "get_health now s =
     \<lparr>sh_status = (case max_by_rank (map ch_status (hs_components s)) of Some st \<Rightarrow> st | None \<Rightarrow> UnknownHealth),
      sh_uptime_seconds = now - hs_start_time s, sh_components = hs_components s, sh_version = hs_version s\<rparr>"

section \<open>Requests\<close>

text \<open>\<open>lines().next()\<close> and \<open>split_whitespace()\<close>.\<close>

definition first_line :: "string \<Rightarrow> string" where
  "first_line s =
     (let l = takeWhile (\<lambda>c. c \<noteq> CHR 0x0A) s
      in if length l < length s \<and> l \<noteq> [] \<and> last l = CHR 0x0D then butlast l else l)"

definition is_space :: "char \<Rightarrow> bool" where
  "is_space c \<longleftrightarrow> c \<in> {CHR 0x20, CHR 0x09, CHR 0x0A, CHR 0x0B, CHR 0x0C, CHR 0x0D}"

function split_whitespace :: "string \<Rightarrow> string list" where
  "split_whitespace s =
     (case dropWhile is_space s of
        [] \<Rightarrow> []
      | c # cs \<Rightarrow> (c # takeWhile (\<lambda>c. \<not> is_space c) cs) # split_whitespace (dropWhile (\<lambda>c. \<not> is_space c) cs))"
  by auto
termination
proof (relation "measure length", goal_cases)
  case (2 s c cs)
  have "length (c # cs) \<le> length s" using length_dropWhile_le [of is_space s] 2 by simp
  then show ?case using length_dropWhile_le [of "\<lambda>c. \<not> is_space c" cs] by simp
qed simp

declare split_whitespace.simps [simp del]

definition crlf :: string where
  "crlf = [CHR 0x0D, CHR 0x0A]"

definition http_text :: "string \<Rightarrow> u16 \<Rightarrow> string \<Rightarrow> string \<Rightarrow> string" where
  "http_text content_type code status body =
     ''HTTP/1.1 '' @ nat_string (unat code) @ '' '' @ status @ crlf
     @ ''Content-Type: '' @ content_type @ crlf
     @ ''Content-Length: '' @ nat_string (length body) @ crlf @ crlf @ body"

definition http_response :: "u16 \<Rightarrow> string \<Rightarrow> string \<Rightarrow> string" where
  "http_response = http_text ''text/plain''"

definition http_json_response :: "u16 \<Rightarrow> string \<Rightarrow> string \<Rightarrow> string" where
  "http_json_response = http_text ''application/json''"

definition handle_liveness :: string where
  "handle_liveness = http_response 200 ''OK'' ''alive''"

definition handle_readiness :: "u64 \<Rightarrow> health_server \<Rightarrow> string" where
  "handle_readiness now s =
     (let health = get_health now s;
          code = http_code (sh_status health);
          status = (if code = 200 then ''OK'' else ''Service Unavailable'');
          body = (if is_healthy_status (sh_status health) then ''ready'' else ''not ready'')
      in http_response code status body)"

definition handle_detail :: "(system_health \<Rightarrow> string option) \<Rightarrow> u64 \<Rightarrow> health_server \<Rightarrow> string" where
  "handle_detail json now s =
     (let health = get_health now s;
          code = http_code (sh_status health);
          status = (if code = 200 then ''OK'' else ''Service Unavailable'')
      in http_json_response code status (case json health of Some j \<Rightarrow> j | None \<Rightarrow> ''{}''))"

definition handle_request :: "(system_health \<Rightarrow> string option) \<Rightarrow> u64 \<Rightarrow> string \<Rightarrow> health_server \<Rightarrow> string" where
  "handle_request json now request s =
     (let parts = split_whitespace (first_line request) in
      if length parts < 2 then http_response 400 ''Bad Request'' ''Invalid HTTP request''
      else let path = parts ! 1 in
        if path = ''/health'' \<or> path = ''/health/live'' then handle_liveness
        else if path = ''/health/ready'' then handle_readiness now s
        else if path = ''/health/detail'' then handle_detail json now s
        else if path = ''/'' then http_response 200 ''OK'' ''DOLDA Health Check Server''
        else http_response 404 ''Not Found'' ''Endpoint not found'')"

section \<open>Background checks\<close>

definition used_percent :: "u64 \<Rightarrow> u64 \<Rightarrow> f64" where
  "used_percent used total_memory =
     (if total_memory = 0 then (if used = 0 then NaN else PosInf)
      else case f64_ratio (unat used) (unat total_memory) of
          Fin r \<Rightarrow> (let (p, q) = quotient_of (r * 100) in Fin (round_f64 (nat p) (nat q)))
        | x \<Rightarrow> x)"

definition check_memory :: "(f64 \<Rightarrow> string) \<Rightarrow> u64 \<Rightarrow> u64 \<Rightarrow> health_status \<times> string" where
  "check_memory fmt used total_memory =
     (let pc = used_percent used total_memory;
          status = (if f64_less pc (Fin 80) then Healthy
                    else if f64_less pc (Fin 90) then DegradedHealth else Unhealthy)
      in (status, ''Memory usage: '' @ fmt pc @ ''%''))"

definition perform_checks :: "(f64 \<Rightarrow> string) \<Rightarrow> u64 \<Rightarrow> u64 \<Rightarrow> u64 \<Rightarrow> health_server \<Rightarrow> health_server" where
  "perform_checks fmt now_us used total_memory s =
     (let s1 = update_component now_us ''system'' Healthy ''System is running'' s;
          (status, message) = check_memory fmt used total_memory
      in update_component now_us ''memory'' status message s1)"

section \<open>The overall state\<close>

lemma max_by_rank_None [simp]: "max_by_rank ss = None \<longleftrightarrow> ss = []"
  by (cases ss) (auto split: option.split)

lemma max_by_rank_worst:
  "max_by_rank ss = Some s \<Longrightarrow> s \<in> set ss \<and> (\<forall>t \<in> set ss. status_rank t \<le> status_rank s)"
proof (induction ss arbitrary: s)
  case (Cons t ss)
  show ?case
  proof (cases "max_by_rank ss")
    case None
    with Cons.prems show ?thesis by auto
  next
    case (Some u)
    with Cons show ?thesis by (auto split: if_split_asm)
  qed
qed simp

lemma status_rank_inj [simp]: "status_rank s = status_rank t \<longleftrightarrow> s = t"
  by (cases s; cases t) auto

lemma rank_bounds:
  "status_rank s = 0 \<longleftrightarrow> s = Healthy"
  "status_rank s \<le> Suc 0 \<longleftrightarrow> s = Healthy \<or> s = DegradedHealth"
  by (cases s; simp)+

text \<open>States ordered by how bad they are: the overall state is the greatest.\<close>

instantiation health_status :: linorder
begin

definition less_eq_health_status :: "health_status \<Rightarrow> health_status \<Rightarrow> bool" where
  "less_eq_health_status s t \<longleftrightarrow> status_rank s \<le> status_rank t"

definition less_health_status :: "health_status \<Rightarrow> health_status \<Rightarrow> bool" where
  "less_health_status s t \<longleftrightarrow> status_rank s < status_rank t"

instance by standard (auto simp: less_eq_health_status_def less_health_status_def)

end

lemma overall_state:
  assumes "hs_components s \<noteq> []"
  shows "sh_status (get_health now s) = Max (ch_status ` set (hs_components s))"
proof -
  obtain st where st: "max_by_rank (map ch_status (hs_components s)) = Some st"
    using assms by (metis max_by_rank_None list.map_disc_iff not_None_eq)
  from max_by_rank_worst [OF st] have "Max (ch_status ` set (hs_components s)) = st"
    by (intro Max_eqI) (auto simp: less_eq_health_status_def)
  then show ?thesis by (simp add: get_health_def st)
qed

lemma overall_rank:
  assumes "hs_components s \<noteq> []"
  shows "status_rank (sh_status (get_health now s)) \<le> status_rank u
    \<longleftrightarrow> (\<forall>c \<in> set (hs_components s). status_rank (ch_status c) \<le> status_rank u)"
proof -
  have "Max (ch_status ` set (hs_components s)) \<le> u \<longleftrightarrow> (\<forall>c \<in> set (hs_components s). ch_status c \<le> u)"
    using assms by simp
  then show ?thesis by (simp add: overall_state [OF assms] less_eq_health_status_def)
qed

lemma http_code_ok: "http_code s = 200 \<longleftrightarrow> status_rank s \<le> 1"
  by (cases s) simp_all

lemma update_component_names:
  "map ch_name (hs_components (update_component now_us name st msg s)) = map ch_name (hs_components s)"
proof -
  have "map ch_name (update_first name f cs) = map ch_name cs" if "\<And>c. ch_name (f c) = ch_name c" for f cs
    using that by (induction cs) auto
  then show ?thesis by (simp add: update_component_def)
qed

lemma update_component_others:
  assumes "c \<in> set (hs_components (update_component now_us name st msg s))" "ch_name c \<noteq> name"
  shows "c \<in> set (hs_components s)"
proof -
  have mem: "c \<in> set (update_first name f cs) \<Longrightarrow> c \<in> set cs \<or> ch_name c = name" if "\<And>c. ch_name (f c) = ch_name c" for f cs
    using that by (induction cs) (auto split: if_split_asm)
  from assms(1) have "c \<in> set (hs_components s) \<or> ch_name c = name"
    unfolding update_component_def by (intro mem) simp_all
  with assms(2) show ?thesis by blast
qed

section \<open>Properties\<close>

text \<open>The answer to a readiness probe, whatever the method and the rest of the request. A server with
  no registered component is not ready, with code 503; otherwise the code is 200 exactly if every
  component is healthy or degraded, and the body says ready exactly if every component is healthy.\<close>

lemma readiness_probe:
  assumes "split_whitespace (first_line request) = meth # ''/health/ready'' # rest"
  shows "handle_request json now request s =
    (let ready = (hs_components s \<noteq> [] \<and> (\<forall>c \<in> set (hs_components s). ch_status c = Healthy));
         up = (hs_components s \<noteq> [] \<and> (\<forall>c \<in> set (hs_components s). ch_status c \<in> {Healthy, DegradedHealth}))
     in http_response (if up then 200 else 503) (if up then ''OK'' else ''Service Unavailable'')
          (if ready then ''ready'' else ''not ready''))"
proof -
  have h: "handle_request json now request s = handle_readiness now s"
    by (simp add: handle_request_def assms Let_def)
  have code: "http_code st = (if status_rank st \<le> 1 then 200 else 503)" for st by (cases st) simp_all
  show ?thesis
  proof (cases "hs_components s = []")
    case True
    then show ?thesis by (simp add: h handle_readiness_def get_health_def is_healthy_status_def Let_def)
  next
    case False
    have "status_rank (sh_status (get_health now s)) \<le> 1 \<longleftrightarrow>
        (\<forall>c \<in> set (hs_components s). ch_status c \<in> {Healthy, DegradedHealth})"
      using overall_rank [OF False, of now DegradedHealth] by (simp add: rank_bounds)
    moreover have "sh_status (get_health now s) = Healthy \<longleftrightarrow> (\<forall>c \<in> set (hs_components s). ch_status c = Healthy)"
      using overall_rank [OF False, of now Healthy] by (simp add: rank_bounds)
    ultimately show ?thesis
      using False by (auto simp: h handle_readiness_def is_healthy_status_def code Let_def)
  qed
qed

definition demo_health :: health_server where
  "demo_health = register_component ''memory'' (register_component ''system'' (health_server_new 0 ''1.0''))"

definition probe :: string where
  "probe = ''GET /health/ready HTTP/1.1'' @ crlf @ ''Host: x'' @ crlf @ crlf"

lemma probe_parts: "split_whitespace (first_line probe) = [''GET'', ''/health/ready'', ''HTTP/1.1'']"
  by (simp add: probe_def first_line_def crlf_def split_whitespace.simps is_space_def Let_def)

definition degraded_server :: health_server where
  "degraded_server = update_component 5 ''memory'' DegradedHealth ''Memory usage: 85.0%''
     (update_component 5 ''system'' Healthy ''System is running'' demo_health)"

lemma readiness_probe_example:
  "handle_request (\<lambda>_. None) 7 probe degraded_server = http_response 200 ''OK'' ''not ready''"
proof -
  have "map ch_status (hs_components degraded_server) = [Healthy, DegradedHealth]"
    by (simp add: degraded_server_def demo_health_def health_server_new_def register_component_def update_component_def)
  then obtain c d where "hs_components degraded_server = [c, d]" "ch_status c = Healthy" "ch_status d = DegradedHealth"
    by (auto simp: map_eq_Cons_conv)
  with readiness_probe [OF probe_parts, of "\<lambda>_. None" 7 degraded_server] show ?thesis by simp
qed

text \<open>A component that nobody registered never shows up: the background checks change neither the
  number of components nor their names, and only components named \<open>system\<close> or \<open>memory\<close> change.\<close>

lemma checks_keep_components:
  "map ch_name (hs_components (perform_checks fmt now_us used total_memory s)) = map ch_name (hs_components s)
   \<and> (\<forall>c \<in> set (hs_components (perform_checks fmt now_us used total_memory s)).
       ch_name c \<notin> {''system'', ''memory''} \<longrightarrow> c \<in> set (hs_components s))"
proof -
  obtain status message where m: "check_memory fmt used total_memory = (status, message)" by force
  let ?s1 = "update_component now_us ''system'' Healthy ''System is running'' s"
  have run: "perform_checks fmt now_us used total_memory s = update_component now_us ''memory'' status message ?s1"
    by (simp add: perform_checks_def m Let_def)
  show ?thesis
    unfolding run
  proof (intro conjI ballI impI)
    fix c assume c: "c \<in> set (hs_components (update_component now_us ''memory'' status message ?s1))"
      "ch_name c \<notin> {''system'', ''memory''}"
    have "c \<in> set (hs_components ?s1)" by (rule update_component_others [OF c(1)]) (use c(2) in blast)
    then show "c \<in> set (hs_components s)" by (rule update_component_others) (use c(2) in blast)
  qed (simp add: update_component_names)
qed

end
