(* ===== verification/Cluster.thy ===== *)
theory Cluster
  imports Dolda_Prelude
begin

text \<open>
  Nodes and the cluster that manages them: \<open>src/types.rs\<close>, \<open>src/node.rs\<close> and
  \<open>src/cluster.rs\<close>. A node's state, heartbeat and failure count are shared cells that only the
  cluster and the node itself change, so they are fields. The maps of nodes are lists of entries
  in the order a traversal meets them.

  Binding a TCP port, the encoding of \<open>bincode\<close> and parsing a socket address are parameters; the
  clock, in milliseconds, is an argument. Reference counts of an \<open>Arc\<close> matter in one place:
  \<open>remove_node\<close> fails while somebody else holds the node.
\<close>

section \<open>Types\<close>

definition MAX_NODES :: nat where "MAX_NODES = 256"
definition DEFAULT_CONTROL_PORT :: u16 where "DEFAULT_CONTROL_PORT = 25080"
definition DEFAULT_DATA_PORT_BASE :: u16 where "DEFAULT_DATA_PORT_BASE = 25081"
definition BLOCK_SIZE :: nat where "BLOCK_SIZE = 4096"
definition MAX_PARTITIONS :: nat where "MAX_PARTITIONS = 65536"
definition MAX_SHARDS_PER_PARTITION :: nat where "MAX_SHARDS_PER_PARTITION = 32"
definition MAX_NODE_NAME :: nat where "MAX_NODE_NAME = 64"
definition MAX_IP_LEN :: nat where "MAX_IP_LEN = 16"
definition PARTITION_KEY_SIZE :: nat where "PARTITION_KEY_SIZE = 256"
definition MAX_REPLICAS :: nat where "MAX_REPLICAS = 3"

datatype dolda_error =
    DoldaIo io_error
  | DoldaNetwork string
  | DoldaPartition string
  | DoldaFilesystem string
  | DoldaNode string
  | DoldaConfig string
  | DoldaSerialization string

datatype node_type = ControlNode | DataNode | MixedNode

datatype cnode_state = Init | Active | Degraded | Offline

datatype file_type = DataFile | MetadataFile | IndexFile | LogFile | TempFile

datatype partition_strategy = HashStrategy | RangeStrategy | ListStrategy | RoundRobin

datatype partition_key_type = StringKey | IntegerKey | TimestampKey | CompositeKey

fun node_type_string :: "node_type \<Rightarrow> string" where
  "node_type_string ControlNode = ''Control''"
| "node_type_string DataNode = ''Data''"
| "node_type_string MixedNode = ''Mixed''"

fun node_state_string :: "cnode_state \<Rightarrow> string" where
  "node_state_string Init = ''Init''"
| "node_state_string Active = ''Active''"
| "node_state_string Degraded = ''Degraded''"
| "node_state_string Offline = ''Offline''"

fun file_type_string :: "file_type \<Rightarrow> string" where
  "file_type_string DataFile = ''Data''"
| "file_type_string MetadataFile = ''Metadata''"
| "file_type_string IndexFile = ''Index''"
| "file_type_string LogFile = ''Log''"
| "file_type_string TempFile = ''Temp''"

fun partition_strategy_string :: "partition_strategy \<Rightarrow> string" where
  "partition_strategy_string HashStrategy = ''Hash''"
| "partition_strategy_string RangeStrategy = ''Range''"
| "partition_strategy_string ListStrategy = ''List''"
| "partition_strategy_string RoundRobin = ''RoundRobin''"

fun partition_key_type_string :: "partition_key_type \<Rightarrow> string" where
  "partition_key_type_string StringKey = ''String''"
| "partition_key_type_string IntegerKey = ''Integer''"
| "partition_key_type_string TimestampKey = ''Timestamp''"
| "partition_key_type_string CompositeKey = ''Composite''"

record node_resources =
  nr_total_memory :: u64
  nr_available_memory :: u64
  nr_total_storage :: u64
  nr_available_storage :: u64
  nr_cpu_cores :: u32
  nr_cpu_usage :: f64

definition node_resources_default :: node_resources where
  "node_resources_default = \<lparr>nr_total_memory = 8 * 1024 * 1024 * 1024,
     nr_available_memory = 6 * 1024 * 1024 * 1024, nr_total_storage = 100 * 1024 * 1024 * 1024,
     nr_available_storage = 80 * 1024 * 1024 * 1024, nr_cpu_cores = 4, nr_cpu_usage = Fin 25\<rparr>"

record file_attrs =
  fa_size :: u64
  fa_created_time :: u64
  fa_modified_time :: u64
  fa_permissions :: u32
  fa_file_type :: file_type
  fa_replica_count :: u32

definition file_attrs_default :: "u64 \<Rightarrow> file_attrs" where
  "file_attrs_default now = \<lparr>fa_size = 0, fa_created_time = now, fa_modified_time = now,
     fa_permissions = 420, fa_file_type = DataFile, fa_replica_count = 3\<rparr>"

record network_endpoint =
  ne_ip :: string
  ne_port :: u16
  ne_socket_addr :: "string option"

definition network_endpoint_new :: "(string \<Rightarrow> string option) \<Rightarrow> string \<Rightarrow> u16 \<Rightarrow> network_endpoint" where
  "network_endpoint_new parse ip port =
     \<lparr>ne_ip = ip, ne_port = port, ne_socket_addr = parse (ip @ '':'' @ nat_string (unat port))\<rparr>"

record block_location =
  bl_node_id :: u32
  bl_offset :: u64
  bl_size :: u32

definition block_location_new :: "u32 \<Rightarrow> u64 \<Rightarrow> u32 \<Rightarrow> block_location" where
  "block_location_new node_id offset bsize = \<lparr>bl_node_id = node_id, bl_offset = offset, bl_size = bsize\<rparr>"

section \<open>Nodes\<close>

record node_config =
  nc_name :: string
  nc_node_type :: node_type
  nc_ip :: string
  nc_port :: u16
  nc_resources :: node_resources

definition node_config_default :: node_config where
  "node_config_default = \<lparr>nc_name = ''default-node'', nc_node_type = DataNode, nc_ip = ''127.0.0.1'',
     nc_port = DEFAULT_DATA_PORT_BASE, nc_resources = node_resources_default\<rparr>"

record cnode =
  cn_node_id :: u32
  cn_config :: node_config
  cn_state :: cnode_state
  cn_endpoint :: network_endpoint
  cn_last_heartbeat :: u64
  cn_failure_count :: u32
  cn_owned_partitions :: "u32 list"
  cn_listening :: bool

text \<open>The worker does not look at the connection of \<open>HandleConnection\<close>; it is a number here.\<close>

datatype node_command = StartNode | StopNode | SendHeartbeat | HandleConnection nat | UpdateResources

definition cnode_new :: "(string \<Rightarrow> string option) \<Rightarrow> u64 \<Rightarrow> node_config \<Rightarrow> cnode" where
  "cnode_new parse now config = \<lparr>cn_node_id = 0, cn_config = config, cn_state = Init,
     cn_endpoint = network_endpoint_new parse (nc_ip config) (nc_port config), cn_last_heartbeat = now,
     cn_failure_count = 0, cn_owned_partitions = [], cn_listening = False\<rparr>"

text \<open>\<open>bind\<close> answers an attempt to listen on an address.\<close>

definition node_start :: "(string \<Rightarrow> io_error + unit) \<Rightarrow> u64 \<Rightarrow> cnode \<Rightarrow> (dolda_error + unit) \<times> cnode" where
  "node_start bind now n =
     (let n1 = n\<lparr>cn_state := Active, cn_last_heartbeat := now\<rparr> in
      if nc_node_type (cn_config n) \<noteq> ControlNode
      then (case bind (nc_ip (cn_config n) @ '':'' @ nat_string (unat (nc_port (cn_config n)))) of
              Inl e \<Rightarrow> (Inl (DoldaIo e), n1)
            | Inr _ \<Rightarrow> (Inr (), n1\<lparr>cn_listening := True\<rparr>))
      else (Inr (), n1))"

definition node_stop :: "cnode \<Rightarrow> cnode" where
  "node_stop n = n\<lparr>cn_state := Offline, cn_listening := False\<rparr>"

definition is_healthy :: "u64 \<Rightarrow> cnode \<Rightarrow> bool" where
  "is_healthy now n \<longleftrightarrow> cn_state n = Active \<and> now - cn_last_heartbeat n < 30000"

definition add_partition :: "u32 \<Rightarrow> cnode \<Rightarrow> cnode" where
  "add_partition p n =
     (if p \<in> set (cn_owned_partitions n) then n
      else n\<lparr>cn_owned_partitions := cn_owned_partitions n @ [p]\<rparr>)"

definition remove_partition :: "u32 \<Rightarrow> cnode \<Rightarrow> cnode" where
  "remove_partition p n = n\<lparr>cn_owned_partitions := filter (\<lambda>q. q \<noteq> p) (cn_owned_partitions n)\<rparr>"

text \<open>The worker of a node, on the commands it receives while the node is active.\<close>

fun run_worker :: "u64 \<Rightarrow> node_command list \<Rightarrow> cnode \<Rightarrow> cnode" where
  "run_worker now [] n = n"
| "run_worker now (c # cs) n =
     (if cn_state n \<noteq> Active then n
      else case c of
          StopNode \<Rightarrow> n
        | SendHeartbeat \<Rightarrow> run_worker now cs (n\<lparr>cn_last_heartbeat := now\<rparr>)
        | _ \<Rightarrow> run_worker now cs n)"

text \<open>Messages between nodes: their length in four bytes, then their bytes; \<open>enc\<close> and \<open>dec\<close> are
  \<open>bincode\<close>. Receiving takes what it needs from the front of the incoming bytes.\<close>

definition send_node_message ::
    "('m \<Rightarrow> string + bytes) \<Rightarrow> 'm \<Rightarrow> io_error option \<Rightarrow> bytes \<Rightarrow> (dolda_error + unit) \<times> bytes" where
  "send_node_message enc m write_error written =
     (case enc m of
        Inl e \<Rightarrow> (Inl (DoldaSerialization e), written)
      | Inr data \<Rightarrow>
          (case write_error of
             Some e \<Rightarrow> (Inl (DoldaIo e), written)
           | None \<Rightarrow> (Inr (), written @ be_bytes 4 (of_nat (length data) :: u32) @ data)))"

definition receive_node_message :: "(bytes \<Rightarrow> string + 'm) \<Rightarrow> bytes \<Rightarrow> (dolda_error + 'm) \<times> bytes" where
  "receive_node_message dec incoming =
     (if length incoming < 4 then (Inl (DoldaIo UnexpectedEof), [])
      else let msize = unat (be_word (take 4 incoming) :: u32); rest = drop 4 incoming in
      if length rest < msize then (Inl (DoldaIo UnexpectedEof), [])
      else (map_err DoldaSerialization (dec (take msize rest)), drop msize rest))"

section \<open>The cluster\<close>

record cluster_config =
  cc_expected_nodes :: nat
  cc_heartbeat_interval :: u64
  cc_health_timeout :: u64
  cc_max_failures :: u32

definition cluster_config_default :: cluster_config where
  "cluster_config_default = \<lparr>cc_expected_nodes = 4, cc_heartbeat_interval = 5000,
     cc_health_timeout = 30000, cc_max_failures = 3\<rparr>"

record cluster_stats =
  ct_total_memory :: u64
  ct_total_storage :: u64
  ct_total_cores :: u32
  ct_active_nodes :: nat
  ct_degraded_nodes :: nat
  ct_offline_nodes :: nat

definition cluster_stats_default :: cluster_stats where
  "cluster_stats_default = \<lparr>ct_total_memory = 0, ct_total_storage = 0, ct_total_cores = 0,
     ct_active_nodes = 0, ct_degraded_nodes = 0, ct_offline_nodes = 0\<rparr>"

record node_cluster =
  cl_config :: cluster_config
  cl_nodes :: "(u32 \<times> cnode) list"
  cl_control_node :: "u32 option" \<comment> \<open>the id of the node whose \<open>Arc\<close> is kept\<close>
  cl_next_node_id :: u32
  cl_stats :: cluster_stats
  cl_shutdown :: bool

definition node_cluster_new :: "cluster_config \<Rightarrow> node_cluster" where
  "node_cluster_new config = \<lparr>cl_config = config, cl_nodes = [], cl_control_node = None,
     cl_next_node_id = 1, cl_stats = cluster_stats_default, cl_shutdown = False\<rparr>"

definition count_state :: "cnode_state \<Rightarrow> (u32 \<times> cnode) list \<Rightarrow> nat" where
  "count_state st ns = length (filter (\<lambda>(_, n). cn_state n = st) ns)"

definition stats_of :: "(u32 \<times> cnode) list \<Rightarrow> cluster_stats" where
  "stats_of ns =
     \<lparr>ct_total_memory = sum_list (map (\<lambda>(_, n). nr_total_memory (nc_resources (cn_config n))) ns),
      ct_total_storage = sum_list (map (\<lambda>(_, n). nr_total_storage (nc_resources (cn_config n))) ns),
      ct_total_cores = sum_list (map (\<lambda>(_, n). nr_cpu_cores (nc_resources (cn_config n))) ns),
      ct_active_nodes = count_state Active ns, ct_degraded_nodes = count_state Degraded ns,
      ct_offline_nodes = count_state Offline ns\<rparr>"

definition update_stats :: "node_cluster \<Rightarrow> node_cluster" where
  "update_stats c = c\<lparr>cl_stats := stats_of (cl_nodes c)\<rparr>"

definition add_node ::
    "(string \<Rightarrow> io_error + unit) \<Rightarrow> u64 \<Rightarrow> cnode \<Rightarrow> node_cluster \<Rightarrow> (dolda_error + u32) \<times> node_cluster" where
  "add_node bind now node c =
     (let nid = cl_next_node_id c;
          c1 = c\<lparr>cl_next_node_id := nid + 1\<rparr>
      in case node_start bind now (node\<lparr>cn_node_id := nid\<rparr>) of
           (Inl e, _) \<Rightarrow> (Inl e, c1)
         | (Inr _, started) \<Rightarrow>
             let c2 = c1\<lparr>cl_nodes := hash_insert nid started (cl_nodes c1)\<rparr>;
                 c3 = (if nc_node_type (cn_config started) = ControlNode \<and> cl_control_node c2 = None
                       then c2\<lparr>cl_control_node := Some nid\<rparr> else c2)
             in (Inr nid, update_stats c3))"

text \<open>\<open>held\<close>: somebody outside the cluster still holds the node.\<close>

definition remove_node :: "bool \<Rightarrow> u32 \<Rightarrow> node_cluster \<Rightarrow> (dolda_error + unit) \<times> node_cluster" where
  "remove_node held nid c =
     (case map_of (cl_nodes c) nid of
        None \<Rightarrow> (Inr (), c)
      | Some node \<Rightarrow>
          let c1 = c\<lparr>cl_nodes := hash_remove nid (cl_nodes c)\<rparr> in
          if held \<or> cl_control_node c1 = Some nid
          then (Inl (DoldaNode ''Node still has references''), c1)
          else let c2 = (if cl_control_node c1 = Some nid then c1\<lparr>cl_control_node := None\<rparr> else c1)
               in (Inr (), update_stats c2))"

definition get_node :: "u32 \<Rightarrow> node_cluster \<Rightarrow> cnode option" where
  "get_node nid c = map_of (cl_nodes c) nid"

definition get_data_nodes :: "node_cluster \<Rightarrow> cnode list" where
  "get_data_nodes c = map snd (filter (\<lambda>(_, n). nc_node_type (cn_config n) = DataNode
     \<or> nc_node_type (cn_config n) = MixedNode) (cl_nodes c))"

definition select_data_node :: "u32 \<Rightarrow> node_cluster \<Rightarrow> cnode option" where
  "select_data_node partition_id c =
     (let data_nodes = get_data_nodes c in
      if data_nodes = [] then None else Some (data_nodes ! (unat partition_id mod length data_nodes)))"

definition map_node :: "u32 \<Rightarrow> (cnode \<Rightarrow> cnode) \<Rightarrow> node_cluster \<Rightarrow> node_cluster" where
  "map_node nid f c = c\<lparr>cl_nodes := map (\<lambda>(k, n). if k = nid then (k, f n) else (k, n)) (cl_nodes c)\<rparr>"

definition handle_node_failure :: "u32 \<Rightarrow> node_cluster \<Rightarrow> node_cluster" where
  "handle_node_failure nid c =
     (case get_node nid c of
        None \<Rightarrow> c
      | Some _ \<Rightarrow> map_node nid (\<lambda>n.
          let n1 = n\<lparr>cn_failure_count := cn_failure_count n + 1\<rparr>
          in if cn_failure_count n1 \<ge> cc_max_failures (cl_config c) then n1\<lparr>cn_state := Degraded\<rparr> else n1) c)"

text \<open>One tick of the health monitor.\<close>

definition check_heartbeat :: "u64 \<Rightarrow> cluster_config \<Rightarrow> cnode \<Rightarrow> cnode" where
  "check_heartbeat now config n =
     (if now - cn_last_heartbeat n > cc_health_timeout config
      then (if cn_failure_count n < cc_max_failures config
            then n\<lparr>cn_failure_count := cn_failure_count n + 1\<rparr> else n)
      else n)"

definition health_tick :: "u64 \<Rightarrow> node_cluster \<Rightarrow> node_cluster" where
  "health_tick now c =
     (if cl_shutdown c then c
      else c\<lparr>cl_nodes := map (\<lambda>(k, n). (k, check_heartbeat now (cl_config c) n)) (cl_nodes c)\<rparr>)"

fun remove_nodes :: "(u32 \<Rightarrow> bool) \<Rightarrow> u32 list \<Rightarrow> node_cluster \<Rightarrow> (dolda_error + unit) \<times> node_cluster" where
  "remove_nodes held [] c = (Inr (), c)"
| "remove_nodes held (nid # ids) c =
     (case remove_node (held nid) nid c of
        (Inl e, c1) \<Rightarrow> (Inl e, c1)
      | (Inr _, c1) \<Rightarrow> remove_nodes held ids c1)"

definition cluster_shutdown :: "(u32 \<Rightarrow> bool) \<Rightarrow> node_cluster \<Rightarrow> (dolda_error + unit) \<times> node_cluster" where
  "cluster_shutdown held c =
     (let c1 = c\<lparr>cl_shutdown := True\<rparr> in remove_nodes held (map fst (cl_nodes c1)) c1)"

section \<open>Invariants of a cluster\<close>

text \<open>What the program does to a cluster, as one step; a node's own worker changes its heartbeat.\<close>

datatype cluster_op =
    AddNode cnode "io_error + unit" u64
  | RemoveNode u32 bool
  | NodeFailure u32
  | HealthTick u64
  | Worker u32 u64 "node_command list"

fun apply_op :: "cluster_op \<Rightarrow> node_cluster \<Rightarrow> node_cluster" where
  "apply_op (AddNode node bound now) c = snd (add_node (\<lambda>_. bound) now node c)"
| "apply_op (RemoveNode nid held) c = snd (remove_node held nid c)"
| "apply_op (NodeFailure nid) c = handle_node_failure nid c"
| "apply_op (HealthTick now) c = health_tick now c"
| "apply_op (Worker nid now cmds) c = map_node nid (run_worker now cmds) c"

definition apply_ops :: "cluster_op list \<Rightarrow> node_cluster \<Rightarrow> node_cluster" where
  "apply_ops ops c = foldl (\<lambda>c op. apply_op op c) c ops"

text \<open>Ids are given out once, in ascending order, and every node carries its own.\<close>

definition ids_ok :: "node_cluster \<Rightarrow> bool" where
  "ids_ok c \<longleftrightarrow> distinct (map fst (cl_nodes c))
     \<and> (\<forall>(k, n) \<in> set (cl_nodes c). cn_node_id n = k \<and> k < cl_next_node_id c)"

lemma run_worker_id [simp]: "cn_node_id (run_worker now cmds n) = cn_node_id n"
  by (induction now cmds n rule: run_worker.induct) (auto split: node_command.split)

lemma ids_ok_map:
  assumes "ids_ok c" "\<And>k n. cn_node_id (f k n) = cn_node_id n"
    and "cl_nodes c' = map (\<lambda>(k, n). (k, f k n)) (cl_nodes c)" "cl_next_node_id c' = cl_next_node_id c"
  shows "ids_ok c'"
proof -
  have "map fst (cl_nodes c') = map fst (cl_nodes c)" unfolding assms(3) by (simp add: case_prod_beta comp_def)
  then have "distinct (map fst (cl_nodes c'))" using assms(1) by (simp only: ids_ok_def)
  moreover have "\<forall>(k, n) \<in> set (cl_nodes c'). cn_node_id n = k \<and> k < cl_next_node_id c'"
    using assms by (fastforce simp: ids_ok_def)
  ultimately show ?thesis by (simp only: ids_ok_def)
qed

lemma map_node_ids:
  assumes "ids_ok c" "\<And>n. cn_node_id (f n) = cn_node_id n"
  shows "ids_ok (map_node nid f c)"
  by (rule ids_ok_map [OF assms(1), where f = "\<lambda>k n. if k = nid then f n else n"])
    (auto simp: assms(2) map_node_def)

lemma node_start_id: "node_start bind now n = (r, n') \<Longrightarrow> cn_node_id n' = cn_node_id n"
  by (auto simp: node_start_def Let_def split: if_split_asm sum.splits)

lemma add_node_ids:
  assumes "ids_ok c" "cl_next_node_id c \<noteq> - 1"
  shows "ids_ok (snd (add_node bind now node c))"
proof -
  let ?id = "cl_next_node_id c"
  have less: "?id < ?id + 1"
  proof -
    have "unat ?id \<noteq> unat (- 1 :: u32)" using assms(2) by (metis word_unat_eq_iff)
    moreover have "unat (- 1 :: u32) = 2 ^ 32 - 1"
      by (simp add: unsigned_minus_1_eq_mask mask_eq_exp_minus_1)
    moreover have "unat ?id < 2 ^ LENGTH(32)" by (rule unsigned_less)
    ultimately have "unat ?id + 1 < 2 ^ 32" by simp
    then have "unat (?id + 1) = unat ?id + 1" by (simp add: unat_word_ariths)
    then show ?thesis by (simp add: word_less_nat_alt)
  qed
  obtain r n where start: "node_start bind now (node\<lparr>cn_node_id := ?id\<rparr>) = (r, n)" by force
  then have n: "cn_node_id n = ?id" using node_start_id by fastforce
  have old: "distinct (map fst (cl_nodes c))" "\<forall>(k, n) \<in> set (cl_nodes c). cn_node_id n = k \<and> k < ?id + 1"
    using assms(1) less by (auto simp: ids_ok_def intro: less_trans)
  have "\<forall>(k, n) \<in> set (hash_insert ?id n (cl_nodes c)). cn_node_id n = k \<and> k < ?id + 1"
    using old(2) set_hash_insert [of ?id n "cl_nodes c"] n less by blast
  with old start show ?thesis
    by (auto simp: add_node_def Let_def ids_ok_def update_stats_def split: sum.split)
qed

lemma apply_op_ids:
  assumes "ids_ok c" "cl_next_node_id c \<noteq> - 1"
  shows "ids_ok (apply_op op c)"
proof (cases op)
  case (AddNode node bound now)
  then show ?thesis using add_node_ids [OF assms] by simp
next
  case (RemoveNode nid held)
  then show ?thesis using assms(1)
    by (auto simp: remove_node_def Let_def ids_ok_def update_stats_def hash_remove_def distinct_map_filter
        split: option.split)
next
  case (NodeFailure nid)
  then show ?thesis using assms(1)
    by (auto simp: handle_node_failure_def Let_def split: option.split intro!: map_node_ids)
next
  case (HealthTick now)
  then show ?thesis
    using ids_ok_map [OF assms(1), of "\<lambda>k n. check_heartbeat now (cl_config c) n" "health_tick now c"] assms(1)
    by (auto simp: health_tick_def check_heartbeat_def)
next
  case (Worker nid now cmds)
  then show ?thesis using map_node_ids [OF assms(1)] by simp
qed

lemma next_id_step:
  "unat (cl_next_node_id (apply_op op c)) \<le> unat (cl_next_node_id c) + 1"
proof (cases op)
  case (AddNode node bound now)
  have "unat (cl_next_node_id c + 1) \<le> unat (cl_next_node_id c) + 1"
    using mod_less_eq_dividend [of "unat (cl_next_node_id c) + 1" "2 ^ 32"] by (simp add: unat_word_ariths)
  with AddNode show ?thesis
    by (auto simp: add_node_def Let_def update_stats_def split: prod.split sum.split)
qed (auto simp: remove_node_def Let_def update_stats_def handle_node_failure_def health_tick_def map_node_def
      split: option.split)

lemma apply_ops_ids:
  assumes "length ops + 2 < 2 ^ 32"
  shows "ids_ok (apply_ops ops (node_cluster_new config))
    \<and> unat (cl_next_node_id (apply_ops ops (node_cluster_new config))) \<le> length ops + 1"
  using assms
proof (induction ops rule: rev_induct)
  case Nil
  show ?case by (simp add: apply_ops_def node_cluster_new_def ids_ok_def)
next
  case (snoc op ops)
  let ?c = "apply_ops ops (node_cluster_new config)"
  have ok: "ids_ok ?c" "unat (cl_next_node_id ?c) \<le> length ops + 1" using snoc by simp_all
  have "unat (- 1 :: u32) = 2 ^ 32 - 1"
    by (simp add: unsigned_minus_1_eq_mask mask_eq_exp_minus_1)
  then have "cl_next_node_id ?c \<noteq> - 1" using ok(2) snoc.prems by auto
  from apply_op_ids [OF ok(1) this, of op] next_id_step [of op ?c] ok(2) show ?case
    by (simp add: apply_ops_def)
qed

section \<open>Properties\<close>

text \<open>Node ids are unique: after any operations on a new cluster (fewer than \<open>2 ^ 32 - 2\<close> of them), no two
  nodes have the same id, the node found under an id carries that id, and the next id to be
  given out is larger than all of them.\<close>

lemma node_ids_unique:
  assumes "length ops + 2 < 2 ^ 32"
  shows "let c = apply_ops ops (node_cluster_new config) in
    distinct (map fst (cl_nodes c))
    \<and> (\<forall>nid n. get_node nid c = Some n \<longrightarrow> cn_node_id n = nid \<and> nid < cl_next_node_id c)"
  using apply_ops_ids [OF assms, of config]
  by (auto simp: Let_def ids_ok_def get_node_def dest!: map_of_SomeD)

definition control_config :: node_config where
  "control_config = node_config_default\<lparr>nc_node_type := ControlNode\<rparr>"

definition demo_ops :: "cluster_op list" where
  "demo_ops = [AddNode (cnode_new (\<lambda>_. None) 0 control_config) (Inr ()) 5,
     AddNode (cnode_new (\<lambda>_. None) 0 node_config_default) (Inr ()) 6]"

definition demo_cluster :: node_cluster where
  "demo_cluster = apply_ops demo_ops (node_cluster_new cluster_config_default)"

lemma demo_cluster_data_nodes: "get_data_nodes demo_cluster \<noteq> []"
  by (simp add: demo_cluster_def demo_ops_def apply_ops_def add_node_def node_start_def cnode_new_def
      control_config_def node_config_default_def node_cluster_new_def update_stats_def get_data_nodes_def Let_def)

lemma node_ids_unique_example:
  "distinct (map fst (cl_nodes (apply_ops demo_ops (node_cluster_new cluster_config_default))))"
  using node_ids_unique [of demo_ops cluster_config_default] by (simp add: demo_ops_def Let_def)

text \<open>The control node can never be removed: the cluster itself still holds it. \<open>remove_node\<close> takes it
  out of the table and then fails, so that afterwards it is no longer found, is still the control
  node, still counts in the statistics, and was not stopped.\<close>

lemma control_node_removal_fails:
  assumes "cl_control_node c = Some nid" "get_node nid c = Some n"
  shows "\<exists>c'. remove_node held nid c = (Inl (DoldaNode ''Node still has references''), c')
    \<and> get_node nid c' = None \<and> cl_control_node c' = Some nid \<and> cl_stats c' = cl_stats c
    \<and> (\<forall>k. k \<noteq> nid \<longrightarrow> get_node k c' = get_node k c)"
  using assms by (simp add: remove_node_def get_node_def)

lemma control_node_removal_fails_example:
  "\<exists>c'. remove_node False 1 (apply_ops demo_ops (node_cluster_new cluster_config_default))
      = (Inl (DoldaNode ''Node still has references''), c')
    \<and> cl_control_node c' = Some 1 \<and> ct_active_nodes (cl_stats c') = 2"
proof -
  let ?c = "apply_ops demo_ops (node_cluster_new cluster_config_default)"
  have c: "cl_control_node ?c = Some 1" "ct_active_nodes (cl_stats ?c) = 2"
    "\<exists>n. get_node 1 ?c = Some n"
    by (simp_all add: demo_ops_def apply_ops_def add_node_def node_start_def cnode_new_def control_config_def
        node_config_default_def node_cluster_new_def update_stats_def stats_of_def count_state_def get_node_def Let_def)
  from c(3) obtain n where "get_node 1 ?c = Some n" by blast
  from control_node_removal_fails [OF c(1) this, of False] c(2) show ?thesis by auto
qed

text \<open>The health monitor only counts: it never changes the state of a node.\<close>

lemma health_tick_keeps_state:
  "map (\<lambda>(k, n). (k, cn_state n)) (cl_nodes (health_tick now c)) = map (\<lambda>(k, n). (k, cn_state n)) (cl_nodes c)"
  by (auto simp: health_tick_def check_heartbeat_def)

lemma send_receive_node_message:
  assumes "enc m = Inr data" "dec data = Inr m" "length data < 2 ^ 32"
  shows "\<exists>bs. send_node_message enc m None [] = (Inr (), bs) \<and> receive_node_message dec (bs @ rest) = (Inr m, rest)"
  using assms by (simp add: send_node_message_def receive_node_message_def unat_of_nat32)

end
