(* ===== verification/Partitions.thy ===== *)
theory Partitions
  imports Cluster
begin

text \<open>
  Partitions of the data and their shards, \<open>src/partition.rs\<close>: keys and their hashes (\<open>crc\<close> is
  \<open>crc32fast\<close>), the creation of partitions over the data nodes of a cluster, and the routing of
  a key to a partition, a node and a shard. Splitting and merging partitions are errors in the
  code, adding and removing nodes and rebalancing only log.
\<close>

section \<open>Data\<close>

datatype routing_key = RString string | RInteger u64 | RTimestamp u64 | RComposite bytes

fun key_type :: "routing_key \<Rightarrow> partition_key_type" where
  "key_type (RString s) = StringKey"
| "key_type (RInteger i) = IntegerKey"
| "key_type (RTimestamp t) = TimestampKey"
| "key_type (RComposite d) = CompositeKey"

fun routing_hash :: "(bytes \<Rightarrow> u32) \<Rightarrow> routing_key \<Rightarrow> u64" where
  "routing_hash crc (RString s) = ucast (crc (map of_char s))"
| "routing_hash crc (RInteger i) = ucast (crc (be_bytes 8 i))"
| "routing_hash crc (RTimestamp t) = ucast (crc (be_bytes 8 t))"
| "routing_hash crc (RComposite d) = ucast (crc d)"

record data_shard =
  ds_shard_id :: u32
  ds_node_id :: u32
  ds_size_bytes :: u64
  ds_record_count :: u64
  ds_data_path :: string
  ds_is_primary :: bool

definition data_shard_new :: "u32 \<Rightarrow> u32 \<Rightarrow> bool \<Rightarrow> data_shard" where
  "data_shard_new shard_id node_id is_primary =
     \<lparr>ds_shard_id = shard_id, ds_node_id = node_id, ds_size_bytes = 0, ds_record_count = 0,
      ds_data_path = ''/shards/shard_'' @ nat_string (unat shard_id), ds_is_primary = is_primary\<rparr>"

record data_partition =
  dp_partition_id :: u32
  dp_strategy :: partition_strategy
  dp_min_key :: "routing_key option"
  dp_max_key :: "routing_key option"
  dp_shards :: "data_shard list"
  dp_assigned_nodes :: "u32 list"
  dp_total_records :: u64
  dp_total_size :: u64
  dp_created_time :: u64

definition data_partition_new ::
    "u64 \<Rightarrow> u32 \<Rightarrow> partition_strategy \<Rightarrow> routing_key option \<Rightarrow> routing_key option \<Rightarrow> data_partition" where
  "data_partition_new now partition_id strategy min_key max_key =
     \<lparr>dp_partition_id = partition_id, dp_strategy = strategy, dp_min_key = min_key, dp_max_key = max_key,
      dp_shards = [], dp_assigned_nodes = [], dp_total_records = 0, dp_total_size = 0, dp_created_time = now\<rparr>"

record partition_stats =
  pt_total_partitions :: u64
  pt_total_shards :: u64
  pt_total_data_size :: u64

record partition_manager =
  pn_partitions :: "(u32 \<times> data_partition) list"
  pn_default_strategy :: partition_strategy
  pn_default_replicas :: u32
  pn_max_shards_per_partition :: nat
  pn_stats :: partition_stats

definition partition_manager_new :: partition_manager where
  "partition_manager_new = \<lparr>pn_partitions = [], pn_default_strategy = HashStrategy, pn_default_replicas = 3,
     pn_max_shards_per_partition = MAX_SHARDS_PER_PARTITION,
     pn_stats = \<lparr>pt_total_partitions = 0, pt_total_shards = 0, pt_total_data_size = 0\<rparr>\<rparr>"

section \<open>Creating partitions\<close>

text \<open>\<open>now_ms\<close>: the clock in milliseconds.\<close>

definition generate_partition_id :: "nat \<Rightarrow> u32" where
  "generate_partition_id now_ms = of_nat now_ms mod of_nat MAX_PARTITIONS + 1"

definition assign_nodes_to_partition :: "node_cluster \<Rightarrow> data_partition \<Rightarrow> dolda_error + data_partition" where
  "assign_nodes_to_partition c p =
     (let data_nodes = get_data_nodes c in
      if data_nodes = [] then Inl (DoldaPartition ''No data nodes available'')
      else Inr (p\<lparr>dp_assigned_nodes := map cn_node_id data_nodes\<rparr>))"

definition create_shards_for_partition :: "data_partition \<Rightarrow> dolda_error + data_partition" where
  "create_shards_for_partition p =
     (if dp_assigned_nodes p = [] then Inl (DoldaPartition ''No nodes assigned to partition'')
      else Inr (p\<lparr>dp_shards := dp_shards p @ map (\<lambda>(i, node_id).
             data_shard_new (dp_partition_id p * 1000 + of_nat i) node_id (i = 0))
           (enumerate 0 (dp_assigned_nodes p))\<rparr>))"

definition create_partition ::
    "nat \<Rightarrow> node_cluster \<Rightarrow> partition_strategy \<Rightarrow> routing_key option \<Rightarrow> routing_key option
      \<Rightarrow> partition_manager \<Rightarrow> (dolda_error + u32) \<times> partition_manager" where
  "create_partition now_ms c strategy min_key max_key m =
     (let partition_id = generate_partition_id now_ms;
          p = data_partition_new (of_nat (now_ms div 1000)) partition_id strategy min_key max_key
      in case and_then (assign_nodes_to_partition c p) create_shards_for_partition of
           Inl e \<Rightarrow> (Inl e, m)
         | Inr p' \<Rightarrow>
             let s = pn_stats m
             in (Inr partition_id, m\<lparr>pn_partitions := hash_insert partition_id p' (pn_partitions m),
                   pn_stats := s\<lparr>pt_total_partitions := pt_total_partitions s + 1,
                     pt_total_shards := pt_total_shards s + of_nat (length (dp_shards p'))\<rparr>\<rparr>))"

section \<open>Routing\<close>

definition get_partition_for_key :: "(bytes \<Rightarrow> u32) \<Rightarrow> routing_key \<Rightarrow> partition_manager \<Rightarrow> u32 option" where
  "get_partition_for_key crc key m =
     (let partition_count = of_nat (length (pn_partitions m)) :: u64 in
      if partition_count = 0 then None
      else Some (ucast (routing_hash crc key mod partition_count + 1)))"

definition get_node_for_key ::
    "(bytes \<Rightarrow> u32) \<Rightarrow> node_cluster \<Rightarrow> routing_key \<Rightarrow> partition_manager \<Rightarrow> cnode option" where
  "get_node_for_key crc c key m =
     (case get_partition_for_key crc key m of
        None \<Rightarrow> None
      | Some partition_id \<Rightarrow>
          (case map_of (pn_partitions m) partition_id of
             None \<Rightarrow> None
           | Some p \<Rightarrow> if dp_assigned_nodes p = [] then None else get_node (dp_assigned_nodes p ! 0) c))"

definition get_shard_for_key :: "(bytes \<Rightarrow> u32) \<Rightarrow> routing_key \<Rightarrow> partition_manager \<Rightarrow> data_shard option" where
  "get_shard_for_key crc key m =
     (case get_partition_for_key crc key m of
        None \<Rightarrow> None
      | Some partition_id \<Rightarrow>
          (case map_of (pn_partitions m) partition_id of
             None \<Rightarrow> None
           | Some p \<Rightarrow> if dp_shards p = [] then None else Some (dp_shards p ! 0)))"

definition split_partition :: "u32 \<Rightarrow> routing_key \<Rightarrow> dolda_error + u32 \<times> u32" where
  "split_partition p key = Inl (DoldaPartition ''Partition splitting not implemented'')"

definition merge_partitions :: "u32 \<Rightarrow> u32 \<Rightarrow> dolda_error + u32" where
  "merge_partitions p q = Inl (DoldaPartition ''Partition merging not implemented'')"

section \<open>What routing can find\<close>

lemma routed_id:
  assumes "0 < length (pn_partitions m)" "length (pn_partitions m) < 2 ^ 32"
  shows "\<exists>p. get_partition_for_key crc key m = Some p \<and> 1 \<le> unat p \<and> unat p \<le> length (pn_partitions m)"
proof -
  let ?n = "of_nat (length (pn_partitions m)) :: u64"
  have n: "unat ?n = length (pn_partitions m)" using assms(2) by (simp add: unat_of_nat64)
  let ?r = "routing_hash crc key mod ?n"
  have r: "unat ?r < length (pn_partitions m)" using assms(1) n by (simp add: unat_mod_distrib)
  then have "unat (?r + 1) = unat ?r + 1" using assms(2) by (simp add: unat_Suc64)
  then have "unat (ucast (?r + 1) :: u32) = unat ?r + 1"
    using r assms(2) by (simp add: unsigned_ucast_eq take_bit_nat_eq_self)
  moreover have "?n \<noteq> 0" using assms(1) n by (metis less_irrefl unat_0)
  ultimately show ?thesis
    using r by (simp add: get_partition_for_key_def Let_def)
qed

lemma shards_of_created:
  assumes "create_shards_for_partition p = Inr p'" "dp_shards p = []"
  shows "map ds_node_id (dp_shards p') = dp_assigned_nodes p" and "map ds_is_primary (dp_shards p')
      = True # replicate (length (dp_assigned_nodes p) - 1) False" and "dp_assigned_nodes p' = dp_assigned_nodes p"
proof -
  have ne: "dp_assigned_nodes p \<noteq> []" and p': "p' = p\<lparr>dp_shards := map (\<lambda>(i, node_id).
      data_shard_new (dp_partition_id p * 1000 + of_nat i) node_id (i = 0)) (enumerate 0 (dp_assigned_nodes p))\<rparr>"
    using assms by (auto simp: create_shards_for_partition_def split: if_split_asm)
  show "map ds_node_id (dp_shards p') = dp_assigned_nodes p"
    by (simp add: p' data_shard_new_def comp_def case_prod_beta)
  show "dp_assigned_nodes p' = dp_assigned_nodes p" by (simp add: p')
  have "map (\<lambda>x. fst x = (0 :: nat)) (enumerate 0 xs) = True # replicate (length xs - 1) False" if "xs \<noteq> []" for xs :: "'x list"
    using that by (intro nth_equalityI) (auto simp: nth_enumerate_eq nth_Cons split: nat.split)
  from this [OF ne] show "map ds_is_primary (dp_shards p')
      = True # replicate (length (dp_assigned_nodes p) - 1) False"
    by (simp add: p' data_shard_new_def comp_def case_prod_beta)
qed

section \<open>Properties\<close>

lemma create_partition_first:
  assumes "create_partition now_ms c strategy min_key max_key partition_manager_new = (Inr pid, m)"
  shows "\<exists>p. pn_partitions m = [(pid, p)] \<and> pid = generate_partition_id now_ms
    \<and> dp_assigned_nodes p = map cn_node_id (get_data_nodes c) \<and> get_data_nodes c \<noteq> []
    \<and> dp_shards p = map (\<lambda>(i, node_id). data_shard_new (pid * 1000 + of_nat i) node_id (i = 0))
          (enumerate 0 (map cn_node_id (get_data_nodes c)))"
  using assms
  by (auto simp: create_partition_def assign_nodes_to_partition_def create_shards_for_partition_def
      partition_manager_new_def data_partition_new_def Let_def split: if_split_asm)

lemma generated_id_is_one_iff: "generate_partition_id now_ms = 1 \<longleftrightarrow> now_ms mod 65536 = 0"
proof -
  have "unat (of_nat now_ms mod of_nat MAX_PARTITIONS :: u32) = now_ms mod 2 ^ 32 mod 65536"
    by (simp add: unat_mod_distrib MAX_PARTITIONS_def unat_of_nat)
  also have "\<dots> = now_ms mod 65536" by (rule mod_mod_cancel) simp
  finally have *: "unat (of_nat now_ms mod of_nat MAX_PARTITIONS :: u32) = now_ms mod 65536" .
  then show ?thesis
    by (metis generate_partition_id_def add_cancel_right_left unat_eq_zero)
qed

text \<open>What a key is routed to when a new manager has created its first partition. The key is always
  routed to partition 1, but the partition got an id made from the clock in milliseconds: unless
  that is a multiple of 65536, no key finds a node or a shard. If it is one, every key finds the
  first data node of the cluster and the primary shard on it.\<close>

lemma first_partition_routing:
  assumes "create_partition now_ms c strategy min_key max_key partition_manager_new = (Inr pid, m)"
  shows "get_partition_for_key crc key m = Some 1
    \<and> get_shard_for_key crc key m = (if now_ms mod 65536 = 0
        then Some (data_shard_new 1000 (cn_node_id (hd (get_data_nodes c))) True) else None)
    \<and> get_node_for_key crc c' key m = (if now_ms mod 65536 = 0
        then get_node (cn_node_id (hd (get_data_nodes c))) c' else None)"
proof -
  from create_partition_first [OF assms] obtain p where m: "pn_partitions m = [(pid, p)]"
    and pid: "pid = generate_partition_id now_ms" and nodes: "dp_assigned_nodes p = map cn_node_id (get_data_nodes c)"
    "get_data_nodes c \<noteq> []" and shards: "dp_shards p = map (\<lambda>(i, node_id).
        data_shard_new (pid * 1000 + of_nat i) node_id (i = 0)) (enumerate 0 (map cn_node_id (get_data_nodes c)))"
    by blast
  obtain n ns where ns: "get_data_nodes c = n # ns" using nodes(2) by (cases "get_data_nodes c") auto
  have one: "get_partition_for_key crc key m = Some 1"
    by (simp add: get_partition_for_key_def m)
  have "pid = 1 \<longleftrightarrow> now_ms mod 65536 = 0" using generated_id_is_one_iff pid by simp
  then show ?thesis
    using one by (auto simp: get_shard_for_key_def get_node_for_key_def m shards nodes(1) ns)
qed

lemma first_partition_routing_example:
  "\<exists>pid m. create_partition 1700000000000 demo_cluster HashStrategy None None partition_manager_new = (Inr pid, m)
    \<and> get_shard_for_key (\<lambda>_. 7) (RString ''test_key'') m = None"
proof -
  have "get_data_nodes demo_cluster \<noteq> []" by (rule demo_cluster_data_nodes)
  then obtain pid m where created:
    "create_partition 1700000000000 demo_cluster HashStrategy None None partition_manager_new = (Inr pid, m)"
    by (simp add: create_partition_def assign_nodes_to_partition_def create_shards_for_partition_def
        data_partition_new_def Let_def)
  then show ?thesis using first_partition_routing [OF created, of "\<lambda>_. 7" "RString ''test_key''"] by auto
qed

text \<open>\<open>create_partition\<close> on a cluster without data nodes is an error that changes nothing. Otherwise
  the new partition, under the id it returns, is assigned to all data nodes, has one shard on each
  of them, in their order, of which exactly the first is the primary, and the statistics count the
  partition and its shards.\<close>

lemma create_partition_spec:
  "(get_data_nodes c = [] \<longrightarrow> create_partition now_ms c strategy min_key max_key m
      = (Inl (DoldaPartition ''No data nodes available''), m))
   \<and> (get_data_nodes c \<noteq> [] \<longrightarrow> (\<exists>p m'. create_partition now_ms c strategy min_key max_key m
          = (Inr (generate_partition_id now_ms), m')
        \<and> map_of (pn_partitions m') = (map_of (pn_partitions m))(generate_partition_id now_ms \<mapsto> p)
        \<and> dp_assigned_nodes p = map cn_node_id (get_data_nodes c)
        \<and> map ds_node_id (dp_shards p) = map cn_node_id (get_data_nodes c)
        \<and> map ds_is_primary (dp_shards p) = True # replicate (length (get_data_nodes c) - 1) False
        \<and> pt_total_partitions (pn_stats m') = pt_total_partitions (pn_stats m) + 1
        \<and> pt_total_shards (pn_stats m') = pt_total_shards (pn_stats m) + of_nat (length (get_data_nodes c))))"
proof (cases "get_data_nodes c = []")
  case True
  then show ?thesis by (simp add: create_partition_def assign_nodes_to_partition_def Let_def)
next
  case False
  let ?p = "(data_partition_new (of_nat (now_ms div 1000)) (generate_partition_id now_ms) strategy min_key max_key)
    \<lparr>dp_assigned_nodes := map cn_node_id (get_data_nodes c)\<rparr>"
  obtain p where p: "create_shards_for_partition ?p = Inr p"
    using False by (simp add: create_shards_for_partition_def)
  note shards = shards_of_created [OF p]
  have empty: "dp_shards ?p = []" by (simp add: data_partition_new_def)
  have len: "length (dp_shards p) = length (get_data_nodes c)"
    using arg_cong [OF shards(1) [OF empty], of length] by simp
  have "create_partition now_ms c strategy min_key max_key m = (Inr (generate_partition_id now_ms),
      m\<lparr>pn_partitions := hash_insert (generate_partition_id now_ms) p (pn_partitions m),
        pn_stats := (pn_stats m)\<lparr>pt_total_partitions := pt_total_partitions (pn_stats m) + 1,
          pt_total_shards := pt_total_shards (pn_stats m) + of_nat (length (dp_shards p))\<rparr>\<rparr>)"
    using False p by (simp add: create_partition_def assign_nodes_to_partition_def Let_def)
  with False shards [OF empty] len show ?thesis by (auto intro!: exI [of _ p])
qed

lemma create_partition_spec_example:
  "\<exists>m. create_partition 1700000000000 demo_cluster HashStrategy None None partition_manager_new
      = (Inr (generate_partition_id 1700000000000), m)
    \<and> pt_total_partitions (pn_stats m) = 1"
proof -
  have "get_data_nodes demo_cluster \<noteq> []" by (rule demo_cluster_data_nodes)
  then show ?thesis
    using create_partition_spec [of demo_cluster 1700000000000 HashStrategy None None partition_manager_new]
    by (auto simp: partition_manager_new_def)
qed

end
