(* ===== verification/Filesystem.thy ===== *)
theory Filesystem
  imports Cluster
begin

text \<open>
  The logical filesystem, \<open>src/filesystem.rs\<close>: a table of files, each with the places of its
  blocks on the data nodes of the cluster. File contents are not kept by the code: reading yields
  zeros. \<open>now\<close> is the clock in seconds, \<open>uuid\<close> the physical name that the crate \<open>uuid\<close>
  generates.
\<close>

section \<open>Data\<close>

record distributed_file =
  df_logical_path :: string
  df_physical_name :: string
  df_attrs :: file_attrs
  df_blocks :: "block_location list"
  df_replica_nodes :: "u32 list"
  df_primary_node :: u32

definition distributed_file_new :: "string \<Rightarrow> u64 \<Rightarrow> string \<Rightarrow> file_type \<Rightarrow> u32 \<Rightarrow> distributed_file" where
  "distributed_file_new uuid now logical_path ftype replica_count =
     \<lparr>df_logical_path = logical_path, df_physical_name = uuid,
      df_attrs = \<lparr>fa_size = 0, fa_created_time = now, fa_modified_time = now, fa_permissions = 420,
        fa_file_type = ftype, fa_replica_count = replica_count\<rparr>,
      df_blocks = [], df_replica_nodes = [], df_primary_node = 0\<rparr>"

record dir_entry =
  de_name :: string
  de_is_directory :: bool
  de_attrs :: file_attrs

record logical_directory =
  ld_path :: string
  ld_entries :: "(string \<times> dir_entry) list"
  ld_primary_node :: u32
  ld_replica_nodes :: "u32 list"

record filesystem_stats =
  fst_total_files :: u64
  fst_total_size :: u64
  fst_total_blocks :: u64

record file_system =
  fs_root_dir :: logical_directory
  fs_file_table :: "(string \<times> distributed_file) list"
  fs_metadata_node :: "cnode option"
  fs_stats :: filesystem_stats

definition file_system_new :: "cnode option \<Rightarrow> file_system" where
  "file_system_new metadata_node =
     \<lparr>fs_root_dir = \<lparr>ld_path = ''/'', ld_entries = [],
        ld_primary_node = (case metadata_node of Some n \<Rightarrow> cn_node_id n | None \<Rightarrow> 0), ld_replica_nodes = []\<rparr>,
      fs_file_table = [], fs_metadata_node = metadata_node,
      fs_stats = \<lparr>fst_total_files = 0, fst_total_size = 0, fst_total_blocks = 0\<rparr>\<rparr>"

section \<open>Blocks\<close>

text \<open>The pushes of the loop of \<open>allocate_blocks\<close>, block \<open>start_block + i\<close> for each \<open>i\<close>.\<close>

definition block_at :: "cnode list \<Rightarrow> nat \<Rightarrow> block_location" where
  "block_at data_nodes b = block_location_new (cn_node_id (data_nodes ! (b mod length data_nodes)))
     (of_nat b * of_nat BLOCK_SIZE) (of_nat BLOCK_SIZE)"

definition allocate_blocks ::
    "node_cluster \<Rightarrow> distributed_file \<Rightarrow> nat \<Rightarrow> file_system
      \<Rightarrow> (dolda_error + distributed_file) \<times> file_system" where
  "allocate_blocks c file additional_blocks fs =
     (let data_nodes = get_data_nodes c in
      if data_nodes = [] then (Inl (DoldaFilesystem ''No data nodes available''), fs)
      else let start_block = length (df_blocks file);
               s = fs_stats fs
           in (Inr (file\<lparr>df_blocks := df_blocks file
                  @ map (\<lambda>i. block_at data_nodes (start_block + i)) [0..<additional_blocks]\<rparr>),
               fs\<lparr>fs_stats := s\<lparr>fst_total_blocks := fst_total_blocks s + of_nat additional_blocks\<rparr>\<rparr>))"

text \<open>\<open>free_blocks\<close> does nothing.\<close>

definition free_blocks :: "distributed_file \<Rightarrow> dolda_error + unit" where
  "free_blocks file = Inr ()"

section \<open>Files\<close>

definition create_file ::
    "node_cluster \<Rightarrow> string \<Rightarrow> u64 \<Rightarrow> string \<Rightarrow> file_type \<Rightarrow> u32 \<Rightarrow> file_system
      \<Rightarrow> (dolda_error + distributed_file) \<times> file_system" where
  "create_file c uuid now logical_path ftype replica_count fs =
     (if map_of (fs_file_table fs) logical_path \<noteq> None
      then (Inl (DoldaFilesystem (''File '' @ logical_path @ '' already exists'')), fs)
      else let file = distributed_file_new uuid now logical_path ftype replica_count;
               file' = (case select_data_node 0 c of
                   Some n \<Rightarrow> file\<lparr>df_primary_node := cn_node_id n\<rparr> | None \<Rightarrow> file)
           in case allocate_blocks c file' 0 fs of
                (Inl e, fs') \<Rightarrow> (Inl e, fs')
              | (Inr f, fs') \<Rightarrow>
                  let s = fs_stats fs'
                  in (Inr f, fs'\<lparr>fs_file_table := hash_insert logical_path f (fs_file_table fs'),
                        fs_stats := s\<lparr>fst_total_files := fst_total_files s + 1\<rparr>\<rparr>))"

definition open_file :: "string \<Rightarrow> file_system \<Rightarrow> dolda_error + distributed_file" where
  "open_file logical_path fs =
     (case map_of (fs_file_table fs) logical_path of
        Some f \<Rightarrow> Inr f
      | None \<Rightarrow> Inl (DoldaFilesystem (''File '' @ logical_path @ '' not found'')))"

definition delete_file :: "string \<Rightarrow> file_system \<Rightarrow> (dolda_error + unit) \<times> file_system" where
  "delete_file logical_path fs =
     (case map_of (fs_file_table fs) logical_path of
        None \<Rightarrow> (Inr (), fs)
      | Some file \<Rightarrow>
          let fs1 = fs\<lparr>fs_file_table := hash_remove logical_path (fs_file_table fs)\<rparr> in
          case free_blocks file of
            Inl e \<Rightarrow> (Inl e, fs1)
          | Inr _ \<Rightarrow>
              let s = fs_stats fs1
              in (Inr (), fs1\<lparr>fs_stats := s\<lparr>fst_total_files := saturating_sub (fst_total_files s) 1,
                    fst_total_size := saturating_sub (fst_total_size s) (fa_size (df_attrs file)),
                    fst_total_blocks := saturating_sub (fst_total_blocks s) (of_nat (length (df_blocks file)))\<rparr>\<rparr>))"

definition read_file :: "distributed_file \<Rightarrow> u64 \<Rightarrow> nat \<Rightarrow> dolda_error + bytes" where
  "read_file file offset rsize =
     (if offset \<ge> fa_size (df_attrs file) then Inr []
      else let available = unat (fa_size (df_attrs file) - offset)
           in Inr (replicate (min rsize available) 0))"

text \<open>\<open>write_file\<close> changes the file it is given, a copy of the caller's, and the statistics. Its sums
  are those of a release build, which wrap around.\<close>

definition write_file ::
    "node_cluster \<Rightarrow> u64 \<Rightarrow> distributed_file \<Rightarrow> u64 \<Rightarrow> bytes \<Rightarrow> file_system
      \<Rightarrow> (dolda_error + nat) \<times> distributed_file \<times> file_system" where
  "write_file c now file offset data fs =
     (let new_size = offset + of_nat (length data);
          needed_blocks = unat ((new_size + of_nat BLOCK_SIZE - 1) div of_nat BLOCK_SIZE);
          (res, fs1) = (if needed_blocks > length (df_blocks file)
                        then allocate_blocks c file (needed_blocks - length (df_blocks file)) fs
                        else (Inr file, fs))
      in case res of
           Inl e \<Rightarrow> (Inl e, file, fs1)
         | Inr f \<Rightarrow>
             let attrs = df_attrs f;
                 attrs1 = (if new_size > fa_size attrs then attrs\<lparr>fa_size := new_size\<rparr> else attrs);
                 f' = f\<lparr>df_attrs := attrs1\<lparr>fa_modified_time := now\<rparr>\<rparr>;
                 s = fs_stats fs1
             in (Inr (length data), f',
                 fs1\<lparr>fs_stats := s\<lparr>fst_total_size := max (fst_total_size s) (fa_size (df_attrs f'))\<rparr>\<rparr>))"

definition sync_file :: "distributed_file \<Rightarrow> dolda_error + unit" where
  "sync_file file = Inr ()"

definition starts_with :: "string \<Rightarrow> string \<Rightarrow> bool" where
  "starts_with pre s \<longleftrightarrow> take (length pre) s = pre"

definition list_directory :: "string \<Rightarrow> file_system \<Rightarrow> dolda_error + dir_entry list" where
  "list_directory path fs =
     (if path = ''/''
      then Inr (map (\<lambda>(k, f). \<lparr>de_name = k, de_is_directory = False, de_attrs = df_attrs f\<rparr>)
             (filter (\<lambda>(k, _). starts_with ''/data/'' k \<or> starts_with ''/index/'' k \<or> starts_with ''/logs/'' k)
               (fs_file_table fs)))
      else Inr [])"

section \<open>The layout of files\<close>

text \<open>A file is laid out over the nodes when block \<open>b\<close> covers the bytes from \<open>b * 4096\<close> and lies on
  the \<open>b\<close>-th data node, counting round and round, and there are blocks for the whole size.\<close>

definition laid_out :: "cnode list \<Rightarrow> distributed_file \<Rightarrow> bool" where
  "laid_out data_nodes file \<longleftrightarrow>
     df_blocks file = map (block_at data_nodes) [0..<length (df_blocks file)]
     \<and> unat (fa_size (df_attrs file)) \<le> BLOCK_SIZE * length (df_blocks file)"

lemma blocks_for:
  assumes "unat sz + BLOCK_SIZE \<le> 2 ^ 64"
  shows "unat ((sz + of_nat BLOCK_SIZE - 1) div of_nat BLOCK_SIZE :: u64) = (unat sz + BLOCK_SIZE - 1) div BLOCK_SIZE"
proof -
  have "sz + of_nat BLOCK_SIZE - 1 = sz + of_nat (BLOCK_SIZE - 1)" by (simp add: BLOCK_SIZE_def)
  moreover have "unat (sz + of_nat (BLOCK_SIZE - 1)) = unat sz + (BLOCK_SIZE - 1)"
    using assms by (intro unat_add_of_nat64) (simp add: BLOCK_SIZE_def)
  moreover have "unat (of_nat BLOCK_SIZE :: u64) = BLOCK_SIZE" by (simp add: BLOCK_SIZE_def)
  ultimately show ?thesis
    by (simp add: unat_div_distrib) (simp add: BLOCK_SIZE_def add.commute)
qed

lemma allocate_layout:
  assumes "laid_out (get_data_nodes c) file" "get_data_nodes c \<noteq> []"
  shows "\<exists>f fs'. allocate_blocks c file k fs = (Inr f, fs') \<and> df_attrs f = df_attrs file
    \<and> df_blocks f = map (block_at (get_data_nodes c)) [0..<length (df_blocks file) + k]
    \<and> fs_file_table fs' = fs_file_table fs \<and> fst_total_size (fs_stats fs') = fst_total_size (fs_stats fs)"
proof -
  let ?n = "length (df_blocks file)" and ?b = "block_at (get_data_nodes c)"
  have "map ?b [0..<?n + k] = map ?b [0..<?n] @ map (\<lambda>i. ?b (?n + i)) [0..<k]"
    by (rule nth_equalityI) (auto simp: nth_append)
  then have "df_blocks file @ map (\<lambda>i. ?b (?n + i)) [0..<k] = map ?b [0..<?n + k]"
    using assms(1) by (simp only: laid_out_def)
  with assms(2) show ?thesis by (simp add: allocate_blocks_def Let_def)
qed

lemma missing_blocks_allocated:
  assumes "laid_out (get_data_nodes c) file" "get_data_nodes c \<noteq> []"
  shows "\<exists>f fs1. (if needed > length (df_blocks file)
        then allocate_blocks c file (needed - length (df_blocks file)) fs else (Inr file, fs)) = (Inr f, fs1)
    \<and> df_attrs f = df_attrs file
    \<and> df_blocks f = map (block_at (get_data_nodes c)) [0..<max (length (df_blocks file)) needed]
    \<and> fs_file_table fs1 = fs_file_table fs"
proof (cases "needed > length (df_blocks file)")
  case True
  with allocate_layout [OF assms, of "needed - length (df_blocks file)" fs] show ?thesis
    by (auto simp: max_def)
next
  case False
  moreover from this have "df_blocks file = map (block_at (get_data_nodes c)) [0..<max (length (df_blocks file)) needed]"
    using assms(1) by (simp add: laid_out_def max_def)
  ultimately show ?thesis by simp
qed

section \<open>Properties\<close>

text \<open>Writing keeps a file laid out. A write of \<open>data\<close> at \<open>offset\<close> to a file whose blocks go round the
  data nodes succeeds, returns the number of bytes, extends the size exactly to the end of the
  written range if that lies behind the old end, allocates exactly the missing blocks, so that
  block \<open>b\<close> covers the bytes from \<open>b * 4096\<close> on the \<open>b\<close>-th node counting round, and keeps the old ones.\<close>

lemma write_keeps_layout:
  assumes "laid_out (get_data_nodes c) file" "get_data_nodes c \<noteq> []"
    and "unat offset + length data + BLOCK_SIZE \<le> 2 ^ 64"
  shows "\<exists>f fs'. write_file c now file offset data fs = (Inr (length data), f, fs')
    \<and> laid_out (get_data_nodes c) f
    \<and> length (df_blocks f) = max (length (df_blocks file)) ((unat offset + length data + BLOCK_SIZE - 1) div BLOCK_SIZE)
    \<and> take (length (df_blocks file)) (df_blocks f) = df_blocks file
    \<and> unat (fa_size (df_attrs f)) = max (unat (fa_size (df_attrs file))) (unat offset + length data)
    \<and> fa_size (df_attrs f) \<le> fst_total_size (fs_stats fs') \<and> fs_file_table fs' = fs_file_table fs"
proof -
  let ?upto = "offset + of_nat (length data)" and ?k = "length (df_blocks file)"
  let ?needed = "(unat offset + length data + BLOCK_SIZE - 1) div BLOCK_SIZE"
  have e: "unat ?upto = unat offset + length data"
    using assms(3) by (intro unat_add_of_nat64) (simp add: BLOCK_SIZE_def)
  have needed: "unat ((?upto + of_nat BLOCK_SIZE - 1) div of_nat BLOCK_SIZE :: u64) = ?needed"
    using blocks_for [of ?upto] e assms(3) by simp
  have enough: "unat offset + length data \<le> BLOCK_SIZE * ?needed"
    by (simp add: BLOCK_SIZE_def)
  obtain f fs1 where res: "(if ?needed > ?k then allocate_blocks c file (?needed - ?k) fs else (Inr file, fs)) = (Inr f, fs1)"
    and f: "df_attrs f = df_attrs file" "df_blocks f = map (block_at (get_data_nodes c)) [0..<max ?k ?needed]"
    "fs_file_table fs1 = fs_file_table fs"
    using missing_blocks_allocated [OF assms(1,2)] by blast
  have le: "unat (fa_size (df_attrs file)) \<le> BLOCK_SIZE * max ?k ?needed"
  proof -
    have "BLOCK_SIZE * ?k \<le> BLOCK_SIZE * max ?k ?needed" by (rule mult_le_mono2) simp
    with assms(1) show ?thesis unfolding laid_out_def by linarith
  qed
  have le': "unat offset + length data \<le> BLOCK_SIZE * max ?k ?needed"
    using enough mult_le_mono2 [of ?needed "max ?k ?needed" BLOCK_SIZE] by linarith
  define sz where "sz = (if ?upto > fa_size (df_attrs file) then ?upto else fa_size (df_attrs file))"
  have sz: "unat sz = max (unat (fa_size (df_attrs file))) (unat offset + length data)"
    by (simp add: sz_def e word_less_nat_alt max_def)
  let ?f' = "f\<lparr>df_attrs := (df_attrs file)\<lparr>fa_size := sz, fa_modified_time := now\<rparr>\<rparr>"
  have w: "write_file c now file offset data fs = (Inr (length data), ?f',
      fs1\<lparr>fs_stats := (fs_stats fs1)\<lparr>fst_total_size := max (fst_total_size (fs_stats fs1)) sz\<rparr>\<rparr>)"
    unfolding write_file_def Let_def needed res using f(1) by (simp add: sz_def)
  have "take ?k (df_blocks f) = df_blocks file"
    using assms(1) by (simp add: f(2) laid_out_def take_map max_def)
  moreover have "laid_out (get_data_nodes c) ?f'"
    using le le' by (simp add: laid_out_def f(2) sz)
  ultimately show ?thesis using w f sz by simp
qed

lemma created_file_laid_out:
  assumes "get_data_nodes c \<noteq> []" "map_of (fs_file_table fs) path = None"
  shows "\<exists>f fs'. create_file c uuid now path ftype replicas fs = (Inr f, fs') \<and> laid_out (get_data_nodes c) f
    \<and> df_blocks f = [] \<and> fa_size (df_attrs f) = 0 \<and> open_file path fs' = Inr f"
proof -
  let ?file = "distributed_file_new uuid now path ftype replicas"
  define f0 where "f0 = (case select_data_node 0 c of Some n \<Rightarrow> ?file\<lparr>df_primary_node := cn_node_id n\<rparr> | None \<Rightarrow> ?file)"
  have f0: "df_blocks f0 = []" "fa_size (df_attrs f0) = 0"
    by (simp_all add: f0_def distributed_file_new_def split: option.split)
  then have "laid_out (get_data_nodes c) f0" by (simp add: laid_out_def)
  with f0 assms show ?thesis
    by (simp add: create_file_def Let_def f0_def [symmetric] allocate_blocks_def open_file_def)
qed

lemma write_keeps_layout_example:
  "\<exists>f f' fs fs'. create_file demo_cluster ''4711'' 9 ''/data/x'' DataFile 3 (file_system_new None) = (Inr f, fs)
    \<and> write_file demo_cluster 10 f 5000 [1, 2, 3] fs = (Inr 3, f', fs')
    \<and> length (df_blocks f') = 2 \<and> unat (fa_size (df_attrs f')) = 5003"
proof -
  have nodes: "get_data_nodes demo_cluster \<noteq> []" by (rule demo_cluster_data_nodes)
  obtain f fs where f: "create_file demo_cluster ''4711'' 9 ''/data/x'' DataFile 3 (file_system_new None) = (Inr f, fs)"
    "laid_out (get_data_nodes demo_cluster) f" "df_blocks f = []" "fa_size (df_attrs f) = 0"
    using created_file_laid_out [OF nodes, of "file_system_new None" "''/data/x''" "''4711''" 9 DataFile 3]
    by (auto simp: file_system_new_def)
  from write_keeps_layout [OF f(2) nodes, of 5000 "[1, 2, 3]" 10 fs] f show ?thesis
    by (auto simp: BLOCK_SIZE_def)
qed

text \<open>The table of files behaves as a map from paths to files. Creating a file under a path that is in
  use is an error that changes nothing; otherwise, with a data node in the cluster, the file is
  created empty and is what opening the path returns. Deleting makes opening the path an error.
  No other path is affected.\<close>

lemma file_table_is_a_map:
  assumes "get_data_nodes c \<noteq> []"
  shows "(map_of (fs_file_table fs) path \<noteq> None \<longrightarrow> create_file c uuid now path ftype replicas fs
      = (Inl (DoldaFilesystem (''File '' @ path @ '' already exists'')), fs))
    \<and> (map_of (fs_file_table fs) path = None \<longrightarrow> (\<exists>f fs'. create_file c uuid now path ftype replicas fs = (Inr f, fs')
        \<and> open_file path fs' = Inr f \<and> df_blocks f = [] \<and> fa_size (df_attrs f) = 0
        \<and> (\<forall>p. p \<noteq> path \<longrightarrow> open_file p fs' = open_file p fs)))
    \<and> (\<exists>fs'. delete_file path fs = (Inr (), fs')
        \<and> open_file path fs' = Inl (DoldaFilesystem (''File '' @ path @ '' not found''))
        \<and> (\<forall>p. p \<noteq> path \<longrightarrow> open_file p fs' = open_file p fs))"
proof (intro conjI impI)
  show "create_file c uuid now path ftype replicas fs
      = (Inl (DoldaFilesystem (''File '' @ path @ '' already exists'')), fs)"
    if "map_of (fs_file_table fs) path \<noteq> None" using that by (simp add: create_file_def)
  show "\<exists>f fs'. create_file c uuid now path ftype replicas fs = (Inr f, fs')
      \<and> open_file path fs' = Inr f \<and> df_blocks f = [] \<and> fa_size (df_attrs f) = 0
      \<and> (\<forall>p. p \<noteq> path \<longrightarrow> open_file p fs' = open_file p fs)"
    if fresh: "map_of (fs_file_table fs) path = None"
  proof -
    obtain f fs' where f: "create_file c uuid now path ftype replicas fs = (Inr f, fs')"
      "df_blocks f = []" "fa_size (df_attrs f) = 0" "open_file path fs' = Inr f"
      using created_file_laid_out [OF assms fresh] by blast
    moreover have "fs_file_table fs' = hash_insert path f (fs_file_table fs)"
      using f(1) fresh assms by (auto simp: create_file_def allocate_blocks_def Let_def split: if_split_asm)
    ultimately show ?thesis by (auto simp: open_file_def)
  qed
  show "\<exists>fs'. delete_file path fs = (Inr (), fs')
      \<and> open_file path fs' = Inl (DoldaFilesystem (''File '' @ path @ '' not found''))
      \<and> (\<forall>p. p \<noteq> path \<longrightarrow> open_file p fs' = open_file p fs)"
    by (auto simp: delete_file_def free_blocks_def open_file_def Let_def split: option.split)
qed

lemma file_table_is_a_map_example:
  "\<exists>f fs. create_file demo_cluster ''4711'' 9 ''/data/x'' DataFile 3 (file_system_new None) = (Inr f, fs)
    \<and> open_file ''/data/x'' fs = Inr f"
  using file_table_is_a_map [OF demo_cluster_data_nodes, of "file_system_new None" "''/data/x''" "''4711''" 9 DataFile 3]
  by (auto simp: file_system_new_def)

text \<open>A write is not visible in the table: what \<open>open_file\<close> returns is the file as it was created.\<close>

lemma write_not_in_table:
  "open_file path (snd (snd (write_file c now file offset data fs))) = open_file path fs"
  by (auto simp: write_file_def open_file_def allocate_blocks_def Let_def)

end
