(* ===== verification/Offers.thy ===== *)
theory Offers
  imports Dolda_Prelude
begin

text \<open>
  The abstract market: a list of offers, each a price (or whatever names the offer) with a quantity,
  in the order in which they are taken. The matching loops of both trading examples are shown to
  take from such a list.
\<close>

text \<open>Taking \<open>n\<close> units from a list of offers, from the front, as long as prices are acceptable: what is
  left, and what is taken.\<close>

fun left_over :: "('p \<Rightarrow> bool) \<Rightarrow> nat \<Rightarrow> ('p \<times> nat) list \<Rightarrow> ('p \<times> nat) list" where
  "left_over acceptable n [] = []"
| "left_over acceptable n ((p, q) # xs) =
     (if n = 0 \<or> \<not> acceptable p then (p, q) # xs
      else if q \<le> n then left_over acceptable (n - q) xs else (p, q - n) # xs)"

fun taken :: "('p \<Rightarrow> bool) \<Rightarrow> nat \<Rightarrow> ('p \<times> nat) list \<Rightarrow> ('p \<times> nat) list" where
  "taken acceptable n [] = []"
| "taken acceptable n ((p, q) # xs) =
     (if n = 0 \<or> \<not> acceptable p then [] else (p, min n q) # taken acceptable (n - min n q) xs)"

definition quantity :: "('p \<times> nat) list \<Rightarrow> nat" where
  "quantity xs = sum_list (map snd xs)"

lemma quantity_simps [simp]:
  "quantity [] = 0" "quantity (x # xs) = snd x + quantity xs" "quantity (xs @ ys) = quantity xs + quantity ys"
  by (simp_all add: quantity_def)

lemma nothing_taken [simp]: "taken acc 0 xs = []" "left_over acc 0 xs = xs"
  by (cases xs; auto)+

lemma taken_le: "quantity (taken acc n xs) \<le> n"
  by (induction acc n xs rule: taken.induct) auto

lemma taken_and_left: "quantity (taken acc n xs) + quantity (left_over acc n xs) = quantity xs"
  by (induction acc n xs rule: taken.induct) auto

lemma taken_append:
  "\<forall>x \<in> set xs. acc (fst x) \<Longrightarrow> taken acc n (xs @ ys) = taken acc n xs @ taken acc (n - quantity xs) ys"
  by (induction acc n xs rule: taken.induct) (auto simp: min_def)

lemma left_over_append:
  "\<forall>x \<in> set xs. acc (fst x) \<and> 0 < snd x \<Longrightarrow> left_over acc n (xs @ ys)
    = (if n < quantity xs then left_over acc n xs @ ys else left_over acc (n - quantity xs) ys)"
  by (induction acc n xs rule: left_over.induct) auto

lemma taken_all: "\<forall>x \<in> set xs. acc (fst x) \<Longrightarrow> quantity (taken acc n xs) = min n (quantity xs)"
  by (induction acc n xs rule: taken.induct) (auto simp: min_def)

lemma left_over_none: "\<forall>x \<in> set xs. \<not> acc (fst x) \<Longrightarrow> left_over acc n xs = xs \<and> taken acc n xs = []"
  by (cases xs) auto

lemma left_over_exhausted:
  "\<forall>x \<in> set xs. acc (fst x) \<and> 0 < snd x \<Longrightarrow> quantity xs \<le> n \<Longrightarrow> left_over acc n xs = []"
  using left_over_append [of xs acc n "[]"] by simp

lemma left_over_exceeded:
  assumes "\<forall>x \<in> set xs. 0 < snd x" "quantity (takeWhile (\<lambda>x. acc (fst x)) xs) < n"
  shows "left_over acc n xs = dropWhile (\<lambda>x. acc (fst x)) xs" "quantity (taken acc n xs) < n"
  using assms by (induction acc n xs rule: taken.induct) (auto simp: less_diff_conv add.commute)

lemma left_over_names: "\<exists>k. map fst (left_over acc n xs) = drop k (map fst xs)"
proof (induction acc n xs rule: left_over.induct)
  case (2 acc n p q xs)
  show ?case
  proof (cases "n = 0 \<or> \<not> acc p \<or> \<not> q \<le> n")
    case True
    then show ?thesis by (auto intro: exI [of _ 0])
  next
    case False
    with 2 obtain k where "map fst (left_over acc (n - q) xs) = drop k (map fst xs)" by auto
    with False show ?thesis by (auto intro!: exI [of _ "Suc k"])
  qed
qed simp

end
