(* ===== verification/Matching_Engine.thy ===== *)
theory Matching_Engine
  imports Float64 Offers
begin

text \<open>
  The trading server of \<open>examples/hft_trading_server.rs\<close>: the generator of market data, the matching
  engine with its two books (the processors that connect them to mailboxes are in \<open>Trading_Server\<close>). A book maps a
  symbol to its price levels, in ascending order of cents, and a level to the orders that rest
  there, in order of arrival. The engine's locks are held for a whole operation.
\<close>

section \<open>Data\<close>

datatype exchange = NYSE | NASDAQ

record hft_quote =
  hq_symbol :: string
  hq_exchange :: exchange
  hq_bid_price :: f64
  hq_bid_size :: u32
  hq_ask_price :: f64
  hq_ask_size :: u32
  hq_timestamp :: u64

record hft_trade =
  ht_symbol :: string
  ht_exchange :: exchange
  ht_price :: f64
  ht_size :: u32
  ht_timestamp :: u64
  ht_trade_id :: u64

datatype hft_order_type = Market | Limit | IOC | FOK | Stop | StopLimit

datatype order_side = Buy | Sell

datatype order_status = New | PartiallyFilled | Filled | Cancelled | Rejected

record hft_order =
  ho_order_id :: u64
  ho_symbol :: string
  ho_side :: order_side
  ho_order_type :: hft_order_type
  ho_quantity :: u32
  ho_price :: "f64 option"
  ho_stop_price :: "f64 option"
  ho_filled_quantity :: u32
  ho_status :: order_status
  ho_timestamp :: u64
  ho_strategy_id :: string

record execution =
  ex_execution_id :: u64
  ex_order_id :: u64
  ex_symbol :: string
  ex_side :: order_side
  ex_price :: f64
  ex_quantity :: u32
  ex_timestamp :: u64

record risk_limits =
  rl_max_position_size :: u32
  rl_max_order_size :: u32
  rl_max_daily_loss :: f64
  rl_max_single_loss :: f64

section \<open>Market data\<close>

text \<open>The random numbers a quote or a trade draws, and the clock.\<close>

record market_draw =
  md_walk :: f64
  md_bid_size :: u32
  md_ask_size :: u32
  md_now :: u64

record market_data_generator =
  mg_symbols :: "string list"
  mg_exchanges :: "exchange list"
  mg_base_prices :: "(string \<times> f64) list"
  mg_trade_counter :: u64

definition market_data_generator_new :: market_data_generator where
  "market_data_generator_new =
     \<lparr>mg_symbols = [''AAPL'', ''GOOGL'', ''MSFT'', ''AMZN'', ''TSLA'', ''NVDA'', ''META'', ''JPM''],
      mg_exchanges = [NYSE, NASDAQ],
      mg_base_prices = [(''AAPL'', Fin 180), (''GOOGL'', Fin 140), (''MSFT'', Fin 380), (''AMZN'', Fin 170),
        (''TSLA'', Fin 240), (''NVDA'', Fin 500), (''META'', Fin 350), (''JPM'', Fin 160)],
      mg_trade_counter = 0\<rparr>"

definition base_price :: "market_data_generator \<Rightarrow> string \<Rightarrow> f64" where
  "base_price g symbol = (case map_of (mg_base_prices g) symbol of Some p \<Rightarrow> p | None \<Rightarrow> Fin 100)"

definition generate_quote :: "market_draw \<Rightarrow> string \<Rightarrow> exchange \<Rightarrow> market_data_generator \<Rightarrow> hft_quote" where
  "generate_quote draw symbol exchange g =
     (let mid_price = f64_mul (base_price g symbol) (f64_add (Fin 1) (md_walk draw));
          spread = f64_mul mid_price (f64_lit 1 10000)
      in \<lparr>hq_symbol = symbol, hq_exchange = exchange,
          hq_bid_price = f64_sub mid_price (f64_div spread (Fin 2)), hq_bid_size = md_bid_size draw,
          hq_ask_price = f64_add mid_price (f64_div spread (Fin 2)), hq_ask_size = md_ask_size draw,
          hq_timestamp = md_now draw\<rparr>)"

definition generate_trade ::
    "market_draw \<Rightarrow> string \<Rightarrow> exchange \<Rightarrow> market_data_generator \<Rightarrow> hft_trade \<times> market_data_generator" where
  "generate_trade draw symbol exchange g =
     (let trade_id = mg_trade_counter g + 1
      in (\<lparr>ht_symbol = symbol, ht_exchange = exchange,
           ht_price = f64_mul (base_price g symbol) (f64_add (Fin 1) (md_walk draw)),
           ht_size = md_bid_size draw, ht_timestamp = md_now draw, ht_trade_id = trade_id\<rparr>,
          g\<lparr>mg_trade_counter := trade_id\<rparr>))"

section \<open>The engine\<close>

type_synonym levels = "(u64 \<times> hft_order list) list"
type_synonym book = "(string \<times> levels) list"

record matching_engine =
  me_buy_book :: book
  me_sell_book :: book
  me_order_counter :: u64
  me_execution_counter :: u64
  me_current_prices :: "(string \<times> f64) list"

definition matching_engine_new :: matching_engine where
  "matching_engine_new = \<lparr>me_buy_book = [], me_sell_book = [], me_order_counter = 0,
     me_execution_counter = 0, me_current_prices = []\<rparr>"

definition price_to_cents :: "f64 \<Rightarrow> u64" where
  "price_to_cents price = f64_as_u64 (f64_to_integer (f64_mul price (Fin 100)))"

definition cents_to_price :: "u64 \<Rightarrow> f64" where
  "cents_to_price cents = f64_div (f64_of_int (uint cents)) (Fin 100)"

definition get_order_id :: "matching_engine \<Rightarrow> u64 \<times> matching_engine" where
  "get_order_id en =
     (let counter = me_order_counter en + 1 in (counter, en\<lparr>me_order_counter := counter\<rparr>))"

definition get_execution_id :: "u64 \<Rightarrow> u64 \<times> u64" where
  "get_execution_id counter = (counter + 1, counter + 1)"

definition update_market_price :: "string \<Rightarrow> f64 \<Rightarrow> matching_engine \<Rightarrow> matching_engine" where
  "update_market_price symbol price en =
     en\<lparr>me_current_prices := hash_insert symbol price (me_current_prices en)\<rparr>"

definition get_market_price :: "string \<Rightarrow> matching_engine \<Rightarrow> f64 option" where
  "get_market_price symbol en = map_of (me_current_prices en) symbol"

text \<open>
  The loop over the orders of one level. It returns the incoming order, what remains of its
  quantity, the counter of executions, the level, and the executions. \<open>clk i\<close> is the time at which
  the execution with id \<open>i\<close> is made.
\<close>

fun match_level ::
    "(u64 \<Rightarrow> u64) \<Rightarrow> u64 \<Rightarrow> hft_order \<Rightarrow> u32 \<Rightarrow> u64 \<Rightarrow> hft_order list
      \<Rightarrow> hft_order \<times> u32 \<times> u64 \<times> hft_order list \<times> execution list" where
  "match_level clk price_level order remaining counter [] = (order, remaining, counter, [], [])"
| "match_level clk price_level order remaining counter (resting # orders) =
     (if remaining = 0 then (order, remaining, counter, resting # orders, [])
      else let available = ho_quantity resting - ho_filled_quantity resting;
               fill = min remaining available;
               (execution_id, counter1) = get_execution_id counter;
               execution = \<lparr>ex_execution_id = execution_id, ex_order_id = ho_order_id order,
                 ex_symbol = ho_symbol order, ex_side = ho_side order, ex_price = cents_to_price price_level,
                 ex_quantity = fill, ex_timestamp = clk execution_id\<rparr>;
               order1 = order\<lparr>ho_filled_quantity := ho_filled_quantity order + fill\<rparr>;
               resting1 = resting\<lparr>ho_filled_quantity := ho_filled_quantity resting + fill\<rparr>;
               (order2, remaining2, counter2, orders2, executions) =
                 match_level clk price_level order1 (remaining - fill) counter1 orders
           in (order2, remaining2, counter2,
               if ho_filled_quantity resting1 = ho_quantity resting1 then orders2
               else resting1\<lparr>ho_status := PartiallyFilled\<rparr> # orders2,
               execution # executions))"

text \<open>The loop over the levels of the opposite book.\<close>

fun match_levels ::
    "(u64 \<Rightarrow> bool) \<Rightarrow> (u64 \<Rightarrow> u64) \<Rightarrow> hft_order \<Rightarrow> u32 \<Rightarrow> u64 \<Rightarrow> levels
      \<Rightarrow> hft_order \<times> u32 \<times> u64 \<times> levels \<times> execution list" where
  "match_levels acceptable clk order remaining counter [] = (order, remaining, counter, [], [])"
| "match_levels acceptable clk order remaining counter ((price_level, orders) # levels) =
     (if \<not> acceptable price_level \<or> remaining = 0
      then (order, remaining, counter, (price_level, orders) # levels, [])
      else let (order1, remaining1, counter1, orders1, executions1) =
                 match_level clk price_level order remaining counter orders;
               (order2, remaining2, counter2, levels2, executions2) =
                 match_levels acceptable clk order1 remaining1 counter1 levels
           in (order2, remaining2, counter2, (price_level, orders1) # levels2, executions1 @ executions2))"

definition opposite_book :: "order_side \<Rightarrow> matching_engine \<Rightarrow> book" where
  "opposite_book side en = (case side of Buy \<Rightarrow> me_sell_book en | Sell \<Rightarrow> me_buy_book en)"

definition set_opposite_book :: "order_side \<Rightarrow> book \<Rightarrow> matching_engine \<Rightarrow> matching_engine" where
  "set_opposite_book side b en =
     (case side of Buy \<Rightarrow> en\<lparr>me_sell_book := b\<rparr> | Sell \<Rightarrow> en\<lparr>me_buy_book := b\<rparr>)"

definition own_book :: "order_side \<Rightarrow> matching_engine \<Rightarrow> book" where
  "own_book side en = (case side of Buy \<Rightarrow> me_buy_book en | Sell \<Rightarrow> me_sell_book en)"

definition set_own_book :: "order_side \<Rightarrow> book \<Rightarrow> matching_engine \<Rightarrow> matching_engine" where
  "set_own_book side b en =
     (case side of Buy \<Rightarrow> en\<lparr>me_buy_book := b\<rparr> | Sell \<Rightarrow> en\<lparr>me_sell_book := b\<rparr>)"

text \<open>Matching with the opposite book: the order, what remains, the executions and the engine.\<close>

definition match_opposite ::
    "(u64 \<Rightarrow> bool) \<Rightarrow> (u64 \<Rightarrow> u64) \<Rightarrow> hft_order \<Rightarrow> matching_engine
      \<Rightarrow> hft_order \<times> u32 \<times> execution list \<times> matching_engine" where
  "match_opposite acceptable clk order en =
     (let remaining = ho_quantity order - ho_filled_quantity order; b = opposite_book (ho_side order) en
      in case map_of b (ho_symbol order) of
           None \<Rightarrow> (order, remaining, [], en)
         | Some levels \<Rightarrow>
             let (order1, remaining1, counter1, levels1, executions) =
                   match_levels acceptable clk order remaining (me_execution_counter en) levels
             in (order1, remaining1, executions,
                 set_opposite_book (ho_side order) (hash_insert (ho_symbol order) levels1 b)
                   (en\<lparr>me_execution_counter := counter1\<rparr>)))"

definition fill_status :: "hft_order \<Rightarrow> hft_order" where
  "fill_status order =
     (if ho_filled_quantity order = ho_quantity order then order\<lparr>ho_status := Filled\<rparr>
      else if ho_filled_quantity order > 0 then order\<lparr>ho_status := PartiallyFilled\<rparr> else order)"

definition match_market_order ::
    "(u64 \<Rightarrow> u64) \<Rightarrow> hft_order \<Rightarrow> matching_engine \<Rightarrow> hft_order \<times> execution list \<times> matching_engine" where
  "match_market_order clk order en =
     (let (order1, remaining, executions, en1) = match_opposite (\<lambda>_. True) clk order en
      in (fill_status order1, executions, en1))"

definition acceptable_level :: "order_side \<Rightarrow> u64 \<Rightarrow> u64 \<Rightarrow> bool" where
  "acceptable_level side limit_cents price_level =
     (case side of Buy \<Rightarrow> price_level \<le> limit_cents | Sell \<Rightarrow> price_level \<ge> limit_cents)"

text \<open>\<open>entry(symbol).or_insert_with(..).entry(cents).or_insert_with(..).push(order)\<close>.\<close>

definition rest_in_level :: "u64 \<Rightarrow> hft_order \<Rightarrow> levels \<Rightarrow> levels" where
  "rest_in_level cents order levels =
     btree_insert cents ((case map_of levels cents of Some orders \<Rightarrow> orders | None \<Rightarrow> []) @ [order]) levels"

definition rest_order :: "u64 \<Rightarrow> hft_order \<Rightarrow> book \<Rightarrow> book" where
  "rest_order cents order b =
     hash_insert (ho_symbol order)
       (rest_in_level cents order (case map_of b (ho_symbol order) of Some levels \<Rightarrow> levels | None \<Rightarrow> [])) b"

definition match_limit_order ::
    "(u64 \<Rightarrow> u64) \<Rightarrow> hft_order \<Rightarrow> matching_engine \<Rightarrow> hft_order \<times> execution list \<times> matching_engine" where
  "match_limit_order clk order en =
     (case ho_price order of
        None \<Rightarrow> (order, [], en)
      | Some limit_price \<Rightarrow>
          let limit_cents = price_to_cents limit_price;
              (order1, remaining, executions, en1) =
                match_opposite (acceptable_level (ho_side order) limit_cents) clk order en;
              en2 = (if remaining > 0 \<and> ho_order_type order1 = Limit
                     then set_own_book (ho_side order1)
                       (rest_order limit_cents order1 (own_book (ho_side order1) en1)) en1
                     else en1)
          in (fill_status order1, executions, en2))"

definition stop_triggered :: "f64 \<Rightarrow> hft_order \<Rightarrow> bool" where
  "stop_triggered market_price order =
     (let stop_price = (case ho_stop_price order of Some p \<Rightarrow> p | None \<Rightarrow> Fin 0)
      in case ho_side order of Buy \<Rightarrow> f64_le stop_price market_price | Sell \<Rightarrow> f64_le market_price stop_price)"

text \<open>The conversion of a stop order; no value if it is not triggered.\<close>

definition convert_stop :: "matching_engine \<Rightarrow> hft_order \<Rightarrow> hft_order option" where
  "convert_stop en order =
     (if ho_order_type order = Stop \<or> ho_order_type order = StopLimit
      then (case get_market_price (ho_symbol order) en of
              None \<Rightarrow> Some order
            | Some market_price \<Rightarrow>
                if stop_triggered market_price order
                then Some (order\<lparr>ho_order_type := if ho_order_type order = Stop then Market else Limit\<rparr>)
                else None)
      else Some order)"

definition match_order ::
    "(u64 \<Rightarrow> u64) \<Rightarrow> hft_order \<Rightarrow> matching_engine \<Rightarrow> hft_order \<times> execution list \<times> matching_engine" where
  "match_order clk order0 en =
     (case convert_stop en order0 of
        None \<Rightarrow> (order0, [], en)
      | Some order \<Rightarrow>
          (case ho_order_type order of
             Market \<Rightarrow> match_market_order clk order en
           | Limit \<Rightarrow> match_limit_order clk order en
           | IOC \<Rightarrow>
               let (updated, executions, en1) = match_limit_order clk order en
               in (if ho_filled_quantity updated < ho_quantity order then updated\<lparr>ho_status := Cancelled\<rparr> else updated,
                   executions, en1)
           | FOK \<Rightarrow>
               let (updated, executions, en1) = match_limit_order clk order en
               in if ho_filled_quantity updated = ho_quantity order then (updated, executions, en1)
                  else (order\<lparr>ho_status := Cancelled\<rparr>, [], en1)
           | Stop \<Rightarrow> (order, [], en)
           | StopLimit \<Rightarrow> (order, [], en)))"

section \<open>Prices in cents\<close>

lemma round_away_near:
  assumes "\<bar>x - of_int n\<bar> < 1 / 2" "0 \<le> n"
  shows "round_away x = n"
proof (cases "x < 0")
  case True
  with assms have "n = 0" by (cases "n = 0") (auto simp: abs_if split: if_splits)
  with True assms have "\<lfloor>- x + 1 / 2\<rfloor> = 0" by (intro floor_unique) (auto simp: abs_if split: if_splits)
  with True \<open>n = 0\<close> show ?thesis by (simp add: round_away_def)
next
  case False
  from assms have "\<lfloor>x + 1 / 2\<rfloor> = n" by (intro floor_unique) (auto simp: abs_if split: if_splits)
  with False show ?thesis by (simp add: round_away_def)
qed

text \<open>Two roundings of a number of cents, of the quotient by 100 and of the product with 100.\<close>

lemma two_roundings:
  fixes c y z :: rat
  assumes "0 < c" "c \<le> 2 ^ 50" "\<bar>y - c / 100\<bar> \<le> c / 100 / 2 ^ 53" "\<bar>z - y * 100\<bar> \<le> \<bar>y * 100\<bar> / 2 ^ 53"
  shows "\<bar>z - c\<bar> < 1 / 2"
proof -
  define u :: rat where "u = 1 / 2 ^ 53"
  have u: "u = 1 / 9007199254740992" by (simp add: u_def)
  have "y * 100 - c = 100 * (y - c / 100)" by simp
  then have "\<bar>y * 100 - c\<bar> = 100 * \<bar>y - c / 100\<bar>" by (simp only: abs_mult)
  with assms(3) have y: "\<bar>y * 100 - c\<bar> \<le> c * u" by (simp add: u)
  have "c * u \<le> c" using assms(1) by (simp add: u)
  with y assms(1) have "\<bar>y * 100\<bar> \<le> 2 * c" unfolding abs_le_iff by linarith
  then have "\<bar>y * 100\<bar> / 2 ^ 53 \<le> 2 * (c * u)" by (simp add: u)
  with assms(4) y have "\<bar>z - c\<bar> \<le> 3 * (c * u)" unfolding abs_le_iff by linarith
  also have "\<dots> \<le> 3 * (2 ^ 50 * u)" using assms(2) by (intro mult_left_mono mult_right_mono) (simp_all add: u)
  also have "\<dots> < 1 / 2" by (simp add: u)
  finally show ?thesis .
qed

lemma uint_bound: "unat c \<le> 2 ^ k \<Longrightarrow> uint c \<le> 2 ^ k"
  by (metis of_nat_le_iff of_nat_numeral of_nat_power uint_nat)

lemma price_of_cents:
  assumes "0 < unat c" "unat c \<le> 2 ^ 50"
  shows "\<exists>y. cents_to_price c = Fin y \<and> \<bar>y - of_nat (unat c) / 100\<bar> \<le> of_nat (unat c) / 100 / 2 ^ 53"
proof -
  let ?c = "rat_of_nat (unat c)"
  have "rat_of_nat 1 \<le> ?c" "?c \<le> rat_of_nat (2 ^ 50)" using assms by (simp_all only: of_nat_le_iff)
  then have c: "1 \<le> ?c" "?c \<le> 2 ^ 50" by simp_all
  have "uint c < 2 ^ 53" using uint_bound [OF assms(2)] by simp
  then have "f64_of_int (uint c) = Fin ?c" using f64_of_int_exact [of "uint c"] by simp
  then have p: "cents_to_price c = f64_round (?c / 100)" by (simp add: cents_to_price_def)
  have "(1 :: rat) / 2 ^ 1022 \<le> 1 / 100" by simp
  then have low: "1 / 2 ^ 1022 \<le> \<bar>?c / 100\<bar>" using c(1) by linarith
  have "\<bar>?c / 100\<bar> < 2 ^ 50" using c by simp
  also have "\<dots> \<le> (2 :: rat) ^ 1023" by simp
  finally show ?thesis using f64_round_error [OF low] p c(1) by simp
qed

lemma as_u64_int: "0 \<le> n \<Longrightarrow> n < 2 ^ 64 \<Longrightarrow> f64_as_u64 (Fin (of_int n)) = of_int n"
  by (simp add: truncate_rat_def)

lemma cents_of_price:
  assumes "unat c \<le> 2 ^ 50"
  shows "price_to_cents (cents_to_price c) = c"
proof (cases "c = 0")
  case True
  then show ?thesis
    using f64_of_int_exact [of 0]
    by (simp add: price_to_cents_def cents_to_price_def f64_round_def round_away_def truncate_rat_def)
next
  case False
  let ?c = "rat_of_nat (unat c)"
  from False have pos: "0 < unat c" by (simp add: unat_gt_0)
  from price_of_cents [OF this assms] obtain y where
    y: "cents_to_price c = Fin y" "\<bar>y - ?c / 100\<bar> \<le> ?c / 100 / 2 ^ 53" by blast
  have "rat_of_nat 1 \<le> ?c" "?c \<le> rat_of_nat (2 ^ 50)" using pos assms by (simp_all only: of_nat_le_iff)
  then have c: "1 \<le> ?c" "?c \<le> 2 ^ 50" by simp_all
  have "?c / 100 / 2 ^ 53 \<le> ?c / 200" using c(1) by simp
  with y(2) c have range: "1 / 200 \<le> y" "y \<le> ?c" unfolding abs_le_iff by linarith+
  have "(1 :: rat) / 2 ^ 1022 \<le> 1 / 2" by simp
  with range have low: "1 / 2 ^ 1022 \<le> \<bar>y * 100\<bar>" by linarith
  have "\<bar>y * 100\<bar> \<le> 2 ^ 50 * 100" using range c by simp
  also have "\<dots> < (2 :: rat) ^ 1023" by simp
  finally obtain z where z: "f64_round (y * 100) = Fin z" "\<bar>z - y * 100\<bar> \<le> \<bar>y * 100\<bar> / 2 ^ 53"
    using f64_round_error [OF low] by blast
  have "\<bar>z - ?c\<bar> < 1 / 2" using two_roundings [OF _ c(2) y(2) z(2)] c(1) by simp
  then have r: "round_away z = uint c" using round_away_near [of z "uint c"] by simp
  have "price_to_cents (cents_to_price c) = f64_as_u64 (Fin (of_int (round_away z)))"
    using y(1) z(1) by (simp add: price_to_cents_def)
  also have "\<dots> = of_int (round_away z)"
    using uint_bound [OF assms] by (intro as_u64_int) (simp_all add: r)
  finally show ?thesis by (simp add: r)
qed

section \<open>An abstract book\<close>

text \<open>What a book offers for a symbol, in the order of the code's loops: price levels with the open
  quantities of their orders, and the flat list of prices and open quantities.\<close>

definition open_quantity :: "hft_order \<Rightarrow> nat" where
  "open_quantity order = unat (ho_quantity order) - unat (ho_filled_quantity order)"

definition offers_of :: "levels \<Rightarrow> (u64 \<times> nat) list" where
  "offers_of levels = concat (map (\<lambda>(p, orders). map (\<lambda>r. (p, open_quantity r)) orders) levels)"

definition offers :: "string \<Rightarrow> book \<Rightarrow> (u64 \<times> nat) list" where
  "offers symbol b = (case map_of b symbol of Some levels \<Rightarrow> offers_of levels | None \<Rightarrow> [])"

section \<open>The loops take from the front\<close>

text \<open>An order in a book: open, and for the book's symbol, side and level.\<close>

definition resting_ok :: "order_side \<Rightarrow> string \<Rightarrow> u64 \<Rightarrow> hft_order \<Rightarrow> bool" where
  "resting_ok side symbol cents r \<longleftrightarrow>
     ho_filled_quantity r < ho_quantity r \<and> ho_side r = side \<and> ho_symbol r = symbol \<and> ho_order_type r = Limit
     \<and> (\<exists>p. ho_price r = Some p \<and> price_to_cents p = cents)"

definition levels_ok :: "order_side \<Rightarrow> string \<Rightarrow> levels \<Rightarrow> bool" where
  "levels_ok side symbol levels \<longleftrightarrow>
     sorted (map fst levels) \<and> distinct (map fst levels)
     \<and> (\<forall>l \<in> set levels. \<forall>r \<in> set (snd l). resting_ok side symbol (fst l) r)"

definition book_ok :: "order_side \<Rightarrow> book \<Rightarrow> bool" where
  "book_ok side b \<longleftrightarrow> distinct (map fst b) \<and> (\<forall>s \<in> set b. levels_ok side (fst s) (snd s))"

definition engine_ok :: "matching_engine \<Rightarrow> bool" where
  "engine_ok en \<longleftrightarrow> book_ok Buy (me_buy_book en) \<and> book_ok Sell (me_sell_book en)"

lemma unat_less32: "unat (w :: u32) < 2 ^ 32"
  using unsigned_less [of w, where ?'a = nat] by simp

lemma unat_min: "unat (min a b) = min (unat a) (unat b)"
  by (simp add: min_def word_le_nat_alt)

lemma open_quantity_fill:
  fixes r :: hft_order and n :: u32
  assumes "ho_filled_quantity r < ho_quantity r"
  defines "f \<equiv> min n (ho_quantity r - ho_filled_quantity r)"
  shows "unat f = min (unat n) (open_quantity r)"
    and "unat (n - f) = unat n - min (unat n) (open_quantity r)"
    and "unat (ho_filled_quantity r + f) = unat (ho_filled_quantity r) + min (unat n) (open_quantity r)"
proof -
  have le: "ho_filled_quantity r \<le> ho_quantity r" using assms(1) by simp
  show f: "unat f = min (unat n) (open_quantity r)"
    by (simp add: f_def unat_min unat_sub [OF le] open_quantity_def)
  have "f \<le> n" by (simp add: f_def)
  then show "unat (n - f) = unat n - min (unat n) (open_quantity r)" by (simp add: unat_sub f)
  have "unat (ho_filled_quantity r) < unat (ho_quantity r)" using assms(1) by (simp add: word_less_nat_alt)
  then have "unat (ho_filled_quantity r) + unat f \<le> unat (ho_quantity r)" by (simp add: f open_quantity_def)
  also have "\<dots> < 2 ^ 32" by (rule unat_less32)
  finally show "unat (ho_filled_quantity r + f) = unat (ho_filled_quantity r) + min (unat n) (open_quantity r)"
    using unat_add_lem [of "ho_filled_quantity r" f] f by simp
qed

text \<open>What a loop did: \<open>exs\<close> are the executions of the incoming order, numbered from the counter, for what
  was taken; the order's quantity and the remaining quantity say how much that was.\<close>

definition executions_ok ::
    "hft_order \<Rightarrow> u64 \<Rightarrow> (u64 \<times> nat) list \<Rightarrow> execution list \<Rightarrow> bool" where
  "executions_ok order counter takes exs \<longleftrightarrow>
     map (\<lambda>e. (ex_price e, unat (ex_quantity e))) exs = map (\<lambda>(p, q). (cents_to_price p, q)) takes
     \<and> map ex_execution_id exs = map (\<lambda>i. counter + of_nat i + 1) [0..<length takes]
     \<and> (\<forall>e \<in> set exs. ex_order_id e = ho_order_id order \<and> ex_symbol e = ho_symbol order \<and> ex_side e = ho_side order)"

lemma executions_ok_Nil [simp]: "executions_ok order counter [] exs \<longleftrightarrow> exs = []"
  by (auto simp: executions_ok_def)

lemma executions_ok_length: "executions_ok order counter takes exs \<Longrightarrow> length exs = length takes"
  by (auto simp: executions_ok_def dest: arg_cong [where f = length])

lemma executions_ok_append:
  assumes "executions_ok order counter takes exs" "executions_ok order (counter + of_nat (length takes)) takes' exs'"
  shows "executions_ok order counter (takes @ takes') (exs @ exs')"
proof -
  have upt: "map f [0..<m + n] = map f [0..<m] @ map (\<lambda>i. f (m + i)) [0..<n]" for f :: "nat \<Rightarrow> u64" and m n
    by (induction n) simp_all
  show ?thesis
    using assms upt [of "\<lambda>i. counter + of_nat i + 1" "length takes" "length takes'"]
    by (auto simp: executions_ok_def ac_simps)
qed

lemma executions_ok_cong:
  "executions_ok order counter takes exs \<Longrightarrow> ho_order_id order' = ho_order_id order \<Longrightarrow>
    ho_symbol order' = ho_symbol order \<Longrightarrow> ho_side order' = ho_side order \<Longrightarrow> executions_ok order' counter takes exs"
  by (simp add: executions_ok_def)

text \<open>The outcome of a loop over the offers \<open>xs\<close>.\<close>

definition took ::
    "(u64 \<Rightarrow> bool) \<Rightarrow> hft_order \<Rightarrow> u32 \<Rightarrow> u64 \<Rightarrow> (u64 \<times> nat) list
      \<Rightarrow> hft_order \<times> u32 \<times> u64 \<times> (u64 \<times> nat) list \<times> execution list \<Rightarrow> bool" where
  "took acc order n counter xs = (\<lambda>(order', n', counter', xs', exs).
     let takes = taken acc (unat n) xs in
     xs' = left_over acc (unat n) xs \<and> executions_ok order counter takes exs \<and> n' = n - of_nat (quantity takes)
     \<and> counter' = counter + of_nat (length takes)
     \<and> order' = order\<lparr>ho_filled_quantity := ho_filled_quantity order + of_nat (quantity takes)\<rparr>)"

lemma took_remaining:
  assumes "took acc order n counter xs (order', n', counter', xs', exs)"
  shows "unat n' = unat n - quantity (taken acc (unat n) xs)"
proof -
  have le: "quantity (taken acc (unat n) xs) \<le> unat n" by (rule taken_le)
  then have "unat (of_nat (quantity (taken acc (unat n) xs)) :: u32) = quantity (taken acc (unat n) xs)"
    using unat_less32 [of n] by (intro unat_of_nat32) (rule le_less_trans)
  with le assms show ?thesis by (simp add: took_def Let_def unat_sub word_le_nat_alt)
qed

lemma took_nothing: "taken acc (unat n) xs = [] \<Longrightarrow> left_over acc (unat n) xs = xs \<Longrightarrow>
    took acc order n counter xs (order, n, counter, xs, [])"
  by (simp add: took_def)

lemma took_first:
  assumes "n \<noteq> 0" "acc p" "unat f = min (unat n) q" "unat (n - f) = unat n - min (unat n) q"
    and rest: "took acc (order\<lparr>ho_filled_quantity := ho_filled_quantity order + f\<rparr>) (n - f) (counter + 1) xs
      (order', n', counter', xs', exs)"
    and ex: "ex_execution_id e = counter + 1" "ex_order_id e = ho_order_id order" "ex_symbol e = ho_symbol order"
      "ex_side e = ho_side order" "ex_price e = cents_to_price p" "ex_quantity e = f"
  shows "took acc order n counter ((p, q) # xs)
    (order', n', counter', if q \<le> unat n then xs' else (p, q - unat n) # xs', e # exs)"
proof -
  let ?k = "unat n - min (unat n) q"
  have n: "0 < unat n" using assms(1) by (simp add: unat_gt_0)
  have f: "of_nat (min (unat n) q) = f" by (simp flip: assms(3))
  have "executions_ok order (counter + 1) (taken acc ?k xs) exs"
    using rest assms(4) by (auto simp: took_def Let_def elim!: executions_ok_cong)
  moreover have "executions_ok order counter [(p, min (unat n) q)] [e]"
    using ex assms(3) by (simp add: executions_ok_def)
  ultimately have exs: "executions_ok order counter ((p, min (unat n) q) # taken acc ?k xs) (e # exs)"
    using executions_ok_append [of order counter "[(p, min (unat n) q)]" "[e]" "taken acc ?k xs" exs] by simp
  have "unat n < q \<Longrightarrow> xs' = xs" "q \<le> unat n \<Longrightarrow> xs' = left_over acc (unat n - q) xs"
    using rest assms(4) by (auto simp: took_def Let_def min_def)
  then show ?thesis
    using rest exs n assms(2,4) f by (simp add: took_def Let_def ac_simps)
qed

lemma match_level_took:
  assumes "\<forall>r \<in> set orders. ho_filled_quantity r < ho_quantity r" "acc price_level"
    and "match_level clk price_level order n counter orders = (order', n', counter', orders', exs)"
  shows "took acc order n counter (map (\<lambda>r. (price_level, open_quantity r)) orders)
      (order', n', counter', map (\<lambda>r. (price_level, open_quantity r)) orders', exs)"
  using assms
proof (induction orders arbitrary: order n counter order' n' counter' orders' exs)
  case Nil
  then show ?case by (simp add: took_def)
next
  case (Cons r orders)
  show ?case
  proof (cases "n = 0")
    case True
    with Cons.prems show ?thesis by (auto intro!: took_nothing)
  next
    case False
    define f where "f = min n (ho_quantity r - ho_filled_quantity r)"
    let ?order = "order\<lparr>ho_filled_quantity := ho_filled_quantity order + f\<rparr>"
    let ?r = "r\<lparr>ho_filled_quantity := ho_filled_quantity r + f\<rparr>"
    have rlt: "ho_filled_quantity r < ho_quantity r" using Cons.prems(1) by simp
    note f = open_quantity_fill [OF rlt, of n, folded f_def]
    obtain order2 n2 counter2 orders2 exs2 where
      rest: "match_level clk price_level ?order (n - f) (counter + 1) orders = (order2, n2, counter2, orders2, exs2)"
      by (metis prod_cases5)
    have full: "ho_filled_quantity r + f = ho_quantity r \<longleftrightarrow> open_quantity r \<le> unat n"
      using f(3) rlt by (auto simp: word_unat_eq_iff open_quantity_def word_less_nat_alt)
    have "\<not> open_quantity r \<le> unat n \<Longrightarrow> open_quantity (?r\<lparr>ho_status := PartiallyFilled\<rparr>) = open_quantity r - unat n"
      using f(3) by (simp add: open_quantity_def)
    then show ?thesis
      using took_first [OF False Cons.prems(2) f(1,2) Cons.IH [OF _ Cons.prems(2) rest]] Cons.prems(1,3) False rest full
      by (auto simp: Let_def get_execution_id_def f_def [symmetric])
  qed
qed

lemma took_append:
  assumes acc: "\<forall>x \<in> set xs. acc (fst x) \<and> 0 < snd x"
    and first: "took acc order n counter xs (order1, n1, counter1, xs1, exs1)"
    and second: "took acc order1 n1 counter1 ys (order2, n2, counter2, ys2, exs2)"
  shows "took acc order n counter (xs @ ys) (order2, n2, counter2, xs1 @ ys2, exs1 @ exs2)"
proof -
  let ?t = "taken acc (unat n) xs"
  have "quantity ?t = min (unat n) (quantity xs)" using acc by (intro taken_all) auto
  then have n1: "unat n1 = unat n - quantity xs" using took_remaining [OF first] by simp
  have t: "taken acc (unat n) (xs @ ys) = ?t @ taken acc (unat n1) ys"
    using taken_append [of xs acc "unat n" ys] acc n1 by simp
  have exs2: "executions_ok order (counter + of_nat (length ?t)) (taken acc (unat n1) ys) exs2"
    using first second by (auto simp: took_def Let_def elim!: executions_ok_cong)
  have "left_over acc (unat n) (xs @ ys) = xs1 @ ys2"
  proof (cases "unat n < quantity xs")
    case True
    then show ?thesis
      using first second left_over_append [OF acc] n1 by (auto simp: took_def Let_def)
  next
    case False
    then show ?thesis
      using first second left_over_append [OF acc] left_over_exhausted [OF acc] n1 by (auto simp: took_def Let_def)
  qed
  then show ?thesis
    using first second exs2 t by (auto simp: took_def Let_def ac_simps intro: executions_ok_append)
qed

lemma offers_of_simps [simp]:
  "offers_of [] = []" "offers_of ((p, orders) # levels) = map (\<lambda>r. (p, open_quantity r)) orders @ offers_of levels"
  by (simp_all add: offers_of_def)

lemma set_offers_of: "x \<in> set (offers_of levels) \<Longrightarrow> fst x \<in> fst ` set levels"
  by (auto simp: offers_of_def) force

lemma match_levels_took:
  assumes "\<forall>l \<in> set levels. \<forall>r \<in> set (snd l). ho_filled_quantity r < ho_quantity r"
    and "sorted_wrt (\<lambda>p p'. acc p' \<longrightarrow> acc p) (map fst levels)"
    and "match_levels acc clk order n counter levels = (order', n', counter', levels', exs)"
  shows "took acc order n counter (offers_of levels) (order', n', counter', offers_of levels', exs)"
  using assms
proof (induction levels arbitrary: order n counter order' n' counter' levels' exs)
  case Nil
  then show ?case by (simp add: took_def)
next
  case (Cons l levels)
  obtain p orders where l: "l = (p, orders)" by fastforce
  show ?case
  proof (cases "acc p \<and> n \<noteq> 0")
    case False
    have "\<not> acc p \<Longrightarrow> \<forall>p' \<in> fst ` set (l # levels). \<not> acc p'" using Cons.prems(2) by (auto simp: l)
    then have "\<not> acc p \<Longrightarrow> \<forall>x \<in> set (offers_of (l # levels)). \<not> acc (fst x)" using set_offers_of by blast
    note this [THEN left_over_none, of "unat n"]
    then have "taken acc (unat n) (offers_of (l # levels)) = []
        \<and> left_over acc (unat n) (offers_of (l # levels)) = offers_of (l # levels)"
      using False by (cases "acc p") (simp_all del: offers_of_simps)
    then show ?thesis using Cons.prems(3) False by (auto simp: l intro!: took_nothing split: if_splits)
  next
    case True
    obtain order1 n1 counter1 orders1 exs1 where
      one: "match_level clk p order n counter orders = (order1, n1, counter1, orders1, exs1)" by (metis prod_cases5)
    obtain order2 n2 counter2 levels2 exs2 where
      rest: "match_levels acc clk order1 n1 counter1 levels = (order2, n2, counter2, levels2, exs2)" by (metis prod_cases5)
    have open': "\<forall>r \<in> set orders. ho_filled_quantity r < ho_quantity r" using Cons.prems(1) by (simp add: l)
    then have "\<forall>x \<in> set (map (\<lambda>r. (p, open_quantity r)) orders). acc (fst x) \<and> 0 < snd x"
      using True by (auto simp: open_quantity_def word_less_nat_alt)
    from took_append [OF this match_level_took [OF open' _ one] Cons.IH [OF _ _ rest]] True Cons.prems
    have "took acc order n counter (offers_of (l # levels))
        (order2, n2, counter2, offers_of ((p, orders1) # levels2), exs1 @ exs2)" by (simp add: l)
    then show ?thesis using Cons.prems(3) True one rest by (auto simp: l)
  qed
qed

section \<open>The invariant of the engine\<close>

lemma match_level_keeps:
  assumes "\<forall>r \<in> set orders. resting_ok side symbol cents r"
    and "match_level clk p order n counter orders = (order', n', counter', orders', exs)"
  shows "\<forall>r \<in> set orders'. resting_ok side symbol cents r"
  using assms
proof (induction orders arbitrary: order n counter order' n' counter' orders' exs)
  case (Cons r orders)
  define f where "f = min n (ho_quantity r - ho_filled_quantity r)"
  let ?order = "order\<lparr>ho_filled_quantity := ho_filled_quantity order + f\<rparr>"
  obtain order2 n2 counter2 orders2 exs2 where
    rest: "match_level clk p ?order (n - f) (counter + 1) orders = (order2, n2, counter2, orders2, exs2)"
    by (metis prod_cases5)
  have rlt: "ho_filled_quantity r < ho_quantity r" using Cons.prems(1) by (simp add: resting_ok_def)
  note f = open_quantity_fill [OF rlt, of n, folded f_def]
  have "ho_filled_quantity r + f \<le> ho_quantity r"
    using f(3) rlt by (simp add: word_le_nat_alt word_less_nat_alt open_quantity_def)
  then have "ho_filled_quantity r + f \<noteq> ho_quantity r \<Longrightarrow>
      resting_ok side symbol cents (r\<lparr>ho_filled_quantity := ho_filled_quantity r + f, ho_status := PartiallyFilled\<rparr>)"
    using Cons.prems(1) by (simp add: resting_ok_def word_le_less_eq)
  with Cons.IH [OF _ rest] Cons.prems rest show ?case
    by (auto simp: Let_def get_execution_id_def f_def [symmetric] split: if_splits)
qed simp

lemma match_levels_keeps:
  assumes "\<forall>l \<in> set levels. \<forall>r \<in> set (snd l). resting_ok side symbol (fst l) r"
    and "match_levels acc clk order n counter levels = (order', n', counter', levels', exs)"
  shows "map fst levels' = map fst levels
    \<and> (\<forall>l \<in> set levels'. \<forall>r \<in> set (snd l). resting_ok side symbol (fst l) r)"
  using assms
proof (induction levels arbitrary: order n counter order' n' counter' levels' exs)
  case (Cons l levels)
  obtain p orders where l: "l = (p, orders)" by fastforce
  obtain order1 n1 counter1 orders1 exs1 where
    one: "match_level clk p order n counter orders = (order1, n1, counter1, orders1, exs1)" by (metis prod_cases5)
  obtain order2 n2 counter2 levels2 exs2 where
    rest: "match_levels acc clk order1 n1 counter1 levels = (order2, n2, counter2, levels2, exs2)" by (metis prod_cases5)
  show ?case
    using Cons.prems Cons.IH [OF _ rest] match_level_keeps [OF _ one, of side symbol p] one rest
    by (auto simp: l split: if_splits)
qed simp

lemma match_levels_ok:
  "levels_ok side symbol levels \<Longrightarrow>
    match_levels acc clk order n counter levels = (order', n', counter', levels', exs) \<Longrightarrow> levels_ok side symbol levels'"
  using match_levels_keeps [of levels side symbol acc clk order n counter order' n' counter' levels' exs]
  by (simp add: levels_ok_def)

lemma book_level: "book_ok side b \<Longrightarrow> map_of b symbol = Some levels \<Longrightarrow> levels_ok side symbol levels"
  by (auto simp: book_ok_def dest: map_of_SomeD)

lemma book_insert: "book_ok side b \<Longrightarrow> levels_ok side symbol levels \<Longrightarrow> book_ok side (hash_insert symbol levels b)"
  using set_hash_insert [of symbol levels b] by (auto simp: book_ok_def)

lemma rest_in_level_ok:
  assumes "levels_ok side symbol levels" "resting_ok side symbol cents order"
  shows "levels_ok side symbol (rest_in_level cents order levels)"
proof -
  let ?orders = "(case map_of levels cents of Some orders \<Rightarrow> orders | None \<Rightarrow> []) @ [order]"
  have "\<forall>r \<in> set ?orders. resting_ok side symbol cents r"
    using assms by (fastforce simp: levels_ok_def dest: map_of_SomeD split: option.splits)
  then have "\<forall>l \<in> insert (cents, ?orders) (set levels). \<forall>r \<in> set (snd l). resting_ok side symbol (fst l) r"
    using assms(1) by (simp add: levels_ok_def)
  then have "\<forall>l \<in> set (btree_insert cents ?orders levels). \<forall>r \<in> set (snd l). resting_ok side symbol (fst l) r"
    using set_btree_insert [of cents ?orders levels] by blast
  then show ?thesis
    using assms(1) sorted_btree_insert [of levels cents ?orders] by (simp add: levels_ok_def rest_in_level_def)
qed

lemma rest_order_ok:
  assumes "book_ok side b" "resting_ok side (ho_symbol order) cents order"
  shows "book_ok side (rest_order cents order b)"
proof -
  have "levels_ok side (ho_symbol order) (case map_of b (ho_symbol order) of Some levels \<Rightarrow> levels | None \<Rightarrow> [])"
    using book_level [OF assms(1)] by (cases "map_of b (ho_symbol order)") (simp_all add: levels_ok_def)
  then show ?thesis unfolding rest_order_def using assms by (intro book_insert rest_in_level_ok)
qed

text \<open>A new order comes after all offers whose price is not higher.\<close>

definition add_offer :: "u64 \<Rightarrow> nat \<Rightarrow> (u64 \<times> nat) list \<Rightarrow> (u64 \<times> nat) list" where
  "add_offer cents q xs = takeWhile (\<lambda>x. fst x \<le> cents) xs @ (cents, q) # dropWhile (\<lambda>x. fst x \<le> cents) xs"

lemma add_offer_before:
  "\<forall>x \<in> set ys. cents < fst x \<Longrightarrow> add_offer cents q ys = (cents, q) # ys"
  by (cases ys) (auto simp: add_offer_def)

lemma add_offer_after: "\<forall>x \<in> set xs. fst x \<le> cents \<Longrightarrow> add_offer cents q (xs @ ys) = xs @ add_offer cents q ys"
  by (simp add: add_offer_def takeWhile_append2 dropWhile_append2)

lemma offers_of_rest:
  "sorted (map fst levels) \<Longrightarrow> distinct (map fst levels) \<Longrightarrow>
    offers_of (rest_in_level cents order levels) = add_offer cents (open_quantity order) (offers_of levels)"
proof (induction levels)
  case Nil
  then show ?case by (simp add: rest_in_level_def add_offer_def)
next
  case (Cons l levels)
  obtain p orders where l: "l = (p, orders)" by fastforce
  have later: "\<forall>x \<in> set (offers_of levels). p < fst x"
    using Cons.prems set_offers_of [of _ levels] by (force simp: l le_less)
  have absent: "cents \<le> p \<Longrightarrow> map_of levels cents = None"
    using Cons.prems by (force simp: l map_of_eq_None_iff)
  consider "cents < p" | "cents = p" | "p < cents" by fastforce
  then show ?case
  proof cases
    case 1
    then have "\<forall>x \<in> set (offers_of (l # levels)). cents < fst x" using later by (auto simp: l)
    then show ?thesis using 1 absent by (auto simp: l rest_in_level_def add_offer_before)
  next
    case 2
    have "\<forall>x \<in> set (map (\<lambda>r. (p, open_quantity r)) orders). fst x \<le> cents" using 2 by simp
    with 2 later show ?thesis by (simp add: l rest_in_level_def add_offer_before add_offer_after)
  next
    case 3
    then have "rest_in_level cents order (l # levels) = l # rest_in_level cents order levels"
      by (auto simp: l rest_in_level_def)
    moreover have "\<forall>x \<in> set (map (\<lambda>r. (p, open_quantity r)) orders). fst x \<le> cents" using 3 by auto
    ultimately show ?thesis using Cons by (simp add: l add_offer_after)
  qed
qed

fun other_side :: "order_side \<Rightarrow> order_side" where
  "other_side Buy = Sell"
| "other_side Sell = Buy"

lemma book_of_side [simp]: "opposite_book side en = own_book (other_side side) en"
  by (cases side) (simp_all add: opposite_book_def own_book_def)

lemma set_opposite_is_own [simp]: "set_opposite_book side b en = set_own_book (other_side side) b en"
  by (cases side) (simp_all add: set_opposite_book_def set_own_book_def)

lemma own_book_set [simp]:
  "own_book side (set_own_book side' b en) = (if side = side' then b else own_book side en)"
  "own_book side (en\<lparr>me_execution_counter := c\<rparr>) = own_book side en"
  "me_execution_counter (set_own_book side b en) = me_execution_counter en"
  by (cases side; cases side'; simp add: own_book_def set_own_book_def)+

lemma other_side_neq [simp]: "other_side side \<noteq> side" "side \<noteq> other_side side"
  by (cases side; simp)+

lemma engine_ok_books: "engine_ok en \<longleftrightarrow> (\<forall>side. book_ok side (own_book side en))"
  by (auto simp: engine_ok_def own_book_def split: order_side.splits)

lemma match_opposite_ok:
  assumes "engine_ok en" "match_opposite acc clk order en = (order1, n, exs, en1)"
  shows "engine_ok en1"
proof (cases "map_of (opposite_book (ho_side order) en) (ho_symbol order)")
  case None
  then show ?thesis using assms by (simp add: match_opposite_def)
next
  case (Some levels)
  have ok: "book_ok (other_side (ho_side order)) (own_book (other_side (ho_side order)) en)"
    using assms(1) by (simp add: engine_ok_books)
  obtain order' n' counter' levels' exs' where
    m: "match_levels acc clk order (ho_quantity order - ho_filled_quantity order) (me_execution_counter en) levels
      = (order', n', counter', levels', exs')" by (metis prod_cases5)
  have "levels_ok (other_side (ho_side order)) (ho_symbol order) levels'"
    using match_levels_ok [OF book_level [OF ok] m] Some by simp
  then have "book_ok (other_side (ho_side order))
      (hash_insert (ho_symbol order) levels' (own_book (other_side (ho_side order)) en))" by (rule book_insert [OF ok])
  moreover have "en1 = set_own_book (other_side (ho_side order))
      (hash_insert (ho_symbol order) levels' (own_book (other_side (ho_side order)) en)) (en\<lparr>me_execution_counter := counter'\<rparr>)"
    using assms(2) Some m by (simp add: match_opposite_def)
  ultimately show ?thesis using assms(1) by (simp add: engine_ok_books)
qed

lemma offers_hash_insert [simp]:
  "offers s (hash_insert symbol levels b) = (if s = symbol then offers_of levels else offers s b)"
  by (simp add: offers_def)

text \<open>Matching takes from the offers of the other side, in order, while they are acceptable.\<close>

lemma match_opposite_took:
  assumes "engine_ok en" "\<forall>p p'. p \<le> p' \<longrightarrow> acc p' \<longrightarrow> acc p"
    and "match_opposite acc clk order en = (order1, n, exs, en1)"
  shows "took acc order (ho_quantity order - ho_filled_quantity order) (me_execution_counter en)
      (offers (ho_symbol order) (opposite_book (ho_side order) en))
      (order1, n, me_execution_counter en1, offers (ho_symbol order) (opposite_book (ho_side order) en1), exs)"
    and "own_book (ho_side order) en1 = own_book (ho_side order) en"
    and "s \<noteq> ho_symbol order \<Longrightarrow> offers s (own_book side en1) = offers s (own_book side en)"
proof -
  let ?n = "ho_quantity order - ho_filled_quantity order" and ?side = "other_side (ho_side order)"
  have "took acc order ?n (me_execution_counter en) (offers (ho_symbol order) (own_book ?side en))
      (order1, n, me_execution_counter en1, offers (ho_symbol order) (own_book ?side en1), exs)
    \<and> own_book (ho_side order) en1 = own_book (ho_side order) en
    \<and> (s \<noteq> ho_symbol order \<longrightarrow> offers s (own_book side en1) = offers s (own_book side en))"
  proof (cases "map_of (own_book ?side en) (ho_symbol order)")
    case None
    then show ?thesis using assms(3) by (auto simp: match_opposite_def offers_def took_def)
  next
    case (Some levels)
    obtain order' n' counter' levels' exs' where
      m: "match_levels acc clk order ?n (me_execution_counter en) levels = (order', n', counter', levels', exs')"
      by (metis prod_cases5)
    have ok: "levels_ok ?side (ho_symbol order) levels"
      using assms(1) Some by (blast intro: book_level dest: engine_ok_books [THEN iffD1])
    then have "sorted_wrt (\<lambda>p p'. acc p' \<longrightarrow> acc p) (map fst levels)"
      using assms(2) by (auto simp: levels_ok_def intro: sorted_wrt_mono_rel [of _ "(\<le>)"])
    from match_levels_took [OF _ this m] ok
    have "took acc order ?n (me_execution_counter en) (offers_of levels) (order', n', counter', offers_of levels', exs')"
      by (auto simp: levels_ok_def resting_ok_def)
    then show ?thesis using assms(3) Some m by (auto simp: match_opposite_def offers_def)
  qed
  then show "took acc order ?n (me_execution_counter en) (offers (ho_symbol order) (opposite_book (ho_side order) en))
      (order1, n, me_execution_counter en1, offers (ho_symbol order) (opposite_book (ho_side order) en1), exs)"
    and "own_book (ho_side order) en1 = own_book (ho_side order) en"
    and "s \<noteq> ho_symbol order \<Longrightarrow> offers s (own_book side en1) = offers s (own_book side en)" by simp_all
qed

text \<open>The filled and the remaining quantity always add up.\<close>

lemma match_level_sums:
  "match_level clk p order n counter orders = (order', n', counter', orders', exs) \<Longrightarrow>
    n' \<le> n \<and> order' = order\<lparr>ho_filled_quantity := ho_filled_quantity order + (n - n')\<rparr>"
proof (induction orders arbitrary: order n counter order' n' counter' orders' exs)
  case (Cons r orders)
  define f where "f = min n (ho_quantity r - ho_filled_quantity r)"
  let ?order = "order\<lparr>ho_filled_quantity := ho_filled_quantity order + f\<rparr>"
  obtain order2 n2 counter2 orders2 exs2 where
    rest: "match_level clk p ?order (n - f) (counter + 1) orders = (order2, n2, counter2, orders2, exs2)"
    by (metis prod_cases5)
  have "f \<le> n" by (simp add: f_def)
  then have "n - f \<le> n" by (simp add: word_le_nat_alt unat_sub)
  with Cons.IH [OF rest] Cons.prems rest show ?case
    by (auto simp: Let_def get_execution_id_def f_def [symmetric] split: if_splits)
qed simp

lemma match_levels_sums:
  "match_levels acc clk order n counter levels = (order', n', counter', levels', exs) \<Longrightarrow>
    n' \<le> n \<and> order' = order\<lparr>ho_filled_quantity := ho_filled_quantity order + (n - n')\<rparr>"
proof (induction levels arbitrary: order n counter order' n' counter' levels' exs)
  case (Cons l levels)
  obtain p orders where l: "l = (p, orders)" by fastforce
  obtain order1 n1 counter1 orders1 exs1 where
    one: "match_level clk p order n counter orders = (order1, n1, counter1, orders1, exs1)" by (metis prod_cases5)
  obtain order2 n2 counter2 levels2 exs2 where
    rest: "match_levels acc clk order1 n1 counter1 levels = (order2, n2, counter2, levels2, exs2)" by (metis prod_cases5)
  show ?case
    using Cons.IH [OF rest] match_level_sums [OF one] Cons.prems one rest by (auto simp: l split: if_splits)
qed simp

lemma match_opposite_sums:
  assumes "match_opposite acc clk order en = (order1, n, exs, en1)" "ho_filled_quantity order \<le> ho_quantity order"
  shows "n \<le> ho_quantity order - ho_filled_quantity order
    \<and> order1 = order\<lparr>ho_filled_quantity := ho_quantity order - n\<rparr> \<and> ho_filled_quantity order1 \<le> ho_quantity order
    \<and> (0 < n \<longrightarrow> ho_filled_quantity order1 < ho_quantity order)"
proof -
  let ?m = "ho_quantity order - ho_filled_quantity order"
  have "n \<le> ?m \<and> order1 = order\<lparr>ho_filled_quantity := ho_filled_quantity order + (?m - n)\<rparr>"
  proof (cases "map_of (opposite_book (ho_side order) en) (ho_symbol order)")
    case None
    then show ?thesis using assms(1) by (auto simp: match_opposite_def)
  next
    case (Some levels)
    obtain order' n' counter' levels' exs' where
      m: "match_levels acc clk order ?m (me_execution_counter en) levels = (order', n', counter', levels', exs')"
      by (metis prod_cases5)
    then show ?thesis using assms(1) Some match_levels_sums [OF m] by (auto simp: match_opposite_def)
  qed
  moreover from this have "n \<le> ho_quantity order"
    using assms(2) by (auto simp: word_le_nat_alt unat_sub intro: le_trans)
  ultimately show ?thesis by (auto simp: word_le_nat_alt word_less_nat_alt unat_sub)
qed

lemma match_limit_ok:
  assumes "engine_ok en" "ho_filled_quantity order \<le> ho_quantity order"
    and "match_limit_order clk order en = (order', exs, en')"
  shows "engine_ok en' \<and> ho_filled_quantity order' \<le> ho_quantity order' \<and> ho_quantity order' = ho_quantity order"
proof (cases "ho_price order")
  case None
  then show ?thesis using assms by (simp add: match_limit_order_def)
next
  case (Some p)
  let ?cents = "price_to_cents p"
  obtain order1 n exs1 en1 where
    m: "match_opposite (acceptable_level (ho_side order) ?cents) clk order en = (order1, n, exs1, en1)"
    by (metis prod_cases4)
  note sums = match_opposite_sums [OF m assms(2)]
  have en1: "engine_ok en1" by (rule match_opposite_ok [OF assms(1) m])
  have "resting_ok (ho_side order1) (ho_symbol order1) ?cents order1" if "0 < n" "ho_order_type order1 = Limit"
    using sums that Some by (auto simp: resting_ok_def)
  then have "engine_ok (set_own_book (ho_side order1) (rest_order ?cents order1 (own_book (ho_side order1) en1)) en1)"
    if "0 < n" "ho_order_type order1 = Limit"
    using en1 that by (auto simp: engine_ok_books intro: rest_order_ok)
  then show ?thesis
    using assms(3) Some m en1 sums by (auto simp: match_limit_order_def fill_status_def Let_def split: if_splits)
qed

lemma match_market_ok:
  assumes "engine_ok en" "ho_filled_quantity order \<le> ho_quantity order"
    and "match_market_order clk order en = (order', exs, en')"
  shows "engine_ok en' \<and> ho_filled_quantity order' \<le> ho_quantity order' \<and> ho_quantity order' = ho_quantity order"
proof -
  obtain order1 n exs1 en1 where m: "match_opposite (\<lambda>_. True) clk order en = (order1, n, exs1, en1)"
    by (metis prod_cases4)
  show ?thesis
    using match_opposite_sums [OF m assms(2)] match_opposite_ok [OF assms(1) m] assms(3) m
    by (auto simp: match_market_order_def fill_status_def split: if_splits)
qed

lemma match_order_ok:
  assumes "engine_ok en" "ho_filled_quantity order \<le> ho_quantity order"
    and "match_order clk order en = (order', exs, en')"
  shows "engine_ok en' \<and> ho_filled_quantity order' \<le> ho_quantity order' \<and> ho_quantity order' = ho_quantity order"
proof (cases "convert_stop en order")
  case None
  then show ?thesis using assms by (simp add: match_order_def)
next
  case (Some order0)
  then have o: "ho_filled_quantity order0 \<le> ho_quantity order0" "ho_quantity order0 = ho_quantity order"
    using assms(2) by (auto simp: convert_stop_def split: if_splits option.splits)
  obtain u exs1 en1 where l: "match_limit_order clk order0 en = (u, exs1, en1)" by (metis prod_cases3)
  obtain u' exs1' en1' where k: "match_market_order clk order0 en = (u', exs1', en1')" by (metis prod_cases3)
  show ?thesis
    using assms(3) Some o l k match_limit_ok [OF assms(1) o(1) l] match_market_ok [OF assms(1) o(1) k] assms(1)
    by (auto simp: match_order_def split: hft_order_type.splits if_splits)
qed

section \<open>Properties\<close>

text \<open>The engines that a server can have: any operations on a new one, in any order.\<close>

inductive engine_run :: "matching_engine \<Rightarrow> bool" where
  engine_start: "engine_run matching_engine_new"
| engine_order: "engine_run en \<Longrightarrow> ho_filled_quantity order \<le> ho_quantity order \<Longrightarrow>
    match_order clk order en = (order', exs, en') \<Longrightarrow> engine_run en'"
| engine_price: "engine_run en \<Longrightarrow> engine_run (update_market_price symbol price en)"
| engine_order_id: "engine_run en \<Longrightarrow> get_order_id en = (i, en') \<Longrightarrow> engine_run en'"

text \<open>C26: The books are always well formed. After any operations on a new engine every book has one entry
  for each symbol, its price levels are in ascending order, and each order in it is a limit order
  for that side, symbol and price that is not yet filled.\<close>

theorem engine_invariant: "engine_run en \<Longrightarrow> engine_ok en"
proof (induction rule: engine_run.induct)
  case engine_start
  then show ?case by (simp add: matching_engine_new_def engine_ok_def book_ok_def)
next
  case (engine_order en order clk order' exs en')
  then show ?case using match_order_ok by blast
next
  case (engine_price en symbol price)
  then show ?case by (simp add: update_market_price_def engine_ok_def)
next
  case (engine_order_id en i en')
  then show ?case by (auto simp: get_order_id_def engine_ok_def Let_def)
qed

text \<open>Two bids for one symbol, of 10 at 90 and of 10 at 110.\<close>

lemma cents_of_whole:
  assumes "0 \<le> n" "n < 2 ^ 40"
  shows "price_to_cents (Fin (of_int n)) = of_int (100 * n)"
proof -
  have r: "f64_round (of_int (100 * n)) = Fin (of_int (100 * n))"
    using f64_round_dyadic [of "100 * n" 0] assms by simp
  have "round_away (of_int (100 * n)) = 100 * n"
    using round_away_near [of "of_int (100 * n)" "100 * n"] assms by simp
  then have "price_to_cents (Fin (of_int n)) = f64_as_u64 (Fin (of_int (100 * n)))"
    using r by (simp add: price_to_cents_def mult.commute)
  also have "\<dots> = of_int (100 * n)" using assms by (intro as_u64_int) simp_all
  finally show ?thesis .
qed

lemma demo_cents [simp]:
  "price_to_cents (Fin 90) = 9000" "price_to_cents (Fin 110) = 11000" "price_to_cents (Fin 100) = 10000"
  using cents_of_whole [of 90] cents_of_whole [of 110] cents_of_whole [of 100] by simp_all

definition demo_order :: "order_side \<Rightarrow> hft_order_type \<Rightarrow> u32 \<Rightarrow> rat \<Rightarrow> hft_order" where
  "demo_order side ty q p = \<lparr>ho_order_id = 1, ho_symbol = ''TSLA'', ho_side = side, ho_order_type = ty,
     ho_quantity = q, ho_price = Some (Fin p), ho_stop_price = None, ho_filled_quantity = 0, ho_status = New,
     ho_timestamp = 0, ho_strategy_id = ''Manual''\<rparr>"

definition two_bids :: matching_engine where
  "two_bids = matching_engine_new\<lparr>me_buy_book := [(''TSLA'',
     [(9000, [demo_order Buy Limit 10 90]), (11000, [demo_order Buy Limit 10 110])])]\<rparr>"

lemmas engine_eval = match_order_def match_market_order_def match_limit_order_def match_opposite_def
  convert_stop_def opposite_book_def set_opposite_book_def own_book_def set_own_book_def rest_order_def
  rest_in_level_def acceptable_level_def fill_status_def demo_order_def matching_engine_new_def

lemma two_bids_reached: "engine_run two_bids"
proof -
  let ?one = "matching_engine_new\<lparr>me_buy_book := [(''TSLA'', [(9000, [demo_order Buy Limit 10 90])])]\<rparr>"
  have "match_order (\<lambda>_. 0) (demo_order Buy Limit 10 90) matching_engine_new = (demo_order Buy Limit 10 90, [], ?one)"
    by (simp add: engine_eval)
  from engine_order [OF engine_start _ this] have one: "engine_run ?one" by (simp add: demo_order_def)
  have "match_order (\<lambda>_. 0) (demo_order Buy Limit 10 110) ?one = (demo_order Buy Limit 10 110, [], two_bids)"
    by (simp add: engine_eval two_bids_def)
  from engine_order [OF one _ this] show ?thesis by (simp add: demo_order_def)
qed

theorem engine_invariant_witness: "engine_ok two_bids \<and> length (offers ''TSLA'' (me_buy_book two_bids)) = 2"
  using engine_invariant [OF two_bids_reached] by (simp add: two_bids_def offers_def)

text \<open>What an order accepts, if its limit is a highest price.\<close>

definition takes_up_to :: "hft_order \<Rightarrow> u64 \<Rightarrow> bool" where
  "takes_up_to order cents =
     (ho_order_type order = Market \<or> (case ho_price order of Some p \<Rightarrow> cents \<le> price_to_cents p | None \<Rightarrow> False))"

lemma takes_up_to_closed: "\<forall>p p'. p \<le> p' \<longrightarrow> takes_up_to order p' \<longrightarrow> takes_up_to order p"
  by (auto simp: takes_up_to_def split: option.splits)

lemma took_filled:
  assumes "took acc order (ho_quantity order) counter xs (order', n', counter', xs', exs)" "ho_filled_quantity order = 0"
  shows "unat (ho_filled_quantity order') = quantity (taken acc (unat (ho_quantity order)) xs)"
proof -
  have "quantity (taken acc (unat (ho_quantity order)) xs) < 2 ^ 32"
    using taken_le unat_less32 by (rule le_less_trans)
  then show ?thesis using assms by (auto simp: took_def Let_def unat_of_nat32)
qed

lemma filled_cases:
  assumes "unat (ho_filled_quantity order') = k" "ho_quantity order' = ho_quantity order"
  shows "ho_filled_quantity order' = ho_quantity order' \<longleftrightarrow> k = unat (ho_quantity order)"
    and "0 < ho_filled_quantity order' \<longleftrightarrow> 0 < k"
  using assms by (auto simp: word_unat_eq_iff word_less_nat_alt)

lemma offers_rest_order:
  assumes "book_ok side b"
  shows "offers symbol (rest_order cents order b)
    = (if symbol = ho_symbol order then add_offer cents (open_quantity order) (offers symbol b) else offers symbol b)"
proof (cases "map_of b (ho_symbol order)")
  case None
  then show ?thesis by (simp add: rest_order_def offers_def rest_in_level_def add_offer_def)
next
  case (Some levels)
  then have "levels_ok side (ho_symbol order) levels" using assms book_level by blast
  then show ?thesis using Some by (simp add: rest_order_def offers_of_rest levels_ok_def offers_def)
qed

lemma only_filled:
  "order1 = order\<lparr>ho_filled_quantity := k\<rparr> \<Longrightarrow> ho_side order1 = ho_side order \<and> ho_symbol order1 = ho_symbol order
    \<and> ho_order_type order1 = ho_order_type order \<and> ho_quantity order1 = ho_quantity order
    \<and> ho_status order1 = ho_status order"
  by simp

text \<open>The loop of the engine, whatever becomes of the rest.\<close>

lemma matched_offers:
  assumes "engine_ok en" "ho_filled_quantity order = 0" "match_opposite (takes_up_to order) clk order en = (order1, n, exs, en1)"
  defines "other \<equiv> offers (ho_symbol order) (opposite_book (ho_side order) en)"
    and "q \<equiv> unat (ho_quantity order)"
  defines "takes \<equiv> taken (takes_up_to order) q other"
  shows "offers (ho_symbol order) (opposite_book (ho_side order) en1) = left_over (takes_up_to order) q other"
    and "executions_ok order (me_execution_counter en) takes exs"
    and "unat (ho_filled_quantity order1) = quantity takes" "unat n = q - quantity takes"
    and "order1 = order\<lparr>ho_filled_quantity := ho_filled_quantity order1\<rparr>"
    and "0 < n \<longleftrightarrow> quantity takes < q" "open_quantity order1 = q - quantity takes"
proof -
  have took: "took (takes_up_to order) order (ho_quantity order) (me_execution_counter en) other
      (order1, n, me_execution_counter en1, offers (ho_symbol order) (opposite_book (ho_side order) en1), exs)"
    using match_opposite_took(1) [OF assms(1) takes_up_to_closed assms(3)] assms(2) by (simp add: other_def)
  show "offers (ho_symbol order) (opposite_book (ho_side order) en1) = left_over (takes_up_to order) q other"
    and "executions_ok order (me_execution_counter en) takes exs"
    using took by (simp_all add: took_def Let_def q_def takes_def)
  show f: "unat (ho_filled_quantity order1) = quantity takes"
    using took_filled [OF took assms(2)] by (simp add: q_def takes_def)
  show n: "unat n = q - quantity takes" using took_remaining [OF took] by (simp add: q_def takes_def)
  show o: "order1 = order\<lparr>ho_filled_quantity := ho_filled_quantity order1\<rparr>"
    using took by (auto simp: took_def Let_def)
  show "0 < n \<longleftrightarrow> quantity takes < q" using n by (simp add: word_less_nat_alt)
  have "ho_quantity order1 = ho_quantity order" by (subst o) simp
  then show "open_quantity order1 = q - quantity takes" using f by (simp add: open_quantity_def q_def)
qed

text \<open>C25: Orders are matched by price and by time. A market order, or a limit order to buy, takes from the
  orders of the other side in the order of their price levels from the lowest up, and within a level
  in the order of arrival, each completely before the next, as far as its quantity and its limit
  allow; there is one numbered execution at the level's price for each order it takes from. Its
  filled quantity is the sum of the executions, what remains of a limit order is added behind the
  orders of its price, and nothing else in the books changes.\<close>

theorem orders_take_lowest_offers:
  assumes ok: "engine_ok en" "ho_filled_quantity order = 0" "ho_status order = New"
    and kind: "ho_order_type order = Market
      \<or> ho_order_type order = Limit \<and> ho_side order = Buy \<and> ho_price order = Some limit"
    and run: "match_order clk order en = (order', exs, en')"
  defines "other \<equiv> offers (ho_symbol order) (opposite_book (ho_side order) en)"
    and "q \<equiv> unat (ho_quantity order)"
  defines "takes \<equiv> taken (takes_up_to order) q other"
  shows "offers (ho_symbol order) (opposite_book (ho_side order) en') = left_over (takes_up_to order) q other
    \<and> executions_ok order (me_execution_counter en) takes exs
    \<and> unat (ho_filled_quantity order') = quantity takes
    \<and> ho_status order' = (if quantity takes = q then Filled else if 0 < quantity takes then PartiallyFilled else New)
    \<and> offers (ho_symbol order) (own_book (ho_side order) en') =
        (let own = offers (ho_symbol order) (own_book (ho_side order) en)
         in if ho_order_type order = Limit \<and> quantity takes < q
            then add_offer (price_to_cents limit) (q - quantity takes) own else own)
    \<and> (\<forall>symbol side. symbol \<noteq> ho_symbol order \<longrightarrow>
        offers symbol (own_book side en') = offers symbol (own_book side en))"
proof -
  obtain order1 n exs1 en1 where m: "match_opposite (takes_up_to order) clk order en = (order1, n, exs1, en1)"
    by (metis prod_cases4)
  note matched = matched_offers [OF ok(1,2) m, folded other_def q_def, folded takes_def]
  note frame = match_opposite_took(2,3) [OF ok(1) takes_up_to_closed m]
  have same: "ho_side order1 = ho_side order" "ho_symbol order1 = ho_symbol order" "ho_order_type order1 = ho_order_type order"
    "ho_quantity order1 = ho_quantity order" "ho_status order1 = New"
    using only_filled [OF matched(5)] ok(3) by simp_all
  let ?en2 = "if 0 < n \<and> ho_order_type order = Limit
      then set_own_book (ho_side order) (rest_order (price_to_cents limit) order1 (own_book (ho_side order) en1)) en1 else en1"
  have "match_order clk order en = (fill_status order1, exs1, ?en2)"
  proof (cases "ho_order_type order = Market")
    case True
    then have "takes_up_to order = (\<lambda>_. True)" by (auto simp: takes_up_to_def)
    with True m show ?thesis by (simp add: match_order_def convert_stop_def match_market_order_def)
  next
    case False
    with kind have k: "ho_order_type order = Limit" "ho_side order = Buy" "ho_price order = Some limit" by simp_all
    then have "takes_up_to order = acceptable_level Buy (price_to_cents limit)"
      by (auto simp: takes_up_to_def acceptable_level_def)
    with k m same show ?thesis by (simp add: match_order_def convert_stop_def match_limit_order_def Let_def)
  qed
  then have r: "order' = fill_status order1" "exs = exs1" "en' = ?en2" using run by simp_all
  have ok1: "book_ok (ho_side order) (own_book (ho_side order) en1)"
    using match_opposite_ok [OF ok(1) m] by (simp add: engine_ok_books)
  have "ho_filled_quantity (fill_status order1) = ho_filled_quantity order1" by (simp add: fill_status_def)
  moreover have "ho_status (fill_status order1)
      = (if quantity takes = q then Filled else if 0 < quantity takes then PartiallyFilled else New)"
    using filled_cases [OF matched(3) same(4)] same(4,5) by (simp add: fill_status_def q_def)
  moreover have "offers symbol (own_book side ?en2) = offers symbol (own_book side en)" if "symbol \<noteq> ho_symbol order" for symbol side
    using that frame(2) [OF that] offers_rest_order [OF ok1] same(2) by simp
  moreover have "offers (ho_symbol order) (own_book (ho_side order) ?en2) =
      (if ho_order_type order = Limit \<and> quantity takes < q
       then add_offer (price_to_cents limit) (q - quantity takes) (offers (ho_symbol order) (own_book (ho_side order) en))
       else offers (ho_symbol order) (own_book (ho_side order) en))"
    using frame(1) offers_rest_order [OF ok1] same(2) matched(6,7) by simp
  ultimately show ?thesis using matched(1-3) by (simp add: r Let_def)
qed

lemma two_bids_ok: "engine_ok two_bids"
  by (simp add: engine_ok_def book_ok_def two_bids_def matching_engine_new_def levels_ok_def resting_ok_def demo_order_def)

text \<open>A market order to sell 15 takes the whole bid at 90 before it takes 5 at 110.\<close>

theorem orders_take_lowest_offers_witness:
  "\<exists>order' exs en'. match_order (\<lambda>_. 0) (demo_order Sell Market 15 0) two_bids = (order', exs, en')
    \<and> offers ''TSLA'' (me_buy_book en') = [(11000, 5)] \<and> unat (ho_filled_quantity order') = 15
    \<and> map (\<lambda>e. (ex_price e, unat (ex_quantity e))) exs = [(cents_to_price 9000, 10), (cents_to_price 11000, 5)]"
proof -
  obtain order' exs en' where run: "match_order (\<lambda>_. 0) (demo_order Sell Market 15 0) two_bids = (order', exs, en')"
    by (metis prod_cases3)
  have "offers ''TSLA'' (own_book Buy two_bids) = [(9000, 10), (11000, 10)]"
    by (simp add: two_bids_def own_book_def offers_def open_quantity_def demo_order_def)
  with orders_take_lowest_offers [OF two_bids_ok _ _ _ run] run show ?thesis
    by (simp add: demo_order_def takes_up_to_def executions_ok_def own_book_def)
qed

lemma rejecting_level:
  "\<not> acc p \<Longrightarrow> match_levels acc clk order n counter ((p, orders) # levels) = (order, n, counter, (p, orders) # levels, [])"
  by simp

lemma offers_same: "map_of b symbol = Some levels \<Longrightarrow> offers s (hash_insert symbol levels b) = offers s b"
  by (simp add: offers_def)

text \<open>A limit order to sell looks at the lowest bid only. If the lowest price level of the bids is
  below its limit, a limit, IOC or FOK order to sell is not executed at all, whatever higher bids
  there are: the bids stay as they were, and a limit order rests with its whole quantity, also
  below the best bid.\<close>

lemma sell_limit_misses_better_bids:
  assumes ok: "engine_ok en" "ho_filled_quantity order = 0" "0 < ho_quantity order"
    and kind: "ho_side order = Sell" "ho_order_type order \<in> {Limit, IOC, FOK}" "ho_price order = Some limit"
    and low: "map_of (me_buy_book en) (ho_symbol order) = Some ((lowest, orders) # levels)"
      "lowest < price_to_cents limit"
    and run: "match_order clk order en = (order', exs, en')"
  shows "exs = [] \<and> ho_filled_quantity order' = 0
    \<and> (\<forall>symbol. offers symbol (me_buy_book en') = offers symbol (me_buy_book en))
    \<and> offers (ho_symbol order) (me_sell_book en') =
        (let own = offers (ho_symbol order) (me_sell_book en)
         in if ho_order_type order = Limit
            then add_offer (price_to_cents limit) (unat (ho_quantity order)) own else own)"
proof -
  let ?acc = "acceptable_level Sell (price_to_cents limit)" and ?b = "me_buy_book en"
  let ?en1 = "en\<lparr>me_buy_book := hash_insert (ho_symbol order) ((lowest, orders) # levels) ?b\<rparr>"
  have "\<not> ?acc lowest" using low(2) by (simp add: acceptable_level_def)
  then have m: "match_opposite ?acc clk order en = (order, ho_quantity order, [], ?en1)"
    using kind(1) low(1) ok(2) rejecting_level [of ?acc lowest]
    by (simp add: match_opposite_def own_book_def set_own_book_def)
  let ?en2 = "if ho_order_type order = Limit
      then ?en1\<lparr>me_sell_book := rest_order (price_to_cents limit) order (me_sell_book en)\<rparr> else ?en1"
  have f: "fill_status order = order" using ok(2,3) by (auto simp: fill_status_def)
  have l: "match_limit_order clk order en = (order, [], ?en2)"
    using kind m ok(3) f by (simp add: match_limit_order_def Let_def own_book_def set_own_book_def)
  have "exs = [] \<and> ho_filled_quantity order' = 0 \<and> en' = ?en2"
    using run kind(2) l ok(2,3) by (auto simp: match_order_def convert_stop_def split: if_splits)
  moreover have "open_quantity order = unat (ho_quantity order)" using ok(2) by (simp add: open_quantity_def)
  moreover have "book_ok Sell (me_sell_book en)" using ok(1) by (simp add: engine_ok_def)
  ultimately show ?thesis
    using offers_same [OF low(1)] offers_rest_order [of Sell "me_sell_book en"] by (simp add: Let_def)
qed

text \<open>With bids at 90 and 110, an order to sell at 100 rests below the bid at 110.\<close>

lemma sell_limit_misses_better_bids_example:
  "\<exists>order' en'. match_order (\<lambda>_. 0) (demo_order Sell Limit 5 100) two_bids = (order', [], en')
    \<and> offers ''TSLA'' (me_sell_book en') = [(10000, 5)] \<and> offers ''TSLA'' (me_buy_book en') = [(9000, 10), (11000, 10)]"
proof -
  obtain order' exs en' where run: "match_order (\<lambda>_. 0) (demo_order Sell Limit 5 100) two_bids = (order', exs, en')"
    by (metis prod_cases3)
  have "map_of (me_buy_book two_bids) (ho_symbol (demo_order Sell Limit 5 100))
      = Some [(9000, [demo_order Buy Limit 10 90]), (11000, [demo_order Buy Limit 10 110])]"
    by (simp add: two_bids_def demo_order_def)
  from sell_limit_misses_better_bids [OF two_bids_ok _ _ _ _ _ this _ run] run show ?thesis
    by (simp add: demo_order_def two_bids_def offers_def open_quantity_def matching_engine_new_def add_offer_def)
qed

lemma offers_positive:
  assumes "levels_ok side symbol levels" shows "\<forall>x \<in> set (offers_of levels). 0 < snd x"
  using assms by (fastforce simp: offers_of_def levels_ok_def resting_ok_def open_quantity_def word_less_nat_alt)

text \<open>C27: A FOK order that is killed empties the book. If the offers within its limit do not suffice for a
  FOK order to buy, the order is returned as cancelled and without executions, but all those offers
  are gone: the orders they came from are treated as filled, and no one is told.\<close>

theorem killed_order_empties_book:
  assumes ok: "engine_ok en" "ho_filled_quantity order = 0"
    and kind: "ho_side order = Buy" "ho_order_type order = FOK" "ho_price order = Some limit"
  defines "fits \<equiv> (\<lambda>x. fst x \<le> price_to_cents limit)" and "asks \<equiv> offers (ho_symbol order) (me_sell_book en)"
  assumes short: "quantity (takeWhile fits asks) < unat (ho_quantity order)"
  shows "\<exists>en'. match_order clk order en = (order\<lparr>ho_status := Cancelled\<rparr>, [], en')
    \<and> offers (ho_symbol order) (me_sell_book en') = dropWhile fits asks"
proof -
  have up: "takes_up_to order = (\<lambda>c. c \<le> price_to_cents limit)" using kind by (auto simp: takes_up_to_def)
  then have acc: "acceptable_level Buy (price_to_cents limit) = takes_up_to order"
    by (auto simp: acceptable_level_def)
  obtain order1 n exs1 en1 where m: "match_opposite (takes_up_to order) clk order en = (order1, n, exs1, en1)"
    by (metis prod_cases4)
  have asks: "offers (ho_symbol order) (opposite_book (ho_side order) e) = offers (ho_symbol order) (me_sell_book e)" for e
    using kind(1) by (simp add: own_book_def)
  note matched = matched_offers [OF ok m, unfolded asks, folded asks_def]
  have "\<forall>x \<in> set asks. 0 < snd x"
    using ok(1) by (auto simp: asks_def offers_def engine_ok_def split: option.splits dest!: book_level offers_positive)
  from left_over_exceeded [OF this, of "takes_up_to order" "unat (ho_quantity order)"] short
  have left: "offers (ho_symbol order) (me_sell_book en1) = dropWhile fits asks"
    and less: "unat (ho_filled_quantity order1) < unat (ho_quantity order)"
    using matched(1,3) by (simp_all add: up fits_def)
  have "match_limit_order clk order en = (fill_status order1, exs1, en1)"
    using kind m only_filled [OF matched(5)] by (simp add: match_limit_order_def acc Let_def)
  moreover have "ho_filled_quantity (fill_status order1) \<noteq> ho_quantity order"
    using less by (auto simp: fill_status_def)
  ultimately show ?thesis
    using kind left by (simp add: match_order_def convert_stop_def)
qed

definition one_ask :: matching_engine where
  "one_ask = matching_engine_new\<lparr>me_sell_book := [(''TSLA'', [(9000, [demo_order Sell Limit 5 90])])]\<rparr>"

theorem killed_order_empties_book_witness:
  "\<exists>en'. match_order (\<lambda>_. 0) (demo_order Buy FOK 10 100) one_ask
      = ((demo_order Buy FOK 10 100)\<lparr>ho_status := Cancelled\<rparr>, [], en')
    \<and> offers ''TSLA'' (me_sell_book one_ask) = [(9000, 5)] \<and> offers ''TSLA'' (me_sell_book en') = []"
proof -
  have ok: "engine_ok one_ask"
    by (simp add: engine_ok_def book_ok_def one_ask_def matching_engine_new_def levels_ok_def resting_ok_def demo_order_def)
  have asks: "offers ''TSLA'' (me_sell_book one_ask) = [(9000, 5)]"
    by (simp add: one_ask_def offers_def open_quantity_def demo_order_def)
  with killed_order_empties_book [OF ok, of "demo_order Buy FOK 10 100" "Fin 100" "\<lambda>_. 0"] show ?thesis
    by (simp add: demo_order_def)
qed

text \<open>A stop order that is not triggered, or whose symbol has no market price, is returned as it came, and
  the engine keeps nothing of it: no later price can trigger it.\<close>

lemma untriggered_stop_is_forgotten:
  assumes "ho_order_type order = Stop \<or> ho_order_type order = StopLimit"
    and "\<forall>p. get_market_price (ho_symbol order) en = Some p \<longrightarrow> \<not> stop_triggered p order"
  shows "match_order clk order en = (order, [], en)"
  using assms by (auto simp: match_order_def convert_stop_def split: option.splits)

text \<open>Prices keep their cents. Every number of cents up to \<open>2 ^ 50\<close> is converted to a price within a
  relative error of \<open>2 ^ - 53\<close>, and back to itself; in particular an execution's price names its
  level.\<close>

lemma cents_roundtrip:
  assumes "0 < unat c" "unat c \<le> 2 ^ 50"
  shows "price_to_cents (cents_to_price c) = c
    \<and> (\<exists>p. cents_to_price c = Fin p \<and> \<bar>p - of_nat (unat c) / 100\<bar> \<le> of_nat (unat c) / 100 / 2 ^ 53)"
  using cents_of_price [OF assms(2)] price_of_cents [OF assms] by simp

lemma cents_roundtrip_example: "price_to_cents (cents_to_price 14050) = 14050"
  using cents_roundtrip [of 14050] by simp

end
