(* ===== verification/Trading_Server.thy ===== *)
theory Trading_Server
  imports Matching_Engine Mailbox_Processor
begin

text \<open>
  The processors of \<open>examples/hft_trading_server.rs\<close>, which connect the generator of market data, the
  matching engine and a strategy to mailboxes, and the loop that sums up the executions. The JSON
  library is a parameter: writing these types never fails, reading may. Commands are ASCII.
\<close>

section \<open>Processors\<close>

record hft_json =
  hj_quote :: "hft_quote \<Rightarrow> bytes"
  hj_trade :: "hft_trade \<Rightarrow> bytes"
  hj_order :: "hft_order \<Rightarrow> bytes"
  hj_execution :: "execution \<Rightarrow> bytes"
  hj_parse_quote :: "bytes \<Rightarrow> string + hft_quote"
  hj_parse_order :: "bytes \<Rightarrow> string + hft_order"
  hj_parse_execution :: "bytes \<Rightarrow> string + execution"

text \<open>\<open>split(c)\<close>.\<close>

fun split_on :: "'a \<Rightarrow> 'a list \<Rightarrow> 'a list list" where
  "split_on c [] = [[]]"
| "split_on c (x # xs) =
     (if x = c then [] # split_on c xs
      else case split_on c xs of [] \<Rightarrow> [[x]] | part # parts \<Rightarrow> (x # part) # parts)"

definition command_text :: "bytes \<Rightarrow> string" where
  "command_text body = map (\<lambda>b. char_of (unat b)) body"

definition starts_with :: "string \<Rightarrow> string \<Rightarrow> bool" where
  "starts_with prefix s \<longleftrightarrow> take (length prefix) s = prefix"

definition command_exchange :: "string list \<Rightarrow> exchange" where
  "command_exchange parts = (if length parts \<ge> 3 \<and> parts ! 2 = ''NYSE'' then NYSE else NASDAQ)"

definition market_data_process ::
    "hft_json \<Rightarrow> processor_world \<Rightarrow> market_draw \<Rightarrow> 'df processor_context \<Rightarrow> mailbox_message
      \<Rightarrow> market_data_generator \<Rightarrow> mailbox_system
      \<Rightarrow> ((processor_error + unit) \<times> market_data_generator \<times> mailbox_system) option" where
  "market_data_process hj world draw ctx msg g sys =
     (let command = command_text (mm_body msg); parts = split_on (CHR '':'') command
      in if starts_with ''QUOTE:'' command then
           (if length parts \<ge> 2 then
              map_option (\<lambda>(res, sys'). (res, g, sys'))
                (ctx_send_to (pw_out world) (pw_stamps world 0) ''quotes@hft''
                  (hj_quote hj (generate_quote draw (parts ! 1) (command_exchange parts) g)) ctx sys)
            else Some (Inr (), g, sys))
         else if starts_with ''TRADE:'' command then
           (if length parts \<ge> 2 then
              let (trade, g') = generate_trade draw (parts ! 1) (command_exchange parts) g
              in map_option (\<lambda>(res, sys'). (res, g', sys'))
                   (ctx_send_to (pw_out world) (pw_stamps world 0) ''trades@hft'' (hj_trade hj trade) ctx sys)
            else Some (Inr (), g, sys))
         else Some (Inr (), g, sys))"

fun send_executions ::
    "hft_json \<Rightarrow> processor_world \<Rightarrow> nat \<Rightarrow> execution list \<Rightarrow> 'df processor_context \<Rightarrow> mailbox_system
      \<Rightarrow> processor_result" where
  "send_executions hj world i [] ctx sys = Some (Inr (), sys)"
| "send_executions hj world i (e # es) ctx sys =
     (case ctx_send_to (pw_out world) (pw_stamps world i) ''executions@hft'' (hj_execution hj e) ctx sys of
        None \<Rightarrow> None
      | Some (Inl err, sys') \<Rightarrow> Some (Inl err, sys')
      | Some (Inr _, sys') \<Rightarrow> send_executions hj world (i + 1) es ctx sys')"

definition order_process ::
    "hft_json \<Rightarrow> processor_world \<Rightarrow> (u64 \<Rightarrow> u64) \<Rightarrow> risk_limits \<Rightarrow> 'df processor_context \<Rightarrow> mailbox_message
      \<Rightarrow> matching_engine \<Rightarrow> mailbox_system \<Rightarrow> ((processor_error + unit) \<times> matching_engine \<times> mailbox_system) option" where
  "order_process hj world clk limits ctx msg en sys =
     (case hj_parse_order hj (mm_body msg) of
        Inl e \<Rightarrow> Some (Inr (), en, sys)
      | Inr order0 \<Rightarrow>
          let (order_id, en1) = get_order_id en;
              order = order0\<lparr>ho_order_id := order_id, ho_status := New, ho_filled_quantity := 0\<rparr>
          in if ho_quantity order > rl_max_order_size limits then Some (Inr (), en1, sys)
             else let (matched_order, executions, en2) = match_order clk order en1
                  in (case send_executions hj world 0 executions ctx sys of
                        None \<Rightarrow> None
                      | Some (Inl e, sys1) \<Rightarrow> Some (Inl e, en2, sys1)
                      | Some (Inr _, sys1) \<Rightarrow>
                          map_option (\<lambda>(res, sys2). (res, en2, sys2))
                            (ctx_send_to (pw_out world) (pw_stamps world (length executions)) ''order-status@hft''
                              (hj_order hj matched_order) ctx sys1)))"

definition strategy_order :: "string \<Rightarrow> hft_quote \<Rightarrow> hft_order" where
  "strategy_order strategy_id q =
     \<lparr>ho_order_id = 0, ho_symbol = hq_symbol q, ho_side = Buy, ho_order_type = Limit, ho_quantity = 100,
      ho_price = Some (hq_bid_price q), ho_stop_price = None, ho_filled_quantity = 0, ho_status = New,
      ho_timestamp = hq_timestamp q, ho_strategy_id = strategy_id\<rparr>"

definition strategy_process ::
    "hft_json \<Rightarrow> processor_world \<Rightarrow> string \<Rightarrow> 'df processor_context \<Rightarrow> mailbox_message \<Rightarrow> mailbox_system
      \<Rightarrow> processor_result" where
  "strategy_process hj world strategy_id ctx msg sys =
     (case hj_parse_quote hj (mm_body msg) of
        Inl _ \<Rightarrow> Some (Inr (), sys)
      | Inr q \<Rightarrow>
          let mid_price = f64_div (f64_add (hq_bid_price q) (hq_ask_price q)) (Fin 2)
          in if hq_symbol q = ''AAPL'' \<and> f64_less mid_price (Fin 179)
             then ctx_send_to (pw_out world) (pw_stamps world 0) ''orders@hft''
                    (hj_order hj (strategy_order strategy_id q)) ctx sys
             else Some (Inr (), sys))"

text \<open>The loop of \<open>main\<close> that counts the executions in their mailbox. (A message that is no execution is
  skipped.)\<close>

partial_function (option) count_executions ::
    "hft_json \<Rightarrow> outside \<Rightarrow> mailbox_system \<Rightarrow> mailbox \<Rightarrow> nat \<Rightarrow> (nat \<times> mailbox) option" where
  "count_executions hj out sys mb n =
     (case receive out sys mb of
        (Inr (Some msg), mb') \<Rightarrow>
          count_executions hj out sys mb'
            (case hj_parse_execution hj (mm_body msg) of Inr _ \<Rightarrow> n + 1 | Inl _ \<Rightarrow> n)
      | (_, mb') \<Rightarrow> Some (n, mb'))"

section \<open>Messages sent in a row\<close>

text \<open>A message can be sent from the context, and its bytes are added to the recipient's.\<close>

lemma ctx_send_to_holds:
  assumes "map_of (mx_mailboxes sys) (px_address ctx) \<noteq> None" "px_address ctx \<noteq> []" "to_addr \<noteq> []"
    and "mailbox_holds out sys to_addr recs" "os_willing (out_os out)"
    and "to_json (out_json out) (mailbox_message_new stamp (px_address ctx) to_addr body) = Inr b"
    and "length (concat recs) + length b \<le> 64 * 1024 * 1024" "length recs + 1 < 2 ^ 64"
  shows "\<exists>sys'. ctx_send_to out stamp to_addr body ctx sys = Some (Inr (), sys')
    \<and> mailbox_holds out sys' to_addr (recs @ [b])
    \<and> (\<forall>a. a \<noteq> to_addr \<longrightarrow> map_of (mx_mailboxes sys') a = map_of (mx_mailboxes sys) a)
    \<and> map_of (mx_mailboxes sys') (px_address ctx) \<noteq> None"
proof -
  let ?m = "mailbox_message_new stamp (px_address ctx) to_addr body"
  have to_addr: "mm_to ?m = to_addr" by (simp add: mailbox_message_new_def)
  from route_message_ok [of out sys ?m recs b] assms(4-8) to_addr obtain sys' where
    sys': "route_message out ?m sys = Some (Inr (mm_id ?m), sys')" "mailbox_holds out sys' to_addr (recs @ [b])"
    "\<forall>a. a \<noteq> to_addr \<longrightarrow> map_of (mx_mailboxes sys') a = map_of (mx_mailboxes sys) a" by auto
  moreover have "map_of (mx_mailboxes sys') (px_address ctx) \<noteq> None"
    using sys'(2,3) assms(1) mailbox_present by (cases "px_address ctx = to_addr") auto
  ultimately show ?thesis using ctx_send_to_present [OF assms(1-3) sys'(1)] by blast
qed

lemma send_executions_holds:
  assumes "map_of (mx_mailboxes sys) (px_address ctx) \<noteq> None" "px_address ctx \<noteq> []"
    and "mailbox_holds (pw_out world) sys ''executions@hft'' recs" "os_willing (out_os (pw_out world))"
    and "length bs = length es" "\<forall>j < length es. to_json (out_json (pw_out world))
      (mailbox_message_new (pw_stamps world (i + j)) (px_address ctx) ''executions@hft'' (hj_execution hj (es ! j))) = Inr (bs ! j)"
    and "length (concat (recs @ bs)) \<le> 64 * 1024 * 1024" "length recs + length bs < 2 ^ 64"
  shows "\<exists>sys'. send_executions hj world i es ctx sys = Some (Inr (), sys')
    \<and> mailbox_holds (pw_out world) sys' ''executions@hft'' (recs @ bs)
    \<and> (\<forall>a. a \<noteq> ''executions@hft'' \<longrightarrow> map_of (mx_mailboxes sys') a = map_of (mx_mailboxes sys) a)
    \<and> map_of (mx_mailboxes sys') (px_address ctx) \<noteq> None"
  using assms
proof (induction es arbitrary: i sys recs bs)
  case Nil
  then show ?case by auto
next
  case (Cons e es)
  from Cons.prems(5) obtain b bs' where bs: "bs = b # bs'" by (cases bs) auto
  have "length (concat recs) + length b \<le> 64 * 1024 * 1024" "length recs + 1 < 2 ^ 64"
    using Cons.prems(7,8) by (simp_all add: bs)
  note room = this
  have first: "to_json (out_json (pw_out world)) (mailbox_message_new (pw_stamps world i) (px_address ctx)
      ''executions@hft'' (hj_execution hj e)) = Inr b"
    using Cons.prems(6) [rule_format, of 0] by (simp add: bs)
  from ctx_send_to_holds [OF Cons.prems(1,2) _ Cons.prems(3,4) first room] obtain sys1 where
    sys1: "ctx_send_to (pw_out world) (pw_stamps world i) ''executions@hft'' (hj_execution hj e) ctx sys = Some (Inr (), sys1)"
    "mailbox_holds (pw_out world) sys1 ''executions@hft'' (recs @ [b])"
    "\<forall>a. a \<noteq> ''executions@hft'' \<longrightarrow> map_of (mx_mailboxes sys1) a = map_of (mx_mailboxes sys) a"
    "map_of (mx_mailboxes sys1) (px_address ctx) \<noteq> None"
    by blast
  have "\<forall>j < length es. to_json (out_json (pw_out world)) (mailbox_message_new (pw_stamps world (i + 1 + j))
      (px_address ctx) ''executions@hft'' (hj_execution hj (es ! j))) = Inr (bs' ! j)"
    using Cons.prems(6) by (auto simp: bs)
  from Cons.IH [OF sys1(4) Cons.prems(2) sys1(2) Cons.prems(4) _ this] Cons.prems(5,7,8) sys1(1,3)
  show ?case by (auto simp: bs)
qed

section \<open>Properties\<close>

text \<open>What the order processor hands to the engine.\<close>

definition numbered_order :: "hft_order \<Rightarrow> matching_engine \<Rightarrow> hft_order" where
  "numbered_order order en =
     order\<lparr>ho_order_id := me_order_counter en + 1, ho_status := New, ho_filled_quantity := 0\<rparr>"

lemma order_process_accepted:
  assumes "hj_parse_order hj (mm_body msg) = Inr order0" "ho_quantity order0 \<le> rl_max_order_size limits"
    and "match_order clk (numbered_order order0 en) (snd (get_order_id en)) = (order', exs, en')"
    and "send_executions hj world 0 exs ctx sys = Some (Inr (), sys1)"
    and "ctx_send_to (pw_out world) (pw_stamps world (length exs)) ''order-status@hft'' (hj_order hj order') ctx sys1
      = Some (Inr (), sys2)"
  shows "order_process hj world clk limits ctx msg en sys = Some (Inr (), en', sys2)"
  using assms by (simp add: order_process_def get_order_id_def numbered_order_def Let_def)

text \<open>The order processor reports what the engine did. For an order within the size limit, it numbers
  the order, has it matched, and adds one message for each execution, in their order, to the mailbox
  of executions and one with the order to the mailbox of order statuses. (The system refuses
  nothing, and the messages fit their queues.)\<close>

lemma order_reports_are_sent:
  assumes accepted: "hj_parse_order hj (mm_body msg) = Inr order0" "ho_quantity order0 \<le> rl_max_order_size limits"
    and matched: "match_order clk (numbered_order order0 en) (snd (get_order_id en)) = (order', exs, en')"
    and ctx: "map_of (mx_mailboxes sys) (px_address ctx) \<noteq> None" "px_address ctx \<noteq> []" "os_willing (out_os (pw_out world))"
    and boxes: "mailbox_holds (pw_out world) sys ''executions@hft'' recs" "mailbox_holds (pw_out world) sys ''order-status@hft'' srecs"
    and reports: "length bs = length exs" "\<forall>j < length exs. to_json (out_json (pw_out world))
        (mailbox_message_new (pw_stamps world j) (px_address ctx) ''executions@hft'' (hj_execution hj (exs ! j))) = Inr (bs ! j)"
      "to_json (out_json (pw_out world)) (mailbox_message_new (pw_stamps world (length exs)) (px_address ctx)
        ''order-status@hft'' (hj_order hj order')) = Inr sb"
    and room: "length (concat (recs @ bs)) \<le> 64 * 1024 * 1024" "length recs + length bs < 2 ^ 64"
      "length (concat srecs) + length sb \<le> 64 * 1024 * 1024" "length srecs + 1 < 2 ^ 64"
  shows "\<exists>sys'. order_process hj world clk limits ctx msg en sys = Some (Inr (), en', sys')
    \<and> mailbox_holds (pw_out world) sys' ''executions@hft'' (recs @ bs)
    \<and> mailbox_holds (pw_out world) sys' ''order-status@hft'' (srecs @ [sb])"
proof -
  from reports(2) have bs: "\<forall>j < length exs. to_json (out_json (pw_out world)) (mailbox_message_new (pw_stamps world (0 + j))
      (px_address ctx) ''executions@hft'' (hj_execution hj (exs ! j))) = Inr (bs ! j)" by simp
  from send_executions_holds [OF ctx(1,2) boxes(1) ctx(3) reports(1) bs room(1,2)] obtain sys1 where
    sys1: "send_executions hj world 0 exs ctx sys = Some (Inr (), sys1)"
    "mailbox_holds (pw_out world) sys1 ''executions@hft'' (recs @ bs)"
    "\<forall>a. a \<noteq> ''executions@hft'' \<longrightarrow> map_of (mx_mailboxes sys1) a = map_of (mx_mailboxes sys) a"
    "map_of (mx_mailboxes sys1) (px_address ctx) \<noteq> None" by blast
  have "mailbox_holds (pw_out world) sys1 ''order-status@hft'' srecs"
    using sys1(3) by (intro holds_same_queue [OF _ boxes(2)]) simp
  from ctx_send_to_holds [OF sys1(4) ctx(2) _ this ctx(3) reports(3) room(3,4)] obtain sys2 where
    sys2: "ctx_send_to (pw_out world) (pw_stamps world (length exs)) ''order-status@hft'' (hj_order hj order') ctx sys1 = Some (Inr (), sys2)"
    "mailbox_holds (pw_out world) sys2 ''order-status@hft'' (srecs @ [sb])"
    "\<forall>a. a \<noteq> ''order-status@hft'' \<longrightarrow> map_of (mx_mailboxes sys2) a = map_of (mx_mailboxes sys1) a" by blast
  have "mailbox_holds (pw_out world) sys2 ''executions@hft'' (recs @ bs)"
    using sys2(3) by (intro holds_same_queue [OF _ sys1(2)]) simp
  with order_process_accepted [OF accepted matched sys1(1) sys2(1)] sys2(2) show ?thesis by blast
qed

text \<open>Mailboxes for orders, executions and order statuses, and toy codecs.\<close>

definition hft_demo_json :: hft_json where
  "hft_demo_json = \<lparr>hj_quote = (\<lambda>_. [20]), hj_trade = (\<lambda>_. [21]), hj_order = (\<lambda>_. [9]),
     hj_execution = (\<lambda>e. [ucast (ex_execution_id e)]), hj_parse_quote = (\<lambda>_. Inl ''no quote''),
     hj_parse_order = (\<lambda>_. Inr (demo_order Sell Market 15 0)),
     hj_parse_execution = (\<lambda>_. Inr \<lparr>ex_execution_id = 1, ex_order_id = 1, ex_symbol = ''TSLA'', ex_side = Sell,
       ex_price = Fin 90, ex_quantity = 10, ex_timestamp = 0\<rparr>)\<rparr>"

definition hft_demo_world :: processor_world where
  "hft_demo_world = \<lparr>pw_out = \<lparr>out_crc = (\<lambda>_. 0), out_os = demo_os, out_clock = (3, 5),
       out_json = \<lparr>to_json = (\<lambda>m. Inr (mm_body m)), from_json = (\<lambda>bs. if length bs = 1
         then Inr (mailbox_message_new (''id1'', 1) ''orders@hft'' ''executions@hft'' bs) else Inl ''trailing characters'')\<rparr>\<rparr>,
     pw_stamps = (\<lambda>_. (''id1'', 1)), pw_now = 0\<rparr>"

definition hft_demo_context :: "unit processor_context" where
  "hft_demo_context = \<lparr>px_address = ''orders@hft'', px_datafusion = None, px_storage_backend = BinaryBackend\<rparr>"

lemma hft_mailboxes:
  obtains sys where "map_of (mx_mailboxes sys) ''orders@hft'' \<noteq> None"
    "mailbox_holds (pw_out hft_demo_world) sys ''executions@hft'' []" "mailbox_holds (pw_out hft_demo_world) sys ''order-status@hft'' []"
proof -
  let ?out = "pw_out hft_demo_world"
  obtain sys0 where sys0: "mailbox_system_new demo_os ''d'' = Inr sys0"
    by (simp add: mailbox_system_new_def demo_os_def)
  then have base: "mx_base_dir sys0 = ''d''" "mx_mailboxes sys0 = []"
    by (auto simp: mailbox_system_new_def demo_os_def)
  have out: "?out\<lparr>out_os := demo_os\<rparr> = ?out" by (simp add: hft_demo_world_def)
  have dirs: "\<not> contains_str ''..'' (mailbox_dir ''d'' x) \<and> CHR 0x00 \<notin> set (mailbox_dir ''d'' x)"
    if "x = ''orders@hft'' \<or> x = ''executions@hft'' \<or> x = ''order-status@hft''" for x
    using that by (auto simp: mailbox_dir_def contains_str_def)
  from create_mailbox_ok [OF sys0 refl base(1) demo_os_willing, of "''orders@hft''" ?out] base dirs [of "''orders@hft''"] out
  obtain sys1 where sys1: "mailbox_holds ?out sys1 ''orders@hft'' []" "mx_default_config sys1 = mx_default_config sys0"
    "mx_base_dir sys1 = ''d''" "\<forall>a. a \<noteq> ''orders@hft'' \<longrightarrow> map_of (mx_mailboxes sys1) a = map_of (mx_mailboxes sys0) a" by auto
  from sys1(4) base(2) have none: "map_of (mx_mailboxes sys1) ''executions@hft'' = None"
    "map_of (mx_mailboxes sys1) ''order-status@hft'' = None" by simp_all
  from create_mailbox_ok [OF sys0 sys1(2,3) demo_os_willing _ none(1), of ?out] dirs [of "''executions@hft''"] out
  obtain sys2 where sys2: "mailbox_holds ?out sys2 ''executions@hft'' []" "mx_default_config sys2 = mx_default_config sys0"
    "mx_base_dir sys2 = ''d''" "\<forall>a. a \<noteq> ''executions@hft'' \<longrightarrow> map_of (mx_mailboxes sys2) a = map_of (mx_mailboxes sys1) a" by auto
  from sys2(4) none(2) have none2: "map_of (mx_mailboxes sys2) ''order-status@hft'' = None" by simp
  from create_mailbox_ok [OF sys0 sys2(2,3) demo_os_willing _ none2, of ?out] dirs [of "''order-status@hft''"] out
  obtain sys3 where sys3: "mailbox_holds ?out sys3 ''order-status@hft'' []"
    "\<forall>a. a \<noteq> ''order-status@hft'' \<longrightarrow> map_of (mx_mailboxes sys3) a = map_of (mx_mailboxes sys2) a" by auto
  have "map_of (mx_mailboxes sys3) ''orders@hft'' = map_of (mx_mailboxes sys1) ''orders@hft''"
    "map_of (mx_mailboxes sys3) ''executions@hft'' = map_of (mx_mailboxes sys2) ''executions@hft''"
    using sys2(4) sys3(2) by simp_all
  then show ?thesis
    using that [of sys3] sys3(1) holds_same_queue [OF _ sys2(1)] mailbox_present [OF sys1(1)] by simp
qed

text \<open>The summary of the executions counts one execution at most. The loop that reads their mailbox
  stops at the first error. When exactly one execution is pending it is counted; when several are,
  the first read returns them all at once, which the JSON library refuses, and the summary is that
  there were no executions.\<close>

lemma summary_counts_single_execution:
  assumes holds: "mailbox_holds out sys (mb_address mb) (recs @ bs)" "unat (mb_read_offset mb) = length recs"
    and "\<forall>b \<in> set bs. b \<noteq> []" "length recs + 1 < 2 ^ 64"
    and one: "length bs = 1 \<Longrightarrow> from_json (out_json out) (hd bs) = Inr msg \<and> hj_parse_execution hj (mm_body msg) = Inr ex"
    and many: "1 < length bs \<Longrightarrow> from_json (out_json out) (concat bs) = Inl e"
  shows "\<exists>mb'. count_executions hj out sys mb 0 = Some (if length bs = 1 then 1 else 0, mb')"
proof -
  have stop: "\<exists>mb'. count_executions hj out sys m n = Some (n, mb')"
    if "\<exists>e mb'. receive out sys m = (Inl e, mb')" for m n
    using that by (subst count_executions.simps) auto
  have beyond: "\<exists>e mb'. receive out sys m = (Inl e, mb')"
    if "mb_address m = mb_address mb" "length (recs @ bs) \<le> unat (mb_read_offset m)" for m
    using read_next_beyond [of out sys m "recs @ bs"] holds(1) that by (auto simp: receive_def)
  consider "bs = []" | b where "bs = [b]" | "1 < length bs" by (metis One_nat_def length_0_conv length_Suc_conv less_one linorder_neqE_nat)
  then show ?thesis
  proof cases
    case 1
    then show ?thesis using stop [OF beyond [of mb]] holds(2) by simp
  next
    case (2 b)
    let ?mb = "mb\<lparr>mb_read_offset := mb_read_offset mb + 1\<rparr>"
    have "read_next out sys mb = Inr b" using read_next_last [of out sys mb recs b] holds assms(3) 2 by simp
    then have "receive out sys mb = (Inr (Some msg), ?mb)"
      using one 2 assms(3) by (simp add: receive_def mailbox_message_from_bytes_def)
    then have "count_executions hj out sys mb 0 = count_executions hj out sys ?mb 1"
      using one 2 by (subst count_executions.simps) simp
    moreover have "length (recs @ bs) \<le> unat (mb_read_offset ?mb)"
      using 2 holds(2) assms(4) by (simp add: unat_Suc64)
    ultimately show ?thesis using stop [OF beyond [of ?mb]] 2 by simp
  next
    case 3
    then obtain b bs' where bs: "bs = b # bs'" by (cases bs) auto
    have "read_next out sys mb = Inr (concat bs)"
      using read_next_pending [of out sys mb recs b bs'] holds assms(3) by (simp add: bs)
    moreover have "concat bs \<noteq> []" using assms(3) by (simp add: bs)
    ultimately have "\<exists>e mb'. receive out sys mb = (Inl e, mb')"
      using many 3 by (simp add: receive_def mailbox_message_from_bytes_def)
    then show ?thesis using stop [of mb 0] 3 by simp
  qed
qed

lemma demo_executions:
  "\<exists>order' exs en'. match_order (\<lambda>_. 0) (numbered_order (demo_order Sell Market 15 0) two_bids)
      (snd (get_order_id two_bids)) = (order', exs, en') \<and> map ex_execution_id exs = [1, 2]"
  by (simp add: numbered_order_def get_order_id_def two_bids_def engine_eval get_execution_id_def Let_def
      split: prod.splits)

text \<open>An order to sell 15 that meets two bids is reported as two executions, and the summary counts none.\<close>

lemma order_reports_are_sent_example:
  "\<exists>sys sys' en'. order_process hft_demo_json hft_demo_world (\<lambda>_. 0) \<lparr>rl_max_position_size = 10000,
        rl_max_order_size = 1000, rl_max_daily_loss = Fin 100000, rl_max_single_loss = Fin 10000\<rparr> hft_demo_context
        first_message two_bids sys = Some (Inr (), en', sys')
    \<and> mailbox_holds (pw_out hft_demo_world) sys' ''executions@hft'' [[1], [2]]
    \<and> mailbox_holds (pw_out hft_demo_world) sys' ''order-status@hft'' [[9]]"
proof -
  obtain sys where sys: "map_of (mx_mailboxes sys) (px_address hft_demo_context) \<noteq> None"
    "mailbox_holds (pw_out hft_demo_world) sys ''executions@hft'' []"
    "mailbox_holds (pw_out hft_demo_world) sys ''order-status@hft'' []"
    using hft_mailboxes by (auto simp: hft_demo_context_def)
  obtain order' exs en' where run: "match_order (\<lambda>_. 0) (numbered_order (demo_order Sell Market 15 0) two_bids)
      (snd (get_order_id two_bids)) = (order', exs, en')" and ids: "map ex_execution_id exs = [1, 2]"
    using demo_executions by (elim exE conjE) (rule that)
  have len: "length [[1], [2 :: u8]] = length exs" using arg_cong [OF ids, of length] by simp
  have bs: "\<forall>j < length exs. to_json (out_json (pw_out hft_demo_world)) (mailbox_message_new (pw_stamps hft_demo_world j)
      (px_address hft_demo_context) ''executions@hft'' (hj_execution hft_demo_json (exs ! j))) = Inr ([[1], [2]] ! j)"
    using ids by (auto simp: hft_demo_world_def hft_demo_json_def mailbox_message_new_def nth_Cons' less_Suc_eq)
  have parse: "hj_parse_order hft_demo_json (mm_body first_message) = Inr (demo_order Sell Market 15 0)"
    by (simp add: hft_demo_json_def)
  let ?limits = "\<lparr>rl_max_position_size = 10000, rl_max_order_size = 1000, rl_max_daily_loss = Fin 100000,
    rl_max_single_loss = Fin 10000\<rparr>"
  have fits: "ho_quantity (demo_order Sell Market 15 0) \<le> rl_max_order_size ?limits" by (simp add: demo_order_def)
  have ctx: "px_address hft_demo_context \<noteq> []" "os_willing (out_os (pw_out hft_demo_world))"
    by (simp_all add: hft_demo_context_def hft_demo_world_def demo_os_willing)
  have status: "to_json (out_json (pw_out hft_demo_world)) (mailbox_message_new (pw_stamps hft_demo_world (length exs))
      (px_address hft_demo_context) ''order-status@hft'' (hj_order hft_demo_json order')) = Inr [9]"
    by (simp add: hft_demo_world_def hft_demo_json_def mailbox_message_new_def)
  from order_reports_are_sent [OF parse fits run sys(1) ctx sys(2,3) len bs status] show ?thesis
    by (simp only: append_Nil) (force simp: append_Nil)
qed

lemma summary_counts_single_execution_example:
  "\<exists>sys mb'. mailbox_holds (pw_out hft_demo_world) sys ''executions@hft'' [[1], [2]]
    \<and> count_executions hft_demo_json (pw_out hft_demo_world) sys
        \<lparr>mb_address = ''executions@hft'', mb_read_offset = 0\<rparr> 0 = Some (0, mb')"
proof -
  obtain sys where "map_of (mx_mailboxes sys) ''orders@hft'' \<noteq> None"
    "mailbox_holds (pw_out hft_demo_world) sys ''executions@hft'' []"
    by (rule hft_mailboxes)
  then have sys: "map_of (mx_mailboxes sys) (px_address hft_demo_context) \<noteq> None"
    "mailbox_holds (pw_out hft_demo_world) sys ''executions@hft'' []"
    by (simp_all add: hft_demo_context_def)
  let ?e = "\<lambda>i. \<lparr>ex_execution_id = i, ex_order_id = 1, ex_symbol = ''TSLA'', ex_side = Sell,
    ex_price = Fin 90, ex_quantity = 10, ex_timestamp = 0\<rparr>"
  have "\<forall>j < length [?e 1, ?e 2]. to_json (out_json (pw_out hft_demo_world)) (mailbox_message_new (pw_stamps hft_demo_world (0 + j))
      (px_address hft_demo_context) ''executions@hft'' (hj_execution hft_demo_json ([?e 1, ?e 2] ! j))) = Inr ([[1], [2]] ! j)"
    by (auto simp: hft_demo_world_def hft_demo_json_def mailbox_message_new_def nth_Cons' less_Suc_eq)
  from send_executions_holds [OF sys(1) _ sys(2) _ _ this] obtain sys' where
    holds: "mailbox_holds (pw_out hft_demo_world) sys' ''executions@hft'' ([] @ [[1], [2]])"
    by (auto simp: hft_demo_context_def hft_demo_world_def demo_os_willing)
  have refused: "from_json (out_json (pw_out hft_demo_world)) (concat [[1], [2]]) = Inl ''trailing characters''"
    by (simp add: hft_demo_world_def)
  from summary_counts_single_execution [where mb = "\<lparr>mb_address = ''executions@hft'', mb_read_offset = 0\<rparr>"
      and out = "pw_out hft_demo_world" and sys = sys' and recs = "[]" and bs = "[[1], [2]]" and hj = hft_demo_json
      and e = "''trailing characters''"] holds refused
  show ?thesis by auto
qed

end
