(* ===== verification/Order_Book.thy ===== *)
theory Order_Book
  imports Float64 Offers "HOL-Library.Multiset"
begin

text \<open>
  The central order book of \<open>examples/two_traders_competition.rs\<close>. A side of the book is a list of
  entries, the best price first; an entry is a price, a quantity and the trader it belongs to. Sorting
  panics when it has to compare a price that is NaN, so the operations that sort return an option.
\<close>

section \<open>Data\<close>

record trader_quote =
  tq_trader_id :: string
  tq_symbol :: string
  tq_bid_price :: f64
  tq_bid_size :: i64
  tq_ask_price :: f64
  tq_ask_size :: i64
  tq_timestamp :: u64

datatype trade_side = Buy | Sell

datatype trade_order_type = Limit | Market | IOC

record trader_order =
  to_order_id :: string
  to_trader_id :: string
  to_symbol :: string
  to_side :: trade_side
  to_order_type :: trade_order_type
  to_price :: f64
  to_quantity :: i64
  to_timestamp :: u64

record book_trade =
  bt_trade_id :: string
  bt_symbol :: string
  bt_buyer_id :: string
  bt_seller_id :: string
  bt_price :: f64
  bt_quantity :: i64
  bt_timestamp :: u64

record market_update =
  mu_symbol :: string
  mu_last_price :: f64
  mu_bid_price :: f64
  mu_ask_price :: f64
  mu_volume :: i64
  mu_timestamp :: u64

record position_report =
  pr_trader_id :: string
  pr_cash :: f64
  pr_positions :: "(string \<times> i64) list"
  pr_realized_pnl :: f64
  pr_unrealized_pnl :: f64
  pr_total_equity :: f64
  pr_timestamp :: u64

type_synonym book_entry = "f64 \<times> i64 \<times> string"

record order_book =
  ob_symbol :: string
  ob_bids :: "book_entry list"
  ob_asks :: "book_entry list"
  ob_last_trade_price :: f64
  ob_trades :: "book_trade list"
  ob_trade_counter :: u64

section \<open>Operations\<close>

definition order_book_new :: "string \<Rightarrow> f64 \<Rightarrow> order_book" where
  "order_book_new symbol initial_price = \<lparr>ob_symbol = symbol, ob_bids = [], ob_asks = [],
     ob_last_trade_price = initial_price, ob_trades = [], ob_trade_counter = 0\<rparr>"

text \<open>A stable sort with a comparison of prices: descending for bids, ascending for asks.\<close>

definition bid_before :: "book_entry \<Rightarrow> book_entry \<Rightarrow> bool" where
  "bid_before a b = f64_less (fst b) (fst a)"

definition ask_before :: "book_entry \<Rightarrow> book_entry \<Rightarrow> bool" where
  "ask_before a b = f64_less (fst a) (fst b)"

fun insert_stable :: "('a \<Rightarrow> 'a \<Rightarrow> bool) \<Rightarrow> 'a \<Rightarrow> 'a list \<Rightarrow> 'a list" where
  "insert_stable before x [] = [x]"
| "insert_stable before x (y # ys) = (if before x y then x # y # ys else y # insert_stable before x ys)"

definition sort_side :: "(book_entry \<Rightarrow> book_entry \<Rightarrow> bool) \<Rightarrow> book_entry list \<Rightarrow> book_entry list option" where
  "sort_side before xs =
     (if length xs \<ge> 2 \<and> list_ex (\<lambda>x. fst x = NaN) xs then None
      else Some (foldl (\<lambda>ys x. insert_stable before x ys) [] xs))"

text \<open>\<open>push_back\<close> and \<open>sort_by\<close>.\<close>

definition push_sorted ::
    "(book_entry \<Rightarrow> book_entry \<Rightarrow> bool) \<Rightarrow> book_entry \<Rightarrow> book_entry list \<Rightarrow> book_entry list option" where
  "push_sorted before x xs = sort_side before (xs @ [x])"

definition update_quote :: "trader_quote \<Rightarrow> order_book \<Rightarrow> order_book option" where
  "update_quote q ob =
     (let others = filter (\<lambda>(_, _, i). i \<noteq> tq_trader_id q);
          bids = others (ob_bids ob); asks = others (ob_asks ob)
      in case (if 0 <s tq_bid_size q
               then push_sorted bid_before (tq_bid_price q, tq_bid_size q, tq_trader_id q) bids else Some bids) of
           None \<Rightarrow> None
         | Some bids' \<Rightarrow>
             (case (if 0 <s tq_ask_size q
                    then push_sorted ask_before (tq_ask_price q, tq_ask_size q, tq_trader_id q) asks else Some asks) of
                None \<Rightarrow> None
              | Some asks' \<Rightarrow> Some (ob\<lparr>ob_bids := bids', ob_asks := asks'\<rparr>)))"

text \<open>The loop over the other side: the remaining quantity, the entries left, the counter, and the trades.
  When an entry is not used up, nothing remains and the loop ends.\<close>

definition signed_min :: "i64 \<Rightarrow> i64 \<Rightarrow> i64" where
  "signed_min a b = (if b <s a then b else a)"

definition prices_cross :: "trader_order \<Rightarrow> f64 \<Rightarrow> bool" where
  "prices_cross order p \<longleftrightarrow> to_order_type order = Market
     \<or> (case to_side order of Buy \<Rightarrow> f64_le p (to_price order) | Sell \<Rightarrow> f64_le (to_price order) p)"

definition trade_of :: "trader_order \<Rightarrow> string \<Rightarrow> f64 \<Rightarrow> i64 \<Rightarrow> u64 \<Rightarrow> book_trade" where
  "trade_of order other_id p q counter =
     \<lparr>bt_trade_id = ''T'' @ nat_string (unat counter), bt_symbol = to_symbol order,
      bt_buyer_id = (case to_side order of Buy \<Rightarrow> to_trader_id order | Sell \<Rightarrow> other_id),
      bt_seller_id = (case to_side order of Buy \<Rightarrow> other_id | Sell \<Rightarrow> to_trader_id order),
      bt_price = p, bt_quantity = q, bt_timestamp = to_timestamp order\<rparr>"

fun match_side ::
    "trader_order \<Rightarrow> i64 \<Rightarrow> book_entry list \<Rightarrow> u64 \<Rightarrow> i64 \<times> book_entry list \<times> u64 \<times> book_trade list" where
  "match_side order remaining [] counter = (remaining, [], counter, [])"
| "match_side order remaining ((p, q, other_id) # entries) counter =
     (if \<not> 0 <s remaining then (remaining, (p, q, other_id) # entries, counter, [])
      else if prices_cross order p then
        let trade_qty = signed_min remaining q; trade = trade_of order other_id p trade_qty (counter + 1)
        in if q <=s trade_qty
           then let (remaining', entries', counter', trades) =
                      match_side order (remaining - trade_qty) entries (counter + 1)
                in (remaining', entries', counter', trade # trades)
           else (remaining - trade_qty, (p, q - trade_qty, other_id) # entries, counter + 1, [trade])
      else (remaining, (p, q, other_id) # entries, counter, []))"

definition match_trader_order :: "trader_order \<Rightarrow> order_book \<Rightarrow> (book_trade list \<times> order_book) option" where
  "match_trader_order order ob =
     (let (remaining, entries, counter, trades) = match_side order (to_quantity order)
            (case to_side order of Buy \<Rightarrow> ob_asks ob | Sell \<Rightarrow> ob_bids ob) (ob_trade_counter ob);
          last = (if trades = [] then ob_last_trade_price ob else bt_price (List.last trades));
          ob1 = ob\<lparr>ob_trades := ob_trades ob @ trades, ob_last_trade_price := last, ob_trade_counter := counter\<rparr>;
          ob2 = (case to_side order of Buy \<Rightarrow> ob1\<lparr>ob_asks := entries\<rparr> | Sell \<Rightarrow> ob1\<lparr>ob_bids := entries\<rparr>)
      in if 0 <s remaining \<and> to_order_type order = Limit
         then (case to_side order of
                 Buy \<Rightarrow> map_option (\<lambda>bids. (trades, ob2\<lparr>ob_bids := bids\<rparr>))
                   (push_sorted bid_before (to_price order, remaining, to_trader_id order) (ob_bids ob2))
               | Sell \<Rightarrow> map_option (\<lambda>asks. (trades, ob2\<lparr>ob_asks := asks\<rparr>))
                   (push_sorted ask_before (to_price order, remaining, to_trader_id order) (ob_asks ob2)))
         else Some (trades, ob2))"

definition get_market_update :: "u64 \<Rightarrow> order_book \<Rightarrow> market_update" where
  "get_market_update timestamp ob =
     \<lparr>mu_symbol = ob_symbol ob, mu_last_price = ob_last_trade_price ob,
      mu_bid_price = (case ob_bids ob of (p, _) # _ \<Rightarrow> p | [] \<Rightarrow> f64_sub (ob_last_trade_price ob) (f64_lit 1 10)),
      mu_ask_price = (case ob_asks ob of (p, _) # _ \<Rightarrow> p | [] \<Rightarrow> f64_add (ob_last_trade_price ob) (f64_lit 1 10)),
      mu_volume = sum_list (map bt_quantity (ob_trades ob)), mu_timestamp = timestamp\<rparr>"

definition get_spread :: "order_book \<Rightarrow> f64" where
  "get_spread ob =
     (case (ob_bids ob, ob_asks ob) of
        ((bid, _) # _, (ask, _) # _) \<Rightarrow> f64_sub ask bid
      | _ \<Rightarrow> f64_lit 1 10)"

section \<open>Sorted sides\<close>

lemma f64_less_trans: "f64_less a b \<Longrightarrow> f64_less b c \<Longrightarrow> f64_less a c"
  by (cases a; cases b; cases c; simp)

lemma f64_less_asym: "f64_less a b \<Longrightarrow> \<not> f64_less b a"
  by (cases a; cases b; simp)

text \<open>An order in which a side is sorted.\<close>

definition strict_before :: "('a \<Rightarrow> 'a \<Rightarrow> bool) \<Rightarrow> bool" where
  "strict_before before \<longleftrightarrow> (\<forall>a b. before a b \<longrightarrow> \<not> before b a) \<and> (\<forall>a b c. before a b \<longrightarrow> before b c \<longrightarrow> before a c)"

lemma strict_sides [simp]: "strict_before bid_before" "strict_before ask_before"
  by (auto simp: strict_before_def bid_before_def ask_before_def dest: f64_less_asym f64_less_trans)

definition side_ok :: "(book_entry \<Rightarrow> book_entry \<Rightarrow> bool) \<Rightarrow> book_entry list \<Rightarrow> bool" where
  "side_ok before xs \<longleftrightarrow> sorted_wrt (\<lambda>a b. \<not> before b a) xs \<and> (\<forall>e \<in> set xs. 0 <s fst (snd e))"

lemma set_insert_stable [simp]: "set (insert_stable before x ys) = insert x (set ys)"
  by (induction ys) auto

lemma mset_insert_stable [simp]: "mset (insert_stable before x ys) = add_mset x (mset ys)"
  by (induction ys) auto

lemma sorted_insert_stable:
  assumes "strict_before before" "sorted_wrt (\<lambda>a b. \<not> before b a) ys"
  shows "sorted_wrt (\<lambda>a b. \<not> before b a) (insert_stable before x ys)"
  using assms(2)
proof (induction ys)
  case (Cons y ys)
  have order: "before x y \<Longrightarrow> \<not> before y x" "before z x \<Longrightarrow> before x y \<Longrightarrow> before z y" for z
    using assms(1) unfolding strict_before_def by blast+
  show ?case
  proof (cases "before x y")
    case True
    then have "\<forall>z \<in> set (y # ys). \<not> before z x" using Cons.prems order by auto
    with True Cons.prems show ?thesis by simp
  next
    case False
    with Cons show ?thesis by simp
  qed
qed simp

lemma insertion_sort:
  assumes "strict_before before" "sorted_wrt (\<lambda>a b. \<not> before b a) ys"
  shows "sorted_wrt (\<lambda>a b. \<not> before b a) (foldl (\<lambda>ys x. insert_stable before x ys) ys xs)
    \<and> mset (foldl (\<lambda>ys x. insert_stable before x ys) ys xs) = mset xs + mset ys"
  using assms(2)
proof (induction xs arbitrary: ys)
  case (Cons x xs)
  from Cons.IH [OF sorted_insert_stable [OF assms(1) Cons.prems]] show ?case by simp
qed simp

text \<open>Sorting a sorted list leaves it, and an entry pushed to it goes behind those of its price.\<close>

lemma insert_at_end: "\<forall>y \<in> set ys. \<not> before x y \<Longrightarrow> insert_stable before x ys = ys @ [x]"
  by (induction ys) auto

lemma sort_sorted:
  assumes "sorted_wrt (\<lambda>a b. \<not> before b a) (ys @ xs)"
  shows "foldl (\<lambda>ys x. insert_stable before x ys) ys xs = ys @ xs"
  using assms
proof (induction xs arbitrary: ys)
  case (Cons x xs)
  then have "insert_stable before x ys = ys @ [x]" by (intro insert_at_end) (auto simp: sorted_wrt_append)
  with Cons.IH [of "ys @ [x]"] Cons.prems show ?case by simp
qed simp

lemma push_sorted_ok:
  assumes "strict_before before" "side_ok before xs" "push_sorted before x xs = Some ys" "0 <s fst (snd x)"
  shows "side_ok before ys \<and> mset ys = add_mset x (mset xs)"
proof -
  have "sorted_wrt (\<lambda>a b. \<not> before b a) ys \<and> mset ys = add_mset x (mset xs)"
    using insertion_sort [OF assms(1), of "[]" "xs @ [x]"] assms(3)
    by (auto simp: push_sorted_def sort_side_def split: if_splits)
  moreover from this have "set ys = insert x (set xs)" by (metis set_mset_add_mset_insert set_mset_mset)
  ultimately show ?thesis using assms(2,4) by (auto simp: side_ok_def)
qed

lemma push_sorted_value:
  assumes "side_ok before xs" "push_sorted before x xs = Some ys"
  shows "ys = insert_stable before x xs"
proof -
  have "foldl (\<lambda>ys x. insert_stable before x ys) [] xs = xs"
    using sort_sorted [of before "[]" xs] assms(1) by (simp add: side_ok_def)
  then show ?thesis using assms(2) by (auto simp: push_sorted_def sort_side_def split: if_splits)
qed

section \<open>Matching takes from the best price\<close>

definition entry_offer :: "book_entry \<Rightarrow> (f64 \<times> string) \<times> nat" where
  "entry_offer e = (case e of (p, q, i) \<Rightarrow> ((p, i), nat (sint q)))"

text \<open>The trades for what was taken, numbered from the counter.\<close>

fun trades_for :: "trader_order \<Rightarrow> u64 \<Rightarrow> ((f64 \<times> string) \<times> nat) list \<Rightarrow> book_trade list" where
  "trades_for order counter [] = []"
| "trades_for order counter (((p, i), q) # takes) =
     trade_of order i p (of_nat q) (counter + 1) # trades_for order (counter + 1) takes"

lemma sint_diff:
  fixes a b :: i64
  assumes "0 \<le> sint b" "sint b \<le> sint a"
  shows "sint (a - b) = sint a - sint b"
proof -
  have "sint a < 2 ^ 63" using sint_lt [of a] by simp
  with assms show ?thesis by (simp add: sint_word_ariths signed_take_bit_int_eq_self)
qed

lemma sint_inj: "sint a = sint b \<Longrightarrow> a = b"
  by (rule signed_word_eqI)

lemma signed_min_left: "sint b \<le> sint a \<Longrightarrow> signed_min a b = b"
  by (auto simp: signed_min_def word_sless_alt intro: sint_inj)

lemma signed_min_right: "sint a < sint b \<Longrightarrow> signed_min a b = a"
  by (auto simp: signed_min_def word_sless_alt)

lemma of_nat_nat_sint: "0 \<le> sint q \<Longrightarrow> of_nat (nat (sint q)) = (q :: i64)"
  by simp

text \<open>One step of the loop.\<close>

lemma match_side_step:
  assumes "0 < sint remaining" "0 < sint q" "prices_cross order p"
  shows "sint q \<le> sint remaining \<Longrightarrow> match_side order (remaining - q) entries (counter + 1) = (n, es, c, ts) \<Longrightarrow>
      match_side order remaining ((p, q, i) # entries) counter = (n, es, c, trade_of order i p q (counter + 1) # ts)"
    and "sint remaining < sint q \<Longrightarrow> match_side order remaining ((p, q, i) # entries) counter
      = (0, (p, q - remaining, i) # entries, counter + 1, [trade_of order i p remaining (counter + 1)])"
  using assms by (simp_all add: signed_min_left signed_min_right word_sless_alt word_sle_eq)

lemma match_side_stop:
  "\<not> (0 <s remaining \<and> prices_cross order p) \<Longrightarrow>
    match_side order remaining ((p, q, i) # entries) counter = (remaining, (p, q, i) # entries, counter, [])"
  by auto

lemma match_side_takes:
  assumes "\<forall>e \<in> set entries. 0 <s fst (snd e)"
    and "match_side order remaining entries counter = (remaining', entries', counter', trades)"
  defines "takes \<equiv> taken (\<lambda>x. prices_cross order (fst x)) (nat (sint remaining)) (map entry_offer entries)"
  shows "map entry_offer entries' = left_over (\<lambda>x. prices_cross order (fst x)) (nat (sint remaining)) (map entry_offer entries)
    \<and> trades = trades_for order counter takes
    \<and> nat (sint remaining') = nat (sint remaining) - quantity takes
    \<and> counter' = counter + of_nat (length trades) \<and> (\<forall>e \<in> set entries'. 0 <s fst (snd e))"
  using assms(1,2) unfolding takes_def
proof (induction entries arbitrary: remaining counter remaining' entries' counter' trades)
  case Nil
  then show ?case by simp
next
  case (Cons e entries)
  obtain p q i where e: "e = (p, q, i)" by (cases e)
  have q: "0 < sint q" using Cons.prems(1) by (simp add: e word_sless_alt)
  consider "\<not> 0 <s remaining \<or> \<not> prices_cross order p"
    | "0 < sint remaining" "prices_cross order p" "sint q \<le> sint remaining"
    | "0 < sint remaining" "prices_cross order p" "sint remaining < sint q" by (force simp: word_sless_alt)
  then show ?case
  proof cases
    case 1
    then have "match_side order remaining (e # entries) counter = (remaining, e # entries, counter, [])"
      unfolding e by (intro match_side_stop) blast
    with 1 Cons.prems show ?thesis by (auto simp: e entry_offer_def word_sless_alt)
  next
    case 2
    obtain n es c ts where rest: "match_side order (remaining - q) entries (counter + 1) = (n, es, c, ts)"
      by (metis prod_cases4)
    have d: "nat (sint (remaining - q)) = nat (sint remaining) - nat (sint q)"
      using 2 q by (simp add: sint_diff nat_diff_distrib)
    have "\<forall>e \<in> set entries. 0 <s fst (snd e)" using Cons.prems(1) by simp
    note IH = Cons.IH [OF this rest, unfolded d]
    have "match_side order remaining (e # entries) counter = (n, es, c, trade_of order i p q (counter + 1) # ts)"
      unfolding e by (rule match_side_step(1) [OF 2(1) q 2(2,3) rest])
    with Cons.prems(2) have r: "remaining' = n" "entries' = es" "counter' = c"
      "trades = trade_of order i p q (counter + 1) # ts" by simp_all
    have "nat (sint q) \<le> nat (sint remaining)" using 2 by (simp add: nat_mono)
    then show ?thesis
      using IH 2(1,2) q unfolding r by (simp add: e entry_offer_def of_nat_nat_sint min_absorb2)
  next
    case 3
    have d: "nat (sint (q - remaining)) = nat (sint q) - nat (sint remaining)" "0 < sint (q - remaining)"
      using 3 q by (simp_all add: sint_diff nat_diff_distrib)
    have "match_side order remaining (e # entries) counter
        = (0, (p, q - remaining, i) # entries, counter + 1, [trade_of order i p remaining (counter + 1)])"
      unfolding e by (rule match_side_step(2) [OF 3(1) q 3(2,3)])
    with Cons.prems(2) have r: "remaining' = 0" "entries' = (p, q - remaining, i) # entries" "counter' = counter + 1"
      "trades = [trade_of order i p remaining (counter + 1)]" by auto
    have "\<not> nat (sint q) \<le> nat (sint remaining)" using 3 q by (simp add: nat_le_eq_zle)
    then show ?thesis
      using 3(1,2) d Cons.prems(1) unfolding r
      by (simp add: e entry_offer_def of_nat_nat_sint min_absorb1 word_sless_alt)
  qed
qed

lemma match_side_sorted:
  assumes "side_ok before entries" "before = bid_before \<or> before = ask_before"
    and "match_side order remaining entries counter = (remaining', entries', counter', trades)"
  shows "side_ok before entries'"
proof -
  have pos: "\<forall>e \<in> set entries. 0 <s fst (snd e)" using assms(1) by (simp add: side_ok_def)
  note takes = match_side_takes [OF this assms(3)]
  obtain k where "map fst (map entry_offer entries') = drop k (map fst (map entry_offer entries))"
    using takes left_over_names [of "\<lambda>x. prices_cross order (fst x)"] by metis
  then have "map fst (map fst (map entry_offer entries')) = map fst (drop k (map fst (map entry_offer entries)))" by simp
  then have names: "map fst entries' = drop k (map fst entries)"
    by (simp add: entry_offer_def comp_def case_prod_beta drop_map)
  have "sorted_wrt less (map fst xs) \<longrightarrow> sorted_wrt less (drop k (map fst xs))" for less :: "f64 \<Rightarrow> f64 \<Rightarrow> bool" and xs :: "book_entry list"
    by (metis append_take_drop_id sorted_wrt_append)
  with names assms(1,2) have "sorted_wrt (\<lambda>a b. \<not> before b a) entries'"
    by (auto simp: side_ok_def bid_before_def ask_before_def sorted_wrt_map [symmetric, where f = fst and R = "\<lambda>p p'. \<not> f64_less p p'"]
        sorted_wrt_map [symmetric, where f = fst and R = "\<lambda>p p'. \<not> f64_less p' p"])
  with takes show ?thesis by (simp add: side_ok_def)
qed

definition book_sides_ok :: "order_book \<Rightarrow> bool" where
  "book_sides_ok ob \<longleftrightarrow> side_ok bid_before (ob_bids ob) \<and> side_ok ask_before (ob_asks ob)"

lemma trades_for_quantities: "map bt_quantity (trades_for order counter takes) = map (of_nat \<circ> snd) takes"
  by (induction order counter takes rule: trades_for.induct) (simp_all add: trade_of_def)

text \<open>The other and the own side of an order.\<close>

definition other_entries :: "trade_side \<Rightarrow> order_book \<Rightarrow> book_entry list" where
  "other_entries side ob = (case side of Buy \<Rightarrow> ob_asks ob | Sell \<Rightarrow> ob_bids ob)"

definition own_entries :: "trade_side \<Rightarrow> order_book \<Rightarrow> book_entry list" where
  "own_entries side ob = (case side of Buy \<Rightarrow> ob_bids ob | Sell \<Rightarrow> ob_asks ob)"

definition own_before :: "trade_side \<Rightarrow> book_entry \<Rightarrow> book_entry \<Rightarrow> bool" where
  "own_before side = (case side of Buy \<Rightarrow> bid_before | Sell \<Rightarrow> ask_before)"

lemma book_sides: "book_sides_ok ob \<longleftrightarrow> (\<forall>side. side_ok (own_before side) (own_entries side ob))"
  by (auto simp: book_sides_ok_def own_before_def own_entries_def split: trade_side.splits)

lemma own_before_cases [simp]: "own_before side = bid_before \<or> own_before side = ask_before"
  by (cases side) (simp_all add: own_before_def)

lemma strict_own [simp]: "strict_before (own_before side)"
  by (cases side) (simp_all add: own_before_def)

fun other_trade_side :: "trade_side \<Rightarrow> trade_side" where
  "other_trade_side Buy = Sell"
| "other_trade_side Sell = Buy"

lemma other_is_own: "other_entries side ob = own_entries (other_trade_side side) ob"
  by (cases side) (simp_all add: other_entries_def own_entries_def)

text \<open>An order's effect, by side.\<close>

lemma match_trader_order_value:
  assumes "match_trader_order order ob = Some (trades, ob')"
    and "match_side order (to_quantity order) (other_entries (to_side order) ob) (ob_trade_counter ob)
      = (remaining, entries, counter, ts)"
  shows "trades = ts \<and> ob_trades ob' = ob_trades ob @ ts \<and> ob_trade_counter ob' = counter
    \<and> ob_last_trade_price ob' = (if ts = [] then ob_last_trade_price ob else bt_price (last ts))
    \<and> other_entries (to_side order) ob' = entries
    \<and> (if 0 <s remaining \<and> to_order_type order = Limit
       then push_sorted (own_before (to_side order)) (to_price order, remaining, to_trader_id order)
         (own_entries (to_side order) ob) = Some (own_entries (to_side order) ob')
       else own_entries (to_side order) ob' = own_entries (to_side order) ob)"
  using assms
  by (cases "to_side order")
    (auto simp: match_trader_order_def other_entries_def own_entries_def own_before_def Let_def split: if_splits)

lemma match_trader_order_ok:
  assumes "book_sides_ok ob" "match_trader_order order ob = Some (trades, ob')"
  shows "book_sides_ok ob'"
proof -
  let ?side = "to_side order"
  obtain remaining entries counter ts where m: "match_side order (to_quantity order) (other_entries ?side ob) (ob_trade_counter ob)
      = (remaining, entries, counter, ts)" by (metis prod_cases4)
  note v = match_trader_order_value [OF assms(2) m]
  have other: "side_ok (own_before (other_trade_side ?side)) (other_entries ?side ob)"
    using assms(1) by (simp add: book_sides other_is_own)
  have "side_ok (own_before (other_trade_side ?side)) (own_entries (other_trade_side ?side) ob')"
    using match_side_sorted [OF other own_before_cases m] v by (simp add: other_is_own)
  moreover have own: "side_ok (own_before ?side) (own_entries ?side ob)" using assms(1) by (simp add: book_sides)
  then have "side_ok (own_before ?side) (own_entries ?side ob')"
    using v push_sorted_ok [OF strict_own own] by (auto split: if_splits)
  ultimately show ?thesis by (cases ?side; simp add: book_sides) (metis other_trade_side.simps trade_side.exhaust)+
qed

lemma side_ok_filter: "side_ok before xs \<Longrightarrow> side_ok before (filter P xs)"
  by (auto simp: side_ok_def sorted_wrt_filter)

lemma update_quote_value:
  assumes "update_quote q ob = Some ob'"
  shows "(if 0 <s tq_bid_size q then push_sorted bid_before (tq_bid_price q, tq_bid_size q, tq_trader_id q)
        (filter (\<lambda>(_, _, i). i \<noteq> tq_trader_id q) (ob_bids ob)) = Some (ob_bids ob')
      else ob_bids ob' = filter (\<lambda>(_, _, i). i \<noteq> tq_trader_id q) (ob_bids ob))
    \<and> (if 0 <s tq_ask_size q then push_sorted ask_before (tq_ask_price q, tq_ask_size q, tq_trader_id q)
        (filter (\<lambda>(_, _, i). i \<noteq> tq_trader_id q) (ob_asks ob)) = Some (ob_asks ob')
      else ob_asks ob' = filter (\<lambda>(_, _, i). i \<noteq> tq_trader_id q) (ob_asks ob))
    \<and> ob_trades ob' = ob_trades ob \<and> ob_last_trade_price ob' = ob_last_trade_price ob"
  using assms by (auto simp: update_quote_def Let_def split: if_splits option.splits)

lemma update_quote_ok:
  assumes "book_sides_ok ob" "update_quote q ob = Some ob'"
  shows "book_sides_ok ob'"
proof -
  let ?P = "\<lambda>(_, _, i). i \<noteq> tq_trader_id q"
  have "side_ok bid_before (filter ?P (ob_bids ob))" "side_ok ask_before (filter ?P (ob_asks ob))"
    using assms(1) by (simp_all add: book_sides_ok_def side_ok_filter)
  with push_sorted_ok [OF strict_sides(1) this(1)] push_sorted_ok [OF strict_sides(2) this(2)] update_quote_value [OF assms(2)]
  show ?thesis by (auto simp: book_sides_ok_def split: if_splits)
qed

section \<open>Properties\<close>

inductive book_run :: "order_book \<Rightarrow> bool" where
  book_start: "book_run (order_book_new symbol p)"
| book_quote: "book_run ob \<Longrightarrow> update_quote q ob = Some ob' \<Longrightarrow> book_run ob'"
| book_order: "book_run ob \<Longrightarrow> match_trader_order order ob = Some (trades, ob') \<Longrightarrow> book_run ob'"
| book_noise: "book_run ob \<Longrightarrow> book_run (ob\<lparr>ob_last_trade_price := p\<rparr>)"

text \<open>The book is always sorted. After any quotes, orders and price changes on a new book, no bid is
  behind a lower one and no ask behind a higher one, and every entry has a positive quantity.\<close>

lemma book_is_sorted: "book_run ob \<Longrightarrow> book_sides_ok ob"
proof (induction rule: book_run.induct)
  case (book_start symbol p)
  then show ?case by (simp add: order_book_new_def book_sides_ok_def side_ok_def)
next
  case (book_noise ob p)
  then show ?case by (simp add: book_sides_ok_def)
qed (use update_quote_ok match_trader_order_ok in blast)+

text \<open>C29: Orders take the best prices first. An order takes from the entries of the other side from the
  front, each completely before the next, while it crosses their prices and has quantity left, with
  one trade at the entry's price for each; a limit order's rest goes behind the entries of its own
  side that are not worse. The last price is that of the last trade.\<close>

theorem orders_take_best_entries:
  assumes ok: "book_sides_ok ob" and run: "match_trader_order order ob = Some (trades, ob')"
  defines "n \<equiv> nat (sint (to_quantity order))" and "other \<equiv> map entry_offer (other_entries (to_side order) ob)"
    and "own \<equiv> own_entries (to_side order) ob"
  defines "takes \<equiv> taken (\<lambda>x. prices_cross order (fst x)) n other"
  shows "trades = trades_for order (ob_trade_counter ob) takes \<and> ob_trades ob' = ob_trades ob @ trades
    \<and> map entry_offer (other_entries (to_side order) ob') = left_over (\<lambda>x. prices_cross order (fst x)) n other
    \<and> own_entries (to_side order) ob' = (if to_order_type order = Limit \<and> quantity takes < n
        then insert_stable (own_before (to_side order)) (to_price order, of_nat (n - quantity takes), to_trader_id order) own
        else own)
    \<and> ob_last_trade_price ob' = (if takes = [] then ob_last_trade_price ob else fst (fst (last takes)))"
proof -
  obtain remaining entries counter ts where
    m: "match_side order (to_quantity order) (other_entries (to_side order) ob) (ob_trade_counter ob)
      = (remaining, entries, counter, ts)" by (metis prod_cases4)
  note v = match_trader_order_value [OF run m]
  have "\<forall>e \<in> set (other_entries (to_side order) ob). 0 <s fst (snd e)"
    using ok by (simp add: book_sides other_is_own side_ok_def)
  note t = match_side_takes [OF this m, folded n_def other_def, folded takes_def]
  have own: "side_ok (own_before (to_side order)) own" using ok by (simp add: book_sides own_def)
  have rest: "0 <s remaining \<longleftrightarrow> quantity takes < n" "0 <s remaining \<Longrightarrow> of_nat (n - quantity takes) = remaining"
    using t by (auto simp: word_sless_alt dest!: sym [of "nat (sint remaining)"])
  have "(trades_for order c xs = [] \<longleftrightarrow> xs = []) \<and> (xs \<noteq> [] \<longrightarrow> bt_price (last (trades_for order c xs)) = fst (fst (last xs)))" for c xs
    by (induction order c xs rule: trades_for.induct) (auto simp: trade_of_def)
  with v t rest push_sorted_value [OF own] show ?thesis
    by (auto simp: own_def split: if_splits)
qed

lemma filter_out_insert: "\<not> P x \<Longrightarrow> filter P (insert_stable before x ys) = filter P ys"
  by (induction ys) auto

lemma filter_only_insert: "P x \<Longrightarrow> \<forall>y \<in> set ys. \<not> P y \<Longrightarrow> filter P (insert_stable before x ys) = [x]"
  by (induction ys) (auto simp: filter_empty_conv)

text \<open>A quote replaces everything its trader had in the book. Afterwards the trader's only entries are
  the bid and the ask of the quote, those of a positive size; all others' entries stay, in their
  order. So a trader's resting limit orders are withdrawn by its next quote.\<close>

lemma quote_replaces_entries:
  assumes "book_sides_ok ob" "update_quote q ob = Some ob'"
  defines "mine \<equiv> (\<lambda>e :: book_entry. snd (snd e) = tq_trader_id q)"
  shows "filter mine (ob_bids ob')
        = (if 0 <s tq_bid_size q then [(tq_bid_price q, tq_bid_size q, tq_trader_id q)] else [])
    \<and> filter mine (ob_asks ob')
        = (if 0 <s tq_ask_size q then [(tq_ask_price q, tq_ask_size q, tq_trader_id q)] else [])
    \<and> filter (\<lambda>e. \<not> mine e) (ob_bids ob') = filter (\<lambda>e. \<not> mine e) (ob_bids ob)
    \<and> filter (\<lambda>e. \<not> mine e) (ob_asks ob') = filter (\<lambda>e. \<not> mine e) (ob_asks ob)"
proof -
  have others: "(\<lambda>(_, _, i). i \<noteq> tq_trader_id q) = (\<lambda>e :: book_entry. \<not> mine e)"
    by (auto simp: mine_def fun_eq_iff)
  have side: "filter mine ys = (if 0 <s n then [(p, n, tq_trader_id q)] else [])
      \<and> filter (\<lambda>e. \<not> mine e) ys = filter (\<lambda>e. \<not> mine e) xs"
    if "side_ok before xs" and "if 0 <s n then push_sorted before (p, n, tq_trader_id q) (filter (\<lambda>e. \<not> mine e) xs) = Some ys
      else ys = filter (\<lambda>e. \<not> mine e) xs" for before p n xs ys
    using that(2) push_sorted_value [of before "filter (\<lambda>e. \<not> mine e) xs" "(p, n, tq_trader_id q)" ys]
      side_ok_filter [OF that(1), of "\<lambda>e. \<not> mine e"]
      filter_only_insert [of mine "(p, n, tq_trader_id q)" "filter (\<lambda>e. \<not> mine e) xs" before]
      filter_out_insert [of "\<lambda>e. \<not> mine e" "(p, n, tq_trader_id q)" before "filter (\<lambda>e. \<not> mine e) xs"]
    by (simp add: mine_def split: if_splits)
  note v = update_quote_value [OF assms(2), unfolded others]
  have ok: "side_ok bid_before (ob_bids ob)" "side_ok ask_before (ob_asks ob)"
    using assms(1) by (simp_all add: book_sides_ok_def)
  note side [OF ok(1) conjunct1 [OF v]] side [OF ok(2) conjunct1 [OF conjunct2 [OF v]]]
  then show ?thesis by blast
qed

text \<open>A book with the quotes of two traders.\<close>

definition demo_quote :: "string \<Rightarrow> rat \<Rightarrow> rat \<Rightarrow> i64 \<Rightarrow> trader_quote" where
  "demo_quote i bid ask q = \<lparr>tq_trader_id = i, tq_symbol = ''COMP'', tq_bid_price = Fin bid, tq_bid_size = q,
     tq_ask_price = Fin ask, tq_ask_size = q, tq_timestamp = 0\<rparr>"

definition two_quotes :: order_book where
  "two_quotes = (order_book_new ''COMP'' (Fin 100))\<lparr>
     ob_bids := [(Fin 99, 300, ''MM''), (Fin 98, 100, ''MO'')],
     ob_asks := [(Fin 101, 300, ''MM''), (Fin 102, 100, ''MO'')]\<rparr>"

definition demo_trader_order :: "string \<Rightarrow> trade_side \<Rightarrow> trade_order_type \<Rightarrow> rat \<Rightarrow> i64 \<Rightarrow> trader_order" where
  "demo_trader_order i side ty p q = \<lparr>to_order_id = ''O1'', to_trader_id = i, to_symbol = ''COMP'', to_side = side,
     to_order_type = ty, to_price = Fin p, to_quantity = q, to_timestamp = 0\<rparr>"

lemma two_quotes_reached: "book_run two_quotes"
proof -
  let ?one = "(order_book_new ''COMP'' (Fin 100))\<lparr>ob_bids := [(Fin 98, 100, ''MO'')], ob_asks := [(Fin 102, 100, ''MO'')]\<rparr>"
  have "update_quote (demo_quote ''MO'' 98 102 100) (order_book_new ''COMP'' (Fin 100)) = Some ?one"
    by (simp add: update_quote_def demo_quote_def push_sorted_def sort_side_def order_book_new_def word_sless_alt)
  from book_quote [OF book_start this] have one: "book_run ?one" .
  have "update_quote (demo_quote ''MM'' 99 101 300) ?one = Some two_quotes"
    by (simp add: update_quote_def demo_quote_def push_sorted_def sort_side_def order_book_new_def two_quotes_def
        word_sless_alt bid_before_def ask_before_def)
  from book_quote [OF one this] show ?thesis .
qed

lemma book_is_sorted_example: "book_sides_ok two_quotes \<and> length (ob_bids two_quotes) = 2"
  using book_is_sorted [OF two_quotes_reached] by (simp add: two_quotes_def)

lemma two_quotes_ok: "book_sides_ok two_quotes"
  by (simp add: two_quotes_def book_sides_ok_def side_ok_def order_book_new_def bid_before_def ask_before_def word_sless_alt)

theorem orders_take_best_entries_witness:
  "\<exists>trades ob'. match_trader_order (demo_trader_order ''MR'' Buy Limit 101 350) two_quotes = Some (trades, ob')
    \<and> map bt_seller_id trades = [''MM''] \<and> map bt_price trades = [Fin 101]
    \<and> ob_bids ob' = [(Fin 101, 50, ''MR''), (Fin 99, 300, ''MM''), (Fin 98, 100, ''MO'')]"
proof -
  have "match_trader_order (demo_trader_order ''MR'' Buy Limit 101 350) two_quotes \<noteq> None"
    by (simp add: match_trader_order_def demo_trader_order_def two_quotes_def order_book_new_def push_sorted_def
        sort_side_def Let_def word_sless_alt prices_cross_def f64_le_def signed_min_def word_sle_eq split: prod.splits)
  then obtain trades ob' where
    run: "match_trader_order (demo_trader_order ''MR'' Buy Limit 101 350) two_quotes = Some (trades, ob')" by fast
  from orders_take_best_entries [OF two_quotes_ok run] run show ?thesis
    by (simp add: demo_trader_order_def two_quotes_def order_book_new_def other_entries_def own_entries_def
        entry_offer_def prices_cross_def f64_le_def trade_of_def own_before_def bid_before_def)
qed

lemma quote_replaces_entries_example:
  "\<exists>ob'. update_quote (demo_quote ''MM'' 100 102 50) two_quotes = Some ob'
    \<and> filter (\<lambda>e. snd (snd e) = ''MM'') (ob_bids ob') = [(Fin 100, 50, ''MM'')]"
proof -
  have "update_quote (demo_quote ''MM'' 100 102 50) two_quotes \<noteq> None"
    by (simp add: update_quote_def demo_quote_def push_sorted_def sort_side_def two_quotes_def word_sless_alt)
  then obtain ob' where run: "update_quote (demo_quote ''MM'' 100 102 50) two_quotes = Some ob'" by fast
  from quote_replaces_entries [OF two_quotes_ok run] run show ?thesis
    by (simp add: demo_quote_def word_sless_alt)
qed

end
