(* ===== verification/Traders.thy ===== *)
theory Traders
  imports Order_Book
begin

text \<open>
  The traders of \<open>examples/two_traders_competition.rs\<close> and the competition: each iteration of its loop
  quotes, lets the traders send orders to the book, and hands every trade to every trader. What the
  three trader structs have in common is one record, which each extends. Prices are doubles, positions
  wrap at 64 bits.
\<close>

section \<open>Accounts\<close>

record trader_account =
  ta_trader_id :: string
  ta_cash :: f64
  ta_positions :: "(string \<times> i64) list"
  ta_realized_pnl :: f64
  ta_trade_history :: "book_trade list"
  ta_order_counter :: u64

type_synonym price_history = "(u64 \<times> f64) list"

record momentum_trader = trader_account +
  mt_price_history :: price_history

record mean_reversion_trader = trader_account +
  rt_price_history :: price_history
  rt_vwap :: f64
  rt_vwap_volume :: i64

record market_maker = trader_account +
  mm_spread_captured :: f64
  mm_inventory_target :: i64

definition momentum_trader_new :: "string \<Rightarrow> f64 \<Rightarrow> momentum_trader" where
  "momentum_trader_new trader_id initial_cash = \<lparr>ta_trader_id = trader_id, ta_cash = initial_cash,
     ta_positions = [], ta_realized_pnl = Fin 0, ta_trade_history = [], ta_order_counter = 0, mt_price_history = []\<rparr>"

definition mean_reversion_trader_new :: "string \<Rightarrow> f64 \<Rightarrow> mean_reversion_trader" where
  "mean_reversion_trader_new trader_id initial_cash = \<lparr>ta_trader_id = trader_id, ta_cash = initial_cash,
     ta_positions = [], ta_realized_pnl = Fin 0, ta_trade_history = [], ta_order_counter = 0, rt_price_history = [],
     rt_vwap = Fin 0, rt_vwap_volume = 0\<rparr>"

definition market_maker_new :: "string \<Rightarrow> f64 \<Rightarrow> market_maker" where
  "market_maker_new trader_id initial_cash = \<lparr>ta_trader_id = trader_id, ta_cash = initial_cash,
     ta_positions = [], ta_realized_pnl = Fin 0, ta_trade_history = [], ta_order_counter = 0,
     mm_spread_captured = Fin 0, mm_inventory_target = 0\<rparr>"

definition position_in :: "string \<Rightarrow> 'a trader_account_scheme \<Rightarrow> i64" where
  "position_in symbol t = (case map_of (ta_positions t) symbol of Some p \<Rightarrow> p | None \<Rightarrow> 0)"

definition i64_as_f64 :: "i64 \<Rightarrow> f64" where
  "i64_as_f64 n = f64_of_int (sint n)"

text \<open>A history of at most 100 elements.\<close>

definition push_history :: "'a \<Rightarrow> 'a list \<Rightarrow> 'a list" where
  "push_history x xs = (if length (xs @ [x]) > 100 then tl (xs @ [x]) else xs @ [x])"

definition process_trade :: "book_trade \<Rightarrow> 'a trader_account_scheme \<Rightarrow> 'a trader_account_scheme" where
  "process_trade trade t =
     (let symbol = bt_symbol trade; amount = f64_mul (bt_price trade) (i64_as_f64 (bt_quantity trade));
          t1 = (if bt_buyer_id trade = ta_trader_id t
                then t\<lparr>ta_positions := hash_insert symbol (position_in symbol t + bt_quantity trade) (ta_positions t),
                       ta_cash := f64_sub (ta_cash t) amount\<rparr>
                else if bt_seller_id trade = ta_trader_id t
                then t\<lparr>ta_positions := hash_insert symbol (position_in symbol t - bt_quantity trade) (ta_positions t),
                       ta_cash := f64_add (ta_cash t) amount\<rparr>
                else t)
      in t1\<lparr>ta_trade_history := push_history trade (ta_trade_history t1)\<rparr>)"

definition position_value :: "f64 \<Rightarrow> 'a trader_account_scheme \<Rightarrow> f64" where
  "position_value market_price t = f64_sum (map (\<lambda>(_, qty). f64_mul (i64_as_f64 qty) market_price) (ta_positions t))"

definition calculate_equity :: "f64 \<Rightarrow> 'a trader_account_scheme \<Rightarrow> f64" where
  "calculate_equity market_price t = f64_add (ta_cash t) (position_value market_price t)"

definition get_position_report :: "f64 \<Rightarrow> u64 \<Rightarrow> 'a trader_account_scheme \<Rightarrow> position_report" where
  "get_position_report market_price timestamp t =
     \<lparr>pr_trader_id = ta_trader_id t, pr_cash = ta_cash t, pr_positions = ta_positions t,
      pr_realized_pnl = ta_realized_pnl t, pr_unrealized_pnl = position_value market_price t,
      pr_total_equity = calculate_equity market_price t, pr_timestamp = timestamp\<rparr>"

section \<open>Prices\<close>

definition f64_mean :: "f64 list \<Rightarrow> f64" where
  "f64_mean xs = f64_div (f64_sum xs) (f64_of_int (int (length xs)))"

text \<open>\<open>(p * 100.0).round() / 100.0\<close>.\<close>

definition to_cents :: "f64 \<Rightarrow> f64" where
  "to_cents p = f64_div (f64_to_integer (f64_mul p (Fin 100))) (Fin 100)"

definition i64_abs :: "i64 \<Rightarrow> i64" where
  "i64_abs n = (if n <s 0 then - n else n)"

definition signed_max :: "i64 \<Rightarrow> i64 \<Rightarrow> i64" where
  "signed_max a b = (if a <s b then b else a)"

definition next_order ::
    "'a trader_account_scheme \<Rightarrow> market_update \<Rightarrow> u64 \<Rightarrow> trade_side \<Rightarrow> trade_order_type \<Rightarrow> f64 \<Rightarrow> i64 \<Rightarrow> trader_order" where
  "next_order t market timestamp side order_type price qty =
     \<lparr>to_order_id = ta_trader_id t @ ''-O'' @ nat_string (unat (ta_order_counter t)), to_trader_id = ta_trader_id t,
      to_symbol = mu_symbol market, to_side = side, to_order_type = order_type, to_price = price,
      to_quantity = qty, to_timestamp = timestamp\<rparr>"

section \<open>The momentum trader\<close>

definition momentum_update_market :: "market_update \<Rightarrow> momentum_trader \<Rightarrow> momentum_trader" where
  "momentum_update_market update t =
     t\<lparr>mt_price_history := push_history (mu_timestamp update, mu_last_price update) (mt_price_history t)\<rparr>"

definition calculate_momentum :: "momentum_trader \<Rightarrow> f64" where
  "calculate_momentum t =
     (let h = mt_price_history t
      in if length h < 20 then Fin 0
         else let recent = map snd (take 20 (rev h)); older = map snd (take 20 (drop 20 (rev h)))
              in if older = [] then Fin 0
                 else f64_div (f64_sub (f64_mean recent) (f64_mean older)) (f64_mean older))"

definition momentum_generate_quote :: "market_update \<Rightarrow> u64 \<Rightarrow> momentum_trader \<Rightarrow> trader_quote" where
  "momentum_generate_quote market timestamp t =
     (let momentum = calculate_momentum t; position = position_in (mu_symbol market) t; spread = f64_lit 5 100;
          bias = f64_mul momentum (Fin (1 / 2));
          position_adjustment = f64_mul (f64_div (i64_as_f64 position) (Fin 1000)) (f64_lit 2 100);
          mid = mu_last_price market; half = f64_div spread (Fin 2);
          bid_price = f64_sub (f64_add (f64_sub mid half) bias) position_adjustment;
          ask_price = f64_sub (f64_add (f64_add mid half) bias) position_adjustment;
          size = f64_as_i64 (f64_mul (Fin 100) (f64_add (Fin 1) (f64_mul (f64_abs momentum) (Fin 2))))
      in \<lparr>tq_trader_id = ta_trader_id t, tq_symbol = mu_symbol market, tq_bid_price = to_cents bid_price,
          tq_bid_size = size, tq_ask_price = to_cents ask_price, tq_ask_size = size, tq_timestamp = timestamp\<rparr>)"

definition momentum_generate_order ::
    "market_update \<Rightarrow> u64 \<Rightarrow> momentum_trader \<Rightarrow> trader_order option \<times> momentum_trader" where
  "momentum_generate_order market timestamp t =
     (let momentum = calculate_momentum t; position = position_in (mu_symbol market) t
      in if f64_less (f64_lit 8 1000) (f64_abs momentum) \<and> i64_abs position <s 2000
         then let size = signed_max (signed_min (f64_as_i64 (f64_mul (f64_abs momentum) (Fin 5000))) 500) 100;
                  required_cash = f64_mul (i64_as_f64 size) (mu_last_price market)
              in if f64_less (ta_cash t) (f64_mul required_cash (Fin (1 / 2))) then (None, t)
                 else let t1 = t\<lparr>ta_order_counter := ta_order_counter t + 1\<rparr>
                      in if f64_less (Fin 0) momentum \<and> position <s 2000
                         then (Some (next_order t1 market timestamp Buy IOC
                                 (f64_add (mu_ask_price market) (f64_lit 2 100)) size), t1)
                         else if f64_less momentum (Fin 0) \<and> - 2000 <s position
                         then (Some (next_order t1 market timestamp Sell IOC
                                 (f64_sub (mu_bid_price market) (f64_lit 2 100)) size), t1)
                         else (None, t1)
         else (None, t))"

section \<open>The mean reversion trader\<close>

definition reversion_update_market :: "market_update \<Rightarrow> mean_reversion_trader \<Rightarrow> mean_reversion_trader" where
  "reversion_update_market update t =
     (let t1 = t\<lparr>rt_price_history := push_history (mu_timestamp update, mu_last_price update) (rt_price_history t)\<rparr>
      in if 0 <s mu_volume update
         then t1\<lparr>rt_vwap := f64_div (f64_add (f64_mul (rt_vwap t) (i64_as_f64 (rt_vwap_volume t)))
                    (f64_mul (mu_last_price update) (i64_as_f64 (mu_volume update))))
                  (i64_as_f64 (rt_vwap_volume t + mu_volume update)),
                 rt_vwap_volume := rt_vwap_volume t + mu_volume update\<rparr>
         else t1)"

definition calculate_deviation_from_mean :: "f64 \<Rightarrow> mean_reversion_trader \<Rightarrow> f64" where
  "calculate_deviation_from_mean current_price t =
     (let h = rt_price_history t
      in if length h < 20 then Fin 0
         else let mean = f64_mean (map snd (take 50 (rev h))) in f64_div (f64_sub current_price mean) mean)"

definition reversion_generate_quote :: "market_update \<Rightarrow> u64 \<Rightarrow> mean_reversion_trader \<Rightarrow> trader_quote" where
  "reversion_generate_quote market timestamp t =
     (let deviation = calculate_deviation_from_mean (mu_last_price market) t;
          position = position_in (mu_symbol market) t; base_spread = f64_lit 4 100;
          fade_adjustment = f64_mul deviation (f64_lit 30 100);
          inventory_skew = f64_mul (f64_div (i64_as_f64 position) (Fin 1000)) (f64_lit 3 100);
          mid = mu_last_price market; half = f64_div base_spread (Fin 2);
          bid_price = f64_add (f64_sub (f64_sub mid half) fade_adjustment) inventory_skew;
          ask_price = f64_add (f64_sub (f64_add mid half) fade_adjustment) inventory_skew;
          size = f64_as_i64 (f64_mul (Fin 150) (f64_add (Fin 1) (f64_mul (f64_abs deviation) (Fin 3))));
          inventory_reduction = f64_sub (Fin 1)
            (f64_min (f64_div (i64_as_f64 (i64_abs position)) (Fin 2000)) (Fin (1 / 2)));
          adjusted_size = f64_as_i64 (f64_mul (i64_as_f64 size) inventory_reduction)
      in \<lparr>tq_trader_id = ta_trader_id t, tq_symbol = mu_symbol market, tq_bid_price = to_cents bid_price,
          tq_bid_size = adjusted_size, tq_ask_price = to_cents ask_price, tq_ask_size = adjusted_size,
          tq_timestamp = timestamp\<rparr>)"

definition reversion_generate_order ::
    "market_update \<Rightarrow> u64 \<Rightarrow> mean_reversion_trader \<Rightarrow> trader_order option \<times> mean_reversion_trader" where
  "reversion_generate_order market timestamp t =
     (let deviation = calculate_deviation_from_mean (mu_last_price market) t;
          position = position_in (mu_symbol market) t
      in if f64_less (f64_lit 10 1000) (f64_abs deviation) \<and> i64_abs position <s 1500
         then let size = 200; required_cash = f64_mul (i64_as_f64 size) (mu_last_price market)
              in if f64_less (ta_cash t) (f64_mul required_cash (f64_lit 3 10)) then (None, t)
                 else let t1 = t\<lparr>ta_order_counter := ta_order_counter t + 1\<rparr>
                      in if f64_less (Fin 0) deviation \<and> - 1500 <s position
                         then (Some (next_order t1 market timestamp Sell Limit
                                 (f64_add (mu_last_price market) (f64_lit 1 100)) size), t1)
                         else if f64_less deviation (Fin 0) \<and> position <s 1500
                         then (Some (next_order t1 market timestamp Buy Limit
                                 (f64_sub (mu_last_price market) (f64_lit 1 100)) size), t1)
                         else (None, t1)
         else (None, t))"

section \<open>The market maker\<close>

definition maker_generate_quote :: "market_update \<Rightarrow> u64 \<Rightarrow> market_maker \<Rightarrow> trader_quote" where
  "maker_generate_quote market timestamp t =
     (let position = position_in (mu_symbol market) t; base_spread = f64_lit 15 1000;
          inventory_skew = f64_mul (f64_div (i64_as_f64 position) (Fin 500)) (f64_lit 1 100);
          mid = mu_last_price market; half = f64_div base_spread (Fin 2);
          bid_price = f64_sub (f64_sub mid half) inventory_skew;
          ask_price = f64_sub (f64_add mid half) inventory_skew;
          inventory_distance = i64_abs (position - mm_inventory_target t);
          size_multiplier = f64_sub (Fin 1) (f64_min (f64_div (i64_as_f64 inventory_distance) (Fin 2000)) (Fin (1 / 2)));
          size = f64_as_i64 (f64_mul (Fin 300) size_multiplier)
      in \<lparr>tq_trader_id = ta_trader_id t, tq_symbol = mu_symbol market, tq_bid_price = to_cents bid_price,
          tq_bid_size = signed_max size 50, tq_ask_price = to_cents ask_price, tq_ask_size = signed_max size 50,
          tq_timestamp = timestamp\<rparr>)"

text \<open>The division is of a positive number.\<close>

definition maker_generate_order ::
    "market_update \<Rightarrow> u64 \<Rightarrow> market_maker \<Rightarrow> trader_order option \<times> market_maker" where
  "maker_generate_order market timestamp t =
     (let position = position_in (mu_symbol market) t
      in if 800 <s i64_abs position
         then let t1 = t\<lparr>ta_order_counter := ta_order_counter t + 1\<rparr>;
                  flatten_size = signed_max (of_int (sint (i64_abs position) div 4)) 100
              in if 0 <s position
                 then (Some (next_order t1 market timestamp Sell IOC
                         (f64_sub (mu_bid_price market) (f64_lit 1 100)) flatten_size), t1)
                 else (Some (next_order t1 market timestamp Buy IOC
                         (f64_add (mu_ask_price market) (f64_lit 1 100)) flatten_size), t1)
         else (None, t))"

section \<open>The competition\<close>

record competition =
  co_trader1 :: momentum_trader
  co_trader2 :: mean_reversion_trader
  co_market_maker :: market_maker
  co_order_book :: order_book
  co_iteration :: "32 word" \<comment> \<open>an \<open>i32\<close>\<close>

definition competition_new :: competition where
  "competition_new = \<lparr>co_trader1 = momentum_trader_new ''MOMENTUM-1'' (Fin 1000000),
     co_trader2 = mean_reversion_trader_new ''MEANREV-2'' (Fin 1000000),
     co_market_maker = market_maker_new ''MARKETMKR-3'' (Fin 1000000),
     co_order_book = order_book_new ''COMP'' (Fin 100), co_iteration = 0\<rparr>"

text \<open>Handing a trade to every trader.\<close>

definition share_trade :: "book_trade \<Rightarrow> competition \<Rightarrow> competition" where
  "share_trade trade c =
     c\<lparr>co_trader1 := process_trade trade (co_trader1 c), co_trader2 := process_trade trade (co_trader2 c),
       co_market_maker := process_trade trade (co_market_maker c)\<rparr>"

definition execute_order :: "trader_order option \<Rightarrow> competition \<Rightarrow> competition option" where
  "execute_order order c =
     (case order of
        None \<Rightarrow> Some c
      | Some ord \<Rightarrow>
          (case match_trader_order ord (co_order_book c) of
             None \<Rightarrow> None
           | Some (trades, ob) \<Rightarrow> Some (fold share_trade trades (c\<lparr>co_order_book := ob\<rparr>))))"

text \<open>The orders of one iteration, and the iteration itself; \<open>None\<close> when the code panics. The market noise
  is applied in every tenth iteration. Publishing quotes and trades in mailboxes is left out: the
  code ignores its result.\<close>

definition orders_round :: "market_update \<Rightarrow> u64 \<Rightarrow> competition \<Rightarrow> competition option" where
  "orders_round market timestamp c0 =
     (let (order1, t1) = momentum_generate_order market timestamp (co_trader1 c0)
      in case execute_order order1 (c0\<lparr>co_trader1 := t1\<rparr>) of
           None \<Rightarrow> None
         | Some c1 \<Rightarrow>
             let (order2, t2) = reversion_generate_order market timestamp (co_trader2 c1)
             in case execute_order order2 (c1\<lparr>co_trader2 := t2\<rparr>) of
                  None \<Rightarrow> None
                | Some c2 \<Rightarrow>
                    let (order3, mm) = maker_generate_order market timestamp (co_market_maker c2)
                    in execute_order order3 (c2\<lparr>co_market_maker := mm\<rparr>))"

definition add_noise :: "f64 \<Rightarrow> order_book \<Rightarrow> order_book" where
  "add_noise noise ob =
     ob\<lparr>ob_last_trade_price := f64_min (f64_max (f64_mul (ob_last_trade_price ob) (f64_add (Fin 1) noise)) (Fin 50)) (Fin 150)\<rparr>"

definition quotes_round :: "market_update \<Rightarrow> u64 \<Rightarrow> competition \<Rightarrow> order_book option" where
  "quotes_round market timestamp c =
     (case update_quote (momentum_generate_quote market timestamp (co_trader1 c)) (co_order_book c) of
        None \<Rightarrow> None
      | Some ob1 \<Rightarrow>
          (case update_quote (reversion_generate_quote market timestamp (co_trader2 c)) ob1 of
             None \<Rightarrow> None
           | Some ob2 \<Rightarrow> update_quote (maker_generate_quote market timestamp (co_market_maker c)) ob2))"

definition competition_step :: "u64 \<Rightarrow> f64 \<Rightarrow> competition \<Rightarrow> competition option" where
  "competition_step timestamp noise c =
     (let iteration = co_iteration c + 1;
          ob = (if sint iteration mod 10 = 0 then add_noise noise (co_order_book c) else co_order_book c);
          market = get_market_update timestamp ob;
          c1 = c\<lparr>co_iteration := iteration, co_order_book := ob,
                 co_trader1 := momentum_update_market market (co_trader1 c),
                 co_trader2 := reversion_update_market market (co_trader2 c)\<rparr>
      in case quotes_round market timestamp c1 of
           None \<Rightarrow> None
         | Some ob1 \<Rightarrow>
             let c2 = c1\<lparr>co_order_book := ob1\<rparr>
             in if sint iteration mod 3 = 0 then orders_round market timestamp c2 else Some c2)"

text \<open>The stop condition, on the equities at the last price; the market maker's does not count.\<close>

definition competition_over :: "competition \<Rightarrow> bool" where
  "competition_over c =
     (let market_price = ob_last_trade_price (co_order_book c);
          threshold = f64_mul (Fin 1000000) (f64_lit 80 100)
      in f64_less (calculate_equity market_price (co_trader1 c)) threshold
         \<or> f64_less (calculate_equity market_price (co_trader2 c)) threshold)"

definition competition_winner :: "competition \<Rightarrow> string" where
  "competition_winner c =
     (let market_price = ob_last_trade_price (co_order_book c)
      in if f64_less (calculate_equity market_price (co_trader2 c)) (calculate_equity market_price (co_trader1 c))
         then ta_trader_id (co_trader1 c) else ta_trader_id (co_trader2 c))"

section \<open>Positions\<close>

lemma process_trade_id [simp]: "ta_trader_id (process_trade trade t) = ta_trader_id t"
  by (simp add: process_trade_def Let_def)

text \<open>What a trade adds to the position of a trader.\<close>

definition trade_effect :: "book_trade \<Rightarrow> string \<Rightarrow> i64" where
  "trade_effect trade i =
     (if bt_buyer_id trade = i then bt_quantity trade else if bt_seller_id trade = i then - bt_quantity trade else 0)"

lemma process_trade_position:
  "position_in symbol (process_trade trade t)
    = position_in symbol t + (if symbol = bt_symbol trade then trade_effect trade (ta_trader_id t) else 0)"
  by (simp add: process_trade_def position_in_def trade_effect_def Let_def)

definition trader_ids :: "competition \<Rightarrow> string list" where
  "trader_ids c = [ta_trader_id (co_trader1 c), ta_trader_id (co_trader2 c), ta_trader_id (co_market_maker c)]"

definition net_position :: "string \<Rightarrow> competition \<Rightarrow> i64" where
  "net_position symbol c = position_in symbol (co_trader1 c) + position_in symbol (co_trader2 c)
     + position_in symbol (co_market_maker c)"

text \<open>The quantity that traders bought from themselves.\<close>

definition self_traded :: "string \<Rightarrow> book_trade list \<Rightarrow> i64" where
  "self_traded symbol trades = sum_list (map bt_quantity
     (filter (\<lambda>t. bt_symbol t = symbol \<and> bt_buyer_id t = bt_seller_id t) trades))"

definition parties_known :: "string list \<Rightarrow> book_trade \<Rightarrow> bool" where
  "parties_known ids t \<longleftrightarrow> bt_buyer_id t \<in> set ids \<and> bt_seller_id t \<in> set ids"

lemma share_trade_ids [simp]: "trader_ids (share_trade t c) = trader_ids c"
  by (simp add: trader_ids_def share_trade_def)

lemma share_trade_book [simp]: "co_order_book (share_trade t c) = co_order_book c"
  by (simp add: share_trade_def)

lemma three_parties:
  assumes "distinct [a, b, c]" "bt_buyer_id t \<in> {a, b, c}" "bt_seller_id t \<in> {a, b, c}"
  shows "trade_effect t a + trade_effect t b + trade_effect t c
    = (if bt_buyer_id t = bt_seller_id t then bt_quantity t else 0)"
  using assms by (auto simp: trade_effect_def)

lemma share_trade_net:
  assumes "distinct (trader_ids c)" "parties_known (trader_ids c) t"
  shows "net_position symbol (share_trade t c) = net_position symbol c + self_traded symbol [t]"
proof -
  let ?a = "ta_trader_id (co_trader1 c)" and ?b = "ta_trader_id (co_trader2 c)" and ?m = "ta_trader_id (co_market_maker c)"
  have "net_position symbol (share_trade t c) = net_position symbol c
      + (if symbol = bt_symbol t then trade_effect t ?a + trade_effect t ?b + trade_effect t ?m else 0)"
    by (simp add: net_position_def share_trade_def process_trade_position algebra_simps)
  moreover have "distinct [?a, ?b, ?m]" "bt_buyer_id t \<in> {?a, ?b, ?m}" "bt_seller_id t \<in> {?a, ?b, ?m}"
    using assms by (simp_all add: trader_ids_def parties_known_def)
  ultimately show ?thesis by (simp add: three_parties self_traded_def)
qed

lemma share_trades:
  assumes "distinct (trader_ids c)" "\<forall>t \<in> set trades. parties_known (trader_ids c) t"
  shows "net_position symbol (fold share_trade trades c) = net_position symbol c + self_traded symbol trades
    \<and> trader_ids (fold share_trade trades c) = trader_ids c
    \<and> co_order_book (fold share_trade trades c) = co_order_book c"
  using assms
proof (induction trades arbitrary: c)
  case Nil
  then show ?case by (simp add: self_traded_def)
next
  case (Cons t trades)
  then show ?case
    using Cons.IH [of "share_trade t c"] share_trade_net [of c t symbol] by (simp add: self_traded_def)
qed

text \<open>Whose entries and trades there are.\<close>

definition book_ids :: "order_book \<Rightarrow> string set" where
  "book_ids ob = (snd \<circ> snd) ` set (ob_bids ob) \<union> (snd \<circ> snd) ` set (ob_asks ob)"

lemma match_side_ids:
  "match_side order remaining entries counter = (remaining', entries', counter', trades) \<Longrightarrow>
    (snd \<circ> snd) ` set entries' \<subseteq> (snd \<circ> snd) ` set entries
    \<and> (\<forall>t \<in> set trades. \<exists>e \<in> set entries. {bt_buyer_id t, bt_seller_id t} = {to_trader_id order, snd (snd e)})"
proof (induction entries arbitrary: remaining counter remaining' entries' counter' trades)
  case (Cons e entries)
  obtain p q i where e: "e = (p, q, i)" by (cases e)
  define m where "m = signed_min remaining q"
  obtain n es c ts where rest: "match_side order (remaining - m) entries (counter + 1) = (n, es, c, ts)"
    by (metis prod_cases4)
  have parties: "{bt_buyer_id (trade_of order i p q' k), bt_seller_id (trade_of order i p q' k)} = {to_trader_id order, i}" for q' k
    by (cases "to_side order") (auto simp: trade_of_def)
  show ?case
    using Cons.IH [OF rest] Cons.prems rest parties
    by (auto simp: e m_def [symmetric] Let_def split: if_splits) blast+
qed simp

lemma push_sorted_set: "push_sorted before x xs = Some ys \<Longrightarrow> set ys = insert x (set xs)"
proof -
  have "set (foldl (\<lambda>ys x. insert_stable before x ys) zs ws) = set zs \<union> set ws" for zs ws
    by (induction ws arbitrary: zs) auto
  then show "push_sorted before x xs = Some ys \<Longrightarrow> set ys = insert x (set xs)"
    by (auto simp: push_sorted_def sort_side_def split: if_splits)
qed

lemma update_quote_ids: "update_quote q ob = Some ob' \<Longrightarrow> book_ids ob' \<subseteq> insert (tq_trader_id q) (book_ids ob)"
  using update_quote_value [of q ob ob'] by (auto simp: book_ids_def dest!: push_sorted_set split: if_splits)

lemma match_trader_order_ids:
  assumes "match_trader_order order ob = Some (trades, ob')"
  shows "book_ids ob' \<subseteq> insert (to_trader_id order) (book_ids ob)"
    and "\<forall>t \<in> set trades. bt_buyer_id t \<in> insert (to_trader_id order) (book_ids ob)
      \<and> bt_seller_id t \<in> insert (to_trader_id order) (book_ids ob)"
    and "ob_trades ob' = ob_trades ob @ trades"
proof -
  obtain remaining entries counter ts where
    m: "match_side order (to_quantity order) (other_entries (to_side order) ob) (ob_trade_counter ob)
      = (remaining, entries, counter, ts)" by (metis prod_cases4)
  note v = match_trader_order_value [OF assms m] and ids = match_side_ids [OF m]
  have book: "book_ids b = (snd \<circ> snd) ` set (other_entries (to_side order) b) \<union> (snd \<circ> snd) ` set (own_entries (to_side order) b)" for b
    by (cases "to_side order") (auto simp: book_ids_def other_entries_def own_entries_def)
  have "(snd \<circ> snd) ` set (own_entries (to_side order) ob') \<subseteq> insert (to_trader_id order) ((snd \<circ> snd) ` set (own_entries (to_side order) ob))"
    using v by (auto dest!: push_sorted_set split: if_splits)
  then show "book_ids ob' \<subseteq> insert (to_trader_id order) (book_ids ob)"
    using v ids unfolding book by blast
  show "\<forall>t \<in> set trades. bt_buyer_id t \<in> insert (to_trader_id order) (book_ids ob)
      \<and> bt_seller_id t \<in> insert (to_trader_id order) (book_ids ob)"
    using v ids unfolding book by (auto simp: doubleton_eq_iff)
  show "ob_trades ob' = ob_trades ob @ trades" using v by simp
qed

text \<open>The invariant of a competition.\<close>

definition positions_ok :: "competition \<Rightarrow> bool" where
  "positions_ok c \<longleftrightarrow>
     distinct (trader_ids c)
     \<and> book_sides_ok (co_order_book c) \<and> book_ids (co_order_book c) \<subseteq> set (trader_ids c)
     \<and> (\<forall>symbol. net_position symbol c = self_traded symbol (ob_trades (co_order_book c)))"

lemma self_traded_append [simp]: "self_traded symbol (ts @ us) = self_traded symbol ts + self_traded symbol us"
  by (simp add: self_traded_def)

lemma execute_order_ok:
  assumes "positions_ok c" "\<forall>ord. order = Some ord \<longrightarrow> to_trader_id ord \<in> set (trader_ids c)"
    and "execute_order order c = Some c'"
  shows "positions_ok c' \<and> trader_ids c' = trader_ids c"
proof (cases order)
  case None
  then show ?thesis using assms by (simp add: execute_order_def)
next
  case (Some ord)
  then obtain trades ob where m: "match_trader_order ord (co_order_book c) = Some (trades, ob)"
    using assms(3) by (auto simp: execute_order_def split: option.splits)
  let ?c = "c\<lparr>co_order_book := ob\<rparr>"
  have c': "c' = fold share_trade trades ?c" using assms(3) Some m by (simp add: execute_order_def)
  have c: "trader_ids ?c = trader_ids c" "net_position symbol ?c = net_position symbol c" for symbol
    by (simp_all add: trader_ids_def net_position_def)
  have ids: "distinct (trader_ids c)" "insert (to_trader_id ord) (book_ids (co_order_book c)) \<subseteq> set (trader_ids c)"
    using assms(1,2) Some by (simp_all add: positions_ok_def)
  have "\<forall>t \<in> set trades. parties_known (trader_ids ?c) t"
    using match_trader_order_ids(2) [OF m] ids(2) by (auto simp: parties_known_def c)
  note shared = share_trades [of ?c trades, unfolded c, OF ids(1) this [unfolded c]]
  show ?thesis
    using assms(1) shared ids match_trader_order_ok [of "co_order_book c" ord trades ob] m match_trader_order_ids(1,3) [OF m]
    by (auto simp: positions_ok_def c')
qed

lemma update_quote_trades: "update_quote q ob = Some ob' \<Longrightarrow> ob_trades ob' = ob_trades ob"
  using update_quote_value by blast

lemma quotes_round_ok:
  assumes "quotes_round market timestamp c = Some ob" "positions_ok c"
  shows "positions_ok (c\<lparr>co_order_book := ob\<rparr>)"
proof -
  obtain ob1 ob2 where q: "update_quote (momentum_generate_quote market timestamp (co_trader1 c)) (co_order_book c) = Some ob1"
    "update_quote (reversion_generate_quote market timestamp (co_trader2 c)) ob1 = Some ob2"
    "update_quote (maker_generate_quote market timestamp (co_market_maker c)) ob2 = Some ob"
    using assms(1) by (auto simp: quotes_round_def split: option.splits)
  have ids: "tq_trader_id (momentum_generate_quote market timestamp (co_trader1 c)) \<in> set (trader_ids c)"
    "tq_trader_id (reversion_generate_quote market timestamp (co_trader2 c)) \<in> set (trader_ids c)"
    "tq_trader_id (maker_generate_quote market timestamp (co_market_maker c)) \<in> set (trader_ids c)"
    by (simp_all add: momentum_generate_quote_def reversion_generate_quote_def maker_generate_quote_def trader_ids_def Let_def)
  have "book_ids ob \<subseteq> set (trader_ids c)"
    using update_quote_ids [OF q(1)] update_quote_ids [OF q(2)] update_quote_ids [OF q(3)] ids assms(2)
    unfolding positions_ok_def by blast
  moreover have "book_sides_ok ob"
    using q assms(2) update_quote_ok unfolding positions_ok_def by blast
  moreover have "ob_trades ob = ob_trades (co_order_book c)" using q update_quote_trades by metis
  ultimately show ?thesis using assms(2) by (simp add: positions_ok_def trader_ids_def net_position_def)
qed

text \<open>Making an order changes no position.\<close>

lemma momentum_order_keeps:
  assumes "momentum_generate_order market timestamp t = (order, t')"
  shows "ta_positions t' = ta_positions t \<and> ta_trader_id t' = ta_trader_id t
    \<and> (\<forall>ord. order = Some ord \<longrightarrow> to_trader_id ord = ta_trader_id t)"
  using assms by (auto simp: momentum_generate_order_def next_order_def Let_def split: if_splits)

lemma reversion_order_keeps:
  assumes "reversion_generate_order market timestamp t = (order, t')"
  shows "ta_positions t' = ta_positions t \<and> ta_trader_id t' = ta_trader_id t
    \<and> (\<forall>ord. order = Some ord \<longrightarrow> to_trader_id ord = ta_trader_id t)"
  using assms by (auto simp: reversion_generate_order_def next_order_def Let_def split: if_splits)

lemma maker_order_keeps:
  assumes "maker_generate_order market timestamp t = (order, t')"
  shows "ta_positions t' = ta_positions t \<and> ta_trader_id t' = ta_trader_id t
    \<and> (\<forall>ord. order = Some ord \<longrightarrow> to_trader_id ord = ta_trader_id t)"
  using assms by (auto simp: maker_generate_order_def next_order_def Let_def split: if_splits)

lemma positions_ok_trader_update:
  assumes "positions_ok c" "co_order_book c' = co_order_book c"
    and "ta_positions (co_trader1 c') = ta_positions (co_trader1 c)" "ta_trader_id (co_trader1 c') = ta_trader_id (co_trader1 c)"
    and "ta_positions (co_trader2 c') = ta_positions (co_trader2 c)" "ta_trader_id (co_trader2 c') = ta_trader_id (co_trader2 c)"
    and "ta_positions (co_market_maker c') = ta_positions (co_market_maker c)"
      "ta_trader_id (co_market_maker c') = ta_trader_id (co_market_maker c)"
  shows "positions_ok c' \<and> trader_ids c' = trader_ids c"
  using assms by (simp add: positions_ok_def trader_ids_def net_position_def position_in_def)

lemma orders_round_ok:
  assumes "orders_round market timestamp c = Some c'" "positions_ok c"
  shows "positions_ok c'"
proof -
  obtain order1 t1 where o1: "momentum_generate_order market timestamp (co_trader1 c) = (order1, t1)" by fastforce
  with assms(1) obtain c1 where c1: "execute_order order1 (c\<lparr>co_trader1 := t1\<rparr>) = Some c1"
    by (auto simp: orders_round_def split: option.splits)
  obtain order2 t2 where o2: "reversion_generate_order market timestamp (co_trader2 c1) = (order2, t2)" by fastforce
  with assms(1) o1 c1 obtain c2 where c2: "execute_order order2 (c1\<lparr>co_trader2 := t2\<rparr>) = Some c2"
    by (auto simp: orders_round_def split: option.splits)
  obtain order3 mm where o3: "maker_generate_order market timestamp (co_market_maker c2) = (order3, mm)" by fastforce
  with assms(1) o1 c1 o2 c2 have c3: "execute_order order3 (c2\<lparr>co_market_maker := mm\<rparr>) = Some c'"
    by (simp add: orders_round_def)
  have "positions_ok (c\<lparr>co_trader1 := t1\<rparr>)"
    using momentum_order_keeps [OF o1] positions_ok_trader_update [OF assms(2), of "c\<lparr>co_trader1 := t1\<rparr>"] by simp
  from execute_order_ok [OF this _ c1] have p1: "positions_ok c1"
    using momentum_order_keeps [OF o1] by (simp add: trader_ids_def)
  have "positions_ok (c1\<lparr>co_trader2 := t2\<rparr>)"
    using reversion_order_keeps [OF o2] positions_ok_trader_update [OF p1, of "c1\<lparr>co_trader2 := t2\<rparr>"] by simp
  from execute_order_ok [OF this _ c2] have p2: "positions_ok c2"
    using reversion_order_keeps [OF o2] by (simp add: trader_ids_def)
  have "positions_ok (c2\<lparr>co_market_maker := mm\<rparr>)"
    using maker_order_keeps [OF o3] positions_ok_trader_update [OF p2, of "c2\<lparr>co_market_maker := mm\<rparr>"] by simp
  from execute_order_ok [OF this _ c3] show ?thesis
    using maker_order_keeps [OF o3] by (simp add: trader_ids_def)
qed

lemma update_market_keeps [simp]:
  "ta_positions (momentum_update_market u t) = ta_positions t" "ta_trader_id (momentum_update_market u t) = ta_trader_id t"
  "ta_positions (reversion_update_market u t') = ta_positions t'" "ta_trader_id (reversion_update_market u t') = ta_trader_id t'"
  by (simp_all add: momentum_update_market_def reversion_update_market_def Let_def)

lemma competition_step_ok:
  assumes "competition_step timestamp noise c = Some c'" "positions_ok c"
  shows "positions_ok c'"
proof -
  let ?i = "co_iteration c + 1"
  define ob where "ob = (if sint ?i mod 10 = 0 then add_noise noise (co_order_book c) else co_order_book c)"
  define market where "market = get_market_update timestamp ob"
  define c1 where "c1 = c\<lparr>co_iteration := ?i, co_order_book := ob, co_trader1 := momentum_update_market market (co_trader1 c),
    co_trader2 := reversion_update_market market (co_trader2 c)\<rparr>"
  have "book_sides_ok ob = book_sides_ok (co_order_book c)" "book_ids ob = book_ids (co_order_book c)"
    "ob_trades ob = ob_trades (co_order_book c)"
    by (simp_all add: ob_def add_noise_def book_sides_ok_def book_ids_def)
  with assms(2) have p1: "positions_ok c1"
    by (simp add: positions_ok_def c1_def trader_ids_def net_position_def position_in_def)
  have step: "competition_step timestamp noise c = (case quotes_round market timestamp c1 of None \<Rightarrow> None
      | Some ob1 \<Rightarrow> if sint ?i mod 3 = 0 then orders_round market timestamp (c1\<lparr>co_order_book := ob1\<rparr>)
        else Some (c1\<lparr>co_order_book := ob1\<rparr>))"
    by (simp only: competition_step_def Let_def ob_def market_def c1_def)
  then obtain ob1 where ob1: "quotes_round market timestamp c1 = Some ob1"
    using assms(1) by (cases "quotes_round market timestamp c1") simp_all
  have "(if sint ?i mod 3 = 0 then orders_round market timestamp (c1\<lparr>co_order_book := ob1\<rparr>)
      else Some (c1\<lparr>co_order_book := ob1\<rparr>)) = Some c'"
    using assms(1) by (simp add: step ob1)
  with quotes_round_ok [OF ob1 p1] orders_round_ok show ?thesis by (auto split: if_splits)
qed

section \<open>Properties\<close>

inductive competition_run :: "competition \<Rightarrow> bool" where
  competition_start: "competition_run competition_new"
| competition_next: "competition_run c \<Longrightarrow> competition_step timestamp noise c = Some c' \<Longrightarrow> competition_run c'"

text \<open>C30: Positions come from trades, and are only created by traders who trade with themselves. At any
  time in the competition the positions of the three traders in a symbol add up to the quantity of
  the trades so far in which buyer and seller are the same trader, and so to 0 if there was no
  such trade. (\<open>process_trade\<close> books only the purchase of such a trade.)\<close>

theorem positions_are_self_trades:
  "competition_run c \<Longrightarrow> net_position symbol c = self_traded symbol (ob_trades (co_order_book c))"
proof -
  assume "competition_run c"
  then have "positions_ok c"
  proof (induction rule: competition_run.induct)
    case competition_start
    show ?case
      by (simp add: competition_new_def positions_ok_def trader_ids_def order_book_new_def book_sides_ok_def side_ok_def
          book_ids_def net_position_def position_in_def self_traded_def momentum_trader_new_def
          mean_reversion_trader_new_def market_maker_new_def)
  next
    case (competition_next c timestamp noise c')
    then show ?case using competition_step_ok by blast
  qed
  then show ?thesis by (simp add: positions_ok_def)
qed

theorem positions_are_self_trades_witness:
  "net_position ''COMP'' competition_new = self_traded ''COMP'' [] \<and> net_position ''COMP'' competition_new = 0"
  using positions_are_self_trades [OF competition_start, of "''COMP''"]
  by (simp add: competition_new_def order_book_new_def self_traded_def)

text \<open>A cent less is less, in doubles too.\<close>

lemma f64_cent: "\<exists>y. f64_lit 1 100 = Fin y \<and> 99 / 10000 \<le> y \<and> y \<le> 101 / 10000"
proof -
  have "\<exists>y. f64_round (1 / 100) = Fin y \<and> \<bar>y - 1 / 100\<bar> \<le> \<bar>1 / 100\<bar> / 2 ^ 53"
    by (rule f64_round_error) simp_all
  then obtain y where y: "f64_round (1 / 100) = Fin y" "\<bar>y - 1 / 100\<bar> \<le> 1 / 100 / 2 ^ 53" by auto
  have "(1 :: rat) / 100 / 2 ^ 53 \<le> 1 / 10000" by simp
  with y(2) have "99 / 10000 \<le> y \<and> y \<le> 101 / 10000" unfolding abs_le_iff by linarith
  with y(1) show ?thesis by (simp add: f64_lit_def)
qed

lemma f64_cent_less:
  assumes "1 \<le> b" "b \<le> 2 ^ 40"
  shows "\<exists>r. f64_sub (Fin b) (f64_lit 1 100) = Fin r \<and> r \<le> b"
proof -
  obtain y where y: "f64_lit 1 100 = Fin y" "99 / 10000 \<le> y" "y \<le> 101 / 10000" using f64_cent by blast
  have "(1 :: rat) / 2 ^ 1022 \<le> 1 / 2" by simp
  with assms y have low: "1 / 2 ^ 1022 \<le> \<bar>b - y\<bar>" by linarith
  have "\<bar>b - y\<bar> \<le> 2 ^ 40" using assms y by simp
  also have "\<dots> < (2 :: rat) ^ 1023" by simp
  finally obtain r where r: "f64_round (b - y) = Fin r" "\<bar>r - (b - y)\<bar> \<le> \<bar>b - y\<bar> / 2 ^ 53"
    using f64_round_error [OF low] by blast
  have "\<bar>b - y\<bar> / 2 ^ 53 \<le> 2 ^ 40 / 2 ^ 53" using assms y by (intro divide_right_mono) simp_all
  also have "\<dots> \<le> (1 :: rat) / 1000" by simp
  finally have "r \<le> b" using r(2) y(2) unfolding abs_le_iff by linarith
  with r(1) y(1) show ?thesis by (simp add: f64_sub_def)
qed

lemma f64_order_of_maker:
  assumes "800 <s position_in (mu_symbol market) t" "maker_generate_order market timestamp t = (order, t')"
  shows "order = Some (next_order (t\<lparr>ta_order_counter := ta_order_counter t + 1\<rparr>) market timestamp Sell IOC
      (f64_sub (mu_bid_price market) (f64_lit 1 100)) (of_int (sint (position_in (mu_symbol market) t) div 4)))
    \<and> t' = t\<lparr>ta_order_counter := ta_order_counter t + 1\<rparr>
    \<and> 200 \<le> sint (of_int (sint (position_in (mu_symbol market) t) div 4) :: i64)"
proof -
  let ?p = "position_in (mu_symbol market) t"
  have p: "800 < sint ?p" "sint ?p < 2 ^ 63"
    using assms(1) sint_lt [of ?p] by (simp_all add: word_sless_alt)
  then have "i64_abs ?p = ?p" by (simp add: i64_abs_def word_sless_alt)
  moreover have s: "sint (of_int (sint ?p div 4) :: i64) = sint ?p div 4"
    using p by (simp add: int_word_sint)
  have "200 \<le> sint ?p div 4" using p(1) by simp
  with s have "signed_max (of_int (sint ?p div 4)) 100 = (of_int (sint ?p div 4) :: i64)"
    by (simp add: signed_max_def word_sless_alt)
  ultimately show ?thesis
    using assms p(1) \<open>200 \<le> sint ?p div 4\<close> s
    by (auto simp: maker_generate_order_def Let_def word_sless_alt)
qed

lemma match_side_zero: "match_side order 0 entries k = (0, entries, k, [])"
proof (cases entries)
  case (Cons e es)
  then show ?thesis by (cases e) simp
qed simp

text \<open>The market maker can enlarge the position it wants to reduce. When its position is above 800 and
  the best bid is its own, at least as high as at the last update and large enough, its order to
  sell a quarter of the position trades with its own bid: it books a purchase, and its position
  grows by that quarter, while no one else's changes.\<close>

lemma flattening_enlarges_position:
  assumes long: "position_in (mu_symbol market) (co_market_maker c) = position" "800 <s position"
    and bid: "ob_bids (co_order_book c) = (Fin p, q, ta_trader_id (co_market_maker c)) # bids"
      "mu_bid_price market = Fin b" "1 \<le> b" "b \<le> p" "b \<le> 2 ^ 40" "sint position div 4 \<le> sint q"
    and ids: "distinct (trader_ids c)"
    and order: "maker_generate_order market timestamp (co_market_maker c) = (order, mm)"
  shows "\<exists>c'. execute_order order (c\<lparr>co_market_maker := mm\<rparr>) = Some c'
    \<and> position_in (mu_symbol market) (co_market_maker c') = position + of_int (sint position div 4)
    \<and> position_in (mu_symbol market) (co_trader1 c') = position_in (mu_symbol market) (co_trader1 c)
    \<and> position_in (mu_symbol market) (co_trader2 c') = position_in (mu_symbol market) (co_trader2 c)"
proof -
  let ?t = "co_market_maker c" and ?f = "of_int (sint position div 4) :: i64"
  obtain r where r: "f64_sub (Fin b) (f64_lit 1 100) = Fin r" "r \<le> b" using f64_cent_less [OF bid(3,5)] by blast
  define ord where "ord = next_order (?t\<lparr>ta_order_counter := ta_order_counter ?t + 1\<rparr>) market timestamp Sell IOC (Fin r) ?f"
  from f64_order_of_maker [OF _ order] long have o: "order = Some ord" "mm = ?t\<lparr>ta_order_counter := ta_order_counter ?t + 1\<rparr>"
    and f: "200 \<le> sint ?f" by (simp_all add: ord_def bid(2) r(1))
  have p63: "sint position < 2 ^ 63" "800 < sint position" using sint_lt [of position] long(2) by (simp_all add: word_sless_alt)
  then have sf: "sint ?f = sint position div 4" by (simp add: int_word_sint)
  define trade where "trade = trade_of ord (ta_trader_id ?t) (Fin p) ?f (ob_trade_counter (co_order_book c) + 1)"
  have cross: "prices_cross ord (Fin p)" using r(2) bid(4) by (simp add: ord_def next_order_def prices_cross_def f64_le_def)
  have fields: "to_side ord = Sell" "to_order_type ord = IOC" "to_quantity ord = ?f" by (simp_all add: ord_def next_order_def)
  have "\<exists>n es k. match_side ord ?f ((Fin p, q, ta_trader_id ?t) # bids) (ob_trade_counter (co_order_book c)) = (n, es, k, [trade])"
  proof (cases "sint q = sint ?f")
    case True
    then have q: "q = ?f" by (rule sint_inj)
    have "match_side ord (?f - q) bids k = (0, bids, k, [])" for k by (simp add: q match_side_zero)
    then show ?thesis
      using match_side_step(1) [of ?f q ord "Fin p" bids "ob_trade_counter (co_order_book c)" 0 bids
          "ob_trade_counter (co_order_book c) + 1" "[]" "ta_trader_id ?t"] f cross True q
      by (auto simp: trade_def)
  next
    case False
    then show ?thesis
      using match_side_step(2) [of ?f q ord "Fin p"] f cross bid(6) sf by (auto simp: trade_def)
  qed
  then obtain n es k where m: "match_side ord ?f (ob_bids (co_order_book c)) (ob_trade_counter (co_order_book c)) = (n, es, k, [trade])"
    by (auto simp: bid(1))
  have "\<exists>ob. match_trader_order ord (co_order_book c) = Some ([trade], ob)"
    using m fields by (simp add: match_trader_order_def Let_def)
  then obtain ob where ob: "match_trader_order ord (co_order_book c) = Some ([trade], ob)" by blast
  have parties: "bt_buyer_id trade = ta_trader_id ?t" "bt_seller_id trade = ta_trader_id ?t" "bt_symbol trade = mu_symbol market"
    "bt_quantity trade = ?f"
    by (simp_all add: trade_def trade_of_def ord_def next_order_def)
  have "ta_trader_id (co_trader1 c) \<noteq> ta_trader_id ?t" "ta_trader_id (co_trader2 c) \<noteq> ta_trader_id ?t"
    using ids by (auto simp: trader_ids_def)
  then have eff: "trade_effect trade (ta_trader_id (co_trader1 c)) = 0" "trade_effect trade (ta_trader_id (co_trader2 c)) = 0"
    "trade_effect trade (ta_trader_id ?t) = ?f" using parties by (simp_all add: trade_effect_def)
  have "position_in (mu_symbol market) (?t\<lparr>ta_order_counter := i\<rparr>) = position" for i using long(1) by (simp add: position_in_def)
  then show ?thesis
    using ob eff parties(3) by (simp add: o execute_order_def share_trade_def process_trade_position)
qed

definition long_maker :: competition where
  "long_maker = competition_new\<lparr>
     co_market_maker := (market_maker_new ''MARKETMKR-3'' (Fin 900000))\<lparr>ta_positions := [(''COMP'', 1000)]\<rparr>,
     co_order_book := (order_book_new ''COMP'' (Fin 100))\<lparr>ob_bids := [(Fin 99, 300, ''MARKETMKR-3'')]\<rparr>\<rparr>"

lemma flattening_enlarges_position_example:
  "\<exists>order mm c'. maker_generate_order (get_market_update 0 (co_order_book long_maker)) 0 (co_market_maker long_maker) = (order, mm)
    \<and> execute_order order (long_maker\<lparr>co_market_maker := mm\<rparr>) = Some c'
    \<and> position_in ''COMP'' (co_market_maker c') = 1250"
proof -
  let ?market = "get_market_update 0 (co_order_book long_maker)"
  have market: "mu_symbol ?market = ''COMP''" "mu_bid_price ?market = Fin 99"
    by (simp_all add: get_market_update_def long_maker_def order_book_new_def)
  have bids: "ob_bids (co_order_book long_maker) = (Fin 99, 300, ta_trader_id (co_market_maker long_maker)) # []"
    by (simp add: long_maker_def market_maker_new_def)
  have long: "position_in (mu_symbol ?market) (co_market_maker long_maker) = 1000"
    by (simp only: market) (simp add: long_maker_def market_maker_new_def position_in_def)
  have ids: "distinct (trader_ids long_maker)"
    by (simp add: trader_ids_def long_maker_def competition_new_def market_maker_new_def momentum_trader_new_def
        mean_reversion_trader_new_def)
  obtain order mm where order: "maker_generate_order ?market 0 (co_market_maker long_maker) = (order, mm)" by fastforce
  from flattening_enlarges_position [OF long _ bids market(2) _ _ _ _ ids order] order market(1) show ?thesis
    by (auto simp: word_sless_alt)
qed

section \<open>Sizes of quotes\<close>

text \<open>Rounding a number between \<open>lo\<close> and \<open>hi\<close>.\<close>

lemma f64_round_range:
  assumes "lo \<le> x" "x \<le> hi" "1 / 2 ^ 100 \<le> lo" "hi \<le> 2 ^ 100"
  shows "\<exists>y. f64_round x = Fin y \<and> lo * (1 - 1 / 2 ^ 53) \<le> y \<and> y \<le> hi * (1 + 1 / 2 ^ 53)"
proof -
  have "(1 :: rat) / 2 ^ 1022 \<le> 1 / 2 ^ 100" by simp
  moreover have "(0 :: rat) < 1 / 2 ^ 100" by simp
  ultimately have x: "0 < x" "1 / 2 ^ 1022 \<le> \<bar>x\<bar>" using assms(1,3) by linarith+
  have "\<bar>x\<bar> \<le> 2 ^ 100" using assms(2,4) x(1) by simp
  also have "\<dots> < (2 :: rat) ^ 1023" by simp
  finally obtain y where y: "f64_round x = Fin y" "\<bar>y - x\<bar> \<le> \<bar>x\<bar> / 2 ^ 53"
    using f64_round_error [OF x(2)] by blast
  define u where "u = x / 2 ^ 53"
  have u: "x * (1 - 1 / 2 ^ 53) = x - u" "x * (1 + 1 / 2 ^ 53) = x + u"
    by (simp_all add: u_def right_diff_distrib distrib_left)
  have "\<bar>y - x\<bar> \<le> u" using y(2) x(1) by (simp only: u_def abs_of_pos)
  then have "x * (1 - 1 / 2 ^ 53) \<le> y" "y \<le> x * (1 + 1 / 2 ^ 53)"
    unfolding u abs_le_iff by linarith+
  moreover have "lo * (1 - 1 / 2 ^ 53) \<le> x * (1 - 1 / 2 ^ 53)" using assms(1) by (intro mult_right_mono) simp_all
  moreover have "x * (1 + 1 / 2 ^ 53) \<le> hi * (1 + 1 / 2 ^ 53)" using assms(2) by (intro mult_right_mono) simp_all
  ultimately show ?thesis using y(1) by force
qed

text \<open>The share of a full size that a distance leaves: between a half and all of it.\<close>

lemma size_share:
  assumes "0 \<le> d" "d < 2 ^ 63"
  shows "\<exists>m. f64_sub (Fin 1) (f64_min (f64_div (f64_of_int d) (Fin 2000)) (Fin (1 / 2))) = Fin m
    \<and> 1 / 2 * (1 - 1 / 2 ^ 53) \<le> m \<and> m \<le> 1 + 1 / 2 ^ 53"
proof -
  have "\<exists>z. f64_div (f64_of_int d) (Fin 2000) = Fin z \<and> 0 \<le> z"
  proof (cases "d = 0")
    case True
    then show ?thesis using f64_of_int_exact [of 0] by (simp add: f64_round_def)
  next
    case False
    have "1 \<le> rat_of_int d" using False assms(1) by simp
    moreover have "rat_of_int d \<le> rat_of_int (2 ^ 63)" using assms(2) by (simp only: of_int_le_iff)
    ultimately obtain y where y: "f64_of_int d = Fin y" "1 * (1 - 1 / 2 ^ 53) \<le> y" "y \<le> 2 ^ 63 * (1 + 1 / 2 ^ 53)"
      using f64_round_range [of 1 "of_int d" "2 ^ 63"] by (auto simp: f64_of_int_def)
    have "1 / 4000 \<le> y / 2000" "y / 2000 \<le> 2 ^ 64" using y(2,3) by simp_all
    from f64_round_range [OF this] obtain z where "f64_round (y / 2000) = Fin z" "1 / 4000 * (1 - 1 / 2 ^ 53) \<le> z" by auto
    moreover have "(0 :: rat) \<le> 1 / 4000 * (1 - 1 / 2 ^ 53)" by simp
    ultimately show ?thesis using y(1) by auto
  qed
  then obtain z where z: "f64_div (f64_of_int d) (Fin 2000) = Fin z" "0 \<le> z" by blast
  define k where "k = min z (1 / 2)"
  have k: "f64_min (Fin z) (Fin (1 / 2)) = Fin k" "0 \<le> k" "k \<le> 1 / 2"
    using z(2) by (auto simp: f64_min_def k_def min_def)
  from f64_round_range [of "1 / 2" "1 - k" 1] k(2,3) obtain m where
    "f64_round (1 - k) = Fin m" "1 / 2 * (1 - 1 / 2 ^ 53) \<le> m" "m \<le> 1 * (1 + 1 / 2 ^ 53)" by auto
  then show ?thesis using k(1) z(1) by (simp add: f64_sub_def)
qed

lemma i64_abs_range: "sint p \<noteq> - (2 ^ 63) \<Longrightarrow> 0 \<le> sint (i64_abs p) \<and> sint (i64_abs p) < 2 ^ 63"
  using sint_lt [of p] sint_ge [of p]
  by (auto simp: i64_abs_def word_sless_alt sint_word_ariths signed_take_bit_int_eq_self)

text \<open>The market maker always quotes both sides, and for any position at most 300 and at least 149 units
  on each; the minimum of 50 in the code never takes effect. (The position is not the least 64-bit
  integer, which has no absolute value.)\<close>

lemma maker_quote_sizes:
  assumes "mm_inventory_target t = 0" "sint (position_in (mu_symbol market) t) \<noteq> - (2 ^ 63)"
  shows "let q = maker_generate_quote market timestamp t
    in tq_bid_size q = tq_ask_size q \<and> 149 \<le> sint (tq_bid_size q) \<and> sint (tq_bid_size q) \<le> 300"
proof -
  let ?d = "sint (i64_abs (position_in (mu_symbol market) t))"
  have d: "0 \<le> ?d" "?d < 2 ^ 63" using i64_abs_range [OF assms(2)] by simp_all
  from size_share [OF d] obtain m where
    m: "f64_sub (Fin 1) (f64_min (f64_div (f64_of_int ?d) (Fin 2000)) (Fin (1 / 2))) = Fin m"
      "1 / 2 * (1 - 1 / 2 ^ 53) \<le> m" "m \<le> 1 + 1 / 2 ^ 53" by blast
  have "299 / 2 \<le> 300 * m" "300 * m \<le> 300 + 1 / 1000" using m(2,3) by simp_all
  from f64_round_range [OF this] obtain r where
    r: "f64_round (300 * m) = Fin r" "299 / 2 * (1 - 1 / 2 ^ 53) \<le> r" "r \<le> (300 + 1 / 1000) * (1 + 1 / 2 ^ 53)" by auto
  have "149 \<le> r" "r < 301" using r(2,3) by simp_all
  then have f: "149 \<le> \<lfloor>r\<rfloor>" "\<lfloor>r\<rfloor> \<le> 300" by linarith+
  have size: "sint (f64_as_i64 (f64_mul (Fin 300) (Fin m))) = \<lfloor>r\<rfloor>"
    using r(1) f \<open>149 \<le> r\<close> by (simp add: truncate_rat_def int_word_sint)
  then have "signed_max (f64_as_i64 (f64_mul (Fin 300) (Fin m))) 50 = f64_as_i64 (f64_mul (Fin 300) (Fin m))"
    using f by (simp add: signed_max_def word_sless_alt)
  then show ?thesis
    using m(1) size f assms(1) by (simp add: maker_generate_quote_def Let_def i64_as_f64_def)
qed

lemma maker_quote_sizes_example:
  "149 \<le> sint (tq_bid_size (maker_generate_quote (get_market_update 0 (co_order_book long_maker)) 0 (co_market_maker long_maker)))"
proof -
  let ?market = "get_market_update 0 (co_order_book long_maker)"
  have "mm_inventory_target (co_market_maker long_maker) = 0" by (simp add: long_maker_def market_maker_new_def)
  moreover have "mu_symbol ?market = ''COMP''" by (simp add: get_market_update_def long_maker_def order_book_new_def)
  then have "sint (position_in (mu_symbol ?market) (co_market_maker long_maker)) \<noteq> - (2 ^ 63)"
    by (simp only:) (simp add: long_maker_def market_maker_new_def position_in_def)
  ultimately show ?thesis using maker_quote_sizes [of "co_market_maker long_maker" ?market 0] unfolding Let_def by blast
qed

text \<open>The volume of an update is that of all trades so far, and the mean reversion trader adds it at every
  update: after two updates with nothing traded in between, its volume is twice the traded one.\<close>

lemma vwap_volume_repeats:
  assumes "mu_volume u = v" "mu_volume u' = v" "0 <s v" "rt_vwap_volume t = 0"
  shows "rt_vwap_volume (reversion_update_market u' (reversion_update_market u t)) = 2 * v"
  using assms by (simp add: reversion_update_market_def Let_def)

end
