(* ===== verification/Demo_Cluster.thy ===== *)
theory Demo_Cluster
  imports Float64
begin

text \<open>
  The demonstration of the architecture in \<open>src/demo.rs\<close>: a cluster of nodes, files and partitions
  held in maps, the routing of keys to nodes and partitions, and simulated writes, which count
  records but store nothing. \<open>crc\<close> is the checksum of \<open>crc32fast\<close>; times are arguments. A
  \<open>HashMap\<close> is the list of its entries in the order of a traversal.
\<close>

section \<open>Data\<close>

datatype demo_node_type = ControlNode | DataNode | MixedNode

definition node_type_text :: "demo_node_type \<Rightarrow> string" where
  "node_type_text t = (case t of ControlNode \<Rightarrow> ''Control'' | DataNode \<Rightarrow> ''Data'' | MixedNode \<Rightarrow> ''Mixed'')"

record demo_node =
  dn_id :: u32
  dn_name :: string
  dn_node_type :: demo_node_type
  dn_ip :: string
  dn_port :: u16
  dn_memory_gb :: u64
  dn_storage_gb :: u64
  dn_active :: bool

definition demo_node_new :: "u32 \<Rightarrow> string \<Rightarrow> demo_node_type \<Rightarrow> demo_node" where
  "demo_node_new nid name node_type = \<lparr>dn_id = nid, dn_name = name, dn_node_type = node_type,
     dn_ip = ''127.0.0.1'', dn_port = 8080 + ucast nid, dn_memory_gb = 8, dn_storage_gb = 100,
     dn_active = True\<rparr>"

definition demo_load_factor :: "demo_node \<Rightarrow> f64" where
  "demo_load_factor n = f64_add (f64_lit 1 4)
     (f64_rem (f64_mul (f64_of_int (uint (dn_id n))) (f64_lit 1 10)) (f64_lit 1 2))"

datatype demo_key = DemoString string | DemoInteger i64 | DemoTimestamp u64

definition demo_key_hash :: "(bytes \<Rightarrow> u32) \<Rightarrow> demo_key \<Rightarrow> u64" where
  "demo_key_hash crc key = ucast (crc (case key of
       DemoString s \<Rightarrow> map of_char s
     | DemoInteger i \<Rightarrow> le_bytes 8 i
     | DemoTimestamp t \<Rightarrow> le_bytes 8 t))"

record demo_file =
  df_logical_path :: string
  df_size_bytes :: u64
  df_node_id :: u32
  df_replicas :: "u32 list"

record demo_partition =
  dp_id :: u32
  dp_node_ids :: "u32 list"
  dp_total_records :: u64
  dp_total_size :: u64

definition demo_partition_new :: "u32 \<Rightarrow> u32 list \<Rightarrow> demo_partition" where
  "demo_partition_new pid node_ids = \<lparr>dp_id = pid, dp_node_ids = node_ids,
     dp_total_records = 100000 * ucast pid, dp_total_size = 100 * 1024 * 1024 * ucast pid\<rparr>"

record demo_cluster =
  dc_nodes :: "(u32 \<times> demo_node) list"
  dc_files :: "(string \<times> demo_file) list"
  dc_partitions :: "(u32 \<times> demo_partition) list"
  dc_total_memory :: u64
  dc_total_storage :: u64

record data_record =
  da_key :: demo_key
  da_value :: bytes
  da_timestamp :: u64

definition data_record_new :: "demo_key \<Rightarrow> bytes \<Rightarrow> u64 \<Rightarrow> data_record" where
  "data_record_new key content now = \<lparr>da_key = key, da_value = content, da_timestamp = now\<rparr>"

definition demo_file_new :: "string \<Rightarrow> u64 \<Rightarrow> u32 \<Rightarrow> u32 list \<Rightarrow> demo_file" where
  "demo_file_new path len node_id replicas = \<lparr>df_logical_path = path, df_size_bytes = len,
     df_node_id = node_id, df_replicas = replicas\<rparr>"

definition data_record_size :: "data_record \<Rightarrow> usize" where
  "data_record_size r = of_nat (length (da_value r)) + 8"

record write_result =
  wr_record :: data_record
  wr_partition_id :: u32
  wr_node_id :: u32
  wr_replicas :: "u32 list"
  wr_success :: bool
  wr_latency_ms :: u64

record demo_stats =
  de_active_nodes :: nat
  de_total_files :: nat
  de_total_partitions :: nat
  de_total_memory :: u64
  de_total_storage :: u64

section \<open>The cluster\<close>

definition demo_cluster_new :: demo_cluster where
  "demo_cluster_new = \<lparr>dc_nodes = [], dc_files = [], dc_partitions = [], dc_total_memory = 0,
     dc_total_storage = 0\<rparr>"

definition demo_add_node :: "demo_node \<Rightarrow> demo_cluster \<Rightarrow> demo_cluster" where
  "demo_add_node node c = c\<lparr>dc_total_memory := dc_total_memory c + dn_memory_gb node,
     dc_total_storage := dc_total_storage c + dn_storage_gb node,
     dc_nodes := hash_insert (dn_id node) node (dc_nodes c)\<rparr>"

definition demo_create_file :: "string \<Rightarrow> u64 \<Rightarrow> u32 \<Rightarrow> demo_cluster \<Rightarrow> (string + unit) \<times> demo_cluster" where
  "demo_create_file path len node_id c =
     (if map_of (dc_nodes c) node_id = None
      then (Inl (''Node '' @ nat_string (unat node_id) @ '' not found''), c)
      else (Inr (), c\<lparr>dc_files := hash_insert path
        (demo_file_new path len node_id (take 3 (map fst (dc_nodes c)))) (dc_files c)\<rparr>))"

definition demo_create_partition :: "u32 \<Rightarrow> demo_cluster \<Rightarrow> (string + unit) \<times> demo_cluster" where
  "demo_create_partition pid c =
     (let node_ids = map fst (dc_nodes c)
      in if node_ids = [] then (Inl ''No nodes available'', c)
         else (Inr (), c\<lparr>dc_partitions := hash_insert pid (demo_partition_new pid node_ids) (dc_partitions c)\<rparr>))"

definition demo_node_for_key :: "(bytes \<Rightarrow> u32) \<Rightarrow> demo_cluster \<Rightarrow> demo_key \<Rightarrow> demo_node option" where
  "demo_node_for_key crc c key =
     (let hash = demo_key_hash crc key; node_count = of_nat (length (dc_nodes c)) :: u64
      in if node_count = 0 then None
         else let node_index = ucast (hash mod node_count) :: u32; node_ids = map fst (dc_nodes c)
              in if unat node_index < length node_ids
                 then map_of (dc_nodes c) (node_ids ! unat node_index) else None)"

definition demo_partition_for_key ::
    "(bytes \<Rightarrow> u32) \<Rightarrow> demo_cluster \<Rightarrow> demo_key \<Rightarrow> demo_partition option" where
  "demo_partition_for_key crc c key =
     (let hash = demo_key_hash crc key; partition_count = of_nat (length (dc_partitions c)) :: u64
      in if partition_count = 0 then None
         else map_of (dc_partitions c) (ucast (hash mod partition_count + 1)))"

definition demo_cluster_stats :: "demo_cluster \<Rightarrow> demo_stats" where
  "demo_cluster_stats c = \<lparr>de_active_nodes = length (filter (\<lambda>(_, n). dn_active n) (dc_nodes c)),
     de_total_files = length (dc_files c), de_total_partitions = length (dc_partitions c),
     de_total_memory = dc_total_memory c, de_total_storage = dc_total_storage c\<rparr>"

section \<open>Writing and reading\<close>

text \<open>The clock holds the two readings around the simulated write.\<close>

definition demo_write_record :: "(bytes \<Rightarrow> u32) \<Rightarrow> u64 \<times> u64 \<Rightarrow> data_record \<Rightarrow> demo_cluster
    \<Rightarrow> (string + write_result) \<times> demo_cluster" where
  "demo_write_record crc clock r c =
     (let partition_id = (case demo_partition_for_key crc c (da_key r) of None \<Rightarrow> 1 | Some p \<Rightarrow> dp_id p)
      in case demo_node_for_key crc c (da_key r) of
           None \<Rightarrow> (Inl ''No suitable node found for key'', c)
         | Some n \<Rightarrow>
             let primary_node_id = dn_id n;
                 replicas = take 2 (filter (\<lambda>i. i \<noteq> primary_node_id) (map fst (dc_nodes c)));
                 latency_ms = (snd clock - fst clock) div 1000;
                 c' = (case map_of (dc_partitions c) partition_id of
                     None \<Rightarrow> c
                   | Some p \<Rightarrow> c\<lparr>dc_partitions := hash_insert partition_id
                       (p\<lparr>dp_total_records := dp_total_records p + 1,
                          dp_total_size := dp_total_size p + data_record_size r\<rparr>) (dc_partitions c)\<rparr>)
             in (Inr \<lparr>wr_record = r, wr_partition_id = partition_id, wr_node_id = primary_node_id,
                  wr_replicas = replicas, wr_success = True, wr_latency_ms = latency_ms\<rparr>, c'))"

fun demo_write_batch :: "(bytes \<Rightarrow> u32) \<Rightarrow> (nat \<Rightarrow> u64 \<times> u64) \<Rightarrow> nat \<Rightarrow> data_record list \<Rightarrow> demo_cluster
    \<Rightarrow> (string + write_result) list \<times> demo_cluster" where
  "demo_write_batch crc clock i [] c = ([], c)"
| "demo_write_batch crc clock i (r # rs) c =
     (let (result, c1) = demo_write_record crc (clock i) r c;
          (results, c2) = demo_write_batch crc clock (i + 1) rs c1
      in (result # results, c2))"

definition demo_read_record :: "demo_key \<Rightarrow> demo_cluster \<Rightarrow> data_record option" where
  "demo_read_record key c = None"

section \<open>The demonstration\<close>

text \<open>The texts are those of the source without the coloured disc in front.\<close>

definition demo_load_indicator :: "f64 \<Rightarrow> string" where
  "demo_load_indicator load =
     (if f64_less load (f64_lit 3 10) then ''Low''
      else if f64_less load (f64_lit 7 10) then ''Medium'' else ''High'')"

definition demo_nodes :: "demo_node list" where
  "demo_nodes = [demo_node_new 1 ''control-node'' ControlNode, demo_node_new 2 ''data-node-1'' DataNode,
     demo_node_new 3 ''data-node-2'' DataNode, demo_node_new 4 ''mixed-node'' MixedNode]"

definition demo_files :: "(string \<times> u64) list" where
  "demo_files = [(''/data/users'', 1024 * 1024), (''/data/orders'', 10 * 1024 * 1024),
     (''/index/users_idx'', 512 * 1024), (''/logs/app.log'', 100 * 1024)]"

definition demo_keys :: "demo_key list" where
  "demo_keys = [DemoString ''user_123'', DemoInteger 42, DemoTimestamp 1640995200]"

definition demo_records :: "(nat \<Rightarrow> u64) \<Rightarrow> data_record list" where
  "demo_records now =
     [data_record_new (DemoString ''user_123'') (map of_char ''John Doe, john@example.com, active'') (now 0),
      data_record_new (DemoInteger 42) (map of_char ''Answer to everything: 42'') (now 1),
      data_record_new (DemoTimestamp 1640995200) (map of_char ''New Year 2022 data'') (now 2),
      data_record_new (DemoString ''order_456'') (map of_char ''Order #456: $299.99, shipped'') (now 3)]"

record demonstration =
  dm_cluster :: demo_cluster \<comment> \<open>before the writes\<close>
  dm_routes :: "(u32 \<times> u32) option list" \<comment> \<open>node and partition of each key\<close>
  dm_results :: "(string + write_result) list"
  dm_loads :: "(string \<times> string) list"
  dm_stats :: demo_stats \<comment> \<open>after the writes\<close>

definition demonstration_cluster :: demo_cluster where
  "demonstration_cluster =
     (let c1 = foldl (\<lambda>c n. demo_add_node n c) demo_cluster_new demo_nodes;
          c2 = foldl (\<lambda>c (path, len). snd (demo_create_file path len 2 c)) c1 demo_files
      in foldl (\<lambda>c i. snd (demo_create_partition (of_nat i) c)) c2 [1..<9])"

definition demonstrate_architecture ::
    "(bytes \<Rightarrow> u32) \<Rightarrow> (nat \<Rightarrow> u64 \<times> u64) \<Rightarrow> (nat \<Rightarrow> u64) \<Rightarrow> demonstration" where
  "demonstrate_architecture crc clock now =
     (let cluster = demonstration_cluster;
          (results, write_cluster) = demo_write_batch crc clock 0 (demo_records now) cluster
      in \<lparr>dm_cluster = cluster,
          dm_routes = map (\<lambda>key. case (demo_node_for_key crc cluster key, demo_partition_for_key crc cluster key) of
              (Some n, Some p) \<Rightarrow> Some (dn_id n, dp_id p) | _ \<Rightarrow> None) demo_keys,
          dm_results = results,
          dm_loads = map (\<lambda>(_, n). (dn_name n, demo_load_indicator (demo_load_factor n))) (dc_nodes cluster),
          dm_stats = demo_cluster_stats write_cluster\<rparr>)"

section \<open>Invariant\<close>

text \<open>Every entry carries its key, and the partitions are numbered from 1 without gaps.\<close>

definition demo_ok :: "demo_cluster \<Rightarrow> bool" where
  "demo_ok c \<longleftrightarrow> distinct (map fst (dc_nodes c)) \<and> (\<forall>(i, n) \<in> set (dc_nodes c). dn_id n = i)
     \<and> length (dc_nodes c) < 2 ^ 32
     \<and> distinct (map fst (dc_partitions c))
     \<and> fst ` set (dc_partitions c) = of_nat ` {1..length (dc_partitions c)}
     \<and> (\<forall>(i, p) \<in> set (dc_partitions c). dp_id p = i) \<and> length (dc_partitions c) < 2 ^ 32"

lemma unat_route:
  assumes "0 < n" "n < 2 ^ 32"
  shows "unat (h mod of_nat n :: u64) < n"
proof -
  have "unat (of_nat n :: u64) = n" using assms(2) by (simp add: unat_of_nat64)
  then show ?thesis using assms(1) by (simp add: unat_mod_distrib)
qed

lemma route_index:
  assumes "0 < n" "n < 2 ^ 32"
  shows "unat (ucast (h mod of_nat n :: u64) :: u32) < n"
    and "\<exists>k \<in> {1..n}. (ucast (h mod of_nat n + 1 :: u64) :: u32) = of_nat k"
proof -
  let ?k = "unat (h mod of_nat n :: u64)"
  have k: "?k < n" using unat_route [OF assms] .
  have "?k < 2 ^ 32" using k assms(2) by (rule less_trans)
  then have "unat (of_nat ?k :: u32) = ?k" by (rule unat_of_nat32)
  then show "unat (ucast (h mod of_nat n :: u64) :: u32) < n" using k by (metis of_nat_unat)
  have "unat (h mod of_nat n + 1 :: u64) = ?k + 1" using k assms(2) by (simp add: unat_Suc64)
  then have "(ucast (h mod of_nat n + 1 :: u64) :: u32) = of_nat (?k + 1)" by (metis of_nat_unat)
  with k show "\<exists>k \<in> {1..n}. (ucast (h mod of_nat n + 1 :: u64) :: u32) = of_nat k"
    by (intro bexI [of _ "?k + 1"]) simp_all
qed

lemma of_nat64_pos: "0 < n \<Longrightarrow> n < 2 ^ 32 \<Longrightarrow> (of_nat n :: u64) \<noteq> 0"
  using of_nat_eq_iff64 [of n 0] by simp

text \<open>A key always finds a node and a partition once there are any.\<close>

lemma node_found:
  assumes "demo_ok c" "dc_nodes c \<noteq> []"
  obtains n where "demo_node_for_key crc c key = Some n" "dn_id n \<in> set (map fst (dc_nodes c))"
proof -
  let ?n = "length (dc_nodes c)" and ?h = "demo_key_hash crc key"
  have n: "0 < ?n" "?n < 2 ^ 32" using assms by (simp_all add: demo_ok_def)
  let ?i = "unat (ucast (?h mod of_nat ?n :: u64) :: u32)"
  have i: "?i < ?n" using route_index(1) [OF n] .
  obtain nid node where entry: "dc_nodes c ! ?i = (nid, node)" by fastforce
  then have mem: "(nid, node) \<in> set (dc_nodes c)" using i by (metis nth_mem)
  then have "map_of (dc_nodes c) nid = Some node" "dn_id node = nid" using assms(1) by (auto simp: demo_ok_def)
  moreover have "map fst (dc_nodes c) ! ?i = nid" using i entry by simp
  ultimately have "demo_node_for_key crc c key = Some node"
    using i of_nat64_pos [OF n] by (simp add: demo_node_for_key_def Let_def)
  then show ?thesis using mem \<open>dn_id node = nid\<close> by (intro that) force+
qed

lemma partition_found:
  assumes "demo_ok c" "dc_partitions c \<noteq> []"
  obtains p where "demo_partition_for_key crc c key = Some p" "map_of (dc_partitions c) (dp_id p) = Some p"
proof -
  let ?n = "length (dc_partitions c)" and ?h = "demo_key_hash crc key"
  have n: "0 < ?n" "?n < 2 ^ 32" using assms by (simp_all add: demo_ok_def)
  obtain k where k: "k \<in> {1..?n}" "(ucast (?h mod of_nat ?n + 1 :: u64) :: u32) = of_nat k"
    using route_index(2) [OF n] by blast
  then have "of_nat k \<in> fst ` set (dc_partitions c)" using assms(1) by (simp add: demo_ok_def)
  then obtain p where "(of_nat k, p) \<in> set (dc_partitions c)" by force
  then have "map_of (dc_partitions c) (of_nat k) = Some p" "dp_id p = of_nat k"
    using assms(1) by (auto simp: demo_ok_def)
  then show ?thesis
    using k(2) of_nat64_pos [OF n] by (intro that [of p]) (simp_all add: demo_partition_for_key_def Let_def)
qed

section \<open>What writes count\<close>

definition records_counted :: "demo_cluster \<Rightarrow> u64" where
  "records_counted c = sum_list (map (\<lambda>(_, p). dp_total_records p) (dc_partitions c))"

definition bytes_counted :: "demo_cluster \<Rightarrow> u64" where
  "bytes_counted c = sum_list (map (\<lambda>(_, p). dp_total_size p) (dc_partitions c))"

lemma hash_insert_keeps:
  assumes "map_of m k = Some v" "distinct (map fst m)"
  shows "map fst (hash_insert k v' m) = map fst m"
    and "sum_list (map (\<lambda>(_, x). f x) (hash_insert k v' m)) + f v
      = sum_list (map (\<lambda>(_, x). f x) m) + (f v' :: 'b::ab_group_add)"
    and "(i, x) \<in> set (hash_insert k v' m) \<Longrightarrow> (i = k \<and> x = v') \<or> (i, x) \<in> set m"
  using assms
proof (induction k v' m rule: hash_insert.induct)
  case (2 k v' k' v'' m)
  { case 1 then show ?case using 2 by (auto split: if_splits) }
  { case 2 then show ?case using "2.IH"(2) by (auto simp: algebra_simps split: if_splits) }
  { case 3 then show ?case using "2.IH"(3) by (auto split: if_splits) }
qed simp_all

lemma length_filter_out:
  "distinct xs \<Longrightarrow> x \<in> set xs \<Longrightarrow> length (filter (\<lambda>y. y \<noteq> x) xs) = length xs - 1"
proof (induction xs)
  case (Cons a xs)
  show ?case
  proof (cases "a = x")
    case True
    with Cons.prems have "filter (\<lambda>y. y \<noteq> x) xs = xs" by (intro filter_True) auto
    with True show ?thesis by simp
  next
    case False
    with Cons show ?thesis by (auto simp: Suc_diff_le dest: length_pos_if_in_set)
  qed
qed simp

definition same_routing :: "demo_cluster \<Rightarrow> demo_cluster \<Rightarrow> bool" where
  "same_routing c c' \<longleftrightarrow> dc_nodes c' = dc_nodes c \<and> dc_files c' = dc_files c
     \<and> map fst (dc_partitions c') = map fst (dc_partitions c)
     \<and> dc_total_memory c' = dc_total_memory c \<and> dc_total_storage c' = dc_total_storage c"

lemma write_record_ok:
  assumes "demo_ok c" "dc_nodes c \<noteq> []" "dc_partitions c \<noteq> []"
  shows "\<exists>res c'. demo_write_record crc clock r c = (Inr res, c') \<and> demo_ok c' \<and> same_routing c c'
    \<and> records_counted c' = records_counted c + 1
    \<and> bytes_counted c' = bytes_counted c + data_record_size r
    \<and> wr_node_id res \<in> fst ` set (dc_nodes c) \<and> wr_partition_id res \<in> fst ` set (dc_partitions c)
    \<and> wr_replicas res = take 2 (filter (\<lambda>i. i \<noteq> wr_node_id res) (map fst (dc_nodes c)))"
proof -
  obtain n where n: "demo_node_for_key crc c (da_key r) = Some n" "dn_id n \<in> set (map fst (dc_nodes c))"
    using node_found [OF assms(1,2)] .
  obtain p where p: "demo_partition_for_key crc c (da_key r) = Some p" "map_of (dc_partitions c) (dp_id p) = Some p"
    using partition_found [OF assms(1,3)] .
  let ?p = "p\<lparr>dp_total_records := dp_total_records p + 1, dp_total_size := dp_total_size p + data_record_size r\<rparr>"
  define ps where "ps = hash_insert (dp_id p) ?p (dc_partitions c)"
  have "distinct (map fst (dc_partitions c))" using assms(1) by (simp add: demo_ok_def)
  note keeps = hash_insert_keeps [OF p(2) this, where v' = ?p, folded ps_def]
  have len: "length ps = length (dc_partitions c)" and keys: "fst ` set ps = fst ` set (dc_partitions c)"
    using arg_cong [OF keeps(1), of length] arg_cong [OF keeps(1), of set] by simp_all
  have "dp_id q = i" if "(i, q) \<in> set ps" for i q
    using keeps(3) [OF that] assms(1) by (auto simp: demo_ok_def)
  then have "\<forall>(i, q) \<in> set ps. dp_id q = i" by blast
  then have "demo_ok (c\<lparr>dc_partitions := ps\<rparr>)"
    using assms(1) keeps(1) len keys by (simp add: demo_ok_def)
  moreover have "records_counted (c\<lparr>dc_partitions := ps\<rparr>) = records_counted c + 1"
    using keeps(2) [of dp_total_records] by (simp add: records_counted_def algebra_simps)
  moreover have "bytes_counted (c\<lparr>dc_partitions := ps\<rparr>) = bytes_counted c + data_record_size r"
    using keeps(2) [of dp_total_size] by (simp add: bytes_counted_def algebra_simps)
  moreover have "dp_id p \<in> fst ` set (dc_partitions c)" using p(2) by (force dest: map_of_SomeD)
  ultimately show ?thesis
    using n p keeps(1) by (simp add: demo_write_record_def Let_def same_routing_def flip: ps_def)
qed

lemma same_routing_trans: "same_routing a b \<Longrightarrow> same_routing b c \<Longrightarrow> same_routing a c"
  by (simp add: same_routing_def)

text \<open>The answer to a write: an existing node and partition, and replicas on other nodes.\<close>

definition well_placed :: "demo_cluster \<Rightarrow> string + write_result \<Rightarrow> bool" where
  "well_placed c result \<longleftrightarrow> (case result of Inl e \<Rightarrow> False | Inr res \<Rightarrow>
     wr_node_id res \<in> fst ` set (dc_nodes c) \<and> wr_partition_id res \<in> fst ` set (dc_partitions c)
     \<and> length (wr_replicas res) = min 2 (length (dc_nodes c) - 1)
     \<and> distinct (wr_node_id res # wr_replicas res) \<and> set (wr_replicas res) \<subseteq> fst ` set (dc_nodes c))"

lemma same_routing_placed: "same_routing c c' \<Longrightarrow> well_placed c' = well_placed c"
proof -
  assume r: "same_routing c c'"
  then have "dc_nodes c' = dc_nodes c" by (simp add: same_routing_def)
  moreover have "set (map fst (dc_partitions c')) = set (map fst (dc_partitions c))"
    using r by (simp only: same_routing_def)
  ultimately show ?thesis by (auto simp: well_placed_def fun_eq_iff split: sum.splits)
qed

lemma batch_written:
  assumes "demo_ok c" "dc_nodes c \<noteq> []" "dc_partitions c \<noteq> []"
  shows "case demo_write_batch crc clock i rs c of (results, c') \<Rightarrow>
      demo_ok c' \<and> same_routing c c'
      \<and> records_counted c' = records_counted c + of_nat (length rs)
      \<and> bytes_counted c' = bytes_counted c + sum_list (map data_record_size rs)
      \<and> length results = length rs \<and> list_all (well_placed c) results"
  using assms
proof (induction rs arbitrary: i c)
  case Nil
  then show ?case by (simp add: same_routing_def)
next
  case (Cons r rs)
  from write_record_ok [OF Cons.prems, of crc "clock i" r] obtain res c1 where
    w: "demo_write_record crc (clock i) r c = (Inr res, c1)" "demo_ok c1" "same_routing c c1"
    "records_counted c1 = records_counted c + 1" "bytes_counted c1 = bytes_counted c + data_record_size r"
    "wr_node_id res \<in> fst ` set (dc_nodes c)" "wr_partition_id res \<in> fst ` set (dc_partitions c)"
    "wr_replicas res = take 2 (filter (\<lambda>i. i \<noteq> wr_node_id res) (map fst (dc_nodes c)))"
    by blast
  let ?ids = "map fst (dc_nodes c)"
  have "distinct ?ids" using Cons.prems(1) by (simp add: demo_ok_def)
  then have "distinct (wr_replicas res)" "wr_node_id res \<notin> set (wr_replicas res)"
    "set (wr_replicas res) \<subseteq> fst ` set (dc_nodes c)"
    unfolding w(8) by (auto dest: in_set_takeD)
  moreover have "length (wr_replicas res) = min 2 (length (dc_nodes c) - 1)"
    using length_filter_out [OF \<open>distinct ?ids\<close>, of "wr_node_id res"] w(6) by (simp add: w(8))
  ultimately have placed: "well_placed c (Inr res)" using w(6,7) by (simp add: well_placed_def)
  have "dc_nodes c1 \<noteq> []" "dc_partitions c1 \<noteq> []"
    using Cons.prems w(3) by (auto simp: same_routing_def)
  moreover obtain results c2 where rest: "demo_write_batch crc clock (i + 1) rs c1 = (results, c2)" by fastforce
  ultimately have "demo_ok c2 \<and> same_routing c1 c2 \<and> records_counted c2 = records_counted c1 + of_nat (length rs)
      \<and> bytes_counted c2 = bytes_counted c1 + sum_list (map data_record_size rs)
      \<and> length results = length rs \<and> list_all (well_placed c1) results"
    using Cons.IH [OF w(2), of "i + 1"] by simp
  then show ?case
    using rest w(1,4,5) placed same_routing_trans [OF w(3), of c2] same_routing_placed [OF w(3)]
    by simp
qed

text \<open>A batch of writes to a cluster with nodes and partitions never fails, whatever the checksum:
  the partitions count every record and its size exactly once, and nodes, files and the numbering of
  partitions stay as they are. Each record gets an existing node and an existing partition, and at
  most two replicas, distinct nodes other than the primary one.\<close>

lemma batch_is_counted:
  assumes "demo_ok c" "dc_nodes c \<noteq> []" "dc_partitions c \<noteq> []"
  shows "case demo_write_batch crc clock i rs c of (results, c') \<Rightarrow>
      demo_ok c' \<and> same_routing c c'
      \<and> records_counted c' = records_counted c + of_nat (length rs)
      \<and> bytes_counted c' = bytes_counted c + sum_list (map data_record_size rs)
      \<and> length results = length rs \<and> list_all (well_placed c) results"
  by (rule batch_written [OF assms])

text \<open>Adding a node again replaces it, but counts its memory and storage a second time.\<close>

lemma hash_insert_again: "hash_insert k v (hash_insert k v m) = hash_insert k v m"
  by (induction k v m rule: hash_insert.induct) auto

lemma node_counted_twice:
  "dc_nodes (demo_add_node n (demo_add_node n c)) = dc_nodes (demo_add_node n c)
    \<and> dc_total_memory (demo_add_node n (demo_add_node n c)) = dc_total_memory c + 2 * dn_memory_gb n"
  by (simp add: demo_add_node_def hash_insert_again)

section \<open>The demonstration runs through\<close>

lemma demonstration_nodes:
  "foldl (\<lambda>c n. demo_add_node n c) demo_cluster_new demo_nodes
    = demo_cluster_new\<lparr>dc_nodes := map (\<lambda>n. (dn_id n, n)) demo_nodes,
        dc_total_memory := 32, dc_total_storage := 400\<rparr>"
  by (simp add: demo_cluster_new_def demo_nodes_def demo_node_new_def demo_add_node_def)

lemma demonstration_files:
  assumes "map fst (dc_nodes c) = [1, 2, 3, 4]" "dc_files c = []"
  shows "\<exists>files. foldl (\<lambda>c (path, len). snd (demo_create_file path len 2 c)) c demo_files
    = c\<lparr>dc_files := files\<rparr> \<and> length files = 4"
proof -
  have "2 \<in> set (map fst (dc_nodes c))" unfolding assms(1) by simp
  then obtain n where "map_of (dc_nodes c) 2 = Some n"
    by (metis map_of_eq_None_iff not_None_eq set_map)
  then have "snd (demo_create_file path len 2 c') = c'\<lparr>dc_files := hash_insert path
      (demo_file_new path len 2 [1, 2, 3]) (dc_files c')\<rparr>"
    if "dc_nodes c' = dc_nodes c" for path len c'
    using assms(1) that by (simp add: demo_create_file_def)
  then show ?thesis using assms(2) by (simp add: demo_files_def) (rule exI, rule conjI, rule refl, simp)
qed

lemma demonstration_partitions:
  assumes "map fst (dc_nodes c) = [1, 2, 3, 4]" "dc_partitions c = []"
  shows "foldl (\<lambda>c i. snd (demo_create_partition (of_nat i) c)) c [1..<9]
    = c\<lparr>dc_partitions := map (\<lambda>i. (i, demo_partition_new i [1, 2, 3, 4])) [1, 2, 3, 4, 5, 6, 7, 8]\<rparr>"
proof -
  have ids: "[1..<9] = [1, 2, 3, 4, 5, 6, 7, 8 :: nat]" by (simp add: upt_rec)
  have "snd (demo_create_partition pid c')
      = c'\<lparr>dc_partitions := hash_insert pid (demo_partition_new pid [1, 2, 3, 4]) (dc_partitions c')\<rparr>"
    if "dc_nodes c' = dc_nodes c" for pid c'
    using assms(1) that by (auto simp: demo_create_partition_def Let_def)
  then show ?thesis unfolding ids using assms(2) by simp
qed

lemma demonstration_cluster_value:
  "dc_nodes demonstration_cluster = map (\<lambda>n. (dn_id n, n)) demo_nodes"
  "length (dc_files demonstration_cluster) = 4"
  "dc_partitions demonstration_cluster = map (\<lambda>i. (i, demo_partition_new i [1, 2, 3, 4])) [1, 2, 3, 4, 5, 6, 7, 8]"
  "dc_total_memory demonstration_cluster = 32" "dc_total_storage demonstration_cluster = 400"
proof -
  let ?c = "demo_cluster_new\<lparr>dc_nodes := map (\<lambda>n. (dn_id n, n)) demo_nodes,
      dc_total_memory := 32, dc_total_storage := 400\<rparr>"
  have ids: "map fst (dc_nodes ?c) = [1, 2, 3, 4]" by (simp add: demo_nodes_def demo_node_new_def)
  have "dc_files ?c = []" by (simp add: demo_cluster_new_def)
  from demonstration_files [OF ids this] obtain files where files: "foldl (\<lambda>c (path, len). snd (demo_create_file path len 2 c)) ?c demo_files
      = ?c\<lparr>dc_files := files\<rparr>" "length files = 4" by (elim exE conjE)
  have val: "demonstration_cluster = (?c\<lparr>dc_files := files\<rparr>)\<lparr>dc_partitions :=
      map (\<lambda>i. (i, demo_partition_new i [1, 2, 3, 4])) [1, 2, 3, 4, 5, 6, 7, 8]\<rparr>"
    unfolding demonstration_cluster_def Let_def demonstration_nodes files(1)
    by (rule demonstration_partitions) (use ids in \<open>simp_all add: demo_cluster_new_def\<close>)
  show "dc_nodes demonstration_cluster = map (\<lambda>n. (dn_id n, n)) demo_nodes"
    "length (dc_files demonstration_cluster) = 4"
    "dc_partitions demonstration_cluster = map (\<lambda>i. (i, demo_partition_new i [1, 2, 3, 4])) [1, 2, 3, 4, 5, 6, 7, 8]"
    "dc_total_memory demonstration_cluster = 32" "dc_total_storage demonstration_cluster = 400"
    unfolding val using files(2) by simp_all
qed

lemma demonstration_ok: "demo_ok demonstration_cluster"
proof -
  have "{1..8 :: nat} = set [1, 2, 3, 4, 5, 6, 7, 8]" by auto
  then have "(of_nat ` {1..8} :: u32 set) = set [1, 2, 3, 4, 5, 6, 7, 8]" by simp
  moreover have "length (dc_partitions demonstration_cluster) = 8" by (simp add: demonstration_cluster_value)
  ultimately show ?thesis
    by (simp add: demo_ok_def) (simp add: demonstration_cluster_value demo_nodes_def demo_node_new_def demo_partition_new_def)
qed

text \<open>The demonstration succeeds for every checksum: its four writes are answered, and the final
  statistics are four active nodes, four files, eight partitions, 32 GB of memory and 400 GB of storage.
  The eight partitions claim 3600000 records before anything is written, and four more afterwards,
  although no record is stored: reading any key finds nothing.\<close>

lemma demonstration_counts:
  "let d = demonstrate_architecture crc clock now;
       (results, written) = demo_write_batch crc clock 0 (demo_records now) (dm_cluster d)
   in dm_results d = results \<and> length results = 4 \<and> list_all (well_placed (dm_cluster d)) results
     \<and> dm_stats d = \<lparr>de_active_nodes = 4, de_total_files = 4, de_total_partitions = 8,
         de_total_memory = 32, de_total_storage = 400\<rparr>
     \<and> records_counted (dm_cluster d) = 3600000 \<and> records_counted written = 3600004
     \<and> demo_read_record key written = None"
proof -
  let ?c = demonstration_cluster
  obtain results written where w: "demo_write_batch crc clock 0 (demo_records now) ?c = (results, written)"
    by fastforce
  have "dc_nodes ?c \<noteq> []" "dc_partitions ?c \<noteq> []"
    by (simp_all add: demonstration_cluster_value demo_nodes_def)
  from batch_written [OF demonstration_ok this, where crc = crc and clock = clock and i = 0
      and rs = "demo_records now"] w
  have c': "same_routing ?c written" "records_counted written = records_counted ?c + 4"
    "length results = 4" "list_all (well_placed ?c) results"
    by (simp_all add: demo_records_def)
  have "length (dc_partitions written) = length (dc_partitions ?c)"
    using c'(1) arg_cong [of _ _ length] by (metis length_map same_routing_def)
  moreover have "length (dc_files written) = 4"
    using c'(1) demonstration_cluster_value(2) by (simp add: same_routing_def)
  ultimately have "demo_cluster_stats written = \<lparr>de_active_nodes = 4, de_total_files = 4,
      de_total_partitions = 8, de_total_memory = 32, de_total_storage = 400\<rparr>"
    using c'(1) by (simp add: demo_cluster_stats_def same_routing_def demonstration_cluster_value demo_nodes_def demo_node_new_def)
  moreover have "records_counted ?c = 3600000"
    by (simp add: records_counted_def demonstration_cluster_value demo_partition_new_def)
  ultimately show ?thesis
    using w c' by (simp add: demonstrate_architecture_def Let_def demo_read_record_def)
qed

lemma batch_is_counted_example:
  "\<exists>results c'. demo_write_batch (\<lambda>bs. of_nat (length bs)) (\<lambda>i. (of_nat i, of_nat i + 500)) 0
      (demo_records (\<lambda>_. 7)) demonstration_cluster = (results, c')
    \<and> records_counted c' = 3600004 \<and> length results = 4"
proof -
  have ne: "dc_nodes demonstration_cluster \<noteq> []" "dc_partitions demonstration_cluster \<noteq> []"
    by (simp_all add: demonstration_cluster_value demo_nodes_def)
  have "records_counted demonstration_cluster = 3600000"
    by (simp add: records_counted_def demonstration_cluster_value demo_partition_new_def)
  with batch_is_counted [OF demonstration_ok ne, where crc = "\<lambda>bs. of_nat (length bs)"
      and clock = "\<lambda>i. (of_nat i, of_nat i + 500)" and i = 0 and rs = "demo_records (\<lambda>_. 7)"]
  show ?thesis by (auto simp: demo_records_def)
qed

end
