(* ===== verification/Queue_Workloads.thy ===== *)
theory Queue_Workloads
  imports PersistQ
begin

text \<open>
  Programs that drive a queue: the demonstration of \<open>src/main.rs\<close> and the module
  \<open>large_scale_test\<close> of \<open>src/persistq.rs\<close> (the module \<open>perf\<close> is in \<open>Queue_Performance\<close>). Each creates
  a queue, appends to it and reads it back, so each is a composition of the operations of \<open>PersistQ\<close>.

  Every reading of a clock is an argument: \<open>clock i\<close> holds the two readings of the \<open>i\<close>-th operation
  of the queue, and the other durations come in the records of timings. What a program prints is
  what it returns. \<open>None\<close> stands for a run that does not return, or panics.
\<close>

section \<open>Loops over a queue\<close>

type_synonym clock = "nat \<Rightarrow> u64 \<times> u64"

text \<open>Append one after the other, and stop at the first error.\<close>

fun append_loop :: "(bytes \<Rightarrow> u32) \<Rightarrow> os_answers \<Rightarrow> clock \<Rightarrow> nat \<Rightarrow> bytes list \<Rightarrow> persist_q
    \<Rightarrow> ((string + append_result list) \<times> persist_q) option" where
  "append_loop crc os clock i [] q = Some (Inr [], q)"
| "append_loop crc os clock i (data # rest) q =
     (case persistq_append crc os (clock i) data q of
        None \<Rightarrow> None
      | Some (Inl e, q') \<Rightarrow> Some (Inl e, q')
      | Some (Inr result, q') \<Rightarrow>
          (case append_loop crc os clock (i + 1) rest q' of
             None \<Rightarrow> None
           | Some (r, q'') \<Rightarrow> Some (map_sum (\<lambda>e. e) ((#) result) r, q'')))"

fun read_loop :: "clock \<Rightarrow> nat \<Rightarrow> u64 list \<Rightarrow> persist_q \<Rightarrow> string + read_result list" where
  "read_loop clock i [] q = Inr []"
| "read_loop clock i (g # gs) q =
     and_then (persistq_read (clock i) g q) (\<lambda>result.
     and_then (read_loop clock (i + 1) gs q) (\<lambda>results. Inr (result # results)))"

text \<open>\<open>iter().step_by(n)\<close>.\<close>

fun step_by :: "nat \<Rightarrow> 'a list \<Rightarrow> 'a list" where
  "step_by n [] = []"
| "step_by n (x # xs) = x # step_by n (drop (n - 1) xs)"

section \<open>The demonstration\<close>

definition demo_queue_config :: persistq_config where
  "demo_queue_config = \<lparr>pc_storage_dir = ''/tmp/persistq_demo'', pc_segment_size = 1024 * 1024,
     pc_num_partitions = 4, pc_replication_factor = 2,
     pc_cache_config = \<lparr>cc_enabled = True, cc_size_bytes = 10 * 1024 * 1024,
       cc_hot_data_threshold = f64_lit 2 10\<rparr>\<rparr>"

definition test_records :: "bytes list" where
  "test_records = map string_bytes
     [''Hello, persistQ!'', ''Distributed queues are powerful'', ''DOLDA architecture rocks!'',
      ''Zero-copy operations'', ''High-performance storage'', ''Raft-based replication'',
      ''Segment-based persistence'', ''Multi-level caching'']"

record demo_report =
  dr_appended :: "append_result list"
  dr_read :: "read_result list"
  dr_stats :: persistq_statistics
  dr_distribution :: "(u32 \<times> nat) list" \<comment> \<open>the number of segments of each partition\<close>

definition run_persistq_demo ::
    "(bytes \<Rightarrow> u32) \<Rightarrow> os_answers \<Rightarrow> clock \<Rightarrow> (string + demo_report) option" where
  "run_persistq_demo crc os clock =
     (case persistq_new os demo_queue_config of
        Inl e \<Rightarrow> Some (Inl e)
      | Inr q \<Rightarrow>
          (case append_loop crc os clock 0 test_records q of
             None \<Rightarrow> None
           | Some (Inl e, _) \<Rightarrow> Some (Inl e)
           | Some (Inr append_results, q') \<Rightarrow>
               Some (and_then (read_loop clock (length test_records)
                   (map ar_global_offset (step_by 2 append_results)) q') (\<lambda>read_results.
                 and_then (persistq_shutdown os q') (\<lambda>_.
                 Inr \<lparr>dr_appended = append_results, dr_read = read_results, dr_stats = persistq_stats q',
                      dr_distribution = map (\<lambda>(_, m). (pm_partition_id m, length (pm_segments m)))
                        (q_segment_managers q')\<rparr>)))))"

section \<open>The large-scale test\<close>

definition u64_as_f64 :: "u64 \<Rightarrow> f64" where
  "u64_as_f64 w = f64_of_int (uint w)"

record large_scale_result =
  ls_total_numbers :: nat
  ls_append_duration_ms :: u64
  ls_append_throughput :: f64
  ls_verification_duration_ms :: u64
  ls_verification_correct :: bool
  ls_repeated_reads :: nat
  ls_read_durations :: "u64 list"
  ls_memory_usage_mb :: f64

record large_scale_timing =
  lt_clock :: clock
  lt_append_ms :: u64
  lt_verification_ms :: u64
  lt_read_ms :: "nat \<Rightarrow> u64"

definition large_scale_config :: persistq_config where
  "large_scale_config = \<lparr>pc_storage_dir = ''/tmp/persistq_10m_test'', pc_segment_size = 512 * 1024 * 1024,
     pc_num_partitions = 16, pc_replication_factor = 1,
     pc_cache_config = \<lparr>cc_enabled = False, cc_size_bytes = 0, cc_hot_data_threshold = Fin 0\<rparr>\<rparr>"

definition random_numbers :: "nat \<Rightarrow> u64 list" where
  "random_numbers n = map (\<lambda>i. (1664525 * of_nat i + 1013904223) mod 2 ^ 32) [0..<n]"

text \<open>Reads every number back, and gives up at the first one that does not have eight bytes.\<close>

fun verify_loop :: "clock \<Rightarrow> nat \<Rightarrow> u64 list \<Rightarrow> u64 set \<Rightarrow> persist_q \<Rightarrow> string + u64 set \<times> bool" where
  "verify_loop clock i [] retrieved q = Inr (retrieved, True)"
| "verify_loop clock i (g # gs) retrieved q =
     and_then (persistq_read (clock i) g q) (\<lambda>result.
       let data = qr_data (rr_record result)
       in if length data = 8 then verify_loop clock (i + 1) gs (insert (le_word data) retrieved) q
          else Inr (retrieved, False))"

text \<open>Ten times, every thousandth record.\<close>

fun repeated_reads :: "large_scale_timing \<Rightarrow> nat \<Rightarrow> nat list \<Rightarrow> u64 list \<Rightarrow> persist_q \<Rightarrow> string + u64 list" where
  "repeated_reads timing i [] gs q = Inr []"
| "repeated_reads timing i (k # ks) gs q =
     and_then (read_loop (lt_clock timing) i (step_by 1000 gs) q) (\<lambda>_.
     and_then (repeated_reads timing (i + length (step_by 1000 gs)) ks gs q) (\<lambda>durations.
       Inr (lt_read_ms timing k # durations)))"

definition test_random_numbers :: "nat \<Rightarrow> (bytes \<Rightarrow> u32) \<Rightarrow> os_answers \<Rightarrow> large_scale_timing
    \<Rightarrow> (string + large_scale_result) option" where
  "test_random_numbers n crc os timing =
     (case persistq_new os large_scale_config of
        Inl e \<Rightarrow> Some (Inl e)
      | Inr q \<Rightarrow>
          (case append_loop crc os (lt_clock timing) 0 (map (le_bytes 8) (random_numbers n)) q of
             None \<Rightarrow> None
           | Some (Inl e, _) \<Rightarrow> Some (Inl e)
           | Some (Inr results, q') \<Rightarrow>
               let gs = map ar_global_offset results in
               Some (and_then (verify_loop (lt_clock timing) n gs {} q') (\<lambda>(retrieved, correct).
                 if \<not> (correct \<and> retrieved = set (random_numbers n)) then Inl ''Data verification failed''
                 else and_then (repeated_reads timing (2 * n) [0..<10] gs q') (\<lambda>read_durations.
                 and_then (persistq_shutdown os q') (\<lambda>_.
                   Inr \<lparr>ls_total_numbers = n, ls_append_duration_ms = lt_append_ms timing,
                     ls_append_throughput = f64_div (f64_of_int (int n))
                       (f64_div (u64_as_f64 (lt_append_ms timing)) (f64_of_int 1000)),
                     ls_verification_duration_ms = lt_verification_ms timing,
                     ls_verification_correct = True, ls_repeated_reads = 10,
                     ls_read_durations = read_durations,
                     ls_memory_usage_mb = f64_div (u64_as_f64 (of_nat (length (q_segment_managers q'))
                         * pc_segment_size (q_config q'))) (f64_mul (f64_of_int 1024) (f64_of_int 1024))\<rparr>))))))"

definition test_10m_random_numbers ::
    "(bytes \<Rightarrow> u32) \<Rightarrow> os_answers \<Rightarrow> large_scale_timing \<Rightarrow> (string + large_scale_result) option" where
  "test_10m_random_numbers = test_random_numbers 10000000"

section \<open>Appending and reading back\<close>

lemma hash_insert_present: "map_of m k \<noteq> None \<Longrightarrow> map fst (hash_insert k v m) = map fst m"
  by (induction k v m rule: hash_insert.induct) (auto split: if_splits)

lemma persistq_append_keys:
  "persistq_append crc os clock data q = Some (r, q') \<Longrightarrow>
    map fst (q_segment_managers q') = map fst (q_segment_managers q)"
  by (auto simp: persistq_append_def Let_def hash_insert_present split: prod.splits option.splits sum.splits)

definition single_segments :: "(u32 \<Rightarrow> bytes list list) \<Rightarrow> bool" where
  "single_segments dsm \<longleftrightarrow> (\<forall>p. length (dsm p) = 1)"

lemma single_segments_upd: "single_segments dsm \<Longrightarrow> single_segments (dsm(p := [ds]))"
  by (simp add: single_segments_def)

lemma in_partition_size: "length (concat (in_partition crc q p recs)) \<le> length (concat recs)"
  unfolding in_partition_def by (induction recs) auto

lemma single_placed:
  assumes "queue_holds crc q recs dsm" "single_segments dsm"
    and "length (concat recs) + length data \<le> unat (pc_segment_size (q_config q))"
  shows "\<exists>ds. placed (pc_segment_size (q_config q)) data (dsm (partition_for_data crc q data)) = [ds]"
proof -
  let ?p = "partition_for_data crc q data"
  have "partition_holds crc q recs (dsm ?p) ?p"
    using assms(1) partition_range [of q crc data] by (simp add: queue_holds_def)
  then have "concat (dsm ?p) = in_partition crc q ?p recs" by (auto simp: partition_holds_def)
  moreover obtain ds where ds: "dsm ?p = [ds]"
    using assms(2) by (metis One_nat_def length_0_conv length_Suc_conv single_segments_def)
  ultimately have "length (concat ds) \<le> length (concat recs)"
    using in_partition_size [of crc q ?p recs] by simp
  with ds assms(3) show ?thesis by (simp add: placed_def)
qed

lemma append_loop_ok:
  assumes "queue_holds crc q recs dsm" "single_segments dsm" "os_willing os"
    and "length recs + length ds < 2 ^ 64"
    and "length (concat (recs @ ds)) \<le> unat (pc_segment_size (q_config q))"
  shows "\<exists>rs q' dsm'. append_loop crc os clock i ds q = Some (Inr rs, q')
    \<and> queue_holds crc q' (recs @ ds) dsm' \<and> single_segments dsm' \<and> q_config q' = q_config q
    \<and> map ar_global_offset rs = map of_nat [length recs..<length recs + length ds]
    \<and> map fst (q_segment_managers q') = map fst (q_segment_managers q)"
  using assms(1,2,4,5)
proof (induction ds arbitrary: i q recs dsm)
  case Nil
  then show ?case by auto
next
  case (Cons data ds)
  have fits: "length (concat recs) + length data \<le> unat (pc_segment_size (q_config q))"
    and len: "length recs + 1 < 2 ^ 64" using Cons.prems by simp_all
  obtain d where d: "placed (pc_segment_size (q_config q)) data (dsm (partition_for_data crc q data)) = [d]"
    using single_placed [OF Cons.prems(1,2) fits] by blast
  obtain r q' where q': "persistq_append crc os (clock i) data q = Some (Inr r, q')"
    "ar_global_offset r = of_nat (length recs)" "q_config q' = q_config q"
    "queue_holds crc q' (recs @ [data]) (dsm(partition_for_data crc q data := [d]))"
    using queue_append_ok [OF Cons.prems(1) assms(3) _ len refl refl, where clock = "clock i" and data = data] fits d
    by auto
  from Cons.IH [OF q'(4) single_segments_upd [OF Cons.prems(2)], of "i + 1"] Cons.prems(3,4) q'(3)
  obtain rs q'' dsm' where "append_loop crc os clock (i + 1) ds q' = Some (Inr rs, q'')"
    "queue_holds crc q'' (recs @ data # ds) dsm'" "single_segments dsm'" "q_config q'' = q_config q"
    "map ar_global_offset rs = map of_nat [length recs + 1..<length recs + 1 + length ds]"
    "map fst (q_segment_managers q'') = map fst (q_segment_managers q')"
    by auto
  moreover have "[length recs..<length recs + length (data # ds)]
      = length recs # [length recs + 1..<length recs + 1 + length ds]"
    by (simp add: upt_conv_Cons del: upt_Suc)
  ultimately show ?case
    using q'(1,2) persistq_append_keys [OF q'(1)]
    by (intro exI [of _ "r # rs"] exI [of _ q''] exI [of _ dsm']) (simp del: upt_Suc)
qed

text \<open>What a read returns: the record, and whatever follows it in its partition.\<close>

definition read_data :: "(bytes \<Rightarrow> u32) \<Rightarrow> persist_q \<Rightarrow> bytes list \<Rightarrow> nat \<Rightarrow> bytes" where
  "read_data crc q recs g =
     recs ! g @ concat (in_partition crc q (partition_for_data crc q (recs ! g)) (drop (g + 1) recs))"

lemma read_back:
  assumes "queue_holds crc q recs dsm" "single_segments dsm" "g < length recs" "length recs < 2 ^ 64"
    and "recs ! g \<noteq> []"
  shows "\<exists>res. persistq_read clock (of_nat g) q = Inr res \<and> qr_data (rr_record res) = read_data crc q recs g"
proof -
  have "unat (of_nat g :: u64) = g" using assms(3,4) by (simp add: unat_of_nat64)
  then show ?thesis
    using read_single [OF assms(1), of "of_nat g" clock] assms(2,3,5)
    by (simp add: read_data_def single_segments_def)
qed

lemma read_loop_ok:
  assumes "queue_holds crc q recs dsm" "single_segments dsm" "length recs < 2 ^ 64"
    and "\<forall>g \<in> set gs. g < length recs \<and> recs ! g \<noteq> []"
  shows "\<exists>rs. read_loop clock i (map of_nat gs) q = Inr rs
    \<and> map (\<lambda>r. qr_data (rr_record r)) rs = map (read_data crc q recs) gs"
  using assms(4)
proof (induction gs arbitrary: i)
  case (Cons g gs)
  then show ?case
    using read_back [OF assms(1,2) _ assms(3), of g "clock i"] Cons.IH [of "i + 1"] by fastforce
qed simp

section \<open>The large-scale test cannot pass\<close>

lemma verify_loop_fails:
  assumes "\<forall>g \<in> set gs. \<forall>c. \<exists>r. persistq_read c (of_nat g) q = Inr r \<and> qr_data (rr_record r) = f g"
    and "\<exists>g \<in> set gs. length (f g) \<noteq> 8"
  shows "\<exists>s. verify_loop clock i (map of_nat gs) retrieved q = Inr (s, False)"
  using assms
proof (induction gs arbitrary: i retrieved)
  case (Cons g gs)
  then obtain r where "persistq_read (clock i) (of_nat g) q = Inr r" "qr_data (rr_record r) = f g"
    by (metis list.set_intros(1))
  with Cons show ?case by (cases "length (f g) = 8") (auto simp: Let_def)
qed simp

text \<open>With more records than partitions, some record is followed by another one in its partition.\<close>

lemma two_in_one_partition:
  assumes "unat (pc_num_partitions (q_config q)) < length recs" "0 < pc_num_partitions (q_config q)"
    and "\<forall>d \<in> set recs. d \<noteq> []"
  shows "\<exists>g < length recs. length (recs ! g) < length (read_data crc q recs g)"
proof -
  let ?part = "\<lambda>g. partition_for_data crc q (recs ! g)" and ?n = "pc_num_partitions (q_config q)"
  have "?part ` {..<length recs} \<subseteq> set (partition_ids ?n)"
    using partition_range [OF assms(2)] by (auto simp: partition_ids)
  then have "card (?part ` {..<length recs}) \<le> card (set (partition_ids ?n))"
    by (rule card_mono [OF finite_set])
  also have "\<dots> = unat ?n" by (simp only: distinct_card [OF partition_ids(1)] partition_ids(2))
  also have "\<dots> < card {..<length recs}" using assms(1) by simp
  finally have "\<not> inj_on ?part {..<length recs}" by (rule pigeonhole)
  then have "\<exists>g g'. g < g' \<and> g' < length recs \<and> ?part g = ?part g'"
    by (auto simp: inj_on_def) (metis nat_neq_iff)
  then obtain g g' where g: "g < g'" "g' < length recs" "?part g = ?part g'" by blast
  then have "recs ! g' = drop (g + 1) recs ! (g' - (g + 1))" "g' - (g + 1) < length (drop (g + 1) recs)"
    by simp_all
  then have "recs ! g' \<in> set (drop (g + 1) recs)" by (metis nth_mem)
  then have "recs ! g' \<in> set (in_partition crc q (?part g) (drop (g + 1) recs))"
    using g(3) by (simp add: in_partition_def)
  then have "concat (in_partition crc q (?part g) (drop (g + 1) recs)) \<noteq> []"
    using assms(3) g(2) by (auto simp: concat_eq_Nil_conv)
  with g show ?thesis by (intro exI [of _ g]) (simp add: read_data_def)
qed

lemma valid_configs:
  "validate_config large_scale_config = Inr ()" "validate_config demo_queue_config = Inr ()"
proof -
  obtain t where "f64_lit 2 10 = Fin t" "0 \<le> t" "t \<le> 1" using f64_lit_share [of 2 10] by auto
  then show "validate_config demo_queue_config = Inr ()"
    by (simp add: demo_queue_config_def validate_config_def contains_str_def not_less)
qed (simp add: large_scale_config_def validate_config_def contains_str_def)

lemma length_random_numbers: "length (random_numbers n) = n"
  by (simp add: random_numbers_def)

lemma length_concat_numbers: "length (concat (map (le_bytes 8) ws)) = 8 * length ws"
  by (induction ws) auto

lemma random_numbers_fail:
  assumes "os_willing os" "16 < n" "8 * n \<le> 512 * 1024 * 1024"
  shows "test_random_numbers n crc os timing = Some (Inl ''Data verification failed'')"
proof -
  let ?recs = "map (le_bytes 8) (random_numbers n)"
  obtain q where q: "persistq_new os large_scale_config = Inr q" "queue_holds crc q [] (\<lambda>_. [[]])"
    "pc_segment_size (q_config q) = 512 * 1024 * 1024" "pc_num_partitions (q_config q) = 16"
    using queue_new_ok [OF assms(1) valid_configs(1), of crc] by (auto simp: large_scale_config_def)
  have "single_segments (\<lambda>_. [[]])" by (simp add: single_segments_def)
  from append_loop_ok [OF q(2) this assms(1), of ?recs "lt_clock timing" 0] assms(3) q(3)
  obtain rs q' dsm' where appended: "append_loop crc os (lt_clock timing) 0 ?recs q = Some (Inr rs, q')"
    and holds: "queue_holds crc q' ?recs dsm'" "single_segments dsm'" and q': "q_config q' = q_config q"
    and gs: "map ar_global_offset rs = map of_nat [0..<n]"
    by (auto simp: length_random_numbers length_concat_numbers)
  have small: "n < 2 ^ 64" using assms(3) by simp
  have nonempty: "\<forall>d \<in> set ?recs. d \<noteq> []" by (auto dest!: arg_cong [where f = length])
  have eight: "length (?recs ! g) = 8" if "g < n" for g using that by (simp add: length_random_numbers)
  have "\<exists>g < n. length (?recs ! g) < length (read_data crc q' ?recs g)"
    using two_in_one_partition [of q' ?recs crc, OF _ _ nonempty] assms(2) q(4) q'
    by (auto simp: length_random_numbers)
  then have "\<exists>g < n. length (read_data crc q' ?recs g) \<noteq> 8" using eight by (metis less_irrefl)
  moreover have "\<forall>c. \<exists>r. persistq_read c (of_nat g) q' = Inr r
      \<and> qr_data (rr_record r) = read_data crc q' ?recs g" if "g < n" for g
    using that small eight [OF that] read_back [OF holds, of g]
    by (metis length_map length_random_numbers list.size(3) zero_neq_numeral)
  ultimately obtain s where "verify_loop (lt_clock timing) n (map of_nat [0..<n]) {} q' = Inr (s, False)"
    using verify_loop_fails [of "[0..<n]" q' "read_data crc q' ?recs" "lt_clock timing" n "{}"] by fastforce
  then show ?thesis using q(1) appended gs by (simp add: test_random_numbers_def)
qed

lemma large_test_fails:
  assumes "os_willing os"
  shows "test_10m_random_numbers crc os timing = Some (Inl ''Data verification failed'')"
  unfolding test_10m_random_numbers_def by (rule random_numbers_fail [OF assms]) simp_all

text \<open>The large-scale test never passes, whatever the checksum and the timing: of ten million
  numbers in sixteen partitions some share a partition, and reading the first of these returns more
  than its eight bytes, so that the verification reports an error. This is so although every file
  can be created and all numbers are appended.\<close>

lemma large_scale_test_fails:
  assumes "os_willing os"
  shows "test_10m_random_numbers crc os timing = Some (Inl ''Data verification failed'')"
  by (rule large_test_fails [OF assms])

lemma large_scale_test_fails_example:
  "test_10m_random_numbers (\<lambda>bs. le_word (take 4 bs)) demo_os
     \<lparr>lt_clock = (\<lambda>i. (of_nat i, of_nat i + 1)), lt_append_ms = 1000, lt_verification_ms = 900,
       lt_read_ms = (\<lambda>_. 5)\<rparr> = Some (Inl ''Data verification failed'')"
  by (rule large_scale_test_fails [OF demo_os_willing])

section \<open>The demonstration completes\<close>

definition os_flushes :: "os_answers \<Rightarrow> bool" where
  "os_flushes os \<longleftrightarrow> (\<forall>path. os_flush os path = Inr ())"

lemma shutdown_ok: "os_flushes os \<Longrightarrow> persistq_shutdown os q = Inr ()"
proof -
  assume os: "os_flushes os"
  then have "flush_segments os ss = Inr ()" for ss
    by (induction ss) (simp_all add: pq_segment_flush_def os_flushes_def)
  then have "flush_managers os ms = Inr ()" for ms
    by (induction ms) (auto simp: pq_manager_flush_def)
  then show ?thesis by (simp add: persistq_shutdown_def)
qed

text \<open>A new queue has one manager per partition, and each keeps its single segment.\<close>

lemma manager_keys:
  assumes "queue_holds crc q recs dsm"
    and "length (q_segment_managers q) = unat (pc_num_partitions (q_config q))"
  shows "distinct (map fst (q_segment_managers q))"
    "set (map fst (q_segment_managers q)) = {p. 1 \<le> p \<and> p \<le> pc_num_partitions (q_config q)}"
proof -
  let ?n = "pc_num_partitions (q_config q)" and ?ks = "map fst (q_segment_managers q)"
  have sub: "set (partition_ids ?n) \<subseteq> set ?ks"
  proof
    fix p assume "p \<in> set (partition_ids ?n)"
    then have "partition_holds crc q recs (dsm p) p"
      using assms(1) by (simp add: partition_ids(3) queue_holds_def)
    then obtain m where "map_of (q_segment_managers q) p = Some m" by (auto simp: partition_holds_def)
    then show "p \<in> set ?ks" by (force dest: map_of_SomeD)
  qed
  then have "length ?ks \<le> card (set ?ks)"
    using card_mono [OF finite_set sub] assms(2)
    by (simp only: distinct_card [OF partition_ids(1)] partition_ids(2) length_map)
  then show distinct: "distinct ?ks"
    by (metis card_distinct card_length le_antisym)
  have "set (partition_ids ?n) = set ?ks"
    using sub by (rule card_subset_eq [OF finite_set])
      (metis distinct_card [OF distinct] distinct_card [OF partition_ids(1)] assms(2) partition_ids(2) length_map)
  then show "set ?ks = {p. 1 \<le> p \<and> p \<le> ?n}" by (simp only: partition_ids(3))
qed

lemma one_segment_each:
  assumes "queue_holds crc q recs dsm" "single_segments dsm" "distinct (map fst (q_segment_managers q))"
    and "set (map fst (q_segment_managers q)) = {p. 1 \<le> p \<and> p \<le> pc_num_partitions (q_config q)}"
    and "(p, m) \<in> set (q_segment_managers q)"
  shows "length (pm_segments m) = 1"
proof -
  have "1 \<le> p \<and> p \<le> pc_num_partitions (q_config q)" using assms(4,5) by force
  then have "partition_holds crc q recs (dsm p) p" using assms(1) by (simp add: queue_holds_def)
  moreover have "map_of (q_segment_managers q) p = Some m" using assms(3,5) by simp
  ultimately show ?thesis
    using assms(2) pq_manager_holds_length by (fastforce simp: partition_holds_def single_segments_def)
qed

lemma sum_of_ones: "\<forall>x \<in> set xs. f x = 1 \<Longrightarrow> sum_list (map f xs) = length xs"
  by (induction xs) auto

definition later_in_partition :: "(bytes \<Rightarrow> u32) \<Rightarrow> u32 \<Rightarrow> bytes list \<Rightarrow> nat \<Rightarrow> bytes list" where
  "later_in_partition crc n recs g = filter (\<lambda>d. crc d mod n = crc (recs ! g) mod n) (drop (g + 1) recs)"

lemma read_data_later:
  "pc_num_partitions (q_config q) = n \<Longrightarrow>
    read_data crc q recs g = recs ! g @ concat (later_in_partition crc n recs g)"
  by (simp add: read_data_def later_in_partition_def in_partition_def partition_for_data_def)

lemma test_records_facts:
  "length test_records = 8" "\<forall>d \<in> set test_records. d \<noteq> []"
  "length (concat test_records) \<le> 1024 * 1024"
  by (simp_all add: test_records_def string_bytes_def)

lemma queue_demo_ok:
  assumes "os_willing os" "os_flushes os"
  shows "\<exists>report. run_persistq_demo crc os clock = Some (Inr report)
    \<and> map ar_global_offset (dr_appended report) = [0, 1, 2, 3, 4, 5, 6, 7]
    \<and> map (\<lambda>r. qr_data (rr_record r)) (dr_read report)
      = map (\<lambda>g. test_records ! g @ concat (later_in_partition crc 4 test_records g)) [0, 2, 4, 6]
    \<and> dr_stats report = \<lparr>qs_total_records = 8, qs_num_partitions = 4, qs_total_segments = 4,
        qs_replication_factor = 2\<rparr>"
proof -
  obtain q where q: "persistq_new os demo_queue_config = Inr q" "queue_holds crc q [] (\<lambda>_. [[]])"
    "length (q_segment_managers q) = 4" "pc_num_partitions (q_config q) = 4"
    "pc_segment_size (q_config q) = 1024 * 1024"
    using queue_new_ok [OF assms(1) valid_configs(2), of crc]
    by (auto simp: demo_queue_config_def persistq_stats_def)
  have rep: "pc_replication_factor (q_config q) = 2"
    using q(1) by (auto simp: persistq_new_def demo_queue_config_def result_iffs)
  obtain rs q' dsm' where appended: "append_loop crc os clock 0 test_records q = Some (Inr rs, q')"
    and holds: "queue_holds crc q' test_records dsm'" "single_segments dsm'" and q': "q_config q' = q_config q"
    and gs: "map ar_global_offset rs = map of_nat [0..<8]"
    and keys: "map fst (q_segment_managers q') = map fst (q_segment_managers q)"
    using append_loop_ok [OF q(2) _ assms(1), of test_records clock 0] test_records_facts q(5)
    by (auto simp: single_segments_def)
  have "map ar_global_offset (step_by 2 rs) = step_by 2 (map ar_global_offset rs)"
    by (induction "2 :: nat" rs rule: step_by.induct) (simp_all add: drop_map)
  then have reads: "map ar_global_offset (step_by 2 rs) = map of_nat [0, 2, 4, 6]"
    by (simp add: gs upt_rec)
  have nonempty: "test_records ! g \<noteq> []" if "g < 8" for g
    using that test_records_facts by (metis nth_mem)
  obtain rds where rds: "read_loop clock 8 (map of_nat [0, 2, 4, 6]) q' = Inr rds"
    "map (\<lambda>r. qr_data (rr_record r)) rds = map (read_data crc q' test_records) [0, 2, 4, 6]"
    using read_loop_ok [OF holds, of "[0, 2, 4, 6]" clock 8] nonempty by (auto simp: test_records_facts)
  have len: "length (q_segment_managers q') = unat (pc_num_partitions (q_config q'))"
    using arg_cong [OF keys, of length] q(3,4) q' by simp
  then have "sum_list (map (\<lambda>(_, m). length (pm_segments m)) (q_segment_managers q')) = 4"
    using one_segment_each [OF holds manager_keys [OF holds(1) len]] q(4) q'
    by (subst sum_of_ones) auto
  then have "persistq_stats q' = \<lparr>qs_total_records = 8, qs_num_partitions = 4, qs_total_segments = 4,
      qs_replication_factor = 2\<rparr>"
    using queue_holds_total [OF holds(1)] len q(4) q' rep by (simp add: persistq_stats_def test_records_facts)
  then show ?thesis
    using q(1,4) appended reads rds q' gs shutdown_ok [OF assms(2), of q']
    by (auto simp: run_persistq_demo_def test_records_facts read_data_later upt_rec)
qed

text \<open>The demonstration of \<open>main\<close> always runs to its end when files can be created and flushed: it
  appends its eight records under the numbers 0 to 7, and its statistics are eight records in four
  partitions of one segment each. The reads of the records 0, 2, 4 and 6 print each record together
  with all later records of its partition.\<close>

lemma queue_demo_completes:
  assumes "os_willing os" "os_flushes os"
  shows "\<exists>report. run_persistq_demo crc os clock = Some (Inr report)
    \<and> map ar_global_offset (dr_appended report) = [0, 1, 2, 3, 4, 5, 6, 7]
    \<and> map (\<lambda>r. qr_data (rr_record r)) (dr_read report)
      = map (\<lambda>g. test_records ! g @ concat (later_in_partition crc 4 test_records g)) [0, 2, 4, 6]
    \<and> dr_stats report = \<lparr>qs_total_records = 8, qs_num_partitions = 4, qs_total_segments = 4,
        qs_replication_factor = 2\<rparr>"
  by (rule queue_demo_ok [OF assms])

lemma queue_demo_completes_example:
  "\<exists>report. run_persistq_demo (\<lambda>bs. of_nat (length bs)) demo_os (\<lambda>i. (of_nat i, of_nat i + 1)) = Some (Inr report)
    \<and> qr_data (rr_record (hd (dr_read report))) = string_bytes ''Hello, persistQ!Zero-copy operationsHigh-performance storage''"
proof -
  have "os_flushes demo_os" by (simp add: os_flushes_def demo_os_def)
  from queue_demo_completes [OF demo_os_willing this, of "\<lambda>bs. of_nat (length bs)" "\<lambda>i. (of_nat i, of_nat i + 1)"]
  show ?thesis
    by (auto simp: later_in_partition_def test_records_def string_bytes_def map_eq_Cons_conv)
qed

end
