(* ===== verification/Queue_Performance.thy ===== *)
theory Queue_Performance
  imports Queue_Workloads
begin

text \<open>
  The module \<open>perf\<close> of \<open>src/persistq.rs\<close>: the suite of performance tests on one queue, and the results
  it computes from the latencies it measured, with floating-point positions of percentiles. The
  latencies and durations are arguments, as in \<open>Queue_Workloads\<close>.
\<close>

section \<open>Performance tests\<close>

record perf_results =
  pr_test_name :: string
  pr_duration_ms :: u64
  pr_operations :: u64
  pr_throughput_ops_sec :: f64
  pr_avg_latency_us :: f64
  pr_p50_latency_us :: f64
  pr_p95_latency_us :: f64
  pr_p99_latency_us :: f64
  pr_total_bytes :: u64
  pr_throughput_mb_sec :: f64

text \<open>\<open>sorted[(operations as f64 * share) as usize]\<close>; the access panics when out of bounds.\<close>

definition percentile :: "u64 \<Rightarrow> f64 \<Rightarrow> u64 list \<Rightarrow> u64 option" where
  "percentile operations share sorted_latencies =
     (let i = unat (f64_as_u64 (f64_mul (u64_as_f64 operations) share))
      in if i < length sorted_latencies then Some (sorted_latencies ! i) else None)"

definition perf_results_new :: "string \<Rightarrow> u64 list \<Rightarrow> u64 \<Rightarrow> u64 \<Rightarrow> perf_results option" where
  "perf_results_new test_name latencies total_bytes duration_ms =
     (let operations = of_nat (length latencies);
          seconds = f64_div (u64_as_f64 duration_ms) (f64_of_int 1000);
          throughput_ops_sec = f64_div (u64_as_f64 operations) seconds;
          throughput_mb_sec = f64_div (f64_div (u64_as_f64 total_bytes)
            (f64_mul (f64_of_int 1024) (f64_of_int 1024))) seconds;
          sorted_latencies = sort latencies;
          avg_latency_us = f64_div (u64_as_f64 (sum_list latencies)) (u64_as_f64 operations)
      in case percentile operations (f64_lit 1 2) sorted_latencies of None \<Rightarrow> None | Some p50 \<Rightarrow>
         (case percentile operations (f64_lit 95 100) sorted_latencies of None \<Rightarrow> None | Some p95 \<Rightarrow>
         (case percentile operations (f64_lit 99 100) sorted_latencies of None \<Rightarrow> None | Some p99 \<Rightarrow>
            Some \<lparr>pr_test_name = test_name, pr_duration_ms = duration_ms, pr_operations = operations,
              pr_throughput_ops_sec = throughput_ops_sec, pr_avg_latency_us = avg_latency_us,
              pr_p50_latency_us = u64_as_f64 p50, pr_p95_latency_us = u64_as_f64 p95,
              pr_p99_latency_us = u64_as_f64 p99, pr_total_bytes = total_bytes,
              pr_throughput_mb_sec = throughput_mb_sec\<rparr>)))"

record perf_timing =
  pt_clock :: clock
  pt_latency :: "nat \<Rightarrow> u64" \<comment> \<open>microseconds of the \<open>i\<close>-th operation\<close>
  pt_duration_ms :: u64

definition perf_test_append :: "(bytes \<Rightarrow> u32) \<Rightarrow> os_answers \<Rightarrow> perf_timing \<Rightarrow> bytes \<Rightarrow> nat \<Rightarrow> persist_q
    \<Rightarrow> ((string + perf_results) \<times> persist_q) option" where
  "perf_test_append crc os timing data num_operations q =
     (case append_loop crc os (pt_clock timing) 0 (replicate num_operations data) q of
        None \<Rightarrow> None
      | Some (Inl e, q') \<Rightarrow> Some (Inl e, q')
      | Some (Inr _, q') \<Rightarrow>
          (case perf_results_new ''Append'' (map (pt_latency timing) [0..<num_operations])
              (of_nat (length data) * of_nat num_operations) (pt_duration_ms timing) of
             None \<Rightarrow> None
           | Some results \<Rightarrow> Some (Inr results, q')))"

definition perf_test_read :: "perf_timing \<Rightarrow> nat \<Rightarrow> persist_q \<Rightarrow> (string + perf_results) option" where
  "perf_test_read timing num_operations q =
     (case read_loop (pt_clock timing) 0 (map of_nat [0..<num_operations]) q of
        Inl e \<Rightarrow> Some (Inl e)
      | Inr results \<Rightarrow>
          (case perf_results_new ''Read'' (map (pt_latency timing) [0..<num_operations])
              (sum_list (map (\<lambda>r. of_nat (length (qr_data (rr_record r)))) results)) (pt_duration_ms timing) of
             None \<Rightarrow> None
           | Some results \<Rightarrow> Some (Inr results)))"

definition perf_queue_config :: persistq_config where
  "perf_queue_config = \<lparr>pc_storage_dir = ''/tmp/persistq_perf'', pc_segment_size = 64 * 1024 * 1024,
     pc_num_partitions = 8, pc_replication_factor = 1,
     pc_cache_config = \<lparr>cc_enabled = False, cc_size_bytes = 0, cc_hot_data_threshold = Fin 0\<rparr>\<rparr>"

text \<open>The name, the number of operations and the size of the records of each test.\<close>

definition test_configs :: "(string \<times> nat \<times> nat) list" where
  "test_configs = [(''1KB_records'', 1000, 1024), (''4KB_records'', 1000, 4096),
     (''64KB_records'', 500, 65536), (''256KB_records'', 200, 262144)]"

fun run_test_configs :: "(bytes \<Rightarrow> u32) \<Rightarrow> os_answers \<Rightarrow> (nat \<Rightarrow> perf_timing) \<Rightarrow> nat
    \<Rightarrow> (string \<times> nat \<times> nat) list \<Rightarrow> persist_q \<Rightarrow> ((string + perf_results list) \<times> persist_q) option" where
  "run_test_configs crc os timing k [] q = Some (Inr [], q)"
| "run_test_configs crc os timing k ((_, num_operations, record_size) # configs) q =
     (case perf_test_append crc os (timing (2 * k)) (replicate record_size 42) num_operations q of
        None \<Rightarrow> None
      | Some (Inl e, q') \<Rightarrow> Some (Inl e, q')
      | Some (Inr append_results, q') \<Rightarrow>
          (case perf_test_read (timing (2 * k + 1)) (num_operations div 2) q' of
             None \<Rightarrow> None
           | Some (Inl e) \<Rightarrow> Some (Inl e, q')
           | Some (Inr read_results) \<Rightarrow>
               (case run_test_configs crc os timing (k + 1) configs q' of
                  None \<Rightarrow> None
                | Some (r, q'') \<Rightarrow> Some (map_sum (\<lambda>e. e) (\<lambda>rs. append_results # read_results # rs) r, q''))))"

definition run_performance_tests ::
    "(bytes \<Rightarrow> u32) \<Rightarrow> os_answers \<Rightarrow> (nat \<Rightarrow> perf_timing) \<Rightarrow> (string + perf_results list) option" where
  "run_performance_tests crc os timing =
     (case persistq_new os perf_queue_config of
        Inl e \<Rightarrow> Some (Inl e)
      | Inr q \<Rightarrow>
          (case run_test_configs crc os timing 0 test_configs q of
             None \<Rightarrow> None
           | Some (Inl e, _) \<Rightarrow> Some (Inl e)
           | Some (Inr all_results, q') \<Rightarrow>
               Some (and_then (persistq_shutdown os q') (\<lambda>_. Inr all_results))))"

section \<open>Percentiles\<close>

lemma share_index:
  assumes n: "0 < n" "n < 2 ^ 53" and t: "\<bar>t - x\<bar> \<le> x / 2 ^ 53" and x: "1 / 4 \<le> x" "x \<le> 99 / 100"
  shows "\<exists>y. f64_mul (u64_as_f64 (of_nat n)) (Fin t) = Fin y
    \<and> of_nat n * x * (1 - 1 / 2 ^ 51) \<le> y \<and> y \<le> of_nat n * x * (1 + 1 / 2 ^ 51)"
proof -
  have "u64_as_f64 (of_nat n) = Fin (of_nat n)"
    using n(2) f64_of_int_exact [of "int n"]
    by (simp add: u64_as_f64_def uint_nat unat_of_nat64)
  moreover define z where "z = rat_of_nat n * t"
  ultimately have mul: "f64_mul (u64_as_f64 (of_nat n)) (Fin t) = f64_round z" by simp
  have n1: "1 \<le> rat_of_nat n" "rat_of_nat n < 2 ^ 53"
    using n by (simp_all add: Suc_leI flip: of_nat_power)
  have t1: "x * (1 - 1 / 2 ^ 53) \<le> t" "t \<le> x * (1 + 1 / 2 ^ 53)"
    using abs_le_D1 [OF t] abs_le_D2 [OF t] by (simp_all add: field_simps)
  have z1: "rat_of_nat n * x * (1 - 1 / 2 ^ 53) \<le> z" "z \<le> rat_of_nat n * x * (1 + 1 / 2 ^ 53)"
    using t1 n1 mult_left_mono [of _ _ "rat_of_nat n"] by (simp_all add: z_def mult.assoc)
  have nx: "1 / 4 \<le> rat_of_nat n * x" "rat_of_nat n * x < 2 ^ 53"
  proof -
    show "1 / 4 \<le> rat_of_nat n * x" using mult_mono [of 1 "rat_of_nat n" "1 / 4" x] n1 x by simp
    have "rat_of_nat n * x \<le> rat_of_nat n * 1" using n1 x by (intro mult_left_mono) simp_all
    then show "rat_of_nat n * x < 2 ^ 53" using n1(2) by simp
  qed
  then have small: "1 / 8 \<le> z" "z \<le> 2 ^ 54" using z1 by (simp_all add: field_simps)
  have "1 / 2 ^ 1022 \<le> \<bar>z\<bar>"
  proof -
    have "1 / 2 ^ 1022 \<le> (1 / 2 ^ 3 :: rat)" by (rule divide_left_mono) (simp_all add: power_increasing)
    then show ?thesis using small(1) by simp
  qed
  moreover have "\<bar>z\<bar> < 2 ^ 1023"
  proof -
    have "(2 :: rat) ^ 54 < 2 ^ 1023" by (rule power_strict_increasing) simp_all
    then show ?thesis using small by simp
  qed
  ultimately obtain y where y: "f64_round z = Fin y" "\<bar>y - z\<bar> \<le> \<bar>z\<bar> / 2 ^ 53"
    using f64_round_error by blast
  then have "z * (1 - 1 / 2 ^ 53) \<le> y" "y \<le> z * (1 + 1 / 2 ^ 53)"
    using small(1) abs_le_D1 [OF y(2)] abs_le_D2 [OF y(2)] by (simp_all add: field_simps)
  then have "of_nat n * x * (1 - 1 / 2 ^ 51) \<le> y" "y \<le> of_nat n * x * (1 + 1 / 2 ^ 51)"
    using z1 nx(1) by (simp_all add: field_simps)
  then show ?thesis using mul y(1) by simp
qed

lemma unat_as_u64: "0 \<le> y \<Longrightarrow> y < 2 ^ 63 \<Longrightarrow> unat (f64_as_u64 (Fin y)) = nat \<lfloor>y\<rfloor>"
proof -
  assume y: "0 \<le> y" "y < 2 ^ 63"
  then have fl: "0 \<le> \<lfloor>y\<rfloor>" "\<lfloor>y\<rfloor> < 2 ^ 63" by (simp_all add: floor_less_iff)
  then have "nat \<lfloor>y\<rfloor> < 2 ^ 64" by (simp add: nat_less_iff)
  then have "unat (of_int \<lfloor>y\<rfloor> :: u64) = nat \<lfloor>y\<rfloor>"
    using unat_of_nat64 [of "nat \<lfloor>y\<rfloor>"] fl by simp
  then show ?thesis using y fl by (simp add: truncate_rat_def max_def min_def)
qed

lemma percentile_at:
  "f64_mul (u64_as_f64 n) share = y \<Longrightarrow> unat (f64_as_u64 y) = i \<Longrightarrow> i < length ls \<Longrightarrow>
    percentile n share ls = Some (ls ! i)"
  by (simp add: percentile_def)

text \<open>The three positions are in bounds, and in ascending order.\<close>

lemma percentile_positions:
  assumes "ls \<noteq> []" "length ls < 2 ^ 53"
  shows "\<exists>i j k. i \<le> j \<and> j \<le> k \<and> k < length ls
    \<and> percentile (of_nat (length ls)) (f64_lit 1 2) (sort ls) = Some (sort ls ! i)
    \<and> percentile (of_nat (length ls)) (f64_lit 95 100) (sort ls) = Some (sort ls ! j)
    \<and> percentile (of_nat (length ls)) (f64_lit 99 100) (sort ls) = Some (sort ls ! k)"
proof -
  let ?n = "length ls" and ?N = "rat_of_nat (length ls)"
  have n: "0 < ?n" "?n < 2 ^ 53" using assms by simp_all
  have idx: "\<exists>y. f64_mul (u64_as_f64 (of_nat ?n)) (f64_lit a b) = Fin y
      \<and> ?N * (of_int a / of_int b) * (1 - 1 / 2 ^ 51) \<le> y \<and> y \<le> ?N * (of_int a / of_int b) * (1 + 1 / 2 ^ 51)"
    if "0 < a" "a < b" "b < 2 ^ 64" "1 / 4 \<le> rat_of_int a / of_int b" "rat_of_int a / of_int b \<le> 99 / 100" for a b
    using f64_lit_near [OF that(1-3)] share_index [OF n _ that(4,5)] by auto
  obtain x y z where x: "f64_mul (u64_as_f64 (of_nat ?n)) (f64_lit 1 2) = Fin x"
      "?N * (1 / 2) * (1 - 1 / 2 ^ 51) \<le> x" "x \<le> ?N * (1 / 2) * (1 + 1 / 2 ^ 51)"
    and y: "f64_mul (u64_as_f64 (of_nat ?n)) (f64_lit 95 100) = Fin y"
      "?N * (95 / 100) * (1 - 1 / 2 ^ 51) \<le> y" "y \<le> ?N * (95 / 100) * (1 + 1 / 2 ^ 51)"
    and z: "f64_mul (u64_as_f64 (of_nat ?n)) (f64_lit 99 100) = Fin z"
      "?N * (99 / 100) * (1 - 1 / 2 ^ 51) \<le> z" "z \<le> ?N * (99 / 100) * (1 + 1 / 2 ^ 51)"
    using idx [of 1 2] idx [of 95 100] idx [of 99 100] by auto
  have N: "1 \<le> ?N" "?N < 2 ^ 53" using n by (simp_all add: Suc_leI flip: of_nat_power)
  have order: "0 \<le> x" "x \<le> y" "y \<le> z" "z < ?N"
    using x y z N by (simp_all add: field_simps)
  then have pos: "unat (f64_as_u64 (Fin x)) = nat \<lfloor>x\<rfloor>" "unat (f64_as_u64 (Fin y)) = nat \<lfloor>y\<rfloor>"
    "unat (f64_as_u64 (Fin z)) = nat \<lfloor>z\<rfloor>" using N by (simp_all add: unat_as_u64 del: f64_as_u64.simps)
  have ijk: "nat \<lfloor>x\<rfloor> \<le> nat \<lfloor>y\<rfloor>" "nat \<lfloor>y\<rfloor> \<le> nat \<lfloor>z\<rfloor>"
    using order by (simp_all add: nat_mono floor_mono)
  have "nat \<lfloor>z\<rfloor> < ?n" using order by (simp add: nat_less_iff floor_less_iff)
  then have "nat \<lfloor>x\<rfloor> < length (sort ls)" "nat \<lfloor>y\<rfloor> < length (sort ls)" "nat \<lfloor>z\<rfloor> < length (sort ls)"
    using ijk by simp_all
  then have pcs: "percentile (of_nat ?n) (f64_lit 1 2) (sort ls) = Some (sort ls ! nat \<lfloor>x\<rfloor>)"
    "percentile (of_nat ?n) (f64_lit 95 100) (sort ls) = Some (sort ls ! nat \<lfloor>y\<rfloor>)"
    "percentile (of_nat ?n) (f64_lit 99 100) (sort ls) = Some (sort ls ! nat \<lfloor>z\<rfloor>)"
    by (simp_all only: percentile_at [OF x(1) pos(1)] percentile_at [OF y(1) pos(2)] percentile_at [OF z(1) pos(3)])
  have "nat \<lfloor>z\<rfloor> < ?n" using order by (simp add: nat_less_iff floor_less_iff)
  with ijk pcs show ?thesis by (intro exI conjI)
qed

text \<open>C37: The performance results of a run with at least one operation are computed without an access out
  of bounds, for fewer than \<open>2 ^ 53\<close> operations: the three percentiles are measured latencies, in
  ascending order. Without any operation, the first access panics.\<close>

theorem percentiles_in_bounds:
  assumes "length latencies < 2 ^ 53"
  shows "case perf_results_new name latencies bytes ms of
      None \<Rightarrow> latencies = []
    | Some r \<Rightarrow> (\<exists>p50 p95 p99. {p50, p95, p99} \<subseteq> set latencies \<and> p50 \<le> p95 \<and> p95 \<le> p99
        \<and> pr_p50_latency_us r = u64_as_f64 p50 \<and> pr_p95_latency_us r = u64_as_f64 p95
        \<and> pr_p99_latency_us r = u64_as_f64 p99)"
proof (cases "latencies = []")
  case True
  then show ?thesis by (simp add: perf_results_new_def percentile_def Let_def)
next
  case False
  from percentile_positions [OF this assms] obtain i j k where
    ijk: "i \<le> j" "j \<le> k" "k < length latencies"
    "percentile (of_nat (length latencies)) (f64_lit 1 2) (sort latencies) = Some (sort latencies ! i)"
    "percentile (of_nat (length latencies)) (f64_lit 95 100) (sort latencies) = Some (sort latencies ! j)"
    "percentile (of_nat (length latencies)) (f64_lit 99 100) (sort latencies) = Some (sort latencies ! k)"
    by blast
  have "sort latencies ! m \<in> set latencies" if "m < length latencies" for m
    using that nth_mem [of m "sort latencies"] by simp
  then have members: "sort latencies ! i \<in> set latencies" "sort latencies ! j \<in> set latencies"
    "sort latencies ! k \<in> set latencies" using ijk(1-3) by simp_all
  have "sort latencies ! i \<le> sort latencies ! j" "sort latencies ! j \<le> sort latencies ! k"
    using ijk(1-3) by (simp_all add: sorted_nth_mono)
  with members show ?thesis
    unfolding perf_results_new_def Let_def ijk(4-6) option.case
    by (intro exI [of _ "sort latencies ! i"] exI [of _ "sort latencies ! j"] exI [of _ "sort latencies ! k"])
      simp
qed

theorem percentiles_in_bounds_witness:
  "\<exists>r. perf_results_new ''Append'' [7, 3, 5] 300 2 = Some r"
  using percentiles_in_bounds [of "[7, 3, 5]" "''Append''" 300 2] by (auto split: option.splits)

section \<open>The performance suite runs through\<close>

text \<open>Without bounds on the total, partitions roll over; the first segment of each only grows.\<close>

definition first_grows :: "(u32 \<Rightarrow> bytes list list) \<Rightarrow> (u32 \<Rightarrow> bytes list list) \<Rightarrow> bool" where
  "first_grows dsm dsm' \<longleftrightarrow> (\<forall>p. \<exists>xs. hd (dsm' p) = hd (dsm p) @ xs)"

lemma first_grows_refl: "first_grows dsm dsm"
  by (simp add: first_grows_def)

lemma first_grows_trans: "first_grows a b \<Longrightarrow> first_grows b c \<Longrightarrow> first_grows a c"
  unfolding first_grows_def by (metis append_assoc)

lemma first_grows_placed: "dsm p \<noteq> [] \<Longrightarrow> first_grows dsm (dsm(p := placed n data (dsm p)))"
proof -
  assume "dsm p \<noteq> []"
  then obtain d ds where "dsm p = d # ds" by (cases "dsm p") auto
  then show ?thesis by (cases ds) (auto simp: first_grows_def placed_def)
qed

lemma append_loop_grows:
  assumes "queue_holds crc q recs dsm" "os_willing os" "length recs + length ds < 2 ^ 64"
    and "\<forall>d \<in> set ds. length d \<le> unat (pc_segment_size (q_config q))"
  shows "\<exists>rs q' dsm'. append_loop crc os clock i ds q = Some (Inr rs, q')
    \<and> queue_holds crc q' (recs @ ds) dsm' \<and> first_grows dsm dsm' \<and> q_config q' = q_config q"
  using assms(1,3,4)
proof (induction ds arbitrary: i q recs dsm)
  case Nil
  then show ?case using first_grows_refl by auto
next
  case (Cons data ds)
  let ?p = "partition_for_data crc q data"
  let ?d = "placed (pc_segment_size (q_config q)) data (dsm ?p)"
  have fits: "length data \<le> unat (pc_segment_size (q_config q))" "length recs + 1 < 2 ^ 64"
    using Cons.prems by simp_all
  obtain r q' where q': "persistq_append crc os (clock i) data q = Some (Inr r, q')"
    "queue_holds crc q' (recs @ [data]) (dsm(?p := ?d))" "q_config q' = q_config q"
    using queue_append_ok [OF Cons.prems(1) assms(2) fits refl refl, of "clock i"] by auto
  from Cons.IH [OF q'(2), of "i + 1"] Cons.prems(2,3) q'(3) obtain rs q'' dsm' where
    rest: "append_loop crc os clock (i + 1) ds q' = Some (Inr rs, q'')"
    "queue_holds crc q'' (recs @ data # ds) dsm'" "first_grows (dsm(?p := ?d)) dsm'" "q_config q'' = q_config q"
    by (auto simp del: fun_upd_apply)
  have "partition_holds crc q recs (dsm ?p) ?p"
    using Cons.prems(1) partition_range [of q crc data] by (simp add: queue_holds_def)
  then have "dsm ?p \<noteq> []"
    unfolding partition_holds_def using pq_manager_holds_last(2) by blast
  then have "first_grows dsm dsm'" using first_grows_trans [OF first_grows_placed rest(3)] by blast
  with q'(1) rest show ?case by auto
qed

text \<open>Records of a partition's first segment are always readable.\<close>

lemma read_in_first_segment:
  assumes holds: "queue_holds crc q recs dsm" and g: "g < length recs" "length recs < 2 ^ 64"
    and nonempty: "\<forall>d \<in> set recs. d \<noteq> []"
    and first: "p = partition_for_data crc q (recs ! g)"
      "length (in_partition crc q p (take g recs)) < length (hd (dsm p))"
  shows "\<exists>r. persistq_read clock (of_nat g) q = Inr r"
proof -
  have unat_g: "unat (of_nat g :: u64) = g" using g by (simp add: unat_of_nat64)
  obtain lo m where lo: "map_of (q_offset_map q) (of_nat g) = Some \<lparr>om_partition_id = p, om_local_offset = lo\<rparr>"
      "located (dsm p) (length (in_partition crc q p (take g recs))) lo"
    and m: "map_of (q_segment_managers q) p = Some m" "pq_manager_holds m (dsm p)"
      "concat (dsm p) = in_partition crc q p recs"
    using queue_mapping [OF holds, of "of_nat g"] g(1) first(1) unat_g by metis
  obtain ds dss where ds: "dsm p = ds # dss" using pq_manager_holds_last(2) [OF m(2)] by (cases "dsm p") auto
  from lo(2) obtain j k where jk: "j < length (dsm p)" "k < length (dsm p ! j)"
    "length (concat (take j (dsm p))) + k = length (in_partition crc q p (take g recs))"
    "unat lo = length (concat (take k (dsm p ! j)))"
    by (auto simp: located_def)
  have "j = 0" using jk(3) first(2) ds by (cases j) auto
  with jk ds have k: "k < length ds" "unat lo = length (concat (take k ds))" by auto
  have "ds ! k \<in> set (concat (dsm p))" using ds k(1) by simp
  then have "ds ! k \<noteq> []" using m(3) nonempty by (auto simp: in_partition_def)
  moreover have "concat ds = concat (take k ds) @ ds ! k @ concat (drop (Suc k) ds)"
    using k(1) by (metis concat.simps(2) concat_append id_take_nth_drop)
  ultimately have "unat lo < length (concat ds)" using k(2) by simp
  then have "pq_manager_read m lo = Inr (drop (unat lo) (concat ds))"
    using read_first_segment [of m ds dss lo] m(2) ds by simp
  then show ?thesis using lo(1) m(1) by (cases clock) (simp add: persistq_read_def)
qed

text \<open>The state between two tests: the queue starts with \<open>n\<close> copies of \<open>data\<close>, which all lie in the
  first segment of their partition.\<close>

definition perf_ready ::
    "(bytes \<Rightarrow> u32) \<Rightarrow> nat \<Rightarrow> bytes \<Rightarrow> persist_q \<Rightarrow> bytes list \<Rightarrow> (u32 \<Rightarrow> bytes list list) \<Rightarrow> bool" where
  "perf_ready crc n data q later dsm \<longleftrightarrow>
     queue_holds crc q (replicate n data @ later) dsm \<and> data \<noteq> [] \<and> (\<forall>d \<in> set later. d \<noteq> [])
     \<and> n \<le> length (hd (dsm (partition_for_data crc q data)))"

lemma read_loop_total:
  assumes "\<forall>g \<in> set gs. \<forall>c. \<exists>r. persistq_read c (of_nat g) q = Inr r"
  shows "\<exists>rs. read_loop clock i (map of_nat gs) q = Inr rs"
  using assms
proof (induction gs arbitrary: i)
  case (Cons g gs)
  then obtain r where "persistq_read (clock i) (of_nat g) q = Inr r" by (metis list.set_intros(1))
  moreover obtain rs where "read_loop clock (i + 1) (map of_nat gs) q = Inr rs"
    using Cons by (metis list.set_intros(2))
  ultimately show ?case by simp
qed simp

lemma perf_reads_ok:
  assumes "perf_ready crc n data q later dsm" "m \<le> n" "n + length later < 2 ^ 64"
  shows "\<exists>rs. read_loop clock i (map of_nat [0..<m]) q = Inr rs"
proof -
  let ?recs = "replicate n data @ later" and ?p = "partition_for_data crc q data"
  have holds: "queue_holds crc q ?recs dsm" and nonempty: "\<forall>d \<in> set ?recs. d \<noteq> []"
    and room: "n \<le> length (hd (dsm ?p))"
    using assms(1) by (auto simp: perf_ready_def)
  have "\<exists>r. persistq_read c (of_nat g) q = Inr r" if "g < m" for c g
  proof (rule read_in_first_segment [OF holds _ _ nonempty refl])
    show "g < length ?recs" "length ?recs < 2 ^ 64" using that assms(2,3) by simp_all
    have "?recs ! g = data" "take g ?recs = replicate g data" using that assms(2) by (simp_all add: nth_append)
    then show "length (in_partition crc q (partition_for_data crc q (?recs ! g)) (take g ?recs))
        < length (hd (dsm (partition_for_data crc q (?recs ! g))))"
      using room that assms(2) by (simp add: in_partition_def)
  qed
  then show ?thesis by (intro read_loop_total) simp
qed

lemma perf_results_ok:
  assumes "0 < n" "n < 2 ^ 53"
  shows "\<exists>r. perf_results_new name (map f [0..<n]) count ms = Some r \<and> pr_operations r = of_nat n
    \<and> pr_total_bytes r = count"
proof -
  have ls: "map f [0..<n] \<noteq> []" "length (map f [0..<n]) < 2 ^ 53" using assms by simp_all
  show ?thesis
    using percentile_positions [OF ls] by (auto simp: perf_results_new_def Let_def)
qed

definition small_tests :: "usize \<Rightarrow> nat \<Rightarrow> (string \<times> nat \<times> nat) list \<Rightarrow> bool" where
  "small_tests seg_size n configs \<longleftrightarrow> (\<forall>(_, num_operations, record_size) \<in> set configs.
     2 \<le> num_operations \<and> num_operations \<le> 2 * n \<and> num_operations < 2 ^ 53
     \<and> 0 < record_size \<and> record_size \<le> unat seg_size)"

lemma perf_append_ok:
  assumes ready: "perf_ready crc n data q later dsm" and os: "os_willing os" and c: "q_config q = c"
    and k: "0 < k" "k < 2 ^ 53" "n + length later + k < 2 ^ 64"
    and d: "d \<noteq> []" "length d \<le> unat (pc_segment_size c)"
  shows "\<exists>r q' dsm'. perf_test_append crc os timing d k q = Some (Inr r, q') \<and> pr_operations r = of_nat k
    \<and> perf_ready crc n data q' (later @ replicate k d) dsm' \<and> q_config q' = c"
proof -
  obtain rs q' dsm' where a: "append_loop crc os (pt_clock timing) 0 (replicate k d) q = Some (Inr rs, q')"
    "queue_holds crc q' (replicate n data @ later @ replicate k d) dsm'" "first_grows dsm dsm'"
    "q_config q' = q_config q"
    using append_loop_grows [of crc q "replicate n data @ later" dsm os "replicate k d" "pt_clock timing" 0]
      ready os k d c by (auto simp: perf_ready_def)
  moreover have "n \<le> length (hd (dsm' (partition_for_data crc q' data)))"
  proof -
    let ?p = "partition_for_data crc q data"
    obtain xs where "hd (dsm' ?p) = hd (dsm ?p) @ xs" using a(3) by (auto simp: first_grows_def)
    moreover have "partition_for_data crc q' data = ?p" using a(4) by (simp add: partition_for_data_def)
    ultimately show ?thesis using ready by (simp add: perf_ready_def)
  qed
  ultimately have "perf_ready crc n data q' (later @ replicate k d) dsm'"
    using ready d(1) by (auto simp: perf_ready_def)
  moreover obtain r where "perf_results_new ''Append'' (map (pt_latency timing) [0..<k])
      (of_nat (length d) * of_nat k) (pt_duration_ms timing) = Some r" "pr_operations r = of_nat k"
    using perf_results_ok [OF k(1,2)] by blast
  ultimately show ?thesis using a(1,4) c by (simp add: perf_test_append_def) blast
qed

lemma perf_read_ok:
  assumes "perf_ready crc n data q later dsm" "n + length later < 2 ^ 64" "0 < m" "m \<le> n" "m < 2 ^ 53"
  shows "\<exists>r. perf_test_read timing m q = Some (Inr r) \<and> pr_operations r = of_nat m"
proof -
  obtain rs where "read_loop (pt_clock timing) 0 (map of_nat [0..<m]) q = Inr rs"
    using perf_reads_ok [OF assms(1,4,2)] by blast
  moreover obtain r where "perf_results_new ''Read'' (map (pt_latency timing) [0..<m])
      (sum_list (map (\<lambda>r. of_nat (length (qr_data (rr_record r)))) rs)) (pt_duration_ms timing) = Some r"
      "pr_operations r = of_nat m"
    using perf_results_ok [OF assms(3,5)] by blast
  ultimately show ?thesis by (simp add: perf_test_read_def)
qed

lemma run_test_configs_ok:
  assumes "perf_ready crc n data q later dsm" "os_willing os" "q_config q = c"
    and "small_tests (pc_segment_size c) n configs"
    and "n + length later + sum_list (map (fst \<circ> snd) configs) < 2 ^ 64"
  shows "\<exists>rs q'. run_test_configs crc os timing k configs q = Some (Inr rs, q')
    \<and> map pr_operations rs = concat (map (\<lambda>(_, m, _). [of_nat m, of_nat (m div 2)]) configs)"
  using assms(1,3-5)
proof (induction configs arbitrary: q later dsm k)
  case Nil
  then show ?case by simp
next
  case (Cons conf configs)
  obtain name m len where conf: "conf = (name, m, len)" by (cases conf) auto
  let ?d = "replicate len (42 :: u8)"
  have m: "2 \<le> m" "m \<le> 2 * n" "m < 2 ^ 53" "0 < len" "len \<le> unat (pc_segment_size c)"
    and rest: "small_tests (pc_segment_size c) n configs"
    using Cons.prems(3) by (auto simp: conf small_tests_def)
  have sum: "n + length later + m + sum_list (map (fst \<circ> snd) configs) < 2 ^ 64"
    using Cons.prems(4) by (simp add: conf comp_def)
  obtain r q' dsm' where a: "perf_test_append crc os (timing (2 * k)) ?d m q = Some (Inr r, q')"
    "pr_operations r = of_nat m" "perf_ready crc n data q' (later @ replicate m ?d) dsm'" "q_config q' = c"
    using perf_append_ok [OF Cons.prems(1) assms(2) Cons.prems(2), of m ?d "timing (2 * k)"] m sum by auto
  obtain r' where b: "perf_test_read (timing (2 * k + 1)) (m div 2) q' = Some (Inr r')"
    "pr_operations r' = of_nat (m div 2)"
  proof -
    have "0 < m div 2" "m div 2 \<le> n" "m div 2 < 2 ^ 53" "n + length (later @ replicate m ?d) < 2 ^ 64"
      using m sum by (simp_all add: div_greater_zero_iff)
    with that show ?thesis using perf_read_ok [OF a(3)] by blast
  qed
  obtain rs q'' where "run_test_configs crc os timing (k + 1) configs q' = Some (Inr rs, q'')"
    "map pr_operations rs = concat (map (\<lambda>(_, m, _). [of_nat m, of_nat (m div 2)]) configs)"
    using Cons.IH [OF a(3,4) rest, of "k + 1"] sum by (auto simp: comp_def)
  then show ?case using a(1,2) b by (simp add: conf)
qed

lemma concat_replicate_length: "length (concat (replicate n xs)) = n * length xs"
  by (induction n) auto

text \<open>The first test, on the new queue: its reads count every byte from the record to the last one.\<close>

lemma first_reads:
  assumes "queue_holds crc q (replicate n data) dsm" "single_segments dsm" "data \<noteq> []" "m \<le> n" "n < 2 ^ 64"
  shows "\<exists>rs. read_loop clock i (map of_nat [0..<m]) q = Inr rs
    \<and> map (\<lambda>r. length (qr_data (rr_record r))) rs = map (\<lambda>g. (n - g) * length data) [0..<m]"
proof -
  let ?recs = "replicate n data"
  have len: "length (read_data crc q ?recs g) = (n - g) * length data" if g: "g < m" for g
  proof -
    obtain k where k: "n - g = Suc k" using g assms(4) by (cases "n - g") auto
    then have "n - (g + 1) = k" by simp
    then have "read_data crc q ?recs g = data @ concat (replicate k data)"
      using g assms(4) by (simp add: read_data_def in_partition_def)
    then show ?thesis by (simp only: k length_append concat_replicate_length mult_Suc)
  qed
  obtain rs where rs: "read_loop clock i (map of_nat [0..<m]) q = Inr rs"
    "map (\<lambda>r. qr_data (rr_record r)) rs = map (read_data crc q ?recs) [0..<m]"
    using read_loop_ok [OF assms(1,2), of "[0..<m]" clock i] assms(3-5) by auto
  have "map (\<lambda>r. length (qr_data (rr_record r))) rs = map length (map (\<lambda>r. qr_data (rr_record r)) rs)"
    by simp
  also have "\<dots> = map (\<lambda>g. (n - g) * length data) [0..<m]" unfolding rs(2) using len by simp
  finally show ?thesis using rs(1) by blast
qed

lemma descending_sum: "m \<le> n \<Longrightarrow> 2 * sum_list (map (\<lambda>g. (n - g) * k) [0..<m]) = k * m * (2 * n + 1 - m)"
proof (induction m)
  case (Suc m)
  then obtain j where j: "n = Suc m + j" using le_Suc_ex by blast
  from Suc show ?case by (simp add: j algebra_simps)
qed simp

lemma sum_list_of_nat: "sum_list (map (\<lambda>x. of_nat (f x)) xs) = (of_nat (sum_list (map f xs)) :: u64)"
  by (induction xs) auto

lemma perf_config_valid: "validate_config perf_queue_config = Inr ()"
  by (simp add: perf_queue_config_def validate_config_def contains_str_def)

lemma first_test:
  assumes "queue_holds crc q [] dsm" "single_segments dsm" "os_willing os" "d \<noteq> []"
    and "0 < m" "m \<le> n" "n < 2 ^ 53" "n * length d \<le> unat (pc_segment_size (q_config q))"
  shows "\<exists>r q' dsm' r'. perf_test_append crc os timing d n q = Some (Inr r, q') \<and> pr_operations r = of_nat n
    \<and> perf_ready crc n d q' [] dsm' \<and> q_config q' = q_config q
    \<and> perf_test_read timing' m q' = Some (Inr r') \<and> pr_operations r' = of_nat m
    \<and> pr_total_bytes r' = of_nat (sum_list (map (\<lambda>g. (n - g) * length d) [0..<m]))"
proof -
  have "length (concat ([] @ replicate n d)) \<le> unat (pc_segment_size (q_config q))"
    and len: "length ([] :: bytes list) + length (replicate n d) < 2 ^ 64"
    using assms(7,8) by (simp_all add: concat_replicate_length)
  from append_loop_ok [OF assms(1-3) len this(1), of "pt_clock timing" 0] obtain rs q' dsm' where
    a: "append_loop crc os (pt_clock timing) 0 (replicate n d) q = Some (Inr rs, q')"
    "queue_holds crc q' (replicate n d) dsm'" "single_segments dsm'" "q_config q' = q_config q"
    by auto
  let ?p = "partition_for_data crc q' d"
  have "partition_holds crc q' (replicate n d) (dsm' ?p) ?p"
    using a(2) partition_range [of q' crc d] by (simp add: queue_holds_def)
  moreover obtain ds where "dsm' ?p = [ds]"
    using a(3) by (metis One_nat_def length_0_conv length_Suc_conv single_segments_def)
  ultimately have "n \<le> length (hd (dsm' ?p))" by (auto simp: partition_holds_def in_partition_def)
  then have ready: "perf_ready crc n d q' [] dsm'" using a(2) assms(4) by (simp add: perf_ready_def)
  obtain r where r: "perf_results_new ''Append'' (map (pt_latency timing) [0..<n])
      (of_nat (length d) * of_nat n) (pt_duration_ms timing) = Some r" "pr_operations r = of_nat n"
    using perf_results_ok [of n] assms(5-7) by (meson less_le_trans)
  obtain rds where rds: "read_loop (pt_clock timing') 0 (map of_nat [0..<m]) q' = Inr rds"
    "map (\<lambda>r. length (qr_data (rr_record r))) rds = map (\<lambda>g. (n - g) * length d) [0..<m]"
    using first_reads [OF a(2,3) assms(4,6)] assms(7) by auto
  obtain r' where r': "perf_results_new ''Read'' (map (pt_latency timing') [0..<m])
      (sum_list (map (\<lambda>r. of_nat (length (qr_data (rr_record r)))) rds)) (pt_duration_ms timing') = Some r'"
    "pr_operations r' = of_nat m"
    "pr_total_bytes r' = sum_list (map (\<lambda>r. of_nat (length (qr_data (rr_record r)))) rds)"
    using perf_results_ok [of m] assms(5-7) by (meson le_less_trans)
  show ?thesis
    using a(1,4) ready r rds(1) r' rds(2)
    by (auto simp: perf_test_append_def perf_test_read_def sum_list_of_nat)
qed

lemma perf_suite_ok:
  assumes "os_willing os" "os_flushes os"
  shows "\<exists>results. run_performance_tests crc os timing = Some (Inr results)
    \<and> map pr_operations results = [1000, 500, 1000, 500, 500, 250, 200, 100]
    \<and> pr_total_bytes (results ! 1) = 384256000"
proof -
  let ?d = "replicate 1024 (42 :: u8)"
  obtain q where q: "persistq_new os perf_queue_config = Inr q" "queue_holds crc q [] (\<lambda>_. [[]])"
    "pc_segment_size (q_config q) = 64 * 1024 * 1024"
    using queue_new_ok [OF assms(1) perf_config_valid, of crc] by (auto simp: perf_queue_config_def)
  have one: "single_segments (\<lambda>_. [[]])" and d: "?d \<noteq> []" by (simp_all add: single_segments_def)
  obtain r q' dsm' r' where first: "perf_test_append crc os (timing 0) ?d 1000 q = Some (Inr r, q')"
    "pr_operations r = of_nat 1000" "perf_ready crc 1000 ?d q' [] dsm'" "q_config q' = q_config q"
    "perf_test_read (timing 1) 500 q' = Some (Inr r')" "pr_operations r' = of_nat 500"
    "pr_total_bytes r' = of_nat (sum_list (map (\<lambda>g. (1000 - g) * length ?d) [0..<500]))"
    using first_test [OF q(2) one assms(1) d, of 500 1000 "timing 0" "timing 1"] q(3) by auto
  have "2 * sum_list (map (\<lambda>g. (1000 - g) * length ?d) [0..<500]) = 2 * 384256000"
    by (subst descending_sum) simp_all
  then have counted: "pr_total_bytes r' = 384256000" using first(7) by simp
  have "small_tests (pc_segment_size (q_config q)) 1000 (tl test_configs)"
    by (simp add: small_tests_def test_configs_def q(3))
  then obtain rs q'' where rest: "run_test_configs crc os timing 1 (tl test_configs) q' = Some (Inr rs, q'')"
    "map pr_operations rs = [1000, 500, 500, 250, 200, 100]"
    using run_test_configs_ok [OF first(3) assms(1) first(4), of "tl test_configs" timing 1]
    by (auto simp: test_configs_def)
  then show ?thesis
    using q(1) first(1,2,5,6) counted shutdown_ok [OF assms(2), of q'']
    by (simp add: run_performance_tests_def test_configs_def)
qed

text \<open>C38: The performance suite runs to its end for every checksum when files can be created and flushed,
  although partitions may roll over: its reads only ever ask for the first records of the queue.
  Its first read test, 500 records of 1024 bytes, counts 384256000 bytes as read in place of
  512000, since each read returns everything up to the end of the partition.\<close>

theorem perf_suite_completes:
  assumes "os_willing os" "os_flushes os"
  shows "\<exists>results. run_performance_tests crc os timing = Some (Inr results)
    \<and> map pr_operations results = [1000, 500, 1000, 500, 500, 250, 200, 100]
    \<and> pr_total_bytes (results ! 1) = 384256000"
  by (rule perf_suite_ok [OF assms])

theorem perf_suite_completes_witness:
  "\<exists>results. run_performance_tests (\<lambda>bs. of_nat (length bs)) demo_os
      (\<lambda>_. \<lparr>pt_clock = (\<lambda>i. (of_nat i, of_nat i + 1)), pt_latency = (\<lambda>i. of_nat i), pt_duration_ms = 7\<rparr>)
    = Some (Inr results) \<and> pr_total_bytes (results ! 1) = 384256000"
proof -
  have "os_flushes demo_os" by (simp add: os_flushes_def demo_os_def)
  from perf_suite_completes [OF demo_os_willing this] show ?thesis by blast
qed

end
