(* ===== verification/Main_Program.thy ===== *)
theory Main_Program
  imports Demo_Cluster Queue_Performance
begin

text \<open>
  The binary of \<open>src/main.rs\<close>: its arguments choose among the large-scale test, the performance
  suite, the demonstration of the architecture and the demonstration of the queue. An error of the
  chosen program is the error of the process; the result is what the chosen program reports.
\<close>

section \<open>The program\<close>

record main_environment =
  me_crc :: "bytes \<Rightarrow> u32"
  me_os :: os_answers
  me_queue_clock :: clock
  me_perf_timing :: "nat \<Rightarrow> perf_timing"
  me_large_timing :: large_scale_timing
  me_demo_clock :: "nat \<Rightarrow> u64 \<times> u64"
  me_demo_now :: "nat \<Rightarrow> u64"

datatype main_report = LargeScaleReport large_scale_result | PerfReport "perf_results list"
  | ArchitectureReport demonstration | QueueReport demo_report

definition run_large_scale_test :: "main_environment \<Rightarrow> (string + large_scale_result) option" where
  "run_large_scale_test env =
     (case test_10m_random_numbers (me_crc env) (me_os env) (me_large_timing env) of
        None \<Rightarrow> None
      | Some r \<Rightarrow> Some (and_then r (\<lambda>result.
          if ls_verification_correct result then Inr result
          else Inl ''Large-scale test verification failed'')))"

definition main_run :: "main_environment \<Rightarrow> string list \<Rightarrow> (string + main_report) option" where
  "main_run env args =
     (let demo_mode = ''--demo'' \<in> set args; perf_mode = ''--perf'' \<in> set args;
          large_mode = ''--large'' \<in> set args
      in if large_mode then map_option (map_sum (\<lambda>e. e) LargeScaleReport) (run_large_scale_test env)
         else if perf_mode then map_option (map_sum (\<lambda>e. e) PerfReport)
           (run_performance_tests (me_crc env) (me_os env) (me_perf_timing env))
         else if demo_mode then Some (Inr (ArchitectureReport
           (demonstrate_architecture (me_crc env) (me_demo_clock env) (me_demo_now env))))
         else map_option (map_sum (\<lambda>e. e) QueueReport)
           (run_persistq_demo (me_crc env) (me_os env) (me_queue_clock env)))"

section \<open>Which runs succeed\<close>

text \<open>C36: On a system that grants every request, the program always ends, and it ends in an error
  exactly when \<open>--large\<close> is among its arguments, whatever else is; \<open>--perf\<close> takes precedence over
  \<open>--demo\<close>, and every other argument is ignored.\<close>

theorem main_fails_iff_large:
  assumes "os_willing (me_os env)" "os_flushes (me_os env)"
  shows "case main_run env args of
      None \<Rightarrow> False
    | Some (Inl e) \<Rightarrow> ''--large'' \<in> set args \<and> e = ''Data verification failed''
    | Some (Inr report) \<Rightarrow> ''--large'' \<notin> set args
        \<and> (case report of LargeScaleReport _ \<Rightarrow> False
           | PerfReport _ \<Rightarrow> ''--perf'' \<in> set args
           | ArchitectureReport _ \<Rightarrow> ''--perf'' \<notin> set args \<and> ''--demo'' \<in> set args
           | QueueReport _ \<Rightarrow> ''--perf'' \<notin> set args \<and> ''--demo'' \<notin> set args)"
proof -
  have "run_large_scale_test env = Some (Inl ''Data verification failed'')"
    using large_test_fails [OF assms(1)] by (simp add: run_large_scale_test_def)
  moreover obtain rs where "run_performance_tests (me_crc env) (me_os env) (me_perf_timing env) = Some (Inr rs)"
    using perf_suite_ok [OF assms] by blast
  moreover obtain report where "run_persistq_demo (me_crc env) (me_os env) (me_queue_clock env) = Some (Inr report)"
    using queue_demo_ok [OF assms] by blast
  ultimately show ?thesis by (simp add: main_run_def Let_def)
qed

definition demo_environment :: main_environment where
  "demo_environment = \<lparr>me_crc = (\<lambda>bs. of_nat (length bs)), me_os = demo_os,
     me_queue_clock = (\<lambda>i. (of_nat i, of_nat i + 1)),
     me_perf_timing = (\<lambda>_. \<lparr>pt_clock = (\<lambda>i. (of_nat i, of_nat i + 1)), pt_latency = of_nat, pt_duration_ms = 7\<rparr>),
     me_large_timing = \<lparr>lt_clock = (\<lambda>i. (of_nat i, of_nat i + 1)), lt_append_ms = 1000,
       lt_verification_ms = 900, lt_read_ms = (\<lambda>_. 5)\<rparr>,
     me_demo_clock = (\<lambda>i. (of_nat i, of_nat i + 500)), me_demo_now = (\<lambda>_. 7)\<rparr>"

theorem main_fails_iff_large_witness:
  "main_run demo_environment [''persistq'', ''--demo'', ''--large''] = Some (Inl ''Data verification failed'')"
proof -
  have "os_willing (me_os demo_environment)" "os_flushes (me_os demo_environment)"
    using demo_os_willing by (simp_all add: demo_environment_def os_flushes_def demo_os_def)
  from main_fails_iff_large [OF this, of "[''persistq'', ''--demo'', ''--large'']"] show ?thesis
    by (simp split: option.splits sum.splits)
qed

end
