(* ===== verification/Utf8.thy ===== *)
theory Utf8
  imports Dolda_Prelude
begin

text \<open>
  \<open>String::from_utf8_lossy\<close> of the standard library, which the code uses wherever it reads bytes as
  text: well-formed sequences of UTF-8 are kept, and each maximal ill-formed prefix becomes the
  replacement character U+FFFD. A string is the list of its UTF-8 bytes.
\<close>

section \<open>Decoding\<close>

definition continuation :: "u8 \<Rightarrow> bool" where
  "continuation b \<longleftrightarrow> 0x80 \<le> b \<and> b \<le> 0xBF"

text \<open>The second byte excludes overlong forms, surrogates and numbers above 0x10FFFF.\<close>

definition second_byte :: "u8 \<Rightarrow> u8 \<Rightarrow> bool" where
  "second_byte a b \<longleftrightarrow> continuation b \<and> (a = 0xE0 \<longrightarrow> 0xA0 \<le> b) \<and> (a = 0xED \<longrightarrow> b \<le> 0x9F)
     \<and> (a = 0xF0 \<longrightarrow> 0x90 \<le> b) \<and> (a = 0xF4 \<longrightarrow> b \<le> 0x8F)"

definition char_width :: "u8 \<Rightarrow> nat" where
  "char_width a = (if a < 0x80 then 1 else if a < 0xC2 then 0 else if a < 0xE0 then 2
     else if a < 0xF0 then 3 else if a < 0xF5 then 4 else 0)"

text \<open>Whether a character starts here, and the number of bytes to consume.\<close>

definition utf8_step :: "u8 \<Rightarrow> bytes \<Rightarrow> bool \<times> nat" where
  "utf8_step a rest =
     (if char_width a = 1 then (True, 1)
      else if char_width a = 0 then (False, 1)
      else case rest of [] \<Rightarrow> (False, 1) | b # rest1 \<Rightarrow>
        if \<not> second_byte a b then (False, 1)
        else if char_width a = 2 then (True, 2)
        else case rest1 of [] \<Rightarrow> (False, 2) | c # rest2 \<Rightarrow>
          if \<not> continuation c then (False, 2)
          else if char_width a = 3 then (True, 3)
          else case rest2 of [] \<Rightarrow> (False, 3) | d # _ \<Rightarrow>
            if \<not> continuation d then (False, 3) else (True, 4))"

lemma utf8_step_pos: "0 < snd (utf8_step a rest)"
  by (auto simp: utf8_step_def split: list.splits)

function utf8_lossy :: "bytes \<Rightarrow> bytes" where
  "utf8_lossy [] = []"
| "utf8_lossy (a # rest) =
     (if fst (utf8_step a rest) then take (snd (utf8_step a rest)) (a # rest) else [0xEF, 0xBF, 0xBD])
     @ utf8_lossy (drop (snd (utf8_step a rest)) (a # rest))"
  by pat_completeness auto
termination by (relation "measure length") (auto simp: utf8_step_pos)

function utf8_valid :: "bytes \<Rightarrow> bool" where
  "utf8_valid [] = True"
| "utf8_valid (a # rest) =
     (fst (utf8_step a rest) \<and> utf8_valid (drop (snd (utf8_step a rest)) (a # rest)))"
  by pat_completeness auto
termination by (relation "measure length") (auto simp: utf8_step_pos)

declare utf8_lossy.simps(2) [simp del] utf8_valid.simps(2) [simp del]

section \<open>Properties of decoding\<close>

text \<open>The complete characters, by their width.\<close>

lemma utf8_step_complete:
  assumes "fst (utf8_step a rest)"
  obtains "char_width a = 1" "snd (utf8_step a rest) = 1"
  | b ys where "rest = b # ys" "char_width a = 2" "second_byte a b" "snd (utf8_step a rest) = 2"
  | b c ys where "rest = b # c # ys" "char_width a = 3" "second_byte a b" "continuation c"
      "snd (utf8_step a rest) = 3"
  | b c d ys where "rest = b # c # d # ys" "char_width a = 4" "second_byte a b" "continuation c" "continuation d"
      "snd (utf8_step a rest) = 4"
proof -
  have width: "char_width a \<in> {0, 1, 2, 3, 4}" by (simp add: char_width_def)
  then show ?thesis
    using assms that
    by (auto simp: utf8_step_def split: list.split_asm if_split_asm)
qed

text \<open>A complete character does not depend on what follows it.\<close>

lemma utf8_step_prefix:
  assumes "fst (utf8_step a rest)"
  shows "utf8_step a (take (snd (utf8_step a rest) - 1) rest @ ys) = utf8_step a rest"
  using assms by (rule utf8_step_complete) (simp_all add: utf8_step_def)

lemma utf8_step_length: "fst (utf8_step a rest) \<Longrightarrow> snd (utf8_step a rest) \<le> length (a # rest)"
  by (erule utf8_step_complete) simp_all

lemma take_step: "take (snd (utf8_step a rest)) (a # rest) = a # take (snd (utf8_step a rest) - 1) rest"
  using utf8_step_pos [of a rest] by (cases "snd (utf8_step a rest)") auto

lemma utf8_valid_char:
  assumes "fst (utf8_step a rest)"
  shows "utf8_valid (take (snd (utf8_step a rest)) (a # rest) @ ys) = utf8_valid ys"
proof -
  let ?n = "snd (utf8_step a rest)" and ?t = "take (snd (utf8_step a rest) - 1) rest"
  have "length ?t = ?n - 1" using utf8_step_length [OF assms] by simp
  then have "drop ?n (a # ?t @ ys) = ys" using utf8_step_pos [of a rest] by (cases ?n) auto
  then show ?thesis
    unfolding take_step append_Cons utf8_valid.simps(2) utf8_step_prefix [OF assms] using assms by simp
qed

lemma utf8_valid_replacement: "utf8_valid ([0xEF, 0xBF, 0xBD] @ ys) = utf8_valid ys"
proof -
  have "utf8_step 0xEF ([0xBF, 0xBD] @ ys) = (True, 3)"
    by (simp add: utf8_step_def char_width_def second_byte_def continuation_def)
  then show ?thesis by (simp add: utf8_valid.simps(2))
qed

lemma utf8_lossy_valid: "utf8_valid (utf8_lossy bs)"
proof (induction bs rule: utf8_lossy.induct)
  case (2 a rest)
  then show ?case
    by (cases "fst (utf8_step a rest)")
      (simp_all only: utf8_lossy.simps(2) utf8_valid_char utf8_valid_replacement if_True if_False)
qed simp

lemma utf8_lossy_id: "utf8_valid bs \<Longrightarrow> utf8_lossy bs = bs"
proof (induction bs rule: utf8_lossy.induct)
  case (2 a rest)
  then show ?case
    by (simp only: utf8_lossy.simps(2) utf8_valid.simps(2) if_True) (simp only: append_take_drop_id)
qed simp

lemma ascii_valid: "\<forall>b \<in> set bs. b < 0x80 \<Longrightarrow> utf8_valid bs"
  by (induction bs) (auto simp: utf8_valid.simps(2) utf8_step_def char_width_def)

end
