(* ===== verification/SQL_Layer.thy ===== *)
theory SQL_Layer
  imports Storage Utf8
begin

text \<open>
  The SQL layer of \<open>src/datafusion_layer.rs\<close>: a table provider over a segment manager, which turns
  records into batches of Arrow columns, the builder of tables, and the operations of the layer.

  The crates \<open>arrow\<close> and \<open>datafusion\<close> are parameters: the constructors of batches and of the plan
  that scans them are the record \<open>arrow_api\<close>, the session context is \<open>session_api\<close>. A context gets
  a table as a trait object, so all it can know of a provider is what the trait's methods answer.
\<close>

section \<open>Data\<close>

datatype data_type = Utf8Type | TimestampMicros | UInt64Type | Int64Type

record schema_field =
  sf_name :: string
  sf_data_type :: data_type
  sf_nullable :: bool

type_synonym schema = "schema_field list"

datatype arrow_column = StringArray "bytes list" | TimestampArray "i64 list" | UInt64Array "u64 list"

datatype sql_error = DataFusionFailed string | SqlStorage storage_error | ArrowFailed string
  | TableNotFound string | InvalidSchema string | SqlSerialization string

record ('b, 'p) arrow_api =
  ar_new_empty :: "schema \<Rightarrow> 'b"
  ar_try_new :: "schema \<Rightarrow> arrow_column list \<Rightarrow> string + 'b"
  ar_memory_exec :: "'b list list \<Rightarrow> schema \<Rightarrow> nat list option \<Rightarrow> string + 'p"
  ar_external :: "sql_error \<Rightarrow> string" \<comment> \<open>wrapped as an external error of \<open>datafusion\<close>\<close>

record table_provider =
  tp_storage :: segment_manager
  tp_schema :: schema
  tp_data_field :: string
  tp_timestamp_field :: string

section \<open>The table provider\<close>

definition provider_new :: "segment_manager \<Rightarrow> string \<Rightarrow> string \<Rightarrow> sql_error + table_provider" where
  "provider_new storage data_field timestamp_field =
     Inr \<lparr>tp_storage = storage,
       tp_schema = [\<lparr>sf_name = data_field, sf_data_type = Utf8Type, sf_nullable = False\<rparr>,
         \<lparr>sf_name = timestamp_field, sf_data_type = TimestampMicros, sf_nullable = False\<rparr>,
         \<lparr>sf_name = ''record_id'', sf_data_type = UInt64Type, sf_nullable = False\<rparr>],
       tp_data_field = data_field, tp_timestamp_field = timestamp_field\<rparr>"

definition records_to_batch :: "('b, 'p) arrow_api \<Rightarrow> table_provider \<Rightarrow> drecord list \<Rightarrow> sql_error + 'b" where
  "records_to_batch arrow t records =
     (if records = [] then Inr (ar_new_empty arrow (tp_schema t))
      else let data_values = map (\<lambda>r. utf8_lossy (rec_data r)) records;
               timestamp_values = map rec_timestamp records;
               record_ids = map of_nat [0..<length records]
           in map_err ArrowFailed (ar_try_new arrow (tp_schema t)
             [StringArray data_values, TimestampArray timestamp_values, UInt64Array record_ids]))"

text \<open>The filters and the limit are not looked at.\<close>

definition provider_scan ::
    "('b, 'p) arrow_api \<Rightarrow> table_provider \<Rightarrow> nat list option \<Rightarrow> string + 'p" where
  "provider_scan arrow t projection =
     (let records = [] in
      and_then (map_err (ar_external arrow) (records_to_batch arrow t records)) (\<lambda>batch.
        ar_memory_exec arrow [[batch]] (tp_schema t) projection))"

section \<open>The builder\<close>

record table_builder =
  tb_storage :: segment_manager
  tb_schema_fields :: schema
  tb_name :: string

definition builder_new :: "segment_manager \<Rightarrow> string \<Rightarrow> table_builder" where
  "builder_new storage name = \<lparr>tb_storage = storage, tb_schema_fields = [], tb_name = name\<rparr>"

definition add_field :: "string \<Rightarrow> data_type \<Rightarrow> bool \<Rightarrow> table_builder \<Rightarrow> table_builder" where
  "add_field name data_type nullable b = b\<lparr>tb_schema_fields := tb_schema_fields b
     @ [\<lparr>sf_name = name, sf_data_type = data_type, sf_nullable = nullable\<rparr>]\<rparr>"

definition add_string_field :: "string \<Rightarrow> table_builder \<Rightarrow> table_builder" where
  "add_string_field name = add_field name Utf8Type False"

definition add_timestamp_field :: "string \<Rightarrow> table_builder \<Rightarrow> table_builder" where
  "add_timestamp_field name = add_field name TimestampMicros False"

definition add_int64_field :: "string \<Rightarrow> table_builder \<Rightarrow> table_builder" where
  "add_int64_field name = add_field name Int64Type False"

definition builder_build :: "table_builder \<Rightarrow> sql_error + table_provider" where
  "builder_build b =
     (case tb_schema_fields b of
        [] \<Rightarrow> Inl (InvalidSchema ''Schema must have at least one field'')
      | first # others \<Rightarrow>
          Inr \<lparr>tp_storage = tb_storage b, tp_schema = first # others, tp_data_field = sf_name first,
            tp_timestamp_field = (case others of [] \<Rightarrow> ''timestamp'' | second # _ \<Rightarrow> sf_name second)\<rparr>)"

section \<open>The layer\<close>

text \<open>A table as the session context sees it: the answers of the methods of \<open>TableProvider\<close>.\<close>

record 'p table_object =
  to_schema :: schema
  to_base_table :: bool
  to_scan :: "nat list option \<Rightarrow> string + 'p"

definition table_object_of :: "('b, 'p) arrow_api \<Rightarrow> table_provider \<Rightarrow> 'p table_object" where
  "table_object_of arrow t = \<lparr>to_schema = tp_schema t, to_base_table = True, to_scan = provider_scan arrow t\<rparr>"

record ('c, 'd, 'b, 'p) session_api =
  se_new :: 'c
  se_register_table :: "string \<Rightarrow> 'p table_object \<Rightarrow> 'c \<Rightarrow> string + 'c"
  se_register_parquet :: "string \<Rightarrow> string \<Rightarrow> 'c \<Rightarrow> string + 'c"
  se_sql :: "'c \<Rightarrow> string \<Rightarrow> string + 'd"
  se_collect :: "'d \<Rightarrow> string + 'b list"
  se_write_parquet :: "'d \<Rightarrow> string \<Rightarrow> string + unit"
  se_table_schema :: "'c \<Rightarrow> string \<Rightarrow> string + schema"
  se_table_names :: "'c \<Rightarrow> string list"

record 'c sql_layer =
  dl_ctx :: 'c
  dl_storage :: segment_manager

definition sql_layer_new :: "('c, 'd, 'b, 'p) session_api \<Rightarrow> segment_manager \<Rightarrow> sql_error + 'c sql_layer" where
  "sql_layer_new session storage = Inr \<lparr>dl_ctx = se_new session, dl_storage = storage\<rparr>"

definition register_table :: "('c, 'd, 'b, 'p) session_api \<Rightarrow> ('b, 'p) arrow_api \<Rightarrow> string \<Rightarrow> string \<Rightarrow> string
    \<Rightarrow> 'c sql_layer \<Rightarrow> sql_error + 'c sql_layer" where
  "register_table session arrow table_name data_field timestamp_field l =
     and_then (provider_new (dl_storage l) data_field timestamp_field) (\<lambda>t.
     and_then (map_err DataFusionFailed
         (se_register_table session table_name (table_object_of arrow t) (dl_ctx l))) (\<lambda>ctx.
       Inr (l\<lparr>dl_ctx := ctx\<rparr>)))"

definition query_dataframe :: "('c, 'd, 'b, 'p) session_api \<Rightarrow> 'c sql_layer \<Rightarrow> string \<Rightarrow> sql_error + 'd" where
  "query_dataframe session l sql = map_err DataFusionFailed (se_sql session (dl_ctx l) sql)"

definition sql_query :: "('c, 'd, 'b, 'p) session_api \<Rightarrow> 'c sql_layer \<Rightarrow> string \<Rightarrow> sql_error + 'b list" where
  "sql_query session l sql =
     and_then (map_err DataFusionFailed (se_sql session (dl_ctx l) sql)) (\<lambda>df.
       map_err DataFusionFailed (se_collect session df))"

definition export_to_parquet ::
    "('c, 'd, 'b, 'p) session_api \<Rightarrow> 'c sql_layer \<Rightarrow> string \<Rightarrow> string \<Rightarrow> sql_error + unit" where
  "export_to_parquet session l sql path =
     and_then (map_err DataFusionFailed (se_sql session (dl_ctx l) sql)) (\<lambda>df.
       map_err DataFusionFailed (se_write_parquet session df path))"

definition register_parquet ::
    "('c, 'd, 'b, 'p) session_api \<Rightarrow> string \<Rightarrow> string \<Rightarrow> 'c sql_layer \<Rightarrow> sql_error + 'c sql_layer" where
  "register_parquet session table_name path l =
     and_then (map_err DataFusionFailed (se_register_parquet session table_name path (dl_ctx l))) (\<lambda>ctx.
       Inr (l\<lparr>dl_ctx := ctx\<rparr>))"

definition get_table_schema :: "('c, 'd, 'b, 'p) session_api \<Rightarrow> 'c sql_layer \<Rightarrow> string \<Rightarrow> sql_error + schema" where
  "get_table_schema session l table_name =
     map_err (\<lambda>_. TableNotFound table_name) (se_table_schema session (dl_ctx l) table_name)"

definition list_tables :: "('c, 'd, 'b, 'p) session_api \<Rightarrow> 'c sql_layer \<Rightarrow> string list" where
  "list_tables session l = se_table_names session (dl_ctx l)"

section \<open>Batches\<close>

text \<open>What Arrow documents of \<open>RecordBatch::try_new\<close>: it refuses columns whose number or types differ
  from the schema's, or that differ in length, and keeps the columns otherwise.\<close>

fun column_type :: "arrow_column \<Rightarrow> data_type" where
  "column_type (StringArray _) = Utf8Type"
| "column_type (TimestampArray _) = TimestampMicros"
| "column_type (UInt64Array _) = UInt64Type"

fun column_length :: "arrow_column \<Rightarrow> nat" where
  "column_length (StringArray xs) = length xs"
| "column_length (TimestampArray xs) = length xs"
| "column_length (UInt64Array xs) = length xs"

definition arrow_laws :: "('b, 'p) arrow_api \<Rightarrow> ('b \<Rightarrow> arrow_column list) \<Rightarrow> bool" where
  "arrow_laws arrow columns \<longleftrightarrow> (\<forall>schema cols.
     (if map column_type cols = map sf_data_type schema \<and> (\<exists>n. \<forall>c \<in> set cols. column_length c = n)
      then \<exists>b. ar_try_new arrow schema cols = Inr b \<and> columns b = cols
      else \<exists>e. ar_try_new arrow schema cols = Inl e))"

lemma batch_columns_iff:
  assumes "arrow_laws arrow columns" "records \<noteq> []"
  shows "(\<exists>b. records_to_batch arrow t records = Inr b \<and> columns b =
      [StringArray (map (\<lambda>r. utf8_lossy (rec_data r)) records), TimestampArray (map rec_timestamp records),
       UInt64Array (map of_nat [0..<length records])])
    \<longleftrightarrow> map sf_data_type (tp_schema t) = [Utf8Type, TimestampMicros, UInt64Type]"
    and "map sf_data_type (tp_schema t) \<noteq> [Utf8Type, TimestampMicros, UInt64Type] \<Longrightarrow>
      \<exists>e. records_to_batch arrow t records = Inl (ArrowFailed e)"
proof -
  let ?cols = "[StringArray (map (\<lambda>r. utf8_lossy (rec_data r)) records), TimestampArray (map rec_timestamp records),
       UInt64Array (map of_nat [0..<length records])]"
  have len: "\<exists>n. \<forall>c \<in> set ?cols. column_length c = n" by simp
  have types: "map column_type ?cols = [Utf8Type, TimestampMicros, UInt64Type]" by simp
  have batch: "records_to_batch arrow t records = map_err ArrowFailed (ar_try_new arrow (tp_schema t) ?cols)"
    using assms(2) by (simp add: records_to_batch_def Let_def)
  have law: "if map column_type ?cols = map sf_data_type (tp_schema t) \<and> (\<exists>n. \<forall>c \<in> set ?cols. column_length c = n)
      then \<exists>b. ar_try_new arrow (tp_schema t) ?cols = Inr b \<and> columns b = ?cols
      else \<exists>e. ar_try_new arrow (tp_schema t) ?cols = Inl e"
    using assms(1) unfolding arrow_laws_def by blast
  show "(\<exists>b. records_to_batch arrow t records = Inr b \<and> columns b = ?cols)
      \<longleftrightarrow> map sf_data_type (tp_schema t) = [Utf8Type, TimestampMicros, UInt64Type]"
    using law len unfolding batch types by (auto split: if_splits)
  show "\<exists>e. records_to_batch arrow t records = Inl (ArrowFailed e)"
    if "map sf_data_type (tp_schema t) \<noteq> [Utf8Type, TimestampMicros, UInt64Type]"
    using law len that unfolding batch types by (auto split: if_splits)
qed

text \<open>When Arrow keeps its documented laws, records become a batch exactly for the schema that
  \<open>register_table\<close> sets up: one row per record, in order, with the data as text (ill-formed UTF-8
  replaced), the timestamp, and the row's number as its id. For every other schema, such as any
  made with the typed methods of \<open>TableBuilder\<close>, the conversion is an Arrow error.\<close>

lemma record_batches:
  assumes "arrow_laws arrow columns" "records \<noteq> []"
  shows "if map sf_data_type (tp_schema t) = [Utf8Type, TimestampMicros, UInt64Type]
    then \<exists>b. records_to_batch arrow t records = Inr b \<and> columns b =
      [StringArray (map (\<lambda>r. utf8_lossy (rec_data r)) records), TimestampArray (map rec_timestamp records),
       UInt64Array (map of_nat [0..<length records])]
    else \<exists>e. records_to_batch arrow t records = Inl (ArrowFailed e)"
  using batch_columns_iff [OF assms, of t] by presburger

definition demo_arrow :: "(arrow_column list, arrow_column list list list) arrow_api" where
  "demo_arrow = \<lparr>ar_new_empty = (\<lambda>_. []),
     ar_try_new = (\<lambda>schema cols. if map column_type cols = map sf_data_type schema
         \<and> (case cols of [] \<Rightarrow> True | c # _ \<Rightarrow> list_all (\<lambda>d. column_length d = column_length c) cols)
       then Inr cols else Inl ''mismatch''),
     ar_memory_exec = (\<lambda>batches _ _. Inr batches), ar_external = (\<lambda>_. ''external'')\<rparr>"

lemma demo_arrow_laws: "arrow_laws demo_arrow (\<lambda>cols. cols)"
proof -
  have "(\<exists>n. \<forall>c \<in> set cols. column_length c = n)
      = (case cols of [] \<Rightarrow> True | c # _ \<Rightarrow> list_all (\<lambda>d. column_length d = column_length c) cols)" for cols
    by (cases cols) (auto simp: list_all_iff)
  then show ?thesis by (simp add: arrow_laws_def demo_arrow_def)
qed

lemma record_batches_example:
  "\<exists>t b. provider_new demo_manager ''body'' ''at'' = Inr t
    \<and> records_to_batch demo_arrow t [demo_record, demo_record] = Inr b
    \<and> b = [StringArray [[1, 2], [1, 2]], TimestampArray [7, 7], UInt64Array [0, 1]]"
proof -
  let ?t = "\<lparr>tp_storage = demo_manager, tp_schema = [\<lparr>sf_name = ''body'', sf_data_type = Utf8Type, sf_nullable = False\<rparr>,
      \<lparr>sf_name = ''at'', sf_data_type = TimestampMicros, sf_nullable = False\<rparr>,
      \<lparr>sf_name = ''record_id'', sf_data_type = UInt64Type, sf_nullable = False\<rparr>],
    tp_data_field = ''body'', tp_timestamp_field = ''at''\<rparr>"
  have new: "provider_new demo_manager ''body'' ''at'' = Inr ?t" by (simp add: provider_new_def)
  have "utf8_lossy [1, 2] = [1, 2]" by (rule utf8_lossy_id, rule ascii_valid) simp
  then show ?thesis
    using record_batches [OF demo_arrow_laws, of "[demo_record, demo_record]" ?t] new
    by (simp add: demo_record_def upt_rec)
qed

section \<open>Queries\<close>

lemma scan_empty:
  "provider_scan arrow t
    = (\<lambda>projection. ar_memory_exec arrow [[ar_new_empty arrow (tp_schema t)]] (tp_schema t) projection)"
  by (simp add: provider_scan_def records_to_batch_def fun_eq_iff)

definition empty_table :: "('b, 'p) arrow_api \<Rightarrow> schema \<Rightarrow> 'p table_object" where
  "empty_table arrow schema = \<lparr>to_schema = schema, to_base_table = True,
     to_scan = (\<lambda>projection. ar_memory_exec arrow [[ar_new_empty arrow schema]] schema projection)\<rparr>"

lemma table_object_empty: "table_object_of arrow t = empty_table arrow (tp_schema t)"
  by (simp add: table_object_of_def empty_table_def scan_empty)

lemma register_and_query:
  "map_sum (\<lambda>e. e) (\<lambda>l. sql_query session l sql)
      (register_table session arrow name data_field timestamp_field \<lparr>dl_ctx = ctx, dl_storage = s\<rparr>)
    = map_sum DataFusionFailed (\<lambda>c. sql_query session \<lparr>dl_ctx = c, dl_storage = storage\<rparr> sql)
      (se_register_table session name (empty_table arrow
        [\<lparr>sf_name = data_field, sf_data_type = Utf8Type, sf_nullable = False\<rparr>,
         \<lparr>sf_name = timestamp_field, sf_data_type = TimestampMicros, sf_nullable = False\<rparr>,
         \<lparr>sf_name = ''record_id'', sf_data_type = UInt64Type, sf_nullable = False\<rparr>]) ctx)"
  (is "_ = map_sum _ _ ?r")
  by (cases ?r) (simp_all add: register_table_def provider_new_def table_object_empty sql_query_def)

text \<open>A registered table is always empty: a scan is the plan over one empty batch, whatever records
  the storage holds, so that the answer to a query on a layer does not depend on its storage.\<close>

lemma tables_ignore_storage:
  "provider_scan arrow t projection
      = ar_memory_exec arrow [[ar_new_empty arrow (tp_schema t)]] (tp_schema t) projection
    \<and> map_sum (\<lambda>e. e) (\<lambda>l. sql_query session l sql)
        (register_table session arrow name data_field timestamp_field \<lparr>dl_ctx = ctx, dl_storage = storage\<rparr>)
      = map_sum (\<lambda>e. e) (\<lambda>l. sql_query session l sql)
        (register_table session arrow name data_field timestamp_field \<lparr>dl_ctx = ctx, dl_storage = storage'\<rparr>)"
  by (simp add: scan_empty register_and_query [of session sql arrow name data_field timestamp_field ctx _ storage])

section \<open>Built tables\<close>

lemma built_fields:
  "builder_build (foldl (\<lambda>b (name, ty, nullable). add_field name ty nullable b) (builder_new storage name) fs)
    = (if fs = [] then Inl (InvalidSchema ''Schema must have at least one field'')
       else Inr \<lparr>tp_storage = storage,
         tp_schema = map (\<lambda>(name, ty, nullable). \<lparr>sf_name = name, sf_data_type = ty, sf_nullable = nullable\<rparr>) fs,
         tp_data_field = fst (hd fs),
         tp_timestamp_field = (if length fs = 1 then ''timestamp'' else fst (fs ! 1))\<rparr>)"
proof -
  have "foldl (\<lambda>b (name, ty, nullable). add_field name ty nullable b) b fs = b\<lparr>tb_schema_fields :=
      tb_schema_fields b @ map (\<lambda>(name, ty, nullable). \<lparr>sf_name = name, sf_data_type = ty, sf_nullable = nullable\<rparr>) fs\<rparr>"
    for b by (induction fs arbitrary: b) (auto simp: add_field_def)
  then show ?thesis
    by (cases fs; cases "tl fs") (auto simp: builder_build_def builder_new_def split: prod.splits)
qed

end
