(* ===== verification/Utilities.thy ===== *)
theory Utilities
  imports Dolda_Prelude
begin

text \<open>
  The helpers of \<open>src/utils.rs\<close>. Paths are those of Unix, as \<open>std::path\<close> splits them: repeated
  separators and \<open>.\<close> components are skipped, except a \<open>.\<close> at the start. The readings of the clock
  and of \<open>sysinfo\<close>, the checksum and the libraries \<open>bincode\<close> and \<open>toml\<close> are arguments. Texts are ASCII.
  (The file is in the repository, but \<open>src/lib.rs\<close> does not declare its module.)
\<close>

section \<open>Components of a path\<close>

text \<open>The text after the last separator, and what comes before it with the separator.\<close>

definition after_sep :: "string \<Rightarrow> string" where
  "after_sep s = rev (takeWhile (\<lambda>c. c \<noteq> CHR ''/'') (rev s))"

definition upto_sep :: "string \<Rightarrow> string" where
  "upto_sep s = rev (dropWhile (\<lambda>c. c \<noteq> CHR ''/'') (rev s))"

lemma sep_split: "upto_sep s @ after_sep s = s"
  unfolding after_sep_def upto_sep_def by (metis rev_append rev_rev_ident takeWhile_dropWhile_id)

text \<open>\<open>trim_right\<close>: drop empty and \<open>.\<close> components from the back of the body of a path.\<close>

function trim_right :: "string \<Rightarrow> string" where
  "trim_right body =
     (if body \<noteq> [] \<and> (after_sep body = [] \<or> after_sep body = ''.'') then trim_right (butlast (upto_sep body))
      else body)"
  by pat_completeness auto
termination
proof (relation "measure length")
  fix body :: string
  assume "body \<noteq> [] \<and> (after_sep body = [] \<or> after_sep body = ''.'')"
  then have "length body \<noteq> 0" by simp
  moreover have "length (upto_sep body) + length (after_sep body) = length body"
    using arg_cong [OF sep_split [of body], of length] by simp
  ultimately have "length (upto_sep body) - 1 < length body" by linarith
  then show "(butlast (upto_sep body), body) \<in> measure length" by simp
qed simp

declare trim_right.simps [simp del]

datatype path_component = RootDir | CurDir | ParentDir | Normal string

text \<open>How much of the path comes before its body: the root, or a leading \<open>.\<close>.\<close>

definition path_lead :: "string \<Rightarrow> string" where
  "path_lead path =
     (if take 1 path = ''/'' then ''/''
      else if path = ''.'' \<or> take 2 path = ''./'' then ''.'' else [])"

text \<open>The last component, and the path of the components before it.\<close>

definition split_path :: "string \<Rightarrow> (path_component \<times> string) option" where
  "split_path path =
     (let lead = path_lead path; body = trim_right (drop (length lead) path)
      in if body \<noteq> []
         then Some (if after_sep body = ''..'' then ParentDir else Normal (after_sep body),
                    lead @ trim_right (butlast (upto_sep body)))
         else if lead = ''/'' then Some (RootDir, [])
         else if lead = ''.'' then Some (CurDir, [])
         else None)"

section \<open>Path utilities\<close>

definition is_absolute :: "string \<Rightarrow> bool" where
  "is_absolute path \<longleftrightarrow> take 1 path = ''/''"

definition normalize_path :: "string \<Rightarrow> string" where
  "normalize_path path = path"

definition join_paths :: "string \<Rightarrow> string \<Rightarrow> string" where
  "join_paths base relative =
     (if is_absolute relative then relative
      else if base \<noteq> [] \<and> last base \<noteq> CHR ''/'' then base @ ''/'' @ relative
      else base @ relative)"

definition get_parent :: "string \<Rightarrow> string option" where
  "get_parent path =
     (case split_path path of
        None \<Rightarrow> None
      | Some (RootDir, _) \<Rightarrow> None
      | Some (_, parent) \<Rightarrow> Some parent)"

definition get_basename :: "string \<Rightarrow> string" where
  "get_basename path = (case split_path path of Some (Normal name, _) \<Rightarrow> name | _ \<Rightarrow> path)"

definition is_directory :: "string \<Rightarrow> bool" where
  "is_directory path \<longleftrightarrow> path \<noteq> [] \<and> last path = CHR ''/''"

section \<open>Hashes\<close>

definition crc32_hash :: "(bytes \<Rightarrow> u32) \<Rightarrow> bytes \<Rightarrow> u32" where
  "crc32_hash crc data = crc data"

definition string_hash :: "(bytes \<Rightarrow> u32) \<Rightarrow> string \<Rightarrow> u64" where
  "string_hash crc s = ucast (crc32_hash crc (map of_char s))"

definition int_hash :: "(bytes \<Rightarrow> u32) \<Rightarrow> 64 word \<Rightarrow> u64" where
  "int_hash crc i = ucast (crc32_hash crc (be_bytes 8 i))"

definition timestamp_hash :: "(bytes \<Rightarrow> u32) \<Rightarrow> u64 \<Rightarrow> u64" where
  "timestamp_hash crc ts = ucast (crc32_hash crc (be_bytes 8 ts))"

section \<open>Time\<close>

text \<open>The system clock, as nanoseconds since the epoch, or \<open>None\<close> for a time before it.\<close>

definition current_timestamp_ms :: "nat option \<Rightarrow> u64" where
  "current_timestamp_ms clock = of_nat ((case clock of None \<Rightarrow> 0 | Some ns \<Rightarrow> ns) div 1000000)"

definition current_timestamp_s :: "nat option \<Rightarrow> u64" where
  "current_timestamp_s clock = of_nat ((case clock of None \<Rightarrow> 0 | Some ns \<Rightarrow> ns) div 1000000000)"

definition is_older_than :: "nat option \<Rightarrow> u64 \<Rightarrow> u64 \<Rightarrow> bool" where
  "is_older_than clock timestamp age_ms \<longleftrightarrow>
     age_ms < saturating_sub (current_timestamp_ms clock) timestamp"

section \<open>Resources\<close>

record system_reading =
  sr_total_memory :: u64
  sr_used_memory :: u64
  sr_available_memory :: u64
  sr_name :: "string option"
  sr_kernel_version :: "string option"

definition get_memory_info :: "system_reading \<Rightarrow> u64 \<times> u64 \<times> u64" where
  "get_memory_info s = (sr_total_memory s * 1024, sr_used_memory s * 1024, sr_available_memory s * 1024)"

definition get_system_info :: "string \<Rightarrow> system_reading \<Rightarrow> string \<times> string \<times> string" where
  "get_system_info arch s =
     (case sr_name s of None \<Rightarrow> ''Unknown'' | Some name \<Rightarrow> name,
      case sr_kernel_version s of None \<Rightarrow> ''Unknown'' | Some version \<Rightarrow> version, arch)"

section \<open>Serialization and configuration\<close>

definition util_serialize :: "('a \<Rightarrow> 'e + bytes) \<Rightarrow> 'a \<Rightarrow> 'e + bytes" where
  "util_serialize bincode data = map_err (\<lambda>e. e) (bincode data)"

definition util_deserialize :: "(bytes \<Rightarrow> 'e + 'a) \<Rightarrow> bytes \<Rightarrow> 'e + 'a" where
  "util_deserialize bincode_read data = map_err (\<lambda>e. e) (bincode_read data)"

definition util_serialized_size :: "('a \<Rightarrow> 'e + bytes) \<Rightarrow> 'a \<Rightarrow> 'e + nat" where
  "util_serialized_size bincode data = map_sum (\<lambda>e. e) length (util_serialize bincode data)"

text \<open>Files are a map from paths to contents; reading a file that is not there is an error.\<close>

datatype config_error = FileMissing string | TomlFailed string

definition load_config :: "(string \<Rightarrow> string + 'a) \<Rightarrow> (string \<rightharpoonup> string) \<Rightarrow> string \<Rightarrow> config_error + 'a" where
  "load_config from_toml fs path =
     (case fs path of None \<Rightarrow> Inl (FileMissing path)
      | Some contents \<Rightarrow> map_err TomlFailed (from_toml contents))"

definition save_config :: "('a \<Rightarrow> string + string) \<Rightarrow> 'a \<Rightarrow> string \<Rightarrow> (string \<rightharpoonup> string)
    \<Rightarrow> (config_error + unit) \<times> (string \<rightharpoonup> string)" where
  "save_config to_toml config path fs =
     (case map_err TomlFailed (to_toml config) of
        Inl e \<Rightarrow> (Inl e, fs)
      | Inr contents \<Rightarrow> (Inr (), fs(path \<mapsto> contents)))"

section \<open>Validation\<close>

definition is_valid_port :: "u16 \<Rightarrow> bool" where
  "is_valid_port port \<longleftrightarrow> port > 0 \<and> port < 65535"

definition is_valid_path :: "string \<Rightarrow> bool" where
  "is_valid_path path \<longleftrightarrow> path \<noteq> [] \<and> \<not> contains_str ''..'' path \<and> \<not> contains_str [CHR 0x00] path
     \<and> length path \<le> 4096"

definition ascii_alphanumeric :: "char \<Rightarrow> bool" where
  "ascii_alphanumeric c \<longleftrightarrow>
     (let n = of_char c :: nat in (48 \<le> n \<and> n \<le> 57) \<or> (65 \<le> n \<and> n \<le> 90) \<or> (97 \<le> n \<and> n \<le> 122))"

definition is_valid_node_name :: "string \<Rightarrow> bool" where
  "is_valid_node_name name \<longleftrightarrow> name \<noteq> [] \<and> length name \<le> 64
     \<and> list_all (\<lambda>c. ascii_alphanumeric c \<or> c = CHR ''-'' \<or> c = CHR ''_'') name"

section \<open>Joining and splitting\<close>

lemma after_sep_append:
  assumes "CHR ''/'' \<notin> set name"
  shows "after_sep (s @ ''/'' @ name) = name" "upto_sep (s @ ''/'' @ name) = s @ ''/''"
    "after_sep name = name" "upto_sep name = []"
proof -
  have all: "c \<noteq> CHR ''/''" if "c \<in> set (rev name)" for c using that assms by auto
  have tw: "takeWhile (\<lambda>c. c \<noteq> CHR ''/'') (rev name @ ys) = rev name @ takeWhile (\<lambda>c. c \<noteq> CHR ''/'') ys"
    and dw: "dropWhile (\<lambda>c. c \<noteq> CHR ''/'') (rev name @ ys) = dropWhile (\<lambda>c. c \<noteq> CHR ''/'') ys" for ys
    by (rule takeWhile_append2, erule all, rule dropWhile_append2, erule all)
  show "after_sep (s @ ''/'' @ name) = name" "upto_sep (s @ ''/'' @ name) = s @ ''/''"
    by (simp_all add: after_sep_def upto_sep_def tw dw)
  show "after_sep name = name" "upto_sep name = []"
    unfolding after_sep_def upto_sep_def using tw [of "[]"] dw [of "[]"]
    by (simp_all only: append_Nil2 takeWhile.simps dropWhile.simps rev_rev_ident rev.simps)
qed

lemma trim_right_simps:
  "trim_right [] = []"
  "body \<noteq> [] \<Longrightarrow> after_sep body = [] \<Longrightarrow> trim_right body = trim_right (butlast (upto_sep body))"
  "after_sep body \<noteq> [] \<Longrightarrow> after_sep body \<noteq> ''.'' \<Longrightarrow> trim_right body = body"
  by (subst trim_right.simps, simp)+

lemma trim_right_sep: "trim_right (s @ ''/'') = trim_right s"
  using trim_right_simps(2) [of "s @ ''/''"] after_sep_append(1,2) [of "[]" s] by simp

text \<open>A path without the empty and \<open>.\<close> components at its end.\<close>

definition trim_path :: "string \<Rightarrow> string" where
  "trim_path path = path_lead path @ trim_right (drop (length (path_lead path)) path)"

definition plain_name :: "string \<Rightarrow> bool" where
  "plain_name name \<longleftrightarrow> name \<noteq> [] \<and> CHR ''/'' \<notin> set name \<and> name \<noteq> ''.'' \<and> name \<noteq> ''..''"

lemma plain_not_absolute: "plain_name name \<Longrightarrow> \<not> is_absolute name"
  by (cases name) (auto simp: plain_name_def is_absolute_def)

lemma path_lead_append: "base \<noteq> [] \<Longrightarrow> base \<noteq> ''.'' \<Longrightarrow> path_lead (base @ s) = path_lead base"
  by (cases base; cases "tl base") (auto simp: path_lead_def)

lemma path_lead_join: "base \<noteq> [] \<Longrightarrow> path_lead (base @ ''/'' @ s) = path_lead base"
  by (cases "base = ''.''") (auto simp: path_lead_append, simp add: path_lead_def)

lemma path_lead_prefix: "\<exists>b. path = path_lead path @ b"
  by (cases path; cases "tl path") (auto simp: path_lead_def)

lemma split_joined:
  assumes "plain_name name" "path_lead path = lead" "path = lead @ b @ ''/'' @ name \<or> (path = lead @ name \<and> b = [])"
  shows "split_path path = Some (Normal name, lead @ trim_right b)"
proof -
  have name: "CHR ''/'' \<notin> set name" "name \<noteq> []" "name \<noteq> ''.''" "name \<noteq> ''..''"
    using assms(1) by (simp_all add: plain_name_def)
  let ?body = "drop (length lead) path"
  have "after_sep ?body = name \<and> trim_right (butlast (upto_sep ?body)) = trim_right b"
    using assms(3)
  proof
    assume "path = lead @ b @ ''/'' @ name"
    then show ?thesis using after_sep_append(1,2) [OF name(1), of b] by simp
  next
    assume "path = lead @ name \<and> b = []"
    then show ?thesis using after_sep_append(3,4) [OF name(1)] by simp
  qed
  moreover from this have "trim_right ?body = ?body" using name by (intro trim_right_simps(3)) simp_all
  moreover have "?body \<noteq> []" using assms(3) name(2) by auto
  ultimately show ?thesis using assms(2) name by (simp add: split_path_def Let_def)
qed

lemma split_join:
  assumes "plain_name name" "base \<noteq> []"
  shows "split_path (join_paths base name) = Some (Normal name, trim_path base)"
proof -
  obtain b where b: "base = path_lead base @ b" using path_lead_prefix [of base] by blast
  have rest: "drop (length (path_lead base)) base = b" using arg_cong [OF b, of "drop (length (path_lead base))"] by simp
  show ?thesis
  proof (cases "last base = CHR ''/''")
    case False
    then have "join_paths base name = base @ ''/'' @ name"
      using assms plain_not_absolute [OF assms(1)] by (simp add: join_paths_def)
    then show ?thesis
      using split_joined [OF assms(1) path_lead_join [OF assms(2), of name], of b] b rest
      by (metis append_assoc trim_path_def)
  next
    case True
    then have join: "join_paths base name = base @ name" and "base \<noteq> ''.''"
      using assms plain_not_absolute [OF assms(1)] by (auto simp: join_paths_def)
    then have lead: "path_lead (base @ name) = path_lead base" using assms(2) by (simp add: path_lead_append)
    show ?thesis
    proof (cases "b = []")
      case True
      then show ?thesis using split_joined [OF assms(1) lead, of "[]"] b rest join
        by (simp add: trim_path_def)
    next
      case False
      then have "last b = CHR ''/''" using True b by (metis last_append)
      then obtain s where s: "b = s @ ''/''" using False by (metis append_butlast_last_id)
      then have "base @ name = path_lead base @ s @ ''/'' @ name" using b by (metis append_assoc)
      then show ?thesis
        using split_joined [OF assms(1) lead, of s] rest s join by (simp add: trim_path_def trim_right_sep)
    qed
  qed
qed

text \<open>C40: Joining a plain file name to a directory is undone by splitting: the base name of the result is
  the name, and the parent is the directory, less any separators and \<open>.\<close> components at its end.\<close>

theorem join_splits:
  assumes "plain_name name" "base \<noteq> []"
  shows "get_basename (join_paths base name) = name
    \<and> get_parent (join_paths base name) = Some (trim_path base)"
  using split_join [OF assms] by (simp_all add: get_basename_def get_parent_def)

theorem join_splits_witness:
  "get_basename (join_paths ''/data//'' ''a.txt'') = ''a.txt''
    \<and> get_parent (join_paths ''/data//'' ''a.txt'') = Some ''/data''"
proof -
  have "plain_name ''a.txt''" by (simp add: plain_name_def)
  moreover have "trim_path ''/data//'' = ''/data''"
    by (simp add: trim_path_def path_lead_def trim_right.simps after_sep_def upto_sep_def)
  ultimately show ?thesis using join_splits [of "''a.txt''" "''/data//''"] by simp
qed

section \<open>Validation of joined paths\<close>

text \<open>Joining two valid paths whose lengths leave room gives a valid path. But validity does not keep a
  path inside a base directory: an absolute path can be valid, and joining it discards the base.\<close>

lemma valid_paths_join:
  assumes "is_valid_path base" "is_valid_path relative" "length base + 1 + length relative \<le> 4096"
  shows "is_valid_path (join_paths base relative)
    \<and> (is_absolute relative \<longrightarrow> join_paths base relative = relative)"
proof -
  have parts: "\<not> contains_str ''..'' base" "\<not> contains_str ''..'' relative"
      "CHR 0x00 \<notin> set base" "CHR 0x00 \<notin> set relative" "base \<noteq> []"
    using assms(1,2) by (simp_all add: is_valid_path_def contains_char_iff)
  have "\<not> contains_str ''..'' (base @ relative)" if "last base = CHR ''/''"
  proof -
    have base: "base = butlast base @ ''/''" using that parts(5) by (metis append_butlast_last_id)
    have "contains_str ''..'' (butlast base @ CHR ''/'' # [])
        = (contains_str ''..'' (butlast base) \<or> contains_str ''..'' [])" by (rule two_dots_sep)
    then have "\<not> contains_str ''..'' (butlast base)" using parts(1) base by simp
    then have "\<not> contains_str ''..'' (butlast base @ CHR ''/'' # relative)"
      using parts(2) by (simp only: two_dots_sep simp_thms)
    then show ?thesis using base by (metis append.assoc append_Cons append_Nil)
  qed
  then show ?thesis
    using assms parts two_dots_sep [of base relative]
    by (auto simp: join_paths_def is_valid_path_def contains_char_iff)
qed

lemma valid_paths_join_example:
  "is_valid_path (join_paths ''/srv/data'' ''/etc/passwd'')
    \<and> join_paths ''/srv/data'' ''/etc/passwd'' = ''/etc/passwd''"
proof -
  have "is_valid_path ''/srv/data''" "is_valid_path ''/etc/passwd''"
    and "length ''/srv/data'' + 1 + length ''/etc/passwd'' \<le> 4096"
    by (simp_all add: is_valid_path_def contains_str_def)
  moreover have "is_absolute ''/etc/passwd''" by (simp add: is_absolute_def)
  ultimately show ?thesis using valid_paths_join by blast
qed

section \<open>Configuration files and times\<close>

lemma save_load_config:
  assumes "to_toml config = Inr contents" "from_toml contents = Inr config"
  shows "\<exists>fs'. save_config to_toml config path fs = (Inr (), fs') \<and> load_config from_toml fs' path = Inr config"
  using assms by (simp add: save_config_def load_config_def)

text \<open>A timestamp in the future counts as new, whatever the age asked for.\<close>

lemma future_not_older: "current_timestamp_ms clock \<le> timestamp \<Longrightarrow> \<not> is_older_than clock timestamp age_ms"
  by (simp add: is_older_than_def saturating_sub_def)

text \<open>The highest port is refused, although it can be used; a \<open>..\<close> inside a name is taken for a
  traversal.\<close>

lemma validation_corner_cases:
  "\<not> is_valid_port 65535" "\<not> is_valid_path ''notes..txt''" "normalize_path ''/a/../b'' = ''/a/../b''"
  by (simp_all add: is_valid_port_def is_valid_path_def contains_str_def normalize_path_def)

end
