(* ===== verification/Processor_Examples.thy ===== *)
theory Processor_Examples
  imports Mailbox_Processor Utf8
begin

text \<open>
  The processors of \<open>examples/mailbox_processor_example.rs\<close>: one that counts messages, one that
  writes them in capitals, one that routes them by their text, and the filter that \<open>main\<close> registers
  on the mailbox it writes to. Bodies are read as text with \<open>utf8_lossy\<close>; \<open>str::to_uppercase\<close> and
  \<open>char::is_numeric\<close>, which depend on the tables of Unicode, are arguments.
\<close>

section \<open>Processors\<close>

text \<open>The counter is shared state of the processor: it is passed along with the mailbox system.\<close>

definition summary_text :: "u64 \<Rightarrow> bytes" where
  "summary_text count = string_bytes (''Processed '' @ nat_string (unat count) @ '' messages'')"

definition statistics_process :: "processor_world \<Rightarrow> 'df processor_context \<Rightarrow> mailbox_message \<Rightarrow> u64
    \<Rightarrow> mailbox_system \<Rightarrow> ((processor_error + unit) \<times> u64 \<times> mailbox_system) option" where
  "statistics_process world ctx msg count sys =
     (let count1 = count + 1
      in if count1 mod 5 = 0
         then map_option (\<lambda>(res, sys'). (res, count1, sys'))
           (ctx_send_to (pw_out world) (pw_stamps world 0) ''summary@dolda'' (summary_text count1) ctx sys)
         else Some (Inr (), count1, sys))"

definition uppercase_processor :: "(bytes \<Rightarrow> bytes) \<Rightarrow> string \<Rightarrow> 'df mailbox_processor" where
  "uppercase_processor to_uppercase output = plain_processor (\<lambda>world ctx msg sys.
     ctx_send_to (pw_out world) (pw_stamps world 0) output (to_uppercase (utf8_lossy (mm_body msg))) ctx sys)"

definition route_of :: "bytes \<Rightarrow> string" where
  "route_of body =
     (let txt = utf8_lossy body
      in if contains_str (string_bytes ''urgent'') txt then ''urgent@dolda''
         else if contains_str (string_bytes ''info'') txt then ''info@dolda''
         else ''general@dolda'')"

definition router_processor :: "'df mailbox_processor" where
  "router_processor = plain_processor (\<lambda>world ctx msg sys.
     ctx_send_to (pw_out world) (pw_stamps world 0) (route_of (mm_body msg)) (mm_body msg) ctx sys)"

definition numbers_filter :: "(bytes \<Rightarrow> bool) \<Rightarrow> 'df mailbox_processor" where
  "numbers_filter all_numeric =
     filter_processor (\<lambda>msg. all_numeric (utf8_lossy (mm_body msg))) ''filtered@dolda''"

section \<open>Counting\<close>

text \<open>A summary is sent for every fifth message: \<open>run_statistics\<close> feeds messages one after the other.\<close>

fun run_statistics :: "(nat \<Rightarrow> processor_world) \<Rightarrow> nat \<Rightarrow> 'df processor_context \<Rightarrow> mailbox_message list \<Rightarrow> u64
    \<Rightarrow> mailbox_system \<Rightarrow> ((processor_error + unit) list \<times> u64 \<times> mailbox_system) option" where
  "run_statistics worlds i ctx [] count sys = Some ([], count, sys)"
| "run_statistics worlds i ctx (msg # msgs) count sys =
     (case statistics_process (worlds i) ctx msg count sys of
        None \<Rightarrow> None
      | Some (res, count1, sys1) \<Rightarrow>
          map_option (\<lambda>(results, count2, sys2). (res # results, count2, sys2))
            (run_statistics worlds (i + 1) ctx msgs count1 sys1))"

section \<open>The router delivers\<close>

text \<open>C14: The router passes on each message unchanged: when its mailbox has exactly one pending message, a
  tick takes it, and the next message received at the mailbox chosen by its text has its body and
  comes from the router. The mailbox is the urgent one if the text contains \<open>urgent\<close>, else the
  one for information if it contains \<open>info\<close>, else the general one. No other mailbox changes. (The
  mailbox exists, everything sent to it was received, and all of it fits its first segment of
  64 MiB; of two pending messages one would be lost.)\<close>

theorem router_delivers:
  assumes "map_of m addr = Some entry" "pe_processor entry = router_processor"
    and "one_pending (pw_out world) sys addr entry received b msg"
    and target: "txt = utf8_lossy (mm_body msg)" "target = (if contains_str (string_bytes ''urgent'') txt then ''urgent@dolda''
        else if contains_str (string_bytes ''info'') txt then ''info@dolda'' else ''general@dolda'')"
    and "mailbox_holds (pw_out world) sys target recs" "os_willing (out_os (pw_out world))"
    and "answer = mailbox_message_new (pw_stamps world 0) addr target (mm_body msg)"
      "to_json (out_json (pw_out world)) answer = Inr b'" "b' \<noteq> []" "from_json (out_json (pw_out world)) b' = Inr answer"
    and "length (concat recs) + length b' \<le> 64 * 1024 * 1024" "length recs + 1 < 2 ^ 64"
    and "mb_address rcv = target" "unat (mb_read_offset rcv) = length recs"
  shows "\<exists>sys'. processor_tick world addr m sys = Some (hash_insert addr (taken_entry entry) m, sys')
    \<and> fst (receive (pw_out world) sys' rcv) = Inr (Some answer)
    \<and> (\<forall>a. a \<noteq> target \<longrightarrow> map_of (mx_mailboxes sys') a = map_of (mx_mailboxes sys) a)"
proof -
  have route: "route_of (mm_body msg) = target" "target \<noteq> []" by (simp_all add: route_of_def target Let_def)
  then have proc: "pr_process (pe_processor entry) world (pe_context entry) msg sys
      = ctx_send_to (pw_out world) (pw_stamps world 0) target (mm_body msg) (pe_context entry) sys"
    by (simp add: assms(2) router_processor_def plain_processor_def)
  from forward_tick [OF assms(1,3) proc assms(6) route(2) assms(7) assms(9) [unfolded assms(8)] assms(12,13)] obtain sys' where
    "processor_tick world addr m sys = Some (hash_insert addr (taken_entry entry) m, sys')"
    "mailbox_holds (pw_out world) sys' target (recs @ [b'])"
    "\<forall>a. a \<noteq> target \<longrightarrow> map_of (mx_mailboxes sys') a = map_of (mx_mailboxes sys) a" by blast
  then show ?thesis
    using receive_last [of "pw_out world" sys' rcv recs b' answer] assms(10,11,14,15) by simp
qed

section \<open>A filter that feeds itself\<close>

fun run_ticks :: "(nat \<Rightarrow> processor_world) \<Rightarrow> nat \<Rightarrow> nat \<Rightarrow> mailbox_address \<Rightarrow> 'df processor_manager \<Rightarrow> mailbox_system
    \<Rightarrow> ('df processor_manager \<times> mailbox_system) option" where
  "run_ticks worlds i 0 addr m sys = Some (m, sys)"
| "run_ticks worlds i (Suc n) addr m sys =
     (case processor_tick (worlds i) addr m sys of
        None \<Rightarrow> None
      | Some (m', sys') \<Rightarrow> run_ticks worlds (i + 1) n addr m' sys')"

text \<open>The JSON library writes and reads back the messages that the filter sends to \<open>addr\<close> at the ticks, in
  at most \<open>len\<close> bytes each.\<close>

definition json_carries :: "json_codec \<Rightarrow> (nat \<Rightarrow> processor_world) \<Rightarrow> mailbox_address \<Rightarrow> bytes \<Rightarrow> nat \<Rightarrow> bool" where
  "json_carries json worlds addr body len \<longleftrightarrow>
     (\<forall>k. let m = mailbox_message_new (pw_stamps (worlds k) 0) addr addr body
        in \<exists>b. to_json json m = Inr b \<and> b \<noteq> [] \<and> length b \<le> len \<and> from_json json b = Inr m)"

lemma taken_pending:
  assumes "one_pending out sys addr entry received b msg" "mailbox_holds out sys' addr ((received @ [b]) @ [b'])"
    and "b' \<noteq> []" "from_json (out_json out) b' = Inr msg'" "length received + 1 < 2 ^ 64"
  shows "one_pending out sys' addr (taken_entry entry) (received @ [b]) b' msg'"
proof -
  have "unat (mb_read_offset (pe_mailbox entry) + 1) = length received + 1"
    using assms(1,5) unat_Suc64 [of "mb_read_offset (pe_mailbox entry)"] by (simp add: one_pending_def)
  with assms show ?thesis by (simp add: one_pending_def taken_entry_def)
qed

lemma filter_keeps_feeding:
  assumes "map_of m addr = Some entry" "pe_processor entry = filter_processor accepts addr"
    and "one_pending out sys addr entry received b msg" "mm_body msg = body"
    and "\<forall>x. mm_body x = body \<longrightarrow> accepts x" "json_carries (out_json out) worlds addr body len" "os_willing (out_os out)"
    and "\<forall>k. pw_out (worlds k) = out"
    and "length (concat (received @ [b])) + n * len \<le> 64 * 1024 * 1024" "length received + 1 + n < 2 ^ 64"
  shows "\<exists>m' sys' entry' received' b' msg'. run_ticks worlds i n addr m sys = Some (m', sys')
    \<and> map_of m' addr = Some entry' \<and> one_pending out sys' addr entry' received' b' msg'
    \<and> length received' = length received + n \<and> mm_body msg' = body"
  using assms(1-4,9,10)
proof (induction n arbitrary: i m entry sys received b msg)
  case 0
  then show ?case by fastforce
next
  case (Suc n)
  let ?w = "worlds i" and ?answer = "mailbox_message_new (pw_stamps (worlds i) 0) addr addr body"
  have out: "pw_out ?w = out" using assms(8) by simp
  have body: "mm_body ?answer = body" by (simp add: mailbox_message_new_def)
  obtain b' where b': "to_json (out_json out) ?answer = Inr b'" "b' \<noteq> []" "length b' \<le> len"
    "from_json (out_json out) b' = Inr ?answer" using assms(6) by (auto simp: json_carries_def Let_def)
  have here: "addr \<noteq> []" "mailbox_holds out sys addr (received @ [b])"
    using Suc.prems(3) by (simp_all add: one_pending_def)
  have proc: "pr_process (pe_processor entry) ?w (pe_context entry) msg sys
      = ctx_send_to (pw_out ?w) (pw_stamps ?w 0) addr body (pe_context entry) sys"
    using Suc.prems(2,4) assms(5) by (simp add: filter_processor_def plain_processor_def)
  have room: "length (concat (received @ [b])) + length b' \<le> 64 * 1024 * 1024" "length (received @ [b]) + 1 < 2 ^ 64"
    using Suc.prems(5,6) b'(3) by simp_all
  obtain sys1 where tick: "processor_tick ?w addr m sys = Some (hash_insert addr (taken_entry entry) m, sys1)"
    and holds: "mailbox_holds out sys1 addr ((received @ [b]) @ [b'])"
    using forward_tick [of m addr entry ?w sys received b msg _ addr body "received @ [b]" b', OF Suc.prems(1) _ proc]
      Suc.prems(3) here b'(1) assms(7) room by (auto simp: out)
  have pending: "one_pending out sys1 addr (taken_entry entry) (received @ [b]) b' ?answer"
    using taken_pending [OF Suc.prems(3) holds b'(2,4)] room(2) by simp
  have "map_of (hash_insert addr (taken_entry entry) m) addr = Some (taken_entry entry)"
    "pe_processor (taken_entry entry) = filter_processor accepts addr"
    using Suc.prems(2) by (simp_all add: taken_entry_def)
  from Suc.IH [OF this pending body, of "i + 1"] Suc.prems(5,6) b'(3)
  show ?case by (simp add: tick)
qed

text \<open>C15: The filter of the example, which writes to the mailbox it polls, keeps feeding itself once its
  mailbox has exactly one pending message and accepts it: each tick takes the message and sends it
  to itself again. After any number of ticks whose messages fit the mailbox's first segment
  (64 MiB in all), a message with the same body is still pending, and the mailbox has grown by one
  message per tick. Nothing is said of ticks after that.\<close>

theorem filter_feeds_itself:
  assumes "map_of m ''filtered@dolda'' = Some entry" "pe_processor entry = numbers_filter all_numeric"
    and "one_pending out sys ''filtered@dolda'' entry received b msg" "all_numeric (utf8_lossy (mm_body msg))"
    and "json_carries (out_json out) worlds ''filtered@dolda'' (mm_body msg) len" "os_willing (out_os out)" "\<forall>k. pw_out (worlds k) = out"
    and "length (concat (received @ [b])) + n * len \<le> 64 * 1024 * 1024" "length received + 1 + n < 2 ^ 64"
  shows "\<exists>m' sys' entry' received' b' msg'. run_ticks worlds 0 n ''filtered@dolda'' m sys = Some (m', sys')
    \<and> map_of m' ''filtered@dolda'' = Some entry' \<and> one_pending out sys' ''filtered@dolda'' entry' received' b' msg'
    \<and> length received' = length received + n \<and> mm_body msg' = mm_body msg"
  by (rule filter_keeps_feeding [OF assms(1) assms(2) [unfolded numbers_filter_def] assms(3) refl _ assms(5-9)])
    (simp add: assms(4))

section \<open>Instances\<close>

text \<open>A world where the JSON library knows the message that is pending and the one that answers it.\<close>

definition urgent_message :: mailbox_message where
  "urgent_message = mailbox_message_new (''id1'', 1) ''input@dolda'' ''router@dolda'' (string_bytes ''This is urgent!'')"

definition urgent_answer :: mailbox_message where
  "urgent_answer = mailbox_message_new (''id9'', 9) ''router@dolda'' ''urgent@dolda'' (string_bytes ''This is urgent!'')"

definition number_message :: mailbox_message where
  "number_message = mailbox_message_new (''id1'', 1) ''input@dolda'' ''filtered@dolda'' (string_bytes ''12345'')"

definition number_answer :: mailbox_message where
  "number_answer = mailbox_message_new (''id9'', 9) ''filtered@dolda'' ''filtered@dolda'' (string_bytes ''12345'')"

definition pair_json :: "mailbox_message \<Rightarrow> mailbox_message \<Rightarrow> json_codec" where
  "pair_json m1 m2 = \<lparr>to_json = (\<lambda>m. if m = m1 then Inr [1] else if m = m2 then Inr [2] else Inl ''unsupported''),
     from_json = (\<lambda>bs. if bs = [1] then Inr m1 else if bs = [2] then Inr m2 else Inl ''trailing characters'')\<rparr>"

definition pair_world :: "mailbox_message \<Rightarrow> mailbox_message \<Rightarrow> processor_world" where
  "pair_world m1 m2 = \<lparr>pw_out = \<lparr>out_crc = (\<lambda>_. 0), out_os = demo_os, out_clock = (3, 5), out_json = pair_json m1 m2\<rparr>,
     pw_stamps = (\<lambda>_. (''id9'', 9)), pw_now = 0\<rparr>"

definition entry_at :: "mailbox_address \<Rightarrow> unit mailbox_processor \<Rightarrow> unit processor_entry" where
  "entry_at addr processor = \<lparr>pe_processor = processor, pe_config = processor_config_default,
     pe_mailbox = \<lparr>mb_address = addr, mb_read_offset = 0\<rparr>,
     pe_context = \<lparr>px_address = addr, px_datafusion = None, px_storage_backend = BinaryBackend\<rparr>\<rparr>"

lemma pair_pending:
  assumes "mm_to m1 = a" "a \<noteq> b" "a \<noteq> []" "b \<noteq> []"
    and "\<forall>x \<in> {a, b}. \<not> contains_str ''..'' (mailbox_dir ''d'' x) \<and> CHR 0x00 \<notin> set (mailbox_dir ''d'' x)"
  obtains sys where "one_pending (pw_out (pair_world m1 m2)) sys a (entry_at a processor) [] [1] m1"
    "mailbox_holds (pw_out (pair_world m1 m2)) sys b []"
proof -
  let ?out = "pw_out (pair_world m1 m2)"
  have os: "out_os ?out = demo_os" by (simp add: pair_world_def)
  obtain sys0 where sys0: "mailbox_holds ?out sys0 a []" "mailbox_holds ?out sys0 b []"
    using two_empty_mailboxes [OF os assms(2-5)] by blast
  have json: "to_json (out_json ?out) m1 = Inr [1]" "from_json (out_json ?out) [1] = Inr m1"
    by (simp_all add: pair_world_def pair_json_def)
  obtain sys where sys: "mailbox_holds ?out sys a [[1]]" "map_of (mx_mailboxes sys) b = map_of (mx_mailboxes sys0) b"
    using route_message_ok [of ?out sys0 m1 "[]" "[1]"] sys0(1) assms(1,2) json(1) os demo_os_willing by auto
  have "one_pending ?out sys a (entry_at a processor) [] [1] m1"
    using sys(1) assms(3) json(2) by (simp add: one_pending_def entry_at_def)
  with that holds_same_queue [OF sys(2) sys0(2)] show ?thesis by blast
qed

theorem router_delivers_witness:
  "\<exists>sys sys' m'. processor_tick (pair_world urgent_message urgent_answer) ''router@dolda''
        [(''router@dolda'', entry_at ''router@dolda'' router_processor)] sys = Some (m', sys')
    \<and> fst (receive (pw_out (pair_world urgent_message urgent_answer)) sys' \<lparr>mb_address = ''urgent@dolda'', mb_read_offset = 0\<rparr>)
        = Inr (Some urgent_answer)"
proof -
  let ?w = "pair_world urgent_message urgent_answer" and ?e = "entry_at ''router@dolda'' router_processor"
  let ?rcv = "\<lparr>mb_address = ''urgent@dolda'', mb_read_offset = 0\<rparr>"
  have body: "mm_body urgent_message = string_bytes ''This is urgent!''" "mm_to urgent_message = ''router@dolda''"
    by (simp_all add: urgent_message_def mailbox_message_new_def)
  have "utf8_lossy (string_bytes ''This is urgent!'') = string_bytes ''This is urgent!''"
    by (rule utf8_lossy_id, rule ascii_valid) (simp add: string_bytes_def)
  then have route: "''urgent@dolda'' = (if contains_str (string_bytes ''urgent'') (utf8_lossy (mm_body urgent_message)) then ''urgent@dolda''
      else if contains_str (string_bytes ''info'') (utf8_lossy (mm_body urgent_message)) then ''info@dolda'' else ''general@dolda'')"
    by (simp add: body string_bytes_def contains_str_def)
  have dirs: "\<forall>x \<in> {''router@dolda'', ''urgent@dolda''}. \<not> contains_str ''..'' (mailbox_dir ''d'' x) \<and> CHR 0x00 \<notin> set (mailbox_dir ''d'' x)"
    by (simp add: mailbox_dir_def contains_str_def)
  obtain sys where sys: "one_pending (pw_out ?w) sys ''router@dolda'' ?e [] [1] urgent_message"
    "mailbox_holds (pw_out ?w) sys ''urgent@dolda'' []"
    by (rule pair_pending [OF body(2) _ _ _ dirs]) simp_all
  have neq: "urgent_answer \<noteq> urgent_message"
    by (simp add: urgent_answer_def urgent_message_def mailbox_message_new_def)
  have answer: "urgent_answer = mailbox_message_new (pw_stamps ?w 0) ''router@dolda'' ''urgent@dolda'' (mm_body urgent_message)"
    unfolding body by (simp add: urgent_answer_def pair_world_def)
  have json: "to_json (out_json (pw_out ?w)) urgent_answer = Inr [2]" "from_json (out_json (pw_out ?w)) [2] = Inr urgent_answer"
    "os_willing (out_os (pw_out ?w))"
    using neq by (simp_all add: pair_world_def pair_json_def demo_os_willing)
  have entry: "map_of [(''router@dolda'', ?e)] ''router@dolda'' = Some ?e" "pe_processor ?e = router_processor"
    by (simp_all add: entry_at_def)
  show ?thesis
    using router_delivers [OF entry sys(1) refl route sys(2) json(3) answer json(1) _ json(2), of ?rcv] by auto
qed

theorem filter_feeds_itself_witness:
  "\<exists>sys m' sys' received' b' msg' entry'. run_ticks (\<lambda>_. pair_world number_message number_answer) 0 3 ''filtered@dolda''
        [(''filtered@dolda'', entry_at ''filtered@dolda'' (numbers_filter (\<lambda>_. True)))] sys = Some (m', sys')
    \<and> map_of m' ''filtered@dolda'' = Some entry'
    \<and> one_pending (pw_out (pair_world number_message number_answer)) sys' ''filtered@dolda'' entry' received' b' msg'
    \<and> length received' = 3 \<and> mm_body msg' = string_bytes ''12345''"
proof -
  let ?w = "pair_world number_message number_answer" and ?a = "''filtered@dolda''"
  let ?e = "entry_at ?a (numbers_filter (\<lambda>_. True))"
  have body: "mm_body number_message = string_bytes ''12345''" "mm_to number_message = ?a"
    by (simp_all add: number_message_def mailbox_message_new_def)
  have dirs: "\<forall>x \<in> {?a, ''b''}. \<not> contains_str ''..'' (mailbox_dir ''d'' x) \<and> CHR 0x00 \<notin> set (mailbox_dir ''d'' x)"
    by (simp add: mailbox_dir_def contains_str_def)
  obtain sys where sys: "one_pending (pw_out ?w) sys ?a ?e [] [1] number_message"
    by (rule pair_pending [OF body(2) _ _ _ dirs]) simp_all
  have neq: "number_answer \<noteq> number_message"
    by (simp add: number_answer_def number_message_def mailbox_message_new_def)
  have "mailbox_message_new (pw_stamps ?w 0) ?a ?a (mm_body number_message) = number_answer"
    by (simp add: body number_answer_def pair_world_def)
  then have json: "json_carries (out_json (pw_out ?w)) (\<lambda>_. ?w) ?a (mm_body number_message) 1"
    using neq by (simp add: json_carries_def Let_def) (simp add: pair_world_def pair_json_def)
  have entry: "map_of [(?a, ?e)] ?a = Some ?e" "pe_processor ?e = numbers_filter (\<lambda>_. True)" "os_willing (out_os (pw_out ?w))"
    by (simp_all add: entry_at_def pair_world_def demo_os_willing)
  have room: "length (concat ([] @ [[1 :: 8 word]])) + 3 * 1 \<le> 64 * 1024 * 1024" "length ([] :: bytes list) + 1 + 3 < 2 ^ 64"
    by simp_all
  have length_3: "length ([] :: bytes list) + 3 = 3" by simp
  have out: "\<forall>k :: nat. pw_out ?w = pw_out ?w" by blast
  from filter_feeds_itself [OF entry(1,2) sys TrueI json entry(3) out room, unfolded body(1) length_3]
  show ?thesis by blast
qed

end
