(* ===== verification/Mailbox_Example.thy ===== *)
theory Mailbox_Example
  imports Mailbox
begin

text \<open>
  The program \<open>examples/mailbox_example.rs\<close>: three users with a mailbox each, who exchange messages
  in five scenarios. It is a sequence of operations of \<open>Mailbox\<close> on one state: the system, the
  handle of each user, what was printed, and the number of operations so far, which picks the
  readings of the clock and the fresh ids. \<open>None\<close> is a run that does not return, or panics.
\<close>

section \<open>Running the operations in sequence\<close>

datatype user = Alice | Bob | Charlie

fun address_of :: "user \<Rightarrow> string" where
  "address_of Alice = ''alice@dolda''"
| "address_of Bob = ''bob@dolda''"
| "address_of Charlie = ''charlie@dolda''"

text \<open>What is printed; a received message stands for the lines with its fields.\<close>

datatype chat_line = Got mailbox_message | Peeked mailbox_message | SameId bool | Pending u64
  | Addresses "mailbox_address list" | Counts "(mailbox_address \<times> u64) list"

record chat_state =
  ch_system :: mailbox_system
  ch_handle :: "user \<Rightarrow> mailbox"
  ch_printed :: "chat_line list"
  ch_calls :: nat

record chat_world =
  cw_out :: outside \<comment> \<open>its clock is not used\<close>
  cw_clock :: "nat \<Rightarrow> u64 \<times> u64"
  cw_stamp :: "nat \<Rightarrow> string \<times> u64"
  cw_temp_dir :: "string + string" \<comment> \<open>the answer of \<open>tempfile::tempdir\<close>\<close>

type_synonym 'a chat = "(chat_state, mailbox_error, 'a) run"

definition chat_print :: "chat_line \<Rightarrow> unit chat" where
  "chat_print line st = Some (Inr (), st\<lparr>ch_printed := ch_printed st @ [line]\<rparr>)"

definition chat_out :: "chat_world \<Rightarrow> chat_state \<Rightarrow> outside" where
  "chat_out w st = (cw_out w)\<lparr>out_clock := cw_clock w (ch_calls st)\<rparr>"

text \<open>An operation that sends: it returns the id of the message.\<close>

definition chat_sending :: "chat_world \<Rightarrow> (outside \<Rightarrow> string \<times> u64 \<Rightarrow> mailbox \<Rightarrow> mailbox_system
    \<Rightarrow> ((mailbox_error + string) \<times> mailbox_system) option) \<Rightarrow> user \<Rightarrow> string chat" where
  "chat_sending w operation u st =
     map_option (\<lambda>(res, sys). (res, st\<lparr>ch_system := sys, ch_calls := ch_calls st + 1\<rparr>))
       (operation (chat_out w st) (cw_stamp w (ch_calls st)) (ch_handle st u) (ch_system st))"

definition chat_send :: "chat_world \<Rightarrow> user \<Rightarrow> string \<Rightarrow> string \<Rightarrow> string chat" where
  "chat_send w u to_addr text = chat_sending w (\<lambda>out stamp. send_to out stamp to_addr (string_bytes text)) u"

definition chat_send_subject :: "chat_world \<Rightarrow> user \<Rightarrow> string \<Rightarrow> string \<Rightarrow> string \<Rightarrow> string chat" where
  "chat_send_subject w u to_addr subject text =
     chat_sending w (\<lambda>out stamp. send_with_subject out stamp to_addr subject (string_bytes text)) u"

definition chat_reply :: "chat_world \<Rightarrow> user \<Rightarrow> mailbox_message \<Rightarrow> string \<Rightarrow> string chat" where
  "chat_reply w u original text = chat_sending w (\<lambda>out stamp. reply out stamp original (string_bytes text)) u"

definition chat_receive :: "chat_world \<Rightarrow> user \<Rightarrow> mailbox_message option chat" where
  "chat_receive w u st =
     (case receive (chat_out w st) (ch_system st) (ch_handle st u) of
        (res, mb) \<Rightarrow> Some (res, st\<lparr>ch_handle := (ch_handle st)(u := mb), ch_calls := ch_calls st + 1\<rparr>))"

definition chat_peek :: "chat_world \<Rightarrow> user \<Rightarrow> mailbox_message option chat" where
  "chat_peek w u st =
     Some (peek (chat_out w st) (ch_system st) (ch_handle st u), st\<lparr>ch_calls := ch_calls st + 1\<rparr>)"

definition chat_pending :: "chat_world \<Rightarrow> user \<Rightarrow> unit chat" where
  "chat_pending w u st =
     chat_print (Pending (pending_count (chat_out w st) (ch_system st) (ch_handle st u)))
       (st\<lparr>ch_calls := ch_calls st + 1\<rparr>)"

section \<open>The scenarios\<close>

definition chat_setup :: "chat_world \<Rightarrow> mailbox_error + chat_state" where
  "chat_setup w =
     (let os = out_os (cw_out w)
      in and_then (map_err MailboxIo (cw_temp_dir w)) (\<lambda>dir.
         and_then (mailbox_system_new os dir) (\<lambda>sys0.
         let (alice, sys1) = create_mailbox os ''alice@dolda'' sys0
         in and_then alice (\<lambda>alice. let (bob, sys2) = create_mailbox os ''bob@dolda'' sys1
         in and_then bob (\<lambda>bob. let (charlie, sys3) = create_mailbox os ''charlie@dolda'' sys2
         in and_then charlie (\<lambda>charlie.
              Inr \<lparr>ch_system = sys3, ch_handle = (\<lambda>u. case u of Alice \<Rightarrow> alice | Bob \<Rightarrow> bob | Charlie \<Rightarrow> charlie),
                   ch_printed = [], ch_calls = 0\<rparr>))))))"

definition simple_exchange :: "chat_world \<Rightarrow> unit chat" where
  "simple_exchange w =
     run_bind (chat_send w Alice ''bob@dolda'' ''Hello Bob! How are you?'') (\<lambda>_.
     run_bind (chat_receive w Bob) (\<lambda>received.
     run_bind (run_unwrap received) (\<lambda>msg. chat_print (Got msg))))"

definition reply_exchange :: "chat_world \<Rightarrow> unit chat" where
  "reply_exchange w =
     run_bind (chat_send_subject w Charlie ''alice@dolda'' ''Meeting Request'' ''Can we meet tomorrow at 2pm?'') (\<lambda>_.
     run_bind (chat_receive w Alice) (\<lambda>received.
     run_bind (run_unwrap received) (\<lambda>msg.
     run_bind (run_unwrap (mm_subject msg)) (\<lambda>_.
     run_bind (chat_print (Got msg)) (\<lambda>_.
     run_bind (chat_reply w Alice msg ''Yes, 2pm works great! See you then.'') (\<lambda>_.
     run_bind (chat_receive w Charlie) (\<lambda>received2.
     run_bind (run_unwrap received2) (\<lambda>answer.
     run_bind (run_unwrap (mm_subject answer)) (\<lambda>_. chat_print (Got answer))))))))))"

text \<open>The loop \<open>while let Some(msg)\<close> that empties a mailbox.\<close>

partial_function (option) receive_all :: "chat_world \<Rightarrow> user \<Rightarrow> unit chat" where
  "receive_all w u st =
     (case chat_receive w u st of
        None \<Rightarrow> None
      | Some (Inl e, st') \<Rightarrow> Some (Inl e, st')
      | Some (Inr None, st') \<Rightarrow> Some (Inr (), st')
      | Some (Inr (Some msg), st') \<Rightarrow> receive_all w u (st'\<lparr>ch_printed := ch_printed st' @ [Got msg]\<rparr>))"

definition many_messages :: "chat_world \<Rightarrow> unit chat" where
  "many_messages w =
     run_bind (chat_send w Alice ''bob@dolda'' ''Bob, can you review my code?'') (\<lambda>_.
     run_bind (chat_send w Charlie ''bob@dolda'' ''Bob, lunch today?'') (\<lambda>_.
     run_bind (chat_send w Alice ''bob@dolda'' ''Bob, meeting in 5 minutes!'') (\<lambda>_.
     run_bind (chat_pending w Bob) (\<lambda>_.
     run_bind (receive_all w Bob) (\<lambda>_. chat_pending w Bob)))))"

definition peek_exchange :: "chat_world \<Rightarrow> unit chat" where
  "peek_exchange w =
     run_bind (chat_send w Alice ''charlie@dolda'' ''Important notification!'') (\<lambda>_.
     run_bind (chat_peek w Charlie) (\<lambda>peeked.
     run_bind (run_unwrap peeked) (\<lambda>msg.
     run_bind (chat_print (Peeked msg)) (\<lambda>_.
     run_bind (chat_pending w Charlie) (\<lambda>_.
     run_bind (chat_peek w Charlie) (\<lambda>peeked2.
     run_bind (run_unwrap peeked2) (\<lambda>msg2.
     run_bind (chat_print (Peeked msg2)) (\<lambda>_.
     run_bind (chat_print (SameId (mm_id msg = mm_id msg2))) (\<lambda>_.
     run_bind (chat_receive w Charlie) (\<lambda>received.
     run_bind (run_unwrap received) (\<lambda>msg3.
     run_bind (chat_print (Got msg3)) (\<lambda>_. chat_pending w Charlie))))))))))))"

definition print_received :: "mailbox_message option \<Rightarrow> unit chat" where
  "print_received received = (case received of Some msg \<Rightarrow> chat_print (Got msg) | None \<Rightarrow> run_return ())"

definition broadcast :: "chat_world \<Rightarrow> unit chat" where
  "broadcast w =
     run_bind (chat_send w Alice ''bob@dolda'' ''Team meeting at 3pm in conference room!'') (\<lambda>_.
     run_bind (chat_send w Alice ''charlie@dolda'' ''Team meeting at 3pm in conference room!'') (\<lambda>_.
     run_bind (chat_receive w Bob) (\<lambda>received.
     run_bind (print_received received) (\<lambda>_.
     run_bind (chat_receive w Charlie) print_received))))"

definition print_statistics :: "unit chat" where
  "print_statistics st =
     run_bind (chat_print (Addresses (list_mailboxes (ch_system st)))) (\<lambda>_.
       chat_print (Counts (mailbox_stats (ch_system st)))) st"

definition mailbox_example :: "chat_world \<Rightarrow> ((mailbox_error + unit) \<times> chat_line list) option" where
  "mailbox_example w =
     (case chat_setup w of
        Inl e \<Rightarrow> Some (Inl e, [])
      | Inr st \<Rightarrow>
          map_option (\<lambda>(res, st'). (res, ch_printed st'))
            (run_bind (simple_exchange w) (\<lambda>_.
             run_bind (reply_exchange w) (\<lambda>_.
             run_bind (many_messages w) (\<lambda>_.
             run_bind (peek_exchange w) (\<lambda>_.
             run_bind (broadcast w) (\<lambda>_. print_statistics))))) st))"

section \<open>What the operations do\<close>

text \<open>The mailbox of each of the users \<open>us\<close> holds some byte strings, of which the handle has read the first few.\<close>

definition chatting :: "user set \<Rightarrow> chat_world \<Rightarrow> chat_state \<Rightarrow> (user \<Rightarrow> bytes list) \<Rightarrow> (user \<Rightarrow> nat) \<Rightarrow> bool" where
  "chatting us w st boxes offs \<longleftrightarrow>
     (\<forall>u \<in> us. mailbox_holds (cw_out w) (ch_system st) (address_of u) (boxes u)
        \<and> ch_handle st u = \<lparr>mb_address = address_of u, mb_read_offset = of_nat (offs u)\<rparr>
        \<and> offs u \<le> length (boxes u) \<and> length (boxes u) \<le> 10 \<and> (\<forall>b \<in> set (boxes u). length b \<le> 1000000))"

lemma chat_print_bind [simp]:
  "run_bind (chat_print line) next st = next () (st\<lparr>ch_printed := ch_printed st @ [line]\<rparr>)"
  by (simp add: run_bind_def chat_print_def)

lemma chatting_printed [simp]: "chatting us w (st\<lparr>ch_printed := out\<rparr>) boxes offs = chatting us w st boxes offs"
  by (simp add: chatting_def)

lemma chat_out_simps [simp]:
  "out_os (chat_out w st) = out_os (cw_out w)" "out_json (chat_out w st) = out_json (cw_out w)"
  "mailbox_holds (chat_out w st) = mailbox_holds (cw_out w)"
  by (simp_all add: chat_out_def mailbox_holds_def fun_eq_iff)

lemma address_of_inject [simp]: "address_of u = address_of v \<longleftrightarrow> u = v"
  by (cases u; cases v) simp_all

lemma address_of_nonempty [simp]: "address_of u \<noteq> []"
  by (cases u) simp_all

lemma sending_ok:
  assumes chat: "chatting us w st boxes offs" and os: "os_willing (out_os (cw_out w))"
    and operation: "operation (chat_out w st) (cw_stamp w (ch_calls st)) (ch_handle st u) (ch_system st)
      = route_message (chat_out w st) m (ch_system st)"
    and m: "mm_to m = address_of v" "to_json (out_json (cw_out w)) m = Inr b" "length b \<le> 1000000"
    and room: "length (boxes v) < 10" and "u \<in> us" "v \<in> us"
  shows "\<exists>st'. chat_sending w operation u st = Some (Inr (mm_id m), st')
    \<and> chatting us w st' (boxes(v := boxes v @ [b])) offs
    \<and> ch_printed st' = ch_printed st \<and> ch_calls st' = ch_calls st + 1"
proof -
  have holds: "mailbox_holds (chat_out w st) (ch_system st) (mm_to m) (boxes v)"
    and small: "length (concat (boxes v)) \<le> length (boxes v) * 1000000"
    using chat length_concat_le [of "boxes v" 1000000] \<open>v \<in> us\<close> by (simp_all add: chatting_def m(1))
  have fits: "length (concat (boxes v)) + length b \<le> 64 * 1024 * 1024" "length (boxes v) + 1 < 2 ^ 64"
    using small room m(3) by simp_all
  from route_message_ok [OF holds _ _ fits] os m obtain sys' where
    sys': "route_message (chat_out w st) m (ch_system st) = Some (Inr (mm_id m), sys')"
    "mailbox_holds (cw_out w) sys' (address_of v) (boxes v @ [b])"
    "\<forall>a. a \<noteq> address_of v \<longrightarrow> map_of (mx_mailboxes sys') a = map_of (mx_mailboxes (ch_system st)) a" by auto
  have "mailbox_holds (cw_out w) sys' (address_of u) (boxes u)" if "u \<in> us" "u \<noteq> v" for u
    using chat sys'(3) that by (simp add: chatting_def mailbox_holds_def)
  then have "chatting us w (st\<lparr>ch_system := sys', ch_calls := ch_calls st + 1\<rparr>) (boxes(v := boxes v @ [b])) offs"
    using chat sys'(2) room m(3) by (auto simp: chatting_def intro: le_SucI)
  moreover have "chat_sending w operation u st
      = Some (Inr (mm_id m), st\<lparr>ch_system := sys', ch_calls := ch_calls st + 1\<rparr>)"
    using sys'(1) operation by (simp add: chat_sending_def)
  ultimately show ?thesis by simp
qed

lemma send_routes:
  "chatting us w st boxes offs \<Longrightarrow> u \<in> us \<Longrightarrow> to_addr \<noteq> [] \<Longrightarrow>
    send_to out stamp to_addr body (ch_handle st u) sys
      = route_message out (mailbox_message_new stamp (address_of u) to_addr body) sys"
  "chatting us w st boxes offs \<Longrightarrow> u \<in> us \<Longrightarrow> to_addr \<noteq> [] \<Longrightarrow>
    send_with_subject out stamp to_addr subject body (ch_handle st u) sys
      = route_message out (with_subject subject (mailbox_message_new stamp (address_of u) to_addr body)) sys"
  by (simp_all add: chatting_def send_to_def send_with_subject_def mailbox_address_new_def)

lemma reading_next:
  assumes chat: "chatting us w st boxes offs" and box: "boxes u = recs @ b # bs" "offs u = length recs" "b \<noteq> []" and user: "u \<in> us"
  shows "read_next (chat_out w st) (ch_system st) (ch_handle st u) = Inr (concat (b # bs))"
proof (rule read_next_pending)
  show "mailbox_holds (chat_out w st) (ch_system st) (mb_address (ch_handle st u)) (recs @ b # bs)"
    using chat box(1) user by (simp add: chatting_def flip: box(1))
  have "offs u \<le> 10" using chat user le_trans unfolding chatting_def by blast
  then have "length recs < 2 ^ 64" using box(2) by simp
  then show "unat (mb_read_offset (ch_handle st u)) = length recs"
    using chat box(2) user by (simp add: chatting_def unat_of_nat64)
qed (rule box(3))

lemma receive_ok:
  assumes chat: "chatting us w st boxes offs" and box: "boxes u = recs @ [b]" "offs u = length recs" "b \<noteq> []"
    and json: "from_json (out_json (cw_out w)) b = Inr m" and user: "u \<in> us"
  shows "\<exists>st'. chat_receive w u st = Some (Inr (Some m), st') \<and> chatting us w st' boxes (offs(u := offs u + 1))
    \<and> ch_printed st' = ch_printed st \<and> ch_calls st' = ch_calls st + 1"
proof -
  let ?mb = "(ch_handle st u)\<lparr>mb_read_offset := mb_read_offset (ch_handle st u) + 1\<rparr>"
  have "receive (chat_out w st) (ch_system st) (ch_handle st u) = (Inr (Some m), ?mb)"
    using reading_next [OF chat box(1-3) user] box(3) json by (simp add: receive_def mailbox_message_from_bytes_def)
  moreover have "chatting us w (st\<lparr>ch_handle := (ch_handle st)(u := ?mb), ch_calls := ch_calls st + 1\<rparr>) boxes
      (offs(u := offs u + 1))"
    using chat box by (auto simp: chatting_def)
  ultimately show ?thesis by (simp add: chat_receive_def)
qed

text \<open>More than one message pending: the JSON library gets the bytes of all of them.\<close>

lemma receive_garbled:
  assumes chat: "chatting us w st boxes offs" and box: "boxes u = recs @ b # bs" "offs u = length recs" "b \<noteq> []"
    and json: "from_json (out_json (cw_out w)) (concat (b # bs)) = Inl e" and user: "u \<in> us"
  shows "\<exists>st'. chat_receive w u st = Some (Inl (MailboxSerialization e), st') \<and> ch_printed st' = ch_printed st"
  using reading_next [OF chat box user] box(3) json by (simp add: chat_receive_def receive_def mailbox_message_from_bytes_def)

section \<open>The run\<close>

definition chat_message :: "chat_world \<Rightarrow> nat \<Rightarrow> user \<Rightarrow> user \<Rightarrow> string \<Rightarrow> mailbox_message" where
  "chat_message w i u v text = mailbox_message_new (cw_stamp w i) (address_of u) (address_of v) (string_bytes text)"

definition greeting :: "chat_world \<Rightarrow> mailbox_message" where
  "greeting w = chat_message w 0 Alice Bob ''Hello Bob! How are you?''"

definition meeting_request :: "chat_world \<Rightarrow> mailbox_message" where
  "meeting_request w = with_subject ''Meeting Request'' (chat_message w 2 Charlie Alice ''Can we meet tomorrow at 2pm?'')"

definition answer_to_request :: "chat_world \<Rightarrow> mailbox_message" where
  "answer_to_request w = with_subject ''Re: Meeting Request''
     (chat_message w 4 Alice Charlie ''Yes, 2pm works great! See you then.'')"

definition messages_to_bob :: "chat_world \<Rightarrow> mailbox_message list" where
  "messages_to_bob w = [chat_message w 6 Alice Bob ''Bob, can you review my code?'',
     chat_message w 7 Charlie Bob ''Bob, lunch today?'', chat_message w 8 Alice Bob ''Bob, meeting in 5 minutes!'']"

text \<open>The JSON library writes the messages, in at most a million bytes each, and reads them back; it
  refuses three of them in a row (trailing characters).\<close>

definition json_reads_single :: "json_codec \<Rightarrow> mailbox_message list \<Rightarrow> bool" where
  "json_reads_single json msgs \<longleftrightarrow>
     (\<forall>m \<in> set msgs. \<exists>b. to_json json m = Inr b \<and> b \<noteq> [] \<and> length b \<le> 1000000 \<and> from_json json b = Inr m)
     \<and> (\<forall>m1 \<in> set msgs. \<forall>m2 \<in> set msgs. \<forall>m3 \<in> set msgs. \<forall>b1 b2 b3. to_json json m1 = Inr b1 \<longrightarrow>
          to_json json m2 = Inr b2 \<longrightarrow> to_json json m3 = Inr b3 \<longrightarrow> (\<exists>e. from_json json (b1 @ b2 @ b3) = Inl e))"

lemma create_user_ok:
  assumes "mailbox_system_new (out_os out) dir = Inr sys0" "mx_default_config sys = mx_default_config sys0"
    and "mx_base_dir sys = dir" "os_willing (out_os out)" "map_of (mx_mailboxes sys) (address_of u) = None"
    and "\<not> contains_str ''..'' dir" "CHR 0x00 \<notin> set dir"
  shows "\<exists>sys'. create_mailbox (out_os out) (address_of u) sys
      = (Inr \<lparr>mb_address = address_of u, mb_read_offset = 0\<rparr>, sys')
    \<and> mailbox_holds (out) sys' (address_of u) []
    \<and> (\<forall>a. a \<noteq> address_of u \<longrightarrow> map_of (mx_mailboxes sys') a = map_of (mx_mailboxes sys) a)
    \<and> mx_default_config sys' = mx_default_config sys0 \<and> mx_base_dir sys' = dir"
proof -
  have "\<not> contains_str ''..'' (dir @ CHR ''/'' # name)" if "\<not> contains_str ''..'' name" for name
    using assms(6) that by (simp add: two_dots_sep)
  then have "\<not> contains_str ''..'' (mailbox_dir dir (address_of u))"
    unfolding mailbox_dir_def by (cases u) (simp_all add: contains_str_def [of _ "CHR ''m'' # _"])
  moreover have "CHR 0x00 \<notin> set (mailbox_dir dir (address_of u))"
    using assms(7) by (cases u) (simp_all add: mailbox_dir_def)
  ultimately show ?thesis
    using create_mailbox_ok [OF assms(1-4) address_of_nonempty assms(5), of "out"] by simp
qed

lemma chat_setup_ok:
  assumes os: "os_willing (out_os (cw_out w))" and "cw_temp_dir w = Inr dir"
    and dir: "\<not> contains_str ''..'' dir" "CHR 0x00 \<notin> set dir"
  shows "\<exists>st. chat_setup w = Inr st \<and> chatting UNIV w st (\<lambda>_. []) (\<lambda>_. 0) \<and> ch_printed st = [] \<and> ch_calls st = 0"
proof -
  let ?new = "\<lambda>u. \<lparr>mb_address = address_of u, mb_read_offset = 0\<rparr>" and ?os = "out_os (cw_out w)"
  obtain sys0 where sys0: "mailbox_system_new ?os dir = Inr sys0" "mx_base_dir sys0 = dir" "mx_mailboxes sys0 = []"
    using os by (simp add: mailbox_system_new_def os_willing_def)
  have none: "map_of (mx_mailboxes sys0) a = None" for a by (simp add: sys0(3))
  from create_user_ok [where out = "cw_out w", OF sys0(1) refl sys0(2) os none dir, of Alice] obtain sys1 where
    sys1: "create_mailbox ?os (address_of Alice) sys0 = (Inr (?new Alice), sys1)"
    "mailbox_holds (cw_out w) sys1 (address_of Alice) []" "mx_default_config sys1 = mx_default_config sys0" "mx_base_dir sys1 = dir"
    and other1: "\<And>a. a \<noteq> address_of Alice \<Longrightarrow> map_of (mx_mailboxes sys1) a = map_of (mx_mailboxes sys0) a" by blast
  have "map_of (mx_mailboxes sys1) (address_of Bob) = None" by (subst other1) (simp_all add: none)
  from create_user_ok [where out = "cw_out w", OF sys0(1) sys1(3,4) os this dir] obtain sys2 where
    sys2: "create_mailbox ?os (address_of Bob) sys1 = (Inr (?new Bob), sys2)"
    "mailbox_holds (cw_out w) sys2 (address_of Bob) []" "mx_default_config sys2 = mx_default_config sys0" "mx_base_dir sys2 = dir"
    and other2: "\<And>a. a \<noteq> address_of Bob \<Longrightarrow> map_of (mx_mailboxes sys2) a = map_of (mx_mailboxes sys1) a" by blast
  have "map_of (mx_mailboxes sys2) (address_of Charlie) = None"
    by (subst other2, simp, subst other1) (simp_all add: none)
  from create_user_ok [where out = "cw_out w", OF sys0(1) sys2(3,4) os this dir] obtain sys3 where
    sys3: "create_mailbox ?os (address_of Charlie) sys2 = (Inr (?new Charlie), sys3)"
    "mailbox_holds (cw_out w) sys3 (address_of Charlie) []"
    and other3: "\<And>a. a \<noteq> address_of Charlie \<Longrightarrow> map_of (mx_mailboxes sys3) a = map_of (mx_mailboxes sys2) a" by blast
  have "mailbox_holds (cw_out w) sys3 (address_of u) []" for u
    using sys1(2) sys2(2) sys3(2) other2 [of "address_of Alice"] other3 [of "address_of u"]
    by (cases u) (simp_all add: mailbox_holds_def)
  moreover have "chat_setup w = Inr \<lparr>ch_system = sys3, ch_handle = ?new, ch_printed = [], ch_calls = 0\<rparr>"
    using sys0(1) sys1(1) sys2(1) sys3(1)
    by (simp add: chat_setup_def assms(2) fun_eq_iff split: user.split)
  ultimately show ?thesis by (simp add: chatting_def)
qed

lemma simple_exchange_ok:
  assumes "chatting UNIV w st (\<lambda>_. []) (\<lambda>_. 0)" "ch_calls st = 0" "os_willing (out_os (cw_out w))"
    and "to_json (out_json (cw_out w)) (greeting w) = Inr b" "b \<noteq> []" "length b \<le> 1000000"
    "from_json (out_json (cw_out w)) b = Inr (greeting w)"
  shows "\<exists>st'. simple_exchange w st = Some (Inr (), st') \<and> chatting UNIV w st' ((\<lambda>_. [])(Bob := [b])) ((\<lambda>_. 0)(Bob := 1))
    \<and> ch_printed st' = ch_printed st @ [Got (greeting w)] \<and> ch_calls st' = 2"
proof -
  have to_bob: "mm_to (greeting w) = address_of Bob"
    by (simp add: greeting_def chat_message_def mailbox_message_new_def)
  from sending_ok [OF assms(1,3) _ to_bob assms(4,6), of "\<lambda>out stamp. send_to out stamp ''bob@dolda'' _" Alice]
  obtain st1 where st1: "chat_send w Alice ''bob@dolda'' ''Hello Bob! How are you?'' st = Some (Inr (mm_id (greeting w)), st1)"
    "chatting UNIV w st1 ((\<lambda>_. [])(Bob := [b])) (\<lambda>_. 0)" "ch_printed st1 = ch_printed st" "ch_calls st1 = 1"
    by (auto simp: chat_send_def greeting_def chat_message_def assms(2) send_routes [OF assms(1)])
  from receive_ok [OF st1(2), of Bob "[]" b] assms(5,7) obtain st2 where
    st2: "chat_receive w Bob st1 = Some (Inr (Some (greeting w)), st2)"
    "chatting UNIV w st2 ((\<lambda>_. [])(Bob := [b])) ((\<lambda>_. 0)(Bob := 1))" "ch_printed st2 = ch_printed st" "ch_calls st2 = 2"
    using st1(3,4) by auto
  show ?thesis
    using st2 by (simp add: simple_exchange_def run_bind_def [of "chat_send _ _ _ _"] run_bind_def [of "chat_receive _ _"]
        st1(1) chat_print_def)
qed

lemma reply_exchange_ok:
  assumes chat: "chatting UNIV w st boxes offs" "boxes Alice = []" "offs Alice = 0" "boxes Charlie = []" "offs Charlie = 0"
    and "ch_calls st = 2" and os: "os_willing (out_os (cw_out w))"
    and b1: "to_json (out_json (cw_out w)) (meeting_request w) = Inr b1" "b1 \<noteq> []" "length b1 \<le> 1000000"
      "from_json (out_json (cw_out w)) b1 = Inr (meeting_request w)"
    and b2: "to_json (out_json (cw_out w)) (answer_to_request w) = Inr b2" "b2 \<noteq> []" "length b2 \<le> 1000000"
      "from_json (out_json (cw_out w)) b2 = Inr (answer_to_request w)"
  shows "\<exists>st'. reply_exchange w st = Some (Inr (), st')
    \<and> chatting UNIV w st' (boxes(Alice := [b1], Charlie := [b2])) (offs(Alice := 1, Charlie := 1))
    \<and> ch_printed st' = ch_printed st @ [Got (meeting_request w), Got (answer_to_request w)] \<and> ch_calls st' = 6"
proof -
  have m: "mm_to (meeting_request w) = address_of Alice" "mm_from (meeting_request w) = address_of Charlie" "mm_reply_to (meeting_request w) = None"
    "mm_subject (meeting_request w) = Some ''Meeting Request''" "mm_to (answer_to_request w) = address_of Charlie"
    "mm_subject (answer_to_request w) = Some ''Re: Meeting Request''"
    by (simp_all add: meeting_request_def answer_to_request_def chat_message_def mailbox_message_new_def with_subject_def)
  from sending_ok [OF chat(1) os _ m(1) b1(1,3), of "\<lambda>out stamp. send_with_subject out stamp ''alice@dolda'' _ _" Charlie]
  obtain st1 where st1: "chat_send_subject w Charlie ''alice@dolda'' ''Meeting Request'' ''Can we meet tomorrow at 2pm?'' st = Some (Inr (mm_id (meeting_request w)), st1)"
    "chatting UNIV w st1 (boxes(Alice := [b1])) offs" "ch_printed st1 = ch_printed st" "ch_calls st1 = 3"
    using chat(2) by (auto simp: chat_send_subject_def meeting_request_def chat_message_def assms(6) send_routes [OF chat(1)])
  from receive_ok [OF st1(2), of Alice "[]" b1] b1(2,4) chat(3) obtain st2 where
    st2: "chat_receive w Alice st1 = Some (Inr (Some (meeting_request w)), st2)"
    "chatting UNIV w st2 (boxes(Alice := [b1])) (offs(Alice := 1))" "ch_printed st2 = ch_printed st" "ch_calls st2 = 4"
    using st1(3,4) by auto
  let ?st2 = "st2\<lparr>ch_printed := ch_printed st2 @ [Got (meeting_request w)]\<rparr>"
  have chat2: "chatting UNIV w ?st2 (boxes(Alice := [b1])) (offs(Alice := 1))" using st2(2) by simp
  have handle: "mb_address (ch_handle st2 Alice) = address_of Alice" using st2(2) by (simp add: chatting_def)
  have answer: "reply out (cw_stamp w 4) (meeting_request w) (string_bytes ''Yes, 2pm works great! See you then.'') (ch_handle ?st2 Alice) sys
      = route_message out (answer_to_request w) sys" for out sys
    by (simp add: reply_def m handle answer_to_request_def chat_message_def)
  from sending_ok [OF chat2 os _ m(5) b2(1,3), of "\<lambda>out stamp. reply out stamp (meeting_request w)
      (string_bytes ''Yes, 2pm works great! See you then.'')" Alice]
  obtain st3 where st3: "chat_reply w Alice (meeting_request w) ''Yes, 2pm works great! See you then.'' ?st2 = Some (Inr (mm_id (answer_to_request w)), st3)"
    "chatting UNIV w st3 (boxes(Alice := [b1], Charlie := [b2])) (offs(Alice := 1))"
    "ch_printed st3 = ch_printed st @ [Got (meeting_request w)]" "ch_calls st3 = 5"
    using chat(4) st2(3,4) answer by (auto simp: chat_reply_def)
  from receive_ok [OF st3(2), of Charlie "[]" b2] b2(2,4) chat(5) obtain st4 where
    st4: "chat_receive w Charlie st3 = Some (Inr (Some (answer_to_request w)), st4)"
    "chatting UNIV w st4 (boxes(Alice := [b1], Charlie := [b2])) (offs(Alice := 1, Charlie := 1))"
    "ch_printed st4 = ch_printed st @ [Got (meeting_request w)]" "ch_calls st4 = 6"
    using st3(3,4) by auto
  show ?thesis
    using st4 by (simp add: reply_exchange_def run_bind_def [of "chat_send_subject _ _ _ _ _"]
        run_bind_def [of "chat_receive _ _"] run_bind_def [of "chat_reply _ _ _ _"] st1(1) st2(1) st3(1) m(4,6) chat_print_def)
qed

lemma many_messages_fail:
  assumes chat: "chatting UNIV w st boxes offs" "boxes Bob = [b]" "offs Bob = 1" and "ch_calls st = 6"
    and os: "os_willing (out_os (cw_out w))"
    and ms: "messages_to_bob w = [m1, m2, m3]" "to_json (out_json (cw_out w)) m1 = Inr b1" "to_json (out_json (cw_out w)) m2 = Inr b2"
      "to_json (out_json (cw_out w)) m3 = Inr b3" "b1 \<noteq> []" "length b1 \<le> 1000000" "length b2 \<le> 1000000" "length b3 \<le> 1000000"
    and garbled: "from_json (out_json (cw_out w)) (b1 @ b2 @ b3) = Inl e"
  shows "\<exists>st'. many_messages w st = Some (Inl (MailboxSerialization e), st')
    \<and> ch_printed st' = ch_printed st @ [Pending 1]"
proof -
  have m: "chat_message w 6 Alice Bob ''Bob, can you review my code?'' = m1" "chat_message w 7 Charlie Bob ''Bob, lunch today?'' = m2"
    "chat_message w 8 Alice Bob ''Bob, meeting in 5 minutes!'' = m3"
    using ms(1) by (simp_all add: messages_to_bob_def)
  have to_bob: "mm_to m1 = address_of Bob" "mm_to m2 = address_of Bob" "mm_to m3 = address_of Bob"
    by (simp_all add: m [symmetric] chat_message_def mailbox_message_new_def)
  note sends = chat_send_def m [symmetric] chat_message_def
  from sending_ok [OF chat(1) os _ to_bob(1) ms(2,6), of "\<lambda>out stamp. send_to out stamp ''bob@dolda'' _" Alice]
  obtain st1 where st1: "chat_send w Alice ''bob@dolda'' ''Bob, can you review my code?'' st = Some (Inr (mm_id m1), st1)"
    "chatting UNIV w st1 (boxes(Bob := [b, b1])) offs" "ch_printed st1 = ch_printed st" "ch_calls st1 = 7"
    using chat(2) by (auto simp: sends assms(4) send_routes [OF chat(1)])
  from sending_ok [OF st1(2) os _ to_bob(2) ms(3,7), of "\<lambda>out stamp. send_to out stamp ''bob@dolda'' _" Charlie]
  obtain st2 where st2: "chat_send w Charlie ''bob@dolda'' ''Bob, lunch today?'' st1 = Some (Inr (mm_id m2), st2)"
    "chatting UNIV w st2 (boxes(Bob := [b, b1, b2])) offs" "ch_printed st2 = ch_printed st" "ch_calls st2 = 8"
    using st1(3,4) by (auto simp: sends send_routes [OF st1(2)])
  from sending_ok [OF st2(2) os _ to_bob(3) ms(4,8), of "\<lambda>out stamp. send_to out stamp ''bob@dolda'' _" Alice]
  obtain st3 where st3: "chat_send w Alice ''bob@dolda'' ''Bob, meeting in 5 minutes!'' st2 = Some (Inr (mm_id m3), st3)"
    "chatting UNIV w st3 (boxes(Bob := [b, b1, b2, b3])) offs" "ch_printed st3 = ch_printed st"
    using st2(3,4) by (auto simp: sends send_routes [OF st2(2)])
  have "read_next (chat_out w st3) (ch_system st3) (ch_handle st3 Bob) = Inr (concat (b1 # [b2, b3]))"
    by (rule reading_next [OF st3(2), where recs = "[b]"]) (simp_all add: chat(3) ms(5))
  then have pending: "chat_pending w Bob st3
      = Some (Inr (), st3\<lparr>ch_calls := ch_calls st3 + 1, ch_printed := ch_printed st @ [Pending 1]\<rparr>)"
    using ms(5) by (simp add: chat_pending_def chat_print_def pending_count_def st3(3))
  let ?st4 = "st3\<lparr>ch_calls := ch_calls st3 + 1, ch_printed := ch_printed st @ [Pending 1]\<rparr>"
  have chat4: "chatting UNIV w ?st4 (boxes(Bob := [b, b1, b2, b3])) offs" using st3(2) by (simp add: chatting_def)
  from receive_garbled [OF chat4, of Bob "[b]" b1 "[b2, b3]" e] chat(3) ms(5) garbled obtain st5 where
    "chat_receive w Bob ?st4 = Some (Inl (MailboxSerialization e), st5)" "ch_printed st5 = ch_printed st @ [Pending 1]"
    by auto
  then show ?thesis
    by (simp add: many_messages_def run_bind_def st1(1) st2(1) st3(1) pending receive_all.simps)
qed

text \<open>C16: The mailbox example never runs to its end. On a system that grants every request, and with a JSON
  library that reads back single messages and refuses three in a row, its first two scenarios
  deliver their messages; then three messages for one user make the count of pending ones 1, and
  the loop that should receive them ends the program with a serialization error.\<close>

theorem mailbox_example_fails:
  assumes "os_willing (out_os (cw_out w))" "cw_temp_dir w = Inr dir" "\<not> contains_str ''..'' dir" "CHR 0x00 \<notin> set dir"
    and "json_reads_single (out_json (cw_out w)) ([greeting w, meeting_request w, answer_to_request w] @ messages_to_bob w)"
  shows "\<exists>e. mailbox_example w = Some (Inl (MailboxSerialization e),
      [Got (greeting w), Got (meeting_request w), Got (answer_to_request w), Pending 1])"
proof -
  let ?json = "out_json (cw_out w)"
  obtain m1 m2 m3 where ms: "messages_to_bob w = [m1, m2, m3]" by (simp add: messages_to_bob_def)
  note json = assms(5) [unfolded json_reads_single_def ms]
  have known: "\<exists>b. to_json ?json m = Inr b \<and> b \<noteq> [] \<and> length b \<le> 1000000 \<and> from_json ?json b = Inr m"
    if "m \<in> {greeting w, meeting_request w, answer_to_request w, m1, m2, m3}" for m
    by (rule bspec [OF conjunct1 [OF json]]) (use that in auto)
  obtain b where b: "to_json ?json (greeting w) = Inr b" "b \<noteq> []" "length b \<le> 1000000" "from_json ?json b = Inr (greeting w)"
    using known [of "greeting w"] by blast
  obtain c where c: "to_json ?json (meeting_request w) = Inr c" "c \<noteq> []" "length c \<le> 1000000" "from_json ?json c = Inr (meeting_request w)"
    using known [of "meeting_request w"] by blast
  obtain d where d: "to_json ?json (answer_to_request w) = Inr d" "d \<noteq> []" "length d \<le> 1000000"
    "from_json ?json d = Inr (answer_to_request w)" using known [of "answer_to_request w"] by blast
  obtain b1 b2 b3 where bs: "to_json ?json m1 = Inr b1" "to_json ?json m2 = Inr b2" "to_json ?json m3 = Inr b3"
    "b1 \<noteq> []" "length b1 \<le> 1000000" "length b2 \<le> 1000000" "length b3 \<le> 1000000"
    using known [of m1] known [of m2] known [of m3] by blast
  have "m1 \<in> set ([greeting w, meeting_request w, answer_to_request w] @ [m1, m2, m3])"
    "m2 \<in> set ([greeting w, meeting_request w, answer_to_request w] @ [m1, m2, m3])"
    "m3 \<in> set ([greeting w, meeting_request w, answer_to_request w] @ [m1, m2, m3])" by simp_all
  from conjunct2 [OF json, rule_format, OF this bs(1-3)] obtain e where e: "from_json ?json (b1 @ b2 @ b3) = Inl e" by blast
  from chat_setup_ok [OF assms(1-4)] obtain st0 where
    st0: "chat_setup w = Inr st0" "chatting UNIV w st0 (\<lambda>_. []) (\<lambda>_. 0)" "ch_printed st0 = []" "ch_calls st0 = 0" by blast
  from simple_exchange_ok [OF st0(2,4) assms(1) b] obtain st1 where
    st1: "simple_exchange w st0 = Some (Inr (), st1)" "chatting UNIV w st1 ((\<lambda>_. [])(Bob := [b])) ((\<lambda>_. 0)(Bob := 1))"
    "ch_printed st1 = [Got (greeting w)]" "ch_calls st1 = 2" using st0(3) by auto
  from reply_exchange_ok [OF st1(2) _ _ _ _ st1(4) assms(1) c d] obtain st2 where
    st2: "reply_exchange w st1 = Some (Inr (), st2)" "chatting UNIV w st2 ((\<lambda>_. [])(Bob := [b], Alice := [c], Charlie := [d]))
      ((\<lambda>_. 0)(Bob := 1, Alice := 1, Charlie := 1))"
    "ch_printed st2 = [Got (greeting w), Got (meeting_request w), Got (answer_to_request w)]" "ch_calls st2 = 6"
    using st1(3) by auto
  from many_messages_fail [OF st2(2) _ _ st2(4) assms(1) ms bs e] obtain st3 where
    "many_messages w st2 = Some (Inl (MailboxSerialization e), st3)"
    "ch_printed st3 = [Got (greeting w), Got (meeting_request w), Got (answer_to_request w), Pending 1]" using st2(3) by auto
  then show ?thesis
    by (simp add: mailbox_example_def st0(1) run_bind_def st1(1) st2(1))
qed

section \<open>An instance\<close>

text \<open>A library that writes a listed message as its number.\<close>

definition listed_json :: "mailbox_message list \<Rightarrow> json_codec" where
  "listed_json msgs = \<lparr>to_json = (\<lambda>m. case map_of (zip msgs (map of_nat [0..<length msgs])) m of
       None \<Rightarrow> Inl ''unsupported'' | Some i \<Rightarrow> Inr [i]),
     from_json = (\<lambda>bs. case bs of [i] \<Rightarrow> if unat i < length msgs then Inr (msgs ! unat i) else Inl ''expected value''
       | _ \<Rightarrow> Inl ''trailing characters'')\<rparr>"

lemma listed_json_writes:
  "to_json (listed_json msgs) m = Inr b \<Longrightarrow> \<exists>i. b = [i]"
  by (auto simp: listed_json_def split: option.splits)

lemma listed_json_reads:
  assumes "m \<in> set msgs" "length msgs < 256"
  shows "\<exists>i. to_json (listed_json msgs) m = Inr [i] \<and> from_json (listed_json msgs) [i] = Inr m"
proof -
  have "map_of (zip msgs (map of_nat [0..<length msgs])) m \<noteq> None"
    using assms(1) by (simp add: map_of_eq_None_iff flip: set_map)
  then obtain i where i: "map_of (zip msgs (map of_nat [0..<length msgs])) m = Some (i :: u8)" by blast
  from map_of_SomeD [OF this] obtain n where n: "n < length msgs" "m = msgs ! n" "i = of_nat n"
    by (auto simp: in_set_zip)
  then have "unat i = n" using assms(2) by (simp add: unat_of_nat take_bit_nat_eq_self)
  with i n show ?thesis by (simp add: listed_json_def)
qed

lemma listed_json_single: "length msgs < 256 \<Longrightarrow> json_reads_single (listed_json msgs) msgs"
  unfolding json_reads_single_def
proof (intro conjI ballI allI impI)
  fix m assume "length msgs < 256" "m \<in> set msgs"
  from listed_json_reads [OF this(2,1)]
  show "\<exists>b. to_json (listed_json msgs) m = Inr b \<and> b \<noteq> [] \<and> length b \<le> 1000000 \<and> from_json (listed_json msgs) b = Inr m"
    by fastforce
next
  fix m1 m2 m3 b1 b2 b3
  assume "to_json (listed_json msgs) m1 = Inr b1" "to_json (listed_json msgs) m2 = Inr b2" "to_json (listed_json msgs) m3 = Inr b3"
  from this [THEN listed_json_writes] obtain i j k where "b1 = [i]" "b2 = [j]" "b3 = [k]" by blast
  then show "\<exists>e. from_json (listed_json msgs) (b1 @ b2 @ b3) = Inl e" by (simp add: listed_json_def)
qed

definition chat_world_with :: "json_codec \<Rightarrow> chat_world" where
  "chat_world_with json = \<lparr>cw_out = \<lparr>out_crc = (\<lambda>_. 0), out_os = demo_os, out_clock = (3, 5), out_json = json\<rparr>,
     cw_clock = (\<lambda>i. (of_nat i, of_nat i + 2)), cw_stamp = (\<lambda>i. (nat_string i, of_nat i)), cw_temp_dir = Inr ''/tmp/d''\<rparr>"

definition chat_messages :: "chat_world \<Rightarrow> mailbox_message list" where
  "chat_messages w = [greeting w, meeting_request w, answer_to_request w] @ messages_to_bob w"

definition demo_chat :: chat_world where
  "demo_chat = chat_world_with (listed_json (chat_messages (chat_world_with two_message_json)))"

theorem mailbox_example_fails_witness:
  "\<exists>e m1 m2 m3. mailbox_example demo_chat = Some (Inl (MailboxSerialization e), [Got m1, Got m2, Got m3, Pending 1])
    \<and> mm_body m1 = string_bytes ''Hello Bob! How are you?'' \<and> mm_subject m3 = Some ''Re: Meeting Request''"
proof -
  have same: "chat_messages demo_chat = chat_messages (chat_world_with two_message_json)"
    by (simp add: demo_chat_def chat_messages_def chat_world_with_def greeting_def meeting_request_def answer_to_request_def
        messages_to_bob_def chat_message_def)
  have "length (chat_messages demo_chat) < 256" by (simp add: chat_messages_def messages_to_bob_def)
  then have "json_reads_single (listed_json (chat_messages demo_chat)) (chat_messages demo_chat)"
    by (rule listed_json_single)
  moreover have "out_json (cw_out demo_chat) = listed_json (chat_messages demo_chat)"
    by (simp add: same) (simp add: demo_chat_def chat_world_with_def)
  ultimately have json: "json_reads_single (out_json (cw_out demo_chat))
      ([greeting demo_chat, meeting_request demo_chat, answer_to_request demo_chat] @ messages_to_bob demo_chat)"
    by (simp add: chat_messages_def)
  have "os_willing (out_os (cw_out demo_chat))" "cw_temp_dir demo_chat = Inr ''/tmp/d''"
    "\<not> contains_str ''..'' ''/tmp/d''" "CHR 0x00 \<notin> set ''/tmp/d''"
    by (simp_all add: demo_chat_def chat_world_with_def demo_os_willing contains_str_def)
  from mailbox_example_fails [OF this json] obtain e where
    "mailbox_example demo_chat = Some (Inl (MailboxSerialization e),
      [Got (greeting demo_chat), Got (meeting_request demo_chat), Got (answer_to_request demo_chat), Pending 1])" by blast
  then show ?thesis
    by (intro exI conjI) (assumption, simp_all add: greeting_def answer_to_request_def chat_message_def
        mailbox_message_new_def with_subject_def)
qed

end
