(* ===== verification/Network_Example.thy ===== *)
theory Network_Example
  imports Mailbox_Example Mailbox_Network
begin

text \<open>
  The program \<open>examples/mailbox_network_example.rs\<close>: it starts a mailbox server on TCP and one on UDP in
  the background and talks to them through clients. An operation of a client is a request that
  the server answers in the state of that moment, by the functions of \<open>Mailbox_Network\<close>. The two
  servers have systems of their own; that these use the same directory is not modelled.
  Durations and the reports made of them are left out.
\<close>

section \<open>Clients and servers\<close>

datatype net_line = GotData message_data

record net_world =
  nw_out :: outside \<comment> \<open>its clock is not used\<close>
  nw_clock :: "nat \<Rightarrow> u64 \<times> u64"
  nw_stamp :: "nat \<Rightarrow> string \<times> u64"
  nw_bincode :: bincode
  nw_temp_dir :: "string + string"

record net_state =
  ns_dir :: string
  ns_tcp :: mailbox_server
  ns_udp :: "mailbox_server option"
  ns_printed :: "net_line list"
  ns_calls :: nat

type_synonym 'a net_run = "(net_state, mailbox_net_error, 'a) run"

definition net_env :: "net_world \<Rightarrow> net_state \<Rightarrow> nat \<Rightarrow> outside \<times> string \<times> u64" where
  "net_env w st = (\<lambda>_. ((nw_out w)\<lparr>out_clock := nw_clock w (ns_calls st)\<rparr>, nw_stamp w (ns_calls st)))"

text \<open>What a client does with one request \<open>msg\<close> on a connection of its own. The server handles the
  connection; a server that never answers leaves the client waiting.\<close>

definition over_tcp :: "net_world \<Rightarrow> network_message \<Rightarrow> (net_reach \<Rightarrow> mailbox_net_error + 'a) \<Rightarrow> 'a net_run" where
  "over_tcp w msg request st =
     (let bc = nw_bincode w; env = net_env w st; sv = ns_tcp st
      in map_option (\<lambda>sv'. (request (reaches_server bc env sv), st\<lparr>ns_tcp := sv', ns_calls := ns_calls st + 1\<rparr>))
           (case bc_enc bc msg of
              Inl _ \<Rightarrow> Some sv
            | Inr bs \<Rightarrow> map_option fst (server_run bc env sv (framed bs))))"

text \<open>The client of UDP waits for a datagram without a time limit.\<close>

definition over_udp :: "net_world \<Rightarrow> network_message \<Rightarrow> (net_reach \<Rightarrow> mailbox_net_error + 'a) \<Rightarrow> 'a net_run" where
  "over_udp w msg request st =
     (let bc = nw_bincode w; env = net_env w st;
          reach = (\<lambda>answer. \<lparr>nr_connect = (\<lambda>_. Inl UnexpectedEof), nr_peer = (\<lambda>s. s), nr_udp_bind = Inr (),
            nr_udp_exchange = (\<lambda>_ _. answer)\<rparr>)
      in case ns_udp st of
           None \<Rightarrow> None
         | Some sv \<Rightarrow>
             (case bc_enc bc msg of
                Inl _ \<Rightarrow> Some (request (reach (Inl UnexpectedEof)), st)
              | Inr packet \<Rightarrow>
                  (case udp_server bc env (\<lambda>_ _. True) [(''client'', packet)] sv of
                     Some (sv', [(_, answer)]) \<Rightarrow>
                       Some (request (reach (Inr answer)), st\<lparr>ns_udp := Some sv', ns_calls := ns_calls st + 1\<rparr>)
                   | _ \<Rightarrow> None)))"

definition net_send :: "net_world \<Rightarrow> protocol \<Rightarrow> string \<Rightarrow> string \<Rightarrow> string \<Rightarrow> unit net_run" where
  "net_send w proto to_addr from_addr text =
     (let request = (\<lambda>port net. client_send (nw_bincode w) net to_addr from_addr (string_bytes text)
            (mailbox_client_new (''127.0.0.1:'' @ port) proto));
          msg = SendMessage to_addr from_addr (string_bytes text) None
      in case proto of Tcp \<Rightarrow> over_tcp w msg (request ''19090'') | Udp \<Rightarrow> over_udp w msg (request ''19091''))"

definition net_send_subject :: "net_world \<Rightarrow> string \<Rightarrow> string \<Rightarrow> string \<Rightarrow> string \<Rightarrow> unit net_run" where
  "net_send_subject w to_addr from_addr subject text =
     over_tcp w (SendMessage to_addr from_addr (string_bytes text) (Some subject))
       (\<lambda>net. client_send_with_subject (nw_bincode w) net to_addr from_addr subject (string_bytes text)
          (mailbox_client_new ''127.0.0.1:19090'' Tcp))"

definition net_receive :: "net_world \<Rightarrow> protocol \<Rightarrow> string \<Rightarrow> message_data option net_run" where
  "net_receive w proto address =
     (let request = (\<lambda>port net. client_receive (nw_bincode w) net address
            (mailbox_client_new (''127.0.0.1:'' @ port) proto))
      in case proto of Tcp \<Rightarrow> over_tcp w (ReceiveMessage address) (request ''19090'')
         | Udp \<Rightarrow> over_udp w (ReceiveMessage address) (request ''19091''))"

text \<open>\<open>if let Some(msg) = client.receive(address).await?\<close>.\<close>

definition net_show :: "net_world \<Rightarrow> protocol \<Rightarrow> string \<Rightarrow> unit net_run" where
  "net_show w proto address =
     run_bind (net_receive w proto address) (\<lambda>received st. Some (Inr (),
       case received of None \<Rightarrow> st | Some msg \<Rightarrow> st\<lparr>ns_printed := ns_printed st @ [GotData msg]\<rparr>))"

section \<open>The program\<close>

definition tcp_config :: network_config where
  "tcp_config = network_config_default\<lparr>nk_host := ''127.0.0.1'', nk_port := 19090, nk_protocol := Tcp\<rparr>"

definition udp_config :: network_config where
  "udp_config = network_config_default\<lparr>nk_host := ''127.0.0.1'', nk_port := 19091, nk_protocol := Udp\<rparr>"

definition net_setup :: "net_world \<Rightarrow> mailbox_net_error + net_state" where
  "net_setup w =
     and_then (map_err (\<lambda>e. MNIo (IoError e)) (nw_temp_dir w)) (\<lambda>dir.
     and_then (map_err MNMailbox (mailbox_system_new (out_os (nw_out w)) dir)) (\<lambda>sys.
       Inr \<lparr>ns_dir = dir, ns_tcp = mailbox_server_new tcp_config sys, ns_udp = None, ns_printed = [], ns_calls = 0\<rparr>))"

definition start_udp_server :: "net_world \<Rightarrow> unit net_run" where
  "start_udp_server w st =
     Some (case mailbox_system_new (out_os (nw_out w)) (ns_dir st) of
        Inl e \<Rightarrow> (Inl (MNMailbox e), st)
      | Inr sys \<Rightarrow> (Inr (), st\<lparr>ns_udp := Some (mailbox_server_new udp_config sys)\<rparr>))"

definition tcp_exchange_scenario :: "net_world \<Rightarrow> unit net_run" where
  "tcp_exchange_scenario w =
     run_bind (net_send w Tcp ''bob@dolda'' ''alice@dolda'' ''Hello Bob from remote Alice via TCP!'') (\<lambda>_.
       net_show w Tcp ''bob@dolda'')"

definition subject_scenario :: "net_world \<Rightarrow> unit net_run" where
  "subject_scenario w =
     run_bind (net_send_subject w ''charlie@dolda'' ''alice@dolda'' ''Meeting Request'' ''Can we meet tomorrow at 2pm?'') (\<lambda>_.
       net_show w Tcp ''charlie@dolda'')"

definition udp_scenario :: "net_world \<Rightarrow> unit net_run" where
  "udp_scenario w =
     run_bind (start_udp_server w) (\<lambda>_.
     run_bind (net_send w Udp ''bob@dolda'' ''alice@dolda'' ''Fast message via UDP!'') (\<lambda>_.
       net_show w Udp ''bob@dolda''))"

definition multiple_scenario :: "net_world \<Rightarrow> unit net_run" where
  "multiple_scenario w =
     run_bind (run_each (\<lambda>i. net_send w Tcp ''inbox@dolda'' ''sender@dolda'' (''Message number '' @ nat_string i)) [1..<6]) (\<lambda>_.
       run_each (\<lambda>_. net_show w Tcp ''inbox@dolda'') [1 :: nat..<6])"

definition latency_scenario :: "net_world \<Rightarrow> unit net_run" where
  "latency_scenario w =
     run_each (\<lambda>proto. run_bind (net_send w proto ''perf@dolda'' ''test@dolda'' ''test'') (\<lambda>_.
       run_bind (net_receive w proto ''perf@dolda'') (\<lambda>_. run_return ()))) [Tcp, Udp]"

definition network_example :: "net_world \<Rightarrow> ((mailbox_net_error + unit) \<times> net_line list) option" where
  "network_example w =
     (case net_setup w of
        Inl e \<Rightarrow> Some (Inl e, [])
      | Inr st \<Rightarrow>
          map_option (\<lambda>(res, st'). (res, ns_printed st'))
            (run_bind (tcp_exchange_scenario w) (\<lambda>_.
             run_bind (subject_scenario w) (\<lambda>_.
             run_bind (udp_scenario w) (\<lambda>_.
             run_bind (multiple_scenario w) (\<lambda>_. latency_scenario w)))) st))"

section \<open>The run\<close>

lemma over_tcp_answered:
  assumes "carries (nw_bincode w) (nk_max_message_size (sv_config (ns_tcp st))) msg" "carries (nw_bincode w) n response"
    and "handle_message (fst (net_env w st 0)) (snd (net_env w st 0)) msg (ns_tcp st) = Some (response, sv1)"
  shows "over_tcp w msg request st = Some (request (reaches_server (nw_bincode w) (net_env w st) (ns_tcp st)),
      st\<lparr>ns_tcp := sv1, ns_calls := ns_calls st + 1\<rparr>)"
    and "mcl_protocol client = Tcp \<Longrightarrow>
      client_request (nw_bincode w) (reaches_server (nw_bincode w) (net_env w st) (ns_tcp st)) client msg = Inr response"
proof -
  obtain bs where bs: "bc_enc (nw_bincode w) msg = Inr bs" "bc_dec (nw_bincode w) bs = Inr msg"
    "length bs \<le> nk_max_message_size (sv_config (ns_tcp st))" "length bs < 2 ^ 32"
    using assms(1) by (rule carriesE)
  obtain rs where rs: "bc_enc (nw_bincode w) response = Inr rs" using assms(2) by (rule carriesE)
  show "over_tcp w msg request st = Some (request (reaches_server (nw_bincode w) (net_env w st) (ns_tcp st)),
      st\<lparr>ns_tcp := sv1, ns_calls := ns_calls st + 1\<rparr>)"
    using server_run_one [where env = "net_env w st", OF bs assms(3) rs] by (simp add: over_tcp_def bs(1))
  show "client_request (nw_bincode w) (reaches_server (nw_bincode w) (net_env w st) (ns_tcp st)) client msg = Inr response"
    if "mcl_protocol client = Tcp" using tcp_exchange(1) [where env = "net_env w st", OF assms(1,2) that assms(3)] .
qed

lemma fresh_handle:
  assumes "mailbox_system_new (out_os out) dir = Inr sys0" "mx_default_config (sv_system sv) = mx_default_config sys0"
    and "mx_base_dir (sv_system sv) = dir" "os_willing (out_os out)"
    and "map_of (mx_mailboxes (sv_system sv)) (address_of u) = None" "map_of (sv_mailboxes sv) (address_of u) = None"
    and "\<not> contains_str ''..'' dir" "CHR 0x00 \<notin> set dir"
  shows "\<exists>sys'. get_or_create_mailbox (out_os out) (address_of u) sv = (Inr \<lparr>mb_address = address_of u, mb_read_offset = 0\<rparr>,
      sv\<lparr>sv_system := sys', sv_mailboxes := hash_insert (address_of u) \<lparr>mb_address = address_of u, mb_read_offset = 0\<rparr>
        (sv_mailboxes sv)\<rparr>)
    \<and> mailbox_holds out sys' (address_of u) []
    \<and> (\<forall>a. a \<noteq> address_of u \<longrightarrow> map_of (mx_mailboxes sys') a = map_of (mx_mailboxes (sv_system sv)) a)
    \<and> mx_default_config sys' = mx_default_config sys0 \<and> mx_base_dir sys' = dir"
proof -
  from create_user_ok [OF assms(1-5,7,8)] obtain sys' where
    "create_mailbox (out_os out) (address_of u) (sv_system sv) = (Inr \<lparr>mb_address = address_of u, mb_read_offset = 0\<rparr>, sys')"
    "mailbox_holds out sys' (address_of u) []"
    "\<forall>a. a \<noteq> address_of u \<longrightarrow> map_of (mx_mailboxes sys') a = map_of (mx_mailboxes (sv_system sv)) a"
    "mx_default_config sys' = mx_default_config sys0" "mx_base_dir sys' = dir" by blast
  moreover from this(1) have "get_or_create_mailbox (out_os out) (address_of u) sv = (Inr \<lparr>mb_address = address_of u, mb_read_offset = 0\<rparr>,
      sv\<lparr>sv_system := sys', sv_mailboxes := hash_insert (address_of u) \<lparr>mb_address = address_of u, mb_read_offset = 0\<rparr>
        (sv_mailboxes sv)\<rparr>)"
    using assms(5,6) by (simp add: get_or_create_mailbox_def get_mailbox_def mailbox_address_new_def Let_def)
  ultimately show ?thesis by blast
qed

text \<open>A request to receive from a mailbox that nothing was sent to.\<close>

lemma receive_from_empty:
  assumes "get_or_create_mailbox (out_os out) addr sv = (Inr \<lparr>mb_address = addr, mb_read_offset = 0\<rparr>, sv')"
    and "mailbox_holds out (sv_system sv') addr []"
  shows "\<exists>sv''. handle_receive out addr sv
    = (ErrorResponse ''Failed to receive: PersistQ error: Global offset 0 not found'', sv'')"
proof -
  let ?mb = "\<lparr>mb_address = addr, mb_read_offset = 0\<rparr>"
  obtain q where q: "map_of (mx_mailboxes (sv_system sv')) addr = Some q" "single_holds (out_crc out) q []"
    using assms(2) by (auto simp: mailbox_holds_def)
  have "queue_holds (out_crc out) q [] (\<lambda>_. [[]])" using q(2) by (simp add: single_holds_def)
  moreover have "nat_string 0 = ''0''" by (subst nat_string.simps) code_simp
  ultimately have "persistq_read clock 0 q = Inl ''Global offset 0 not found''" for clock
    by (subst read_unknown) simp_all
  then have "receive out (sv_system sv') ?mb = (Inl (PersistQError ''Global offset 0 not found''), ?mb)"
    using q(1) by (simp add: receive_def read_next_def queue_of_def)
  then show ?thesis using assms(1) by (simp add: handle_receive_def)
qed

text \<open>A message to Bob, who has no mailbox: only the sender gets one.\<close>

lemma send_to_stranger:
  assumes "mailbox_system_new (out_os out) dir = Inr (sv_system sv)" "mx_mailboxes (sv_system sv) = []" "sv_mailboxes sv = []"
    and "mx_base_dir (sv_system sv) = dir" "os_willing (out_os out)" "\<not> contains_str ''..'' dir" "CHR 0x00 \<notin> set dir"
  shows "\<exists>sv'. handle_message out stamp (SendMessage ''bob@dolda'' ''alice@dolda'' body None) sv
      = Some (ErrorResponse ''Failed to send: Mailbox not found: bob@dolda'', sv')
    \<and> mx_default_config (sv_system sv') = mx_default_config (sv_system sv) \<and> mx_base_dir (sv_system sv') = dir
    \<and> map_of (mx_mailboxes (sv_system sv')) (address_of Bob) = None \<and> map_of (sv_mailboxes sv') (address_of Bob) = None
    \<and> sv_config sv' = sv_config sv"
proof -
  let ?new = "\<lparr>mb_address = address_of Alice, mb_read_offset = 0\<rparr>"
  have none: "map_of (mx_mailboxes (sv_system sv)) (address_of u) = None" "map_of (sv_mailboxes sv) (address_of u) = None" for u
    by (simp_all add: assms(2,3))
  from fresh_handle [OF assms(1) refl assms(4,5) none assms(6,7)] obtain sys where
    "get_or_create_mailbox (out_os out) (address_of Alice) sv
      = (Inr ?new, sv\<lparr>sv_system := sys, sv_mailboxes := hash_insert (address_of Alice) ?new (sv_mailboxes sv)\<rparr>)"
    and sys: "mx_default_config sys = mx_default_config (sv_system sv)" "mx_base_dir sys = dir"
    and others: "\<forall>a. a \<noteq> address_of Alice \<longrightarrow> map_of (mx_mailboxes sys) a = map_of (mx_mailboxes (sv_system sv)) a" by blast
  moreover define sv1 where "sv1 = sv\<lparr>sv_system := sys, sv_mailboxes := hash_insert (address_of Alice) ?new (sv_mailboxes sv)\<rparr>"
  ultimately have alice: "get_or_create_mailbox (out_os out) ''alice@dolda'' sv
      = (Inr \<lparr>mb_address = ''alice@dolda'', mb_read_offset = 0\<rparr>, sv1)" by simp
  have sv1: "sv_system sv1 = sys" "map_of (sv_mailboxes sv1) (address_of Bob) = None" "sv_config sv1 = sv_config sv"
    by (simp_all add: sv1_def assms(3))
  have "map_of (mx_mailboxes sys) (address_of Bob) = map_of (mx_mailboxes (sv_system sv)) (address_of Bob)"
    by (rule others [rule_format]) simp
  then have bob: "map_of (mx_mailboxes sys) (address_of Bob) = None" by (simp only: none)
  then have "route_message out (mailbox_message_new stamp from_addr ''bob@dolda'' body) sys
      = Some (Inl (MailboxNotFound ''bob@dolda''), sys)" for stamp from_addr
    by (simp add: route_message_def mailbox_message_new_def)
  then have "handle_message out stamp (SendMessage ''bob@dolda'' ''alice@dolda'' body None) sv
      = Some (ErrorResponse ''Failed to send: Mailbox not found: bob@dolda'', sv1\<lparr>sv_system := sys\<rparr>)"
    by (simp add: handle_send_def alice send_to_def mailbox_address_new_def sv1(1))
  then show ?thesis using sys bob sv1 by simp
qed

lemma receive_by_newcomer:
  assumes "mailbox_system_new (out_os out) dir = Inr sys0" "mx_default_config (sv_system sv) = mx_default_config sys0"
    and "mx_base_dir (sv_system sv) = dir" "os_willing (out_os out)"
    and "map_of (mx_mailboxes (sv_system sv)) (address_of u) = None" "map_of (sv_mailboxes sv) (address_of u) = None"
    and "\<not> contains_str ''..'' dir" "CHR 0x00 \<notin> set dir"
  shows "\<exists>sv'. handle_message out stamp (ReceiveMessage (address_of u)) sv
    = Some (ErrorResponse ''Failed to receive: PersistQ error: Global offset 0 not found'', sv')"
proof -
  let ?new = "\<lparr>mb_address = address_of u, mb_read_offset = 0\<rparr>"
  from fresh_handle [OF assms] obtain sys where
    "get_or_create_mailbox (out_os out) (address_of u) sv
      = (Inr ?new, sv\<lparr>sv_system := sys, sv_mailboxes := hash_insert (address_of u) ?new (sv_mailboxes sv)\<rparr>)"
    "mailbox_holds out sys (address_of u) []" by blast
  then show ?thesis
    using receive_from_empty [of out "address_of u" sv
        "sv\<lparr>sv_system := sys, sv_mailboxes := hash_insert (address_of u) ?new (sv_mailboxes sv)\<rparr>"] by auto
qed

text \<open>C17: The network example ends at its first receive. The message to Bob is lost, since Bob has no
  mailbox on the server, but the client reports success; the request to receive it creates the
  mailbox, finds nothing, and the error that the server answers is the error of the program,
  which has printed no message. (The system grants every request, and \<open>bincode\<close> reads back the
  four messages that travel.)\<close>

theorem network_example_fails:
  assumes "os_willing (out_os (nw_out w))" "nw_temp_dir w = Inr dir" "\<not> contains_str ''..'' dir" "CHR 0x00 \<notin> set dir"
    and "\<forall>msg \<in> {SendMessage ''bob@dolda'' ''alice@dolda'' (string_bytes ''Hello Bob from remote Alice via TCP!'') None,
        ErrorResponse ''Failed to send: Mailbox not found: bob@dolda'', ReceiveMessage ''bob@dolda'',
        ErrorResponse ''Failed to receive: PersistQ error: Global offset 0 not found''}.
      carries (nw_bincode w) (10 * 1024 * 1024) msg"
  shows "network_example w
    = Some (Inl (MNMailbox (MailboxNotFound ''Failed to receive: PersistQ error: Global offset 0 not found'')), [])"
proof -
  let ?out = "nw_out w" and ?send = "SendMessage ''bob@dolda'' ''alice@dolda'' (string_bytes ''Hello Bob from remote Alice via TCP!'') None"
  let ?lost = "ErrorResponse ''Failed to receive: PersistQ error: Global offset 0 not found''"
  let ?limit = "10 * 1024 * 1024"
  have same_os: "out_os (fst (net_env w st i)) = out_os ?out" for st i by (simp add: net_env_def)
  obtain sys0 where sys0: "mailbox_system_new (out_os ?out) dir = Inr sys0" "mx_base_dir sys0 = dir" "mx_mailboxes sys0 = []"
    using assms(1) by (simp add: mailbox_system_new_def os_willing_def)
  define sv0 where "sv0 = mailbox_server_new tcp_config sys0"
  have sv0: "nk_max_message_size (sv_config sv0) = ?limit" "sv_system sv0 = sys0" "sv_mailboxes sv0 = []"
    by (simp_all add: sv0_def mailbox_server_new_def tcp_config_def network_config_default_def)
  define st0 where "st0 = \<lparr>ns_dir = dir, ns_tcp = sv0, ns_udp = None, ns_printed = [], ns_calls = 0\<rparr>"
  have st0: "net_setup w = Inr st0" "ns_tcp st0 = sv0" "ns_printed st0 = []"
    by (simp_all add: net_setup_def assms(2) sys0(1) st0_def sv0_def)
  have "mailbox_system_new (out_os (fst (net_env w st0 0))) dir = Inr (sv_system sv0)" "mx_mailboxes (sv_system sv0) = []"
    "sv_mailboxes sv0 = []" "mx_base_dir (sv_system sv0) = dir" "os_willing (out_os (fst (net_env w st0 0)))"
    using sys0 sv0 assms(1) by (simp_all add: same_os)
  from send_to_stranger [OF this assms(3,4), of "snd (net_env w st0 0)"]
  obtain sv1 where sent: "handle_message (fst (net_env w st0 0)) (snd (net_env w st0 0)) ?send (ns_tcp st0)
      = Some (ErrorResponse ''Failed to send: Mailbox not found: bob@dolda'', sv1)"
    and sv1: "mx_default_config (sv_system sv1) = mx_default_config sys0" "mx_base_dir (sv_system sv1) = dir"
      "map_of (mx_mailboxes (sv_system sv1)) (address_of Bob) = None" "map_of (sv_mailboxes sv1) (address_of Bob) = None"
      "nk_max_message_size (sv_config sv1) = ?limit"
    unfolding st0(2) sv0(2) by (metis sv0(1))
  define st1 where "st1 = st0\<lparr>ns_tcp := sv1, ns_calls := ns_calls st0 + 1\<rparr>"
  have st1: "ns_tcp st1 = sv1" "ns_printed st1 = []" by (simp_all add: st1_def st0(3))
  have "mailbox_system_new (out_os (fst (net_env w st1 0))) dir = Inr sys0" "os_willing (out_os (fst (net_env w st1 0)))"
    by (simp_all add: same_os sys0(1) assms(1))
  from receive_by_newcomer [OF this(1) sv1(1,2) this(2) sv1(3,4) assms(3,4), of "snd (net_env w st1 0)"]
  obtain sv2 where received: "handle_message (fst (net_env w st1 0)) (snd (net_env w st1 0)) (ReceiveMessage ''bob@dolda'')
      (ns_tcp st1) = Some (?lost, sv2)"
    unfolding st1(1) address_of.simps by blast
  have carried: "carries (nw_bincode w) (nk_max_message_size (sv_config (ns_tcp st0))) ?send"
    "carries (nw_bincode w) ?limit (ErrorResponse ''Failed to send: Mailbox not found: bob@dolda'')"
    "carries (nw_bincode w) (nk_max_message_size (sv_config (ns_tcp st1))) (ReceiveMessage ''bob@dolda'')"
    "carries (nw_bincode w) ?limit ?lost"
    using assms(5) by (simp_all add: st0(2) st1(1) sv0(1) sv1(5))
  note first = over_tcp_answered [OF carried(1,2) sent] and second = over_tcp_answered [OF carried(3,4) received]
  have "net_send w Tcp ''bob@dolda'' ''alice@dolda'' ''Hello Bob from remote Alice via TCP!'' st0 = Some (Inr (), st1)"
    by (simp add: net_send_def first(1) client_send_def first(2) mailbox_client_new_def st1_def)
  moreover have "\<exists>st2. net_receive w Tcp ''bob@dolda'' st1
      = Some (Inl (MNMailbox (MailboxNotFound ''Failed to receive: PersistQ error: Global offset 0 not found'')), st2)
      \<and> ns_printed st2 = []"
    by (simp add: net_receive_def second(1) client_receive_def second(2) mailbox_client_new_def st1(2))
  ultimately show ?thesis
    by (auto simp: network_example_def st0(1) tcp_exchange_scenario_def net_show_def run_bind_def)
qed

definition travelling_messages :: "network_message list" where
  "travelling_messages =
     [SendMessage ''bob@dolda'' ''alice@dolda'' (string_bytes ''Hello Bob from remote Alice via TCP!'') None,
      ErrorResponse ''Failed to send: Mailbox not found: bob@dolda'', ReceiveMessage ''bob@dolda'',
      ErrorResponse ''Failed to receive: PersistQ error: Global offset 0 not found'']"

definition demo_net :: net_world where
  "demo_net = \<lparr>nw_out = demo_outside, nw_clock = (\<lambda>i. (of_nat i, of_nat i + 2)), nw_stamp = (\<lambda>i. (''id'', of_nat i)),
     nw_bincode = listed_bincode travelling_messages, nw_temp_dir = Inr ''/tmp/d''\<rparr>"

theorem network_example_fails_witness:
  "\<exists>e. network_example demo_net = Some (Inl (MNMailbox e), [])"
proof -
  have world: "os_willing (out_os (nw_out demo_net))" "nw_temp_dir demo_net = Inr ''/tmp/d''"
    "\<not> contains_str ''..'' ''/tmp/d''" "CHR 0x00 \<notin> set ''/tmp/d''"
    by (simp_all add: demo_net_def demo_outside_def demo_os_willing contains_str_def)
  have "nw_bincode demo_net = listed_bincode travelling_messages" "length travelling_messages < 256"
    by (simp_all add: demo_net_def) (simp add: travelling_messages_def)
  then have "\<forall>msg \<in> set travelling_messages. carries (nw_bincode demo_net) (10 * 1024 * 1024) msg"
    by (auto intro!: listed_carried)
  note carried = this [unfolded travelling_messages_def list.set]
  show ?thesis by (rule exI) (rule network_example_fails [OF world carried])
qed

end
