(* ===== verification/Manager_Filling.thy ===== *)
theory Manager_Filling
  imports Storage
begin

text \<open>
  What becomes of a segment manager that is given many records of similar sizes: its segments take
  the same number of records each. The programs that write such records rest on this.
\<close>

lemma records_size_between:
  "\<forall>r \<in> set rs. lo \<le> serialized_size r \<and> serialized_size r \<le> hi \<Longrightarrow>
    lo * length rs \<le> records_size rs \<and> records_size rs \<le> hi * length rs"
  by (induction rs) auto

text \<open>A manager that was given \<open>n\<close> records of similar sizes, of which each segment takes \<open>c\<close>.\<close>

definition evenly :: "(bytes \<Rightarrow> u32) \<Rightarrow> nat \<Rightarrow> nat \<Rightarrow> nat \<Rightarrow> usize \<Rightarrow> segment_manager \<Rightarrow> nat \<Rightarrow> bool" where
  "evenly crc c lo hi segment_size m n \<longleftrightarrow>
     (\<exists>rss. manager_holds crc m rss \<and> sm_segment_size m = segment_size \<and> length (concat rss) = n
        \<and> n = length (last rss) + c * (length rss - 1) \<and> length (last rss) \<le> c
        \<and> (last rss = [] \<longrightarrow> length rss = 1)
        \<and> (\<forall>r \<in> set (concat rss). lo \<le> serialized_size r \<and> serialized_size r \<le> hi))"

lemma manager_append_keeps_size:
  "manager_append_record crc io r m = Some y \<Longrightarrow> sm_segment_size (snd y) = sm_segment_size m"
proof (rule manager_append_record.raw_induct [where P = "\<lambda>crc io r m y. sm_segment_size (snd y) = sm_segment_size m", rotated])
  fix f and crc :: "bytes \<Rightarrow> u32" and io :: "string \<Rightarrow> io_error + bytes" and r m
    and y :: "(storage_error + record_offset) \<times> segment_manager"
  assume IH: "\<And>crc io r m y. f crc io r m = Some y \<Longrightarrow> sm_segment_size (snd y) = sm_segment_size m"
    and eq: "(case append_fast_path crc r m of
          (None, m1) \<Rightarrow> if current_has_space m1 (serialized_size r) then f crc io r m1
            else (case create_new_segment io m1 of (Inl e, m2) \<Rightarrow> Some (Inl e, m2)
              | (Inr x, m2) \<Rightarrow> f crc io r m2)
        | (Some res, m1) \<Rightarrow> Some (res, m1)) = Some y"
  have fast: "sm_segment_size (snd (append_fast_path crc r m)) = sm_segment_size m"
    by (auto simp: append_fast_path_def Let_def split: option.split prod.split sum.split storage_error.split)
  have create: "sm_segment_size (snd (create_new_segment io m1)) = sm_segment_size m1" for m1
    by (auto simp: create_new_segment_def Let_def split: sum.split)
  obtain res m1 where m1: "append_fast_path crc r m = (res, m1)" by fastforce
  obtain res2 m2 where m2: "create_new_segment io m1 = (res2, m2)" by fastforce
  from fast create [of m1] have "sm_segment_size m1 = sm_segment_size m" "sm_segment_size m2 = sm_segment_size m1"
    by (simp_all add: m1 m2)
  then show "sm_segment_size (snd y) = sm_segment_size m"
    using eq IH by (auto simp: m1 m2 split: option.splits if_splits sum.splits)
qed simp

lemma segment_manager_new_total:
  assumes "\<forall>p. \<exists>old. io p = Inr old"
  shows "\<exists>m. segment_manager_new (Inr ()) io pid segment_size dir idx = Inr m"
proof -
  obtain old where "io (segment_path dir pid 0) = Inr old" using assms by blast
  then show ?thesis by (simp add: segment_manager_new_def create_new_segment_def record_segment_new_def)
qed

lemma evenly_new:
  assumes "segment_manager_new mkdir io pid segment_size dir idx = Inr m" "unat segment_size < 2 ^ 63"
  shows "evenly crc c lo hi segment_size m 0"
  unfolding evenly_def using segment_manager_new_holds [OF assms] by (intro exI [of _ "[[]]"]) simp

lemma evenly_append:
  assumes even: "evenly crc c lo hi segment_size m n"
    and sizes: "hi * c \<le> unat segment_size" "unat segment_size < lo * (c + 1) \<or> n < c" "0 < c"
    and r: "record_ok r" "lo \<le> serialized_size r" "serialized_size r \<le> hi"
    and io: "\<forall>p. \<exists>old. io p = Inr old"
  shows "\<exists>off m'. manager_append_record crc io r m = Some (Inr off, m') \<and> evenly crc c lo hi segment_size m' (n + 1)"
proof -
  obtain rss where rss: "manager_holds crc m rss" "sm_segment_size m = segment_size" "length (concat rss) = n"
    "n = length (last rss) + c * (length rss - 1)" "length (last rss) \<le> c" "last rss = [] \<longrightarrow> length rss = 1"
    "\<forall>r \<in> set (concat rss). lo \<le> serialized_size r \<and> serialized_size r \<le> hi"
    using even by (auto simp: evenly_def)
  have ne: "rss \<noteq> []" by (rule manager_holds_last(2) [OF rss(1)])
  let ?fits = "records_size (last rss) + serialized_size r \<le> unat segment_size"
  have last: "\<forall>r \<in> set (last rss). lo \<le> serialized_size r \<and> serialized_size r \<le> hi"
    using rss(7) ne by auto
  note between = records_size_between [OF last]
  have fits: "?fits \<longleftrightarrow> length (last rss) < c"
  proof
    assume "length (last rss) < c"
    then have "hi * (length (last rss) + 1) \<le> hi * c" by (intro mult_le_mono) auto
    then have "hi * length (last rss) + hi \<le> hi * c" by simp
    with between r(3) sizes(1) show ?fits by linarith
  next
    assume f: ?fits
    show "length (last rss) < c"
    proof (rule ccontr)
      assume "\<not> length (last rss) < c"
      with rss(5) have len: "length (last rss) = c" by simp
      with rss(4) have "\<not> n < c" by simp
      with sizes(2) have "unat segment_size < lo * c + lo" by simp
      moreover have "lo * c \<le> records_size (last rss)" using between len by simp
      ultimately show False using f r(2) by linarith
    qed
  qed
  have "hi * 1 \<le> hi * c" by (rule mult_le_mono2) (use sizes(3) in simp)
  with sizes(1) r(3) have small: "serialized_size r \<le> unat (sm_segment_size m)" unfolding rss(2) by linarith
  let ?rss' = "if ?fits then butlast rss @ [last rss @ [r]] else rss @ [[r]]"
  obtain old where old: "io (next_segment_path m) = Inr old" using io by blast
  have "\<exists>off m'. manager_append_record crc io r m = Some (Inr off, m') \<and> manager_holds crc m' ?rss'"
    using manager_append_fits [OF rss(1) r(1), of io] manager_append_rollover [OF rss(1) r(1) _ small, of io old] old
    by (cases ?fits) (auto simp: rss(2))
  then obtain m' off rss' where m': "manager_append_record crc io r m = Some (Inr off, m')" "manager_holds crc m' rss'"
    "rss' = ?rss'" by blast
  have "concat rss = concat (butlast rss) @ last rss"
    using ne by (metis append_butlast_last_id concat_append concat.simps append_Nil2)
  then have cat: "concat rss' = concat rss @ [r]" by (simp add: m'(3))
  have "sm_segment_size m' = segment_size" using manager_append_keeps_size [OF m'(1)] rss(2) by simp
  moreover have "n + 1 = length (last rss') + c * (length rss' - 1) \<and> length (last rss') \<le> c \<and> last rss' \<noteq> []"
  proof (cases "length (last rss) < c")
    case True
    then show ?thesis using rss(4) ne by (simp add: m'(3) fits)
  next
    case False
    with rss(5) have "length (last rss) = c" by simp
    moreover have "c + c * (length rss - 1) = c * length rss" using ne by (cases rss) simp_all
    ultimately show ?thesis using rss(4) False sizes(3) by (simp add: m'(3) fits)
  qed
  moreover have "length (concat rss') = n + 1" using cat rss(3) by simp
  moreover have "\<forall>r \<in> set (concat rss'). lo \<le> serialized_size r \<and> serialized_size r \<le> hi"
    using rss(7) r by (simp only: cat) auto
  ultimately have "evenly crc c lo hi segment_size m' (n + 1)"
    using m'(2) unfolding evenly_def by blast
  with m'(1) show ?thesis by blast
qed

lemma evenly_total: "evenly crc c lo hi segment_size m n \<Longrightarrow> ms_total_records (manager_stats m) = of_nat n"
  using manager_stats_holds(1) by (fastforce simp: evenly_def)

lemma evenly_stats:
  assumes "evenly crc c lo hi segment_size m n" "0 < c" "0 < n"
  shows "ms_total_records (manager_stats m) = of_nat n" and "ms_segment_count (manager_stats m) = (n - 1) div c + 1"
    and "lo = hi \<Longrightarrow> ms_total_bytes (manager_stats m) = of_nat (lo * n)"
proof -
  obtain rss where rss: "manager_holds crc m rss" "length (concat rss) = n"
    "n = length (last rss) + c * (length rss - 1)" "length (last rss) \<le> c" "last rss = [] \<longrightarrow> length rss = 1"
    "\<forall>r \<in> set (concat rss). lo \<le> serialized_size r \<and> serialized_size r \<le> hi"
    using assms(1) by (auto simp: evenly_def)
  show "ms_total_records (manager_stats m) = of_nat n"
    using manager_stats_holds(1) [OF rss(1)] rss(2) by simp
  show "ms_total_bytes (manager_stats m) = of_nat (lo * n)" if "lo = hi"
  proof -
    have "records_size (concat rss) = lo * n" using records_size_between [OF rss(6)] rss(2) that by (intro antisym) simp_all
    then show ?thesis using manager_stats_holds(2) [OF rss(1)] by (simp only:)
  qed
  have "last rss \<noteq> []" using rss(3,5) assms(3) by auto
  then have l: "0 < length (last rss)" by simp
  have "n - 1 = (length (last rss) - 1) + c * (length rss - 1)" using rss(3) l by linarith
  moreover have "length (last rss) - 1 < c" using l rss(4) by linarith
  ultimately have "(n - 1) div c = length rss - 1" by simp
  moreover have "length rss = length (sm_segments m)" by (rule manager_holds_length [OF rss(1)])
  moreover have "rss \<noteq> []" by (rule manager_holds_last(2) [OF rss(1)])
  ultimately show "ms_segment_count (manager_stats m) = (n - 1) div c + 1"
    by (cases rss) (simp_all add: manager_stats_def)
qed

end
