(* ===== verification/Production_Demo.thy ===== *)
theory Production_Demo
  imports Manager_Filling Health
begin

text \<open>
  The program \<open>examples/production_demo.rs\<close>: four demonstrations on segments and segment managers,
  which report their progress to the health server. The answers of the system, the clock and the
  order in which the concurrent writers get their turns are arguments. \<open>None\<close> is a run that does
  not return. An append of a concurrent writer is one step here; its own steps are in
  \<open>Append_Race\<close>. The tasks that serve and check the health in the background are left out:
  they read the server, or update components that this program does not register.
\<close>

section \<open>The state of the program\<close>

text \<open>What is printed: the lines with figures, in the order of the code.\<close>

datatype production_line = Wrote nat u64 | SegmentStats u64 u64 f64 | Verified nat | Flushed
  | Progress u64 nat | FinalStats u64 nat f64 | ConcurrentTotal u64 | Performance f64 f64 f64 f64

datatype production_error = ProductionRecord record_error | ProductionStorage storage_error
  | ProductionIo io_error | ProductionJoin \<comment> \<open>a task panicked\<close>

record production_state =
  pd_health :: health_server
  pd_printed :: "production_line list"
  pd_calls :: nat \<comment> \<open>readings of the clock so far\<close>

record production_world =
  pw_crc :: "bytes \<Rightarrow> u32"
  pw_clock :: "nat \<Rightarrow> u64"
  pw_start :: u64 \<comment> \<open>in seconds\<close>
  pw_elapsed :: f64 \<comment> \<open>of the large dataset, in seconds\<close>
  pw_mkdir :: "string \<Rightarrow> io_error + unit"
  pw_open :: "string \<Rightarrow> io_error + bytes"
  pw_flush :: "string \<Rightarrow> io_error + unit"
  pw_turns :: "nat list" \<comment> \<open>the writer of each turn\<close>
  pw_version :: string
  pw_ctrl_c :: "io_error + unit"

type_synonym 'a production = "(production_state, production_error, 'a) run"

definition production_print :: "production_line \<Rightarrow> unit production" where
  "production_print line st = Some (Inr (), st\<lparr>pd_printed := pd_printed st @ [line]\<rparr>)"

definition report_health :: "production_world \<Rightarrow> string \<Rightarrow> health_status \<Rightarrow> string \<Rightarrow> unit production" where
  "report_health w name status message st = Some (Inr (), st\<lparr>
     pd_health := update_component (pw_clock w (pd_calls st)) name status message (pd_health st),
     pd_calls := pd_calls st + 1\<rparr>)"

definition new_record :: "production_world \<Rightarrow> bytes \<Rightarrow> drecord production" where
  "new_record w data st =
     Some (map_err ProductionRecord (record_new (pw_clock w (pd_calls st)) data), st\<lparr>pd_calls := pd_calls st + 1\<rparr>)"

section \<open>The demonstrations\<close>

definition write_to_segment :: "production_world \<Rightarrow> nat \<Rightarrow> record_segment \<Rightarrow> record_segment production" where
  "write_to_segment w i segment =
     run_bind (new_record w (string_bytes (''Record number '' @ nat_string i @ '': Hello from DOLDA!''))) (\<lambda>r.
       case append_record (pw_crc w) r segment of
         (Inl e, _) \<Rightarrow> run_try ProductionStorage (Inl e)
       | (Inr off, segment') \<Rightarrow>
           run_bind (if i < 3 then production_print (Wrote i (ro_offset off)) else run_return ())
             (\<lambda>_. run_return segment'))"

text \<open>\<open>iter_records().filter_map(|r| r.ok()).count()\<close>\<close>

definition count_records :: "production_world \<Rightarrow> record_segment \<Rightarrow> nat production" where
  "count_records w segment st =
     map_option (\<lambda>res. (map_err ProductionStorage res, st))
       (for_records (pw_crc w) segment count_readable (iter_records segment) 0)"

definition demo_single_segment :: "production_world \<Rightarrow> unit production" where
  "demo_single_segment w =
     run_bind (report_health w ''storage'' Healthy ''Running single segment demo'') (\<lambda>_.
     run_bind (run_try ProductionStorage
       (record_segment_new (pw_open w) ''/tmp/dolda_production_demo/demo1.dat'' (10 * 1024 * 1024) True)) (\<lambda>new_segment.
     run_bind (run_fold (write_to_segment w) [0..<100] new_segment) (\<lambda>segment.
     let stats = segment_stats segment in
     run_bind (production_print (SegmentStats (st_record_count stats) (st_used_bytes stats) (utilization segment))) (\<lambda>_.
     run_bind (count_records w segment) (\<lambda>count.
     run_bind (production_print (Verified count)) (\<lambda>_.
     run_bind (run_try ProductionStorage (segment_flush (pw_flush w) segment)) (\<lambda>_. production_print Flushed)))))))"

definition open_manager :: "production_world \<Rightarrow> u32 \<Rightarrow> usize \<Rightarrow> string \<Rightarrow> bool \<Rightarrow> segment_manager production" where
  "open_manager w partition_id segment_size dir indexed = run_try ProductionStorage
     (segment_manager_new (pw_mkdir w dir) (pw_open w) partition_id segment_size dir indexed)"

text \<open>A record written to a manager. An error leaves the program, and the manager with it.\<close>

definition write_to_manager :: "production_world \<Rightarrow> bytes \<Rightarrow> segment_manager \<Rightarrow> segment_manager production" where
  "write_to_manager w data m =
     run_bind (new_record w data) (\<lambda>r st.
       map_option (\<lambda>(res, m'). (map_sum ProductionStorage (\<lambda>_. m') res, st))
         (manager_append_record (pw_crc w) (pw_open w) r m))"

definition rollover_write :: "production_world \<Rightarrow> nat \<Rightarrow> segment_manager \<Rightarrow> segment_manager production" where
  "rollover_write w i m =
     run_bind (write_to_manager w (replicate 1024 0 @ string_bytes (''Record '' @ nat_string i)) m) (\<lambda>m'.
     run_bind (if (i + 1) mod 100 = 0
               then production_print (Progress (ms_total_records (manager_stats m')) (ms_segment_count (manager_stats m')))
               else run_return ()) (\<lambda>_. run_return m'))"

definition demo_segment_manager :: "production_world \<Rightarrow> unit production" where
  "demo_segment_manager w =
     run_bind (report_health w ''storage'' Healthy ''Running segment manager demo'') (\<lambda>_.
     run_bind (open_manager w 0 (128 * 1024) ''/tmp/dolda_production_demo/partition0'' True) (\<lambda>new_manager.
     run_bind (run_fold (rollover_write w) [0..<1000] new_manager) (\<lambda>manager.
     run_bind (run_try ProductionStorage (manager_flush (pw_flush w) manager)) (\<lambda>_.
     let stats = manager_stats manager in
     production_print (FinalStats (ms_total_records stats) (ms_segment_count stats) (ms_avg_utilization stats))))))"

text \<open>The concurrent writers. A writer has written some of its records, or has panicked; in its turn
  it writes the next one. The program waits for all of them.\<close>

type_synonym writers = "nat \<Rightarrow> nat option"

definition writer_turn :: "production_world \<Rightarrow> nat \<Rightarrow> writers \<times> segment_manager \<Rightarrow> (writers \<times> segment_manager) production" where
  "writer_turn w thread_id = (\<lambda>(writers, m) st.
     (case writers thread_id of
        None \<Rightarrow> Some (Inr (writers, m), st)
      | Some i \<Rightarrow>
          if i \<ge> 100 then Some (Inr (writers, m), st)
          else
            let st1 = st\<lparr>pd_calls := pd_calls st + 1\<rparr>
            in case record_new (pw_clock w (pd_calls st))
                 (string_bytes (''Thread '' @ nat_string thread_id @ '' - Record '' @ nat_string i)) of
                 Inl _ \<Rightarrow> Some (Inr (writers(thread_id := None), m), st1)
               | Inr r \<Rightarrow>
                   map_option (\<lambda>(res, m'). (Inr (case res of
                       Inl _ \<Rightarrow> (writers(thread_id := None), m')
                     | Inr _ \<Rightarrow> (writers(thread_id := Some (i + 1)), m')), st1))
                     (manager_append_record (pw_crc w) (pw_open w) r m)))"

definition join_writers :: "nat \<Rightarrow> writers \<Rightarrow> unit production" where
  "join_writers n writers st =
     (if \<exists>t < n. \<exists>i < 100. writers t = Some i then None
      else if \<exists>t < n. writers t = None then Some (Inl ProductionJoin, st)
      else Some (Inr (), st))"

definition demo_concurrent_operations :: "production_world \<Rightarrow> unit production" where
  "demo_concurrent_operations w =
     run_bind (report_health w ''storage'' Healthy ''Running concurrent demo'') (\<lambda>_.
     run_bind (open_manager w 1 (1024 * 1024) ''/tmp/dolda_production_demo/partition1'' False) (\<lambda>new_manager.
     run_bind (run_fold (writer_turn w) (filter (\<lambda>t. t < 10) (pw_turns w)) (\<lambda>_. Some 0, new_manager)) (\<lambda>(writers, manager).
     run_bind (join_writers 10 writers) (\<lambda>_.
       production_print (ConcurrentTotal (ms_total_records (manager_stats manager)))))))"

definition demo_large_dataset :: "production_world \<Rightarrow> unit production" where
  "demo_large_dataset w =
     run_bind (report_health w ''storage'' Healthy ''Running large dataset demo'') (\<lambda>_.
     run_bind (open_manager w 2 (10 * 1024 * 1024) ''/tmp/dolda_production_demo/partition2'' False) (\<lambda>new_manager.
     run_bind (run_fold (\<lambda>_. write_to_manager w (replicate 512 0)) [0..<10000] new_manager) (\<lambda>manager.
     let stats = manager_stats manager;
         megabytes = f64_div (f64_of_int (uint (ms_total_bytes stats))) (f64_of_int 1000000)
     in production_print (Performance (pw_elapsed w) (f64_div megabytes (pw_elapsed w))
          (f64_div (f64_of_int (uint (ms_total_records stats))) (pw_elapsed w)) megabytes))))"

definition production_demo :: "production_world \<Rightarrow> ((production_error + unit) \<times> production_state) option" where
  "production_demo w =
     run_bind (report_health w ''storage'' Healthy ''Initializing'') (\<lambda>_.
     run_bind (report_health w ''demo_task'' Healthy ''Starting'') (\<lambda>_.
     run_bind (run_try ProductionIo (pw_mkdir w ''/tmp/dolda_production_demo'')) (\<lambda>_.
     run_bind (demo_single_segment w) (\<lambda>_.
     run_bind (demo_segment_manager w) (\<lambda>_.
     run_bind (demo_concurrent_operations w) (\<lambda>_.
     run_bind (demo_large_dataset w) (\<lambda>_.
     run_bind (report_health w ''demo_task'' Healthy ''Completed successfully'') (\<lambda>_.
       run_try ProductionIo (pw_ctrl_c w)))))))))
     \<lparr>pd_health = register_component ''demo_task'' (register_component ''storage''
        (health_server_new (pw_start w) (pw_version w))), pd_printed = [], pd_calls = 0\<rparr>"

section \<open>Steps that succeed\<close>

lemma report_health_bind [simp]:
  "run_bind (report_health w name status message) next st = next () (st\<lparr>
     pd_health := update_component (pw_clock w (pd_calls st)) name status message (pd_health st),
     pd_calls := pd_calls st + 1\<rparr>)"
  by (simp add: run_bind_def report_health_def)

lemma production_print_bind [simp]:
  "run_bind (production_print line) next st = next () (st\<lparr>pd_printed := pd_printed st @ [line]\<rparr>)"
  by (simp add: run_bind_def production_print_def)

lemma new_record_bind:
  assumes "length data \<le> MAX_RECORD_SIZE"
  shows "run_bind (new_record w data) next st
    = next \<lparr>rec_timestamp = pw_clock w (pd_calls st), rec_data = data\<rparr> (st\<lparr>pd_calls := pd_calls st + 1\<rparr>)"
  using assms by (simp add: run_bind_def new_record_def record_new_def)

section \<open>What the demonstrations do\<close>

definition all_granted :: "production_world \<Rightarrow> bool" where
  "all_granted w \<longleftrightarrow> (\<forall>p. \<exists>old. pw_open w p = Inr old) \<and> (\<forall>p. pw_mkdir w p = Inr ()) \<and> (\<forall>p. pw_flush w p = Inr ())"

lemma write_to_manager_ok:
  assumes "all_granted w" "evenly (pw_crc w) c lo hi segment_size m n"
    and "hi * c \<le> unat segment_size" "unat segment_size < lo * (c + 1) \<or> n < c" "0 < c"
    and "lo \<le> length data + 20" "length data + 20 \<le> hi" "hi \<le> MAX_RECORD_SIZE"
  shows "\<exists>m'. write_to_manager w data m st = Some (Inr m', st\<lparr>pd_calls := pd_calls st + 1\<rparr>)
    \<and> evenly (pw_crc w) c lo hi segment_size m' (n + 1)"
proof -
  let ?r = "\<lparr>rec_timestamp = pw_clock w (pd_calls st), rec_data = data\<rparr>"
  have size: "serialized_size ?r = length data + 20" by (simp add: serialized_size_def RECORD_HEADER_SIZE_def)
  have "length data \<le> MAX_RECORD_SIZE" using assms(7,8) by simp
  note new = new_record_bind [OF this]
  have "record_ok ?r" using assms(7,8) by (simp add: record_ok_def)
  from evenly_append [OF assms(2-5) this] assms(1,6,7) size obtain off m' where
    "manager_append_record (pw_crc w) (pw_open w) ?r m = Some (Inr off, m')" "evenly (pw_crc w) c lo hi segment_size m' (n + 1)"
    unfolding all_granted_def by metis
  then show ?thesis by (simp add: write_to_manager_def new)
qed

lemma open_manager_ok:
  assumes "all_granted w" "unat segment_size < 2 ^ 63"
  shows "\<exists>m. open_manager w pid segment_size dir idx st = Some (Inr m, st) \<and> evenly (pw_crc w) c lo hi segment_size m 0"
proof -
  have "\<exists>m. segment_manager_new (pw_mkdir w dir) (pw_open w) pid segment_size dir idx = Inr m"
  proof -
    obtain old where "pw_open w (segment_path dir pid 0) = Inr old" using assms(1) unfolding all_granted_def by blast
    then show ?thesis using assms(1)
      by (simp add: all_granted_def segment_manager_new_def create_new_segment_def record_segment_new_def)
  qed
  then obtain m where m: "segment_manager_new (pw_mkdir w dir) (pw_open w) pid segment_size dir idx = Inr m" by blast
  from evenly_new [OF this assms(2), of "pw_crc w" c lo hi] show ?thesis
    by (simp add: open_manager_def run_try_def m)
qed

lemma flush_all_granted: "all_granted w \<Longrightarrow> manager_flush (pw_flush w) m = Inr ()"
proof -
  assume "all_granted w"
  then have "flush_record_segments (pw_flush w) ss = Inr ()" for ss
    by (induction ss) (simp_all add: all_granted_def segment_flush_def)
  then show ?thesis by (simp add: manager_flush_def)
qed

text \<open>The single segment.\<close>

definition first_writes :: "nat \<Rightarrow> production_line list" where
  "first_writes i = map (\<lambda>j. Wrote j (of_nat (54 * j))) [0..<min i 3]"

definition first_sizes :: "nat \<Rightarrow> nat" where
  "first_sizes i = (if i \<le> 10 then 54 * i else 55 * i - 10)"

lemma write_to_segment_ok:
  assumes "segment_holds (pw_crc w) s rs" "unat (rs_max_size s) = 10 * 1024 * 1024"
    and "length rs = i" "records_size rs = first_sizes i" "pd_printed st = lines @ first_writes i" "i < 100"
  shows "\<exists>s' st'. write_to_segment w i s st = Some (Inr s', st') \<and> (\<exists>r. segment_holds (pw_crc w) s' (rs @ [r])
      \<and> records_size (rs @ [r]) = first_sizes (Suc i))
    \<and> unat (rs_max_size s') = 10 * 1024 * 1024 \<and> pd_printed st' = lines @ first_writes (Suc i) \<and> pd_health st' = pd_health st"
proof -
  let ?data = "string_bytes (''Record number '' @ nat_string i @ '': Hello from DOLDA!'')"
  let ?r = "\<lparr>rec_timestamp = pw_clock w (pd_calls st), rec_data = ?data\<rparr>"
  have digits: "length (nat_string i) = (if i < 10 then 1 else 2)"
    using length_nat_string_digits [of i] length_nat_string [of i 2] assms(6) by auto
  have len: "length ?data = (if i < 10 then 34 else 35)" by (simp add: digits)
  have size: "serialized_size ?r = (if i < 10 then 54 else 55)"
    by (simp only: serialized_size_def RECORD_HEADER_SIZE_def len drecord.select_convs) simp
  have small: "length ?data \<le> MAX_RECORD_SIZE" using len by (simp add: MAX_RECORD_SIZE_def split: if_split_asm)
  note new = new_record_bind [OF small]
  have sum: "records_size (rs @ [?r]) = first_sizes (Suc i)"
    using assms(4) size by (auto simp: first_sizes_def)
  have ok: "record_ok ?r" using small by (simp add: record_ok_def)
  have "records_size rs + serialized_size ?r \<le> unat (rs_max_size s)"
    using assms(2,4,6) size by (auto simp: first_sizes_def)
  from append_record_fits [OF assms(1) ok this] obtain s' where
    s': "append_record (pw_crc w) ?r s = (Inr \<lparr>ro_offset = of_nat (records_size rs), ro_size = serialized_size ?r\<rparr>, s')"
    "segment_holds (pw_crc w) s' (rs @ [?r])" "rs_max_size s' = rs_max_size s" by blast
  have lines: "first_writes (Suc i) = first_writes i @ (if i < 3 then [Wrote i (of_nat (first_sizes i))] else [])"
    by (auto simp: first_writes_def first_sizes_def min_def)
  define r where "r = ?r"
  note s' = s' [folded r_def, unfolded assms(4)] and sum = sum [folded r_def]
  have "write_to_segment w i s st
      = run_bind (if i < 3 then production_print (Wrote i (of_nat (first_sizes i))) else run_return ()) (\<lambda>_. run_return s')
          (st\<lparr>pd_calls := pd_calls st + 1\<rparr>)"
    unfolding write_to_segment_def new r_def [symmetric] s'(1) by simp
  then have "\<exists>st'. write_to_segment w i s st = Some (Inr s', st') \<and> pd_printed st' = lines @ first_writes (Suc i)
      \<and> pd_health st' = pd_health st"
    using assms(5) by (simp add: lines run_return_def)
  then show ?thesis using s'(2,3) sum assms(2) by metis
qed

lemma count_records_loop:
  "\<forall>i \<in> set items. \<exists>x. i = Inr x \<Longrightarrow> loop_over count_readable items n = Inr (n + length items)"
  by (induction items arbitrary: n) (auto simp: count_readable_def)

lemma demo_single_segment_ok:
  assumes "all_granted w" "pd_printed st = []"
  shows "\<exists>st' u. demo_single_segment w st = Some (Inr (), st')
    \<and> pd_printed st' = [Wrote 0 0, Wrote 1 54, Wrote 2 108, SegmentStats 100 5490 u, Verified 100, Flushed]
    \<and> pd_health st' = update_component (pw_clock w (pd_calls st)) ''storage'' Healthy ''Running single segment demo'' (pd_health st)"
proof -
  obtain s0 where new: "record_segment_new (pw_open w) ''/tmp/dolda_production_demo/demo1.dat'' (10 * 1024 * 1024) True = Inr s0"
    and size0: "rs_max_size s0 = 10 * 1024 * 1024"
  proof -
    obtain old where "pw_open w ''/tmp/dolda_production_demo/demo1.dat'' = Inr old" using assms(1) unfolding all_granted_def by blast
    then have "\<exists>s. record_segment_new (pw_open w) ''/tmp/dolda_production_demo/demo1.dat'' (10 * 1024 * 1024) True = Inr s"
      by (simp add: record_segment_new_def)
    then show ?thesis using that by (auto simp: record_segment_new_def result_iffs)
  qed
  define st0 where "st0 = st\<lparr>pd_health := update_component (pw_clock w (pd_calls st)) ''storage'' Healthy ''Running single segment demo'' (pd_health st),
     pd_calls := pd_calls st + 1\<rparr>"
  have st0: "pd_printed st0 = pd_printed st"
    "pd_health st0 = update_component (pw_clock w (pd_calls st)) ''storage'' Healthy ''Running single segment demo'' (pd_health st)"
    by (simp_all add: st0_def)
  let ?P = "\<lambda>i s st'. (\<exists>rs. segment_holds (pw_crc w) s rs \<and> length rs = i \<and> records_size rs = first_sizes i)
    \<and> unat (rs_max_size s) = 10 * 1024 * 1024 \<and> pd_printed st' = [] @ first_writes i \<and> pd_health st' = pd_health st0"
  have "segment_holds (pw_crc w) s0 []" by (rule record_segment_new_holds [OF new]) simp
  then have start: "?P 0 s0 st0"
    using assms(2) size0 by (intro conjI exI [of _ "[]"]) (simp_all add: first_sizes_def first_writes_def st0)
  have "\<exists>s st'. run_fold (write_to_segment w) [0..<100] s0 st0 = Some (Inr s, st') \<and> ?P (length [0..<100::nat]) s st'"
  proof (rule run_fold_invariant [where P = ?P, OF start])
    fix i s and st1 :: production_state
    assume P: "?P i s st1" and i: "i < length [0..<100::nat]"
    then obtain rs where "segment_holds (pw_crc w) s rs" "length rs = i" "records_size rs = first_sizes i"
      "unat (rs_max_size s) = 10 * 1024 * 1024" "pd_printed st1 = [] @ first_writes i" by blast
    note holds = this
    from i have i100: "i < 100" by simp
    then have nth: "[0..<100] ! i = i" by simp
    from write_to_segment_ok [OF holds(1,4,2,3,5) i100] obtain s' st' r where
      s': "write_to_segment w i s st1 = Some (Inr s', st')" "segment_holds (pw_crc w) s' (rs @ [r])"
      "records_size (rs @ [r]) = first_sizes (Suc i)" "unat (rs_max_size s') = 10 * 1024 * 1024"
      "pd_printed st' = [] @ first_writes (Suc i)" "pd_health st' = pd_health st1" by blast
    have "\<exists>rs. segment_holds (pw_crc w) s' rs \<and> length rs = Suc i \<and> records_size rs = first_sizes (Suc i)"
      using s'(2,3) holds(2) by (intro exI [of _ "rs @ [r]"]) simp
    moreover have "pd_health st' = pd_health st0" using P s'(6) by (simp only:)
    ultimately have "?P (Suc i) s' st'" using s'(4,5) by blast
    with s'(1) show "\<exists>acc' st'. write_to_segment w ([0..<100] ! i) s st1 = Some (Inr acc', st') \<and> ?P (Suc i) acc' st'"
      unfolding nth by blast
  qed
  then obtain s st1 rs where run: "run_fold (write_to_segment w) [0..<100] s0 st0 = Some (Inr s, st1)"
    and s: "segment_holds (pw_crc w) s rs" "length rs = 100" "records_size rs = first_sizes 100"
    and st1: "pd_printed st1 = first_writes 100" "pd_health st1 = pd_health st0" by auto
  have stats: "rs_record_count s = 100" "rs_write_pos s = 5490"
  proof -
    show "rs_record_count s = 100" using s(1,2) by (simp add: segment_holds_def)
    have "unat (rs_write_pos s) = 5490" using s(1,3) by (simp add: segment_holds_def first_sizes_def)
    then show "rs_write_pos s = 5490" by (simp add: word_unat_eq_iff)
  qed
  have writes: "first_writes 100 = [Wrote 0 0, Wrote 1 54, Wrote 2 108]"
    by (simp add: first_writes_def upt_rec_numeral numeral_3_eq_3 upt_rec)
  have "loop_over count_readable (segment_items rs) 0 = Inr 100"
    by (subst count_records_loop) (auto simp: segment_items_def s(2))
  then have count: "count_records w s st2 = Some (Inr 100, st2)" for st2
    using for_records_all [OF s(1), of count_readable 0] by (simp add: count_records_def)
  have flush: "segment_flush (pw_flush w) s = Inr ()" using assms(1) by (simp add: all_granted_def segment_flush_def)
  have "demo_single_segment w st = Some (Inr (), st1\<lparr>pd_printed := pd_printed st1
      @ [SegmentStats 100 5490 (utilization s), Verified 100, Flushed]\<rparr>)"
    unfolding demo_single_segment_def report_health_bind st0_def [symmetric] new run_try_bind
    by (simp add: run_bind_def run_try_def run count flush segment_stats_def stats production_print_def)
  then show ?thesis by (intro exI conjI, assumption) (simp_all add: st1 writes st0)
qed

text \<open>The rollover: a segment takes 124 of the records, of 1052 to 1054 bytes.\<close>

definition progress_lines :: "nat \<Rightarrow> production_line list" where
  "progress_lines n = map (\<lambda>k. Progress (of_nat (100 * k)) ((100 * k - 1) div 124 + 1)) [1..<n div 100 + 1]"

lemma progress_lines_Suc:
  "progress_lines (Suc i) = progress_lines i
    @ (if (i + 1) mod 100 = 0 then [Progress (of_nat (i + 1)) (i div 124 + 1)] else [])"
proof (cases "(i + 1) mod 100 = 0")
  case True
  then have "Suc i div 100 = i div 100 + 1" by (simp add: div_Suc)
  then have upt: "[1..<Suc i div 100 + 1] = [1..<i div 100 + 1] @ [i div 100 + 1]"
    and hundreds: "100 * (i div 100 + 1) = i + 1" using True mult_div_mod_eq [of 100 "Suc i"] by simp_all
  show ?thesis unfolding progress_lines_def upt map_append list.map hundreds using True by simp
next
  case False
  then have "Suc i div 100 = i div 100" by (simp add: div_Suc)
  then show ?thesis using False by (simp add: progress_lines_def)
qed

lemma rollover_write_ok:
  assumes "all_granted w" "evenly (pw_crc w) 124 1052 1054 (128 * 1024) m i" "i < 1000"
    and "pd_printed st = lines @ progress_lines i"
  shows "\<exists>m' st'. rollover_write w i m st = Some (Inr m', st') \<and> evenly (pw_crc w) 124 1052 1054 (128 * 1024) m' (Suc i)
    \<and> pd_printed st' = lines @ progress_lines (Suc i) \<and> pd_health st' = pd_health st"
proof -
  let ?data = "replicate 1024 0 @ string_bytes (''Record '' @ nat_string i)"
  have "0 < length (nat_string i)" "length (nat_string i) \<le> 3"
    using nat_string_pos [of i] length_nat_string [of i 3] assms(3) by simp_all
  then have len: "1052 \<le> length ?data + 20" "length ?data + 20 \<le> 1054"
    by (simp_all del: length_greater_0_conv)
  have c: "1054 * 124 \<le> unat (128 * 1024 :: usize)" "unat (128 * 1024 :: usize) < 1052 * (124 + 1) \<or> i < 124" "(0::nat) < 124"
    "(1054::nat) \<le> MAX_RECORD_SIZE"
    by (simp_all add: MAX_RECORD_SIZE_def)
  from write_to_manager_ok [OF assms(1,2) c(1-3) len c(4)] obtain m' where
    m': "write_to_manager w ?data m st = Some (Inr m', st\<lparr>pd_calls := pd_calls st + 1\<rparr>)"
    "evenly (pw_crc w) 124 1052 1054 (128 * 1024) m' (i + 1)" by blast
  have "ms_total_records (manager_stats m') = of_nat (i + 1)" "ms_segment_count (manager_stats m') = i div 124 + 1"
    using evenly_stats(1,2) [OF m'(2)] by simp_all
  moreover define data where "data = ?data"
  ultimately have "rollover_write w i m st = Some (Inr m', st\<lparr>pd_printed := pd_printed st
      @ (if (i + 1) mod 100 = 0 then [Progress (of_nat (i + 1)) (i div 124 + 1)] else []), pd_calls := pd_calls st + 1\<rparr>)"
    using m'(1) unfolding rollover_write_def data_def [symmetric]
    by (simp add: run_bind_def production_print_def run_return_def)
  then show ?thesis using m'(2) assms(4) by (simp add: progress_lines_Suc)
qed

lemma demo_segment_manager_ok:
  assumes "all_granted w"
  shows "\<exists>st' u. demo_segment_manager w st = Some (Inr (), st')
    \<and> pd_printed st' = pd_printed st @ progress_lines 1000 @ [FinalStats 1000 9 u]
    \<and> pd_health st' = update_component (pw_clock w (pd_calls st)) ''storage'' Healthy ''Running segment manager demo'' (pd_health st)"
proof -
  define st0 where "st0 = st\<lparr>pd_health := update_component (pw_clock w (pd_calls st)) ''storage'' Healthy ''Running segment manager demo'' (pd_health st),
     pd_calls := pd_calls st + 1\<rparr>"
  have st0: "pd_printed st0 = pd_printed st"
    "pd_health st0 = update_component (pw_clock w (pd_calls st)) ''storage'' Healthy ''Running segment manager demo'' (pd_health st)"
    by (simp_all add: st0_def)
  let ?P = "\<lambda>i m st'. evenly (pw_crc w) 124 1052 1054 (128 * 1024) m i
    \<and> pd_printed st' = pd_printed st @ progress_lines i \<and> pd_health st' = pd_health st0"
  from open_manager_ok [OF assms, of "128 * 1024" 0 "''/tmp/dolda_production_demo/partition0''" True st0 124 1052 1054] obtain m0 where
    m0: "open_manager w 0 (128 * 1024) ''/tmp/dolda_production_demo/partition0'' True st0 = Some (Inr m0, st0)"
    "evenly (pw_crc w) 124 1052 1054 (128 * 1024) m0 0" by auto
  from m0(2) have start: "?P 0 m0 st0" by (simp add: progress_lines_def st0(1))
  have "\<exists>m st'. run_fold (rollover_write w) [0..<1000] m0 st0 = Some (Inr m, st') \<and> ?P (length [0..<1000::nat]) m st'"
  proof (rule run_fold_invariant [where P = ?P, OF start])
    fix i m and st1 :: production_state
    assume P: "?P i m st1" and "i < length [0..<1000::nat]"
    then have i: "i < 1000" by simp
    then have nth: "[0..<1000] ! i = i" by simp
    from P have "evenly (pw_crc w) 124 1052 1054 (128 * 1024) m i" "pd_printed st1 = pd_printed st @ progress_lines i" by blast+
    from rollover_write_ok [OF assms this(1) i this(2)] P
    show "\<exists>acc' st'. rollover_write w ([0..<1000] ! i) m st1 = Some (Inr acc', st') \<and> ?P (Suc i) acc' st'"
      unfolding nth by force
  qed
  then obtain m st1 where run: "run_fold (rollover_write w) [0..<1000] m0 st0 = Some (Inr m, st1)"
    and m: "evenly (pw_crc w) 124 1052 1054 (128 * 1024) m 1000"
    and st1: "pd_printed st1 = pd_printed st @ progress_lines 1000" "pd_health st1 = pd_health st0" by auto
  have "ms_total_records (manager_stats m) = 1000" "ms_segment_count (manager_stats m) = 9"
    using evenly_stats(1,2) [OF m] by simp_all
  then have "demo_segment_manager w st = Some (Inr (), st1\<lparr>pd_printed := pd_printed st1
      @ [FinalStats 1000 9 (ms_avg_utilization (manager_stats m))]\<rparr>)"
    unfolding demo_segment_manager_def report_health_bind st0_def [symmetric]
    by (simp add: run_bind_def run_try_def m0(1) [simplified] run flush_all_granted [OF assms] production_print_def)
  then show ?thesis by (intro exI conjI, assumption) (simp_all add: st1 st0)
qed

text \<open>The large dataset fits one segment.\<close>

lemma demo_large_dataset_ok:
  assumes "all_granted w"
  shows "\<exists>st'. demo_large_dataset w st = Some (Inr (), st')
    \<and> pd_printed st' = pd_printed st @ [let megabytes = f64_div (f64_of_int 5320000) (f64_of_int 1000000)
        in Performance (pw_elapsed w) (f64_div megabytes (pw_elapsed w)) (f64_div (f64_of_int 10000) (pw_elapsed w)) megabytes]
    \<and> pd_health st' = update_component (pw_clock w (pd_calls st)) ''storage'' Healthy ''Running large dataset demo'' (pd_health st)"
proof -
  define st0 where "st0 = st\<lparr>pd_health := update_component (pw_clock w (pd_calls st)) ''storage'' Healthy ''Running large dataset demo'' (pd_health st),
     pd_calls := pd_calls st + 1\<rparr>"
  have st0: "pd_printed st0 = pd_printed st"
    "pd_health st0 = update_component (pw_clock w (pd_calls st)) ''storage'' Healthy ''Running large dataset demo'' (pd_health st)"
    by (simp_all add: st0_def)
  let ?P = "\<lambda>i m st'. evenly (pw_crc w) 19710 532 532 (10 * 1024 * 1024) m i
    \<and> pd_printed st' = pd_printed st \<and> pd_health st' = pd_health st0"
  let ?body = "\<lambda>_. write_to_manager w (replicate 512 0)"
  from open_manager_ok [OF assms, of "10 * 1024 * 1024" 2 "''/tmp/dolda_production_demo/partition2''" False st0 19710 532 532] obtain m0 where
    m0: "open_manager w 2 (10 * 1024 * 1024) ''/tmp/dolda_production_demo/partition2'' False st0 = Some (Inr m0, st0)"
    "evenly (pw_crc w) 19710 532 532 (10 * 1024 * 1024) m0 0" by auto
  from m0(2) have start: "?P 0 m0 st0" by (simp add: st0(1))
  have c: "532 * 19710 \<le> unat (10 * 1024 * 1024 :: usize)" "(0::nat) < 19710" "532 \<le> length (replicate 512 (0::u8)) + 20"
    "length (replicate 512 (0::u8)) + 20 \<le> 532" "(532::nat) \<le> MAX_RECORD_SIZE"
    "unat (10 * 1024 * 1024 :: usize) < 532 * (19710 + 1) \<or> i < 19710" for i :: nat
    by (simp_all add: MAX_RECORD_SIZE_def)
  have "\<exists>m st'. run_fold ?body [0..<10000::nat] m0 st0 = Some (Inr m, st') \<and> ?P (length [0..<10000::nat]) m st'"
  proof (rule run_fold_invariant [where P = ?P, OF start])
    fix i m and st1 :: production_state
    assume P: "?P i m st1"
    then have "evenly (pw_crc w) 19710 532 532 (10 * 1024 * 1024) m i" by blast
    from write_to_manager_ok [OF assms this c(1) c(6) c(2-5), of st1] P
    show "\<exists>acc' st'. write_to_manager w (replicate 512 0) m st1 = Some (Inr acc', st') \<and> ?P (Suc i) acc' st'"
      by force
  qed
  then obtain m st1 where run: "run_fold ?body [0..<10000::nat] m0 st0 = Some (Inr m, st1)"
    and m: "evenly (pw_crc w) 19710 532 532 (10 * 1024 * 1024) m 10000"
    and st1: "pd_printed st1 = pd_printed st" "pd_health st1 = pd_health st0" by auto
  have "ms_total_records (manager_stats m) = 10000" "ms_total_bytes (manager_stats m) = 5320000"
    using evenly_stats(1,3) [OF m] by simp_all
  then have "demo_large_dataset w st = Some (Inr (), st1\<lparr>pd_printed := pd_printed st1
      @ [let megabytes = f64_div (f64_of_int 5320000) (f64_of_int 1000000)
         in Performance (pw_elapsed w) (f64_div megabytes (pw_elapsed w)) (f64_div (f64_of_int 10000) (pw_elapsed w)) megabytes]\<rparr>)"
    unfolding demo_large_dataset_def report_health_bind st0_def [symmetric]
    by (simp add: run_bind_def m0(1) [simplified] run production_print_def Let_def)
  then show ?thesis by (intro exI conjI, assumption) (simp_all add: st1 st0)
qed

text \<open>The concurrent writers: every turn counts, until a writer has written its hundred records.\<close>

definition turns_taken :: "nat list \<Rightarrow> nat \<Rightarrow> nat" where
  "turns_taken ts t = min 100 (count_list ts t)"

lemma count_list_snoc: "count_list (xs @ [x]) t = count_list xs t + (if x = t then 1 else 0)"
  by (induction xs) simp_all

lemma turns_taken_snoc:
  "turns_taken (ts @ [x]) = (if count_list ts x < 100 then (turns_taken ts)(x := turns_taken ts x + 1) else turns_taken ts)"
  by (auto simp: turns_taken_def count_list_snoc fun_eq_iff)

lemma count_list_filter: "P t \<Longrightarrow> count_list (filter P ts) t = count_list ts t"
  by (induction ts) auto

lemma writer_turn_ok:
  assumes "all_granted w" "evenly (pw_crc w) 26214 39 40 (1024 * 1024) m (\<Sum>t<10. turns_taken ts t)" "x < 10"
  shows "\<exists>m' st'. writer_turn w x (\<lambda>t. Some (turns_taken ts t), m) st = Some (Inr (\<lambda>t. Some (turns_taken (ts @ [x]) t), m'), st')
    \<and> evenly (pw_crc w) 26214 39 40 (1024 * 1024) m' (\<Sum>t<10. turns_taken (ts @ [x]) t)
    \<and> pd_printed st' = pd_printed st \<and> pd_health st' = pd_health st"
proof (cases "count_list ts x < 100")
  case False
  then have "turns_taken ts x = 100" by (simp add: turns_taken_def)
  with assms(2) False show ?thesis by (simp add: writer_turn_def turns_taken_snoc)
next
  case True
  define i where "i = turns_taken ts x"
  have i: "i < 100" "i = count_list ts x" using True by (simp_all add: i_def turns_taken_def)
  define data where "data = string_bytes (''Thread '' @ nat_string x @ '' - Record '' @ nat_string i)"
  define r where "r = \<lparr>rec_timestamp = pw_clock w (pd_calls st), rec_data = data\<rparr>"
  have "length (nat_string x) = 1" "0 < length (nat_string i)" "length (nat_string i) \<le> 2"
    using length_nat_string_digits(1) [of x] assms(3) nat_string_pos [of i] length_nat_string [of i 2] i(1) by simp_all
  then have len: "19 \<le> length data" "length data \<le> 20" by (simp_all add: data_def del: length_greater_0_conv)
  have r: "record_ok r" "39 \<le> serialized_size r" "serialized_size r \<le> 40"
    using len by (simp_all add: r_def record_ok_def MAX_RECORD_SIZE_def serialized_size_def RECORD_HEADER_SIZE_def)
  have new: "record_new (pw_clock w (pd_calls st)) data = Inr r"
    using len by (simp add: record_new_def r_def MAX_RECORD_SIZE_def)
  have "(\<Sum>t<10. turns_taken ts t) \<le> (\<Sum>t<10::nat. 100)" by (rule sum_mono) (simp add: turns_taken_def)
  then have c: "40 * 26214 \<le> unat (1024 * 1024 :: usize)"
    "unat (1024 * 1024 :: usize) < 39 * (26214 + 1) \<or> (\<Sum>t<10. turns_taken ts t) < 26214" "(0::nat) < 26214" by simp_all
  have "\<forall>p. \<exists>old. pw_open w p = Inr old" using assms(1) unfolding all_granted_def by blast
  from evenly_append [OF assms(2) c r this] obtain off m' where
    m': "manager_append_record (pw_crc w) (pw_open w) r m = Some (Inr off, m')"
    "evenly (pw_crc w) 26214 39 40 (1024 * 1024) m' ((\<Sum>t<10. turns_taken ts t) + 1)" by blast
  have "(\<Sum>t<10. turns_taken (ts @ [x]) t) = (\<Sum>t<10. turns_taken ts t + (if t = x then 1 else 0))"
    using True by (intro sum.cong) (simp_all add: turns_taken_snoc)
  also have "\<dots> = (\<Sum>t<10. turns_taken ts t) + 1" using assms(3) by (simp add: sum.distrib)
  finally have even: "evenly (pw_crc w) 26214 39 40 (1024 * 1024) m' (\<Sum>t<10. turns_taken (ts @ [x]) t)"
    using m'(2) by simp
  have "(\<lambda>t. Some (turns_taken (ts @ [x]) t)) = (\<lambda>t. Some (turns_taken ts t))(x := Some (i + 1))"
    using True by (simp add: turns_taken_snoc i_def fun_eq_iff)
  then have "writer_turn w x (\<lambda>t. Some (turns_taken ts t), m) st
      = Some (Inr (\<lambda>t. Some (turns_taken (ts @ [x]) t), m'), st\<lparr>pd_calls := pd_calls st + 1\<rparr>)"
    using i(1) unfolding writer_turn_def i_def [symmetric]
    by (simp add: i_def [symmetric] data_def [symmetric, simplified] new m'(1) del: fun_upd_apply)
  with even show ?thesis by simp
qed

lemma demo_concurrent_operations_ok:
  assumes "all_granted w" "\<forall>t < 10. 100 \<le> count_list (pw_turns w) t"
  shows "\<exists>st'. demo_concurrent_operations w st = Some (Inr (), st')
    \<and> pd_printed st' = pd_printed st @ [ConcurrentTotal 1000]
    \<and> pd_health st' = update_component (pw_clock w (pd_calls st)) ''storage'' Healthy ''Running concurrent demo'' (pd_health st)"
proof -
  define st0 where "st0 = st\<lparr>pd_health := update_component (pw_clock w (pd_calls st)) ''storage'' Healthy ''Running concurrent demo'' (pd_health st),
     pd_calls := pd_calls st + 1\<rparr>"
  have st0: "pd_printed st0 = pd_printed st"
    "pd_health st0 = update_component (pw_clock w (pd_calls st)) ''storage'' Healthy ''Running concurrent demo'' (pd_health st)"
    by (simp_all add: st0_def)
  let ?ts = "filter (\<lambda>t. t < 10) (pw_turns w)"
  let ?P = "\<lambda>k (writers, m) st'. writers = (\<lambda>t. Some (turns_taken (take k ?ts) t))
    \<and> evenly (pw_crc w) 26214 39 40 (1024 * 1024) m (\<Sum>t<10. turns_taken (take k ?ts) t)
    \<and> pd_printed st' = pd_printed st \<and> pd_health st' = pd_health st0"
  from open_manager_ok [OF assms(1), of "1024 * 1024" 1 "''/tmp/dolda_production_demo/partition1''" False st0 26214 39 40] obtain m0 where
    m0: "open_manager w 1 (1024 * 1024) ''/tmp/dolda_production_demo/partition1'' False st0 = Some (Inr m0, st0)"
    "evenly (pw_crc w) 26214 39 40 (1024 * 1024) m0 0" by auto
  from m0(2) have start: "?P 0 (\<lambda>_. Some 0, m0) st0" by (simp add: st0(1) turns_taken_def)
  have "\<exists>acc st'. run_fold (writer_turn w) ?ts (\<lambda>_. Some 0, m0) st0 = Some (Inr acc, st') \<and> ?P (length ?ts) acc st'"
  proof (rule run_fold_invariant [where P = ?P, OF start])
    fix k acc and st1 :: production_state
    assume P: "?P k acc st1" and k: "k < length ?ts"
    then have x: "?ts ! k < 10" using nth_mem by fastforce
    have take: "take (Suc k) ?ts = take k ?ts @ [?ts ! k]" by (rule take_Suc_conv_app_nth [OF k])
    obtain writers m where acc: "acc = (writers, m)" by fastforce
    from P have "writers = (\<lambda>t. Some (turns_taken (take k ?ts) t))"
      "evenly (pw_crc w) 26214 39 40 (1024 * 1024) m (\<Sum>t<10. turns_taken (take k ?ts) t)" by (simp_all only: acc prod.case)
    from writer_turn_ok [OF assms(1) this(2) x, of st1, folded this(1) take] P
    show "\<exists>acc' st'. writer_turn w (?ts ! k) acc st1 = Some (Inr acc', st') \<and> ?P (Suc k) acc' st'"
      unfolding acc by force
  qed
  then obtain m st1 where run: "run_fold (writer_turn w) ?ts (\<lambda>_. Some 0, m0) st0 = Some (Inr (\<lambda>t. Some (turns_taken ?ts t), m), st1)"
    and m: "evenly (pw_crc w) 26214 39 40 (1024 * 1024) m (\<Sum>t<10. turns_taken ?ts t)"
    and st1: "pd_printed st1 = pd_printed st" "pd_health st1 = pd_health st0" by auto
  have finished: "turns_taken ?ts t = 100" if "t < 10" for t
    using assms(2) that by (simp add: turns_taken_def count_list_filter)
  then have "(\<Sum>t<10. turns_taken ?ts t) = 1000" by simp
  with m have "ms_total_records (manager_stats m) = 1000" using evenly_stats(1) [of "pw_crc w" 26214 39 40 "1024 * 1024" m 1000] by simp
  moreover have "join_writers 10 (\<lambda>t. Some (turns_taken ?ts t)) st1 = Some (Inr (), st1)"
    using finished by (auto simp: join_writers_def)
  ultimately have "demo_concurrent_operations w st = Some (Inr (), st1\<lparr>pd_printed := pd_printed st1 @ [ConcurrentTotal 1000]\<rparr>)"
    unfolding demo_concurrent_operations_def report_health_bind st0_def [symmetric]
    by (simp add: run_bind_def m0(1) [simplified] run production_print_def)
  then show ?thesis by (intro exI conjI, assumption) (simp_all add: st1 st0)
qed

section \<open>The whole program\<close>

lemma update_named:
  "hs_components server = [c1, c2] \<Longrightarrow> ch_name c1 = ''storage'' \<Longrightarrow> ch_name c2 = ''demo_task'' \<Longrightarrow>
    hs_components (update_component now ''storage'' status message server)
      = [c1\<lparr>ch_status := status, ch_message := message, ch_last_check_us := now\<rparr>, c2]"
  "hs_components server = [c1, c2] \<Longrightarrow> ch_name c1 = ''storage'' \<Longrightarrow> ch_name c2 = ''demo_task'' \<Longrightarrow>
    hs_components (update_component now ''demo_task'' status message server)
      = [c1, c2\<lparr>ch_status := status, ch_message := message, ch_last_check_us := now\<rparr>]"
  by (simp_all add: update_component_def)

text \<open>C20: The production demonstration runs to its end on a system that grants every request, if each
  concurrent writer gets its hundred turns: it verifies the hundred records of the single segment,
  which take 5490 bytes; its thousand records of a kilobyte roll over into nine segments; none of
  the records of the concurrent writers is missing, whatever the order of their appends; the
  large dataset is 5.32 megabytes; and in the end both components are healthy.\<close>

theorem production_demo_completes:
  assumes "all_granted w" "\<forall>t < 10. 100 \<le> count_list (pw_turns w) t"
  shows "\<exists>st u1 u2. production_demo w = Some (map_err ProductionIo (pw_ctrl_c w), st)
    \<and> pd_printed st = [Wrote 0 0, Wrote 1 54, Wrote 2 108, SegmentStats 100 5490 u1, Verified 100, Flushed]
        @ map (\<lambda>k. Progress (of_nat (100 * k)) ((100 * k - 1) div 124 + 1)) [1..<11]
        @ [FinalStats 1000 9 u2, ConcurrentTotal 1000,
           let megabytes = f64_div (f64_of_int 5320000) (f64_of_int 1000000)
           in Performance (pw_elapsed w) (f64_div megabytes (pw_elapsed w)) (f64_div (f64_of_int 10000) (pw_elapsed w)) megabytes]
    \<and> map (\<lambda>c. (ch_name c, ch_status c, ch_message c)) (hs_components (pd_health st))
      = [(''storage'', Healthy, ''Running large dataset demo''), (''demo_task'', Healthy, ''Completed successfully'')]"
proof -
  define st0 where "st0 = \<lparr>pd_health = update_component (pw_clock w 1) ''demo_task'' Healthy ''Starting''
      (update_component (pw_clock w 0) ''storage'' Healthy ''Initializing'' (register_component ''demo_task''
        (register_component ''storage'' (health_server_new (pw_start w) (pw_version w))))), pd_printed = [], pd_calls = 2\<rparr>"
  have "\<exists>c1 c2. hs_components (pd_health st0) = [c1, c2] \<and> ch_name c1 = ''storage'' \<and> ch_name c2 = ''demo_task''"
    by (simp add: st0_def update_component_def register_component_def health_server_new_def)
  then obtain c1 c2 where st0: "pd_printed st0 = []" "hs_components (pd_health st0) = [c1, c2]"
    "ch_name c1 = ''storage''" "ch_name c2 = ''demo_task''" by (auto simp: st0_def)
  have "pw_mkdir w ''/tmp/dolda_production_demo'' = Inr ()" using assms(1) unfolding all_granted_def by blast
  then have start: "production_demo w = run_bind (demo_single_segment w) (\<lambda>_. run_bind (demo_segment_manager w) (\<lambda>_.
      run_bind (demo_concurrent_operations w) (\<lambda>_. run_bind (demo_large_dataset w) (\<lambda>_.
      run_bind (report_health w ''demo_task'' Healthy ''Completed successfully'') (\<lambda>_. run_try ProductionIo (pw_ctrl_c w)))))) st0"
    unfolding production_demo_def report_health_bind by (simp add: st0_def numeral_2_eq_2)
  from demo_single_segment_ok [OF assms(1) st0(1)] obtain st1 u1 where one: "demo_single_segment w st0 = Some (Inr (), st1)"
    "pd_printed st1 = [Wrote 0 0, Wrote 1 54, Wrote 2 108, SegmentStats 100 5490 u1, Verified 100, Flushed]"
    "pd_health st1 = update_component (pw_clock w (pd_calls st0)) ''storage'' Healthy ''Running single segment demo'' (pd_health st0)"
    by blast
  from demo_segment_manager_ok [OF assms(1), of st1] obtain st2 u2 where two: "demo_segment_manager w st1 = Some (Inr (), st2)"
    "pd_printed st2 = pd_printed st1 @ progress_lines 1000 @ [FinalStats 1000 9 u2]"
    "pd_health st2 = update_component (pw_clock w (pd_calls st1)) ''storage'' Healthy ''Running segment manager demo'' (pd_health st1)"
    by blast
  from demo_concurrent_operations_ok [OF assms, of st2] obtain st3 where three: "demo_concurrent_operations w st2 = Some (Inr (), st3)"
    "pd_printed st3 = pd_printed st2 @ [ConcurrentTotal 1000]"
    "pd_health st3 = update_component (pw_clock w (pd_calls st2)) ''storage'' Healthy ''Running concurrent demo'' (pd_health st2)"
    by blast
  from demo_large_dataset_ok [OF assms(1), of st3] obtain st4 where four: "demo_large_dataset w st3 = Some (Inr (), st4)"
    "pd_printed st4 = pd_printed st3 @ [let megabytes = f64_div (f64_of_int 5320000) (f64_of_int 1000000)
        in Performance (pw_elapsed w) (f64_div megabytes (pw_elapsed w)) (f64_div (f64_of_int 10000) (pw_elapsed w)) megabytes]"
    "pd_health st4 = update_component (pw_clock w (pd_calls st3)) ''storage'' Healthy ''Running large dataset demo'' (pd_health st3)"
    by blast
  let ?c1 = "c1\<lparr>ch_status := Healthy, ch_message := ''Running large dataset demo'', ch_last_check_us := pw_clock w (pd_calls st3)\<rparr>"
  have comps: "hs_components (pd_health st4) = [?c1, c2]"
    unfolding four(3) three(3) two(3) one(3) using st0(2-4) by (simp add: update_component_def)
  define st5 where "st5 = st4\<lparr>pd_health := update_component (pw_clock w (pd_calls st4)) ''demo_task'' Healthy
      ''Completed successfully'' (pd_health st4), pd_calls := pd_calls st4 + 1\<rparr>"
  have "hs_components (pd_health st5) = [?c1, c2\<lparr>ch_status := Healthy, ch_message := ''Completed successfully'',
      ch_last_check_us := pw_clock w (pd_calls st4)\<rparr>]"
    using update_named(2) [OF comps] st0(3,4) by (simp add: st5_def)
  then have health: "map (\<lambda>c. (ch_name c, ch_status c, ch_message c)) (hs_components (pd_health st5))
      = [(''storage'', Healthy, ''Running large dataset demo''), (''demo_task'', Healthy, ''Completed successfully'')]"
    using st0(3,4) by simp
  have run: "production_demo w = Some (map_err ProductionIo (pw_ctrl_c w), st5)"
    unfolding start
    by (simp add: run_bind_def one(1) two(1) three(1) four(1) report_health_def run_try_def st5_def)
  have "progress_lines 1000 = map (\<lambda>k. Progress (of_nat (100 * k)) ((100 * k - 1) div 124 + 1)) [1..<11]"
    by (simp add: progress_lines_def)
  then have printed: "pd_printed st5 = [Wrote 0 0, Wrote 1 54, Wrote 2 108, SegmentStats 100 5490 u1, Verified 100, Flushed]
      @ map (\<lambda>k. Progress (of_nat (100 * k)) ((100 * k - 1) div 124 + 1)) [1..<11]
      @ [FinalStats 1000 9 u2, ConcurrentTotal 1000,
         let megabytes = f64_div (f64_of_int 5320000) (f64_of_int 1000000)
         in Performance (pw_elapsed w) (f64_div megabytes (pw_elapsed w)) (f64_div (f64_of_int 10000) (pw_elapsed w)) megabytes]"
    by (simp add: st5_def four(2) three(2) two(2) one(2) del: upt_rec_numeral)
  show ?thesis by (intro exI conjI) (rule run, rule printed, rule health)
qed

text \<open>The background checks would not change this: the program registers neither of their components.\<close>

lemma checks_change_nothing:
  assumes "map ch_name (hs_components server) = [''storage'', ''demo_task'']"
  shows "perform_checks fmt now_us used total_memory server = server"
proof -
  have "update_first name f cs = cs" if "name \<notin> set (map ch_name cs)" for name f cs
    using that by (induction cs) auto
  then have "update_component now_us name status message server = server"
    if "name = ''system'' \<or> name = ''memory''" for name status message
    using assms that by (auto simp: update_component_def)
  then show ?thesis by (simp add: perform_checks_def case_prod_beta)
qed

definition demo_production_world :: production_world where
  "demo_production_world = \<lparr>pw_crc = sum_crc, pw_clock = of_nat, pw_start = 0, pw_elapsed = Fin 1, pw_mkdir = (\<lambda>_. Inr ()),
     pw_open = (\<lambda>_. Inr []), pw_flush = (\<lambda>_. Inr ()), pw_turns = concat (replicate 100 [0..<10]),
     pw_version = ''0.1.0'', pw_ctrl_c = Inr ()\<rparr>"

theorem production_demo_completes_witness:
  "\<exists>st. production_demo demo_production_world = Some (Inr (), st) \<and> Verified 100 \<in> set (pd_printed st)
     \<and> ConcurrentTotal 1000 \<in> set (pd_printed st)"
proof -
  have granted: "all_granted demo_production_world" by (simp add: all_granted_def demo_production_world_def)
  have world: "pw_turns demo_production_world = concat (replicate 100 [0..<10])" "pw_ctrl_c demo_production_world = Inr ()"
    by (simp_all only: demo_production_world_def production_world.select_convs)
  have many: "count_list (concat (replicate n ts)) t = n * count_list ts t" for n t and ts :: "nat list"
    by (induction n) (simp_all add: count_list_append)
  have turns: "\<forall>t < 10. 100 \<le> count_list (pw_turns demo_production_world) t"
  proof (intro allI impI)
    fix t :: nat assume "t < 10"
    then have "count_list [0..<10] t \<noteq> 0" unfolding count_list_0_iff set_upt by simp
    then show "100 \<le> count_list (pw_turns demo_production_world) t" unfolding world(1) many by linarith
  qed
  from production_demo_completes [OF granted turns] obtain st u1 u2 where
    "production_demo demo_production_world = Some (map_err ProductionIo (pw_ctrl_c demo_production_world), st)"
    and printed: "\<exists>xs ys zs. pd_printed st = [Wrote 0 0, Wrote 1 54, Wrote 2 108, SegmentStats 100 5490 u1, Verified 100, Flushed]
      @ xs @ FinalStats 1000 9 u2 # ConcurrentTotal 1000 # ys" by blast
  then have "production_demo demo_production_world = Some (Inr (), st)" by (simp add: world(2))
  then show ?thesis using printed by auto
qed

end
