(* ===== verification/Mailbox_Tests.thy ===== *)
theory Mailbox_Tests
  imports Mailbox_Example
begin

text \<open>
  The unit tests of \<open>src/mailbox.rs\<close> (module \<open>tests\<close>), run on the model. A test is a program on a
  system of its own; an \<open>unwrap\<close> of an error, like an assertion that fails, ends it with no value.
\<close>

section \<open>The tests\<close>

definition run_expect :: "('s, 'e, 'a) run \<Rightarrow> ('s, 'e, 'a) run" where
  "run_expect first st = (case first st of Some (Inr x, st') \<Rightarrow> Some (Inr x, st') | _ \<Rightarrow> None)"

definition run_assert :: "bool \<Rightarrow> ('s, 'e, unit) run" where
  "run_assert b st = (if b then Some (Inr (), st) else None)"

definition create_test_system :: "chat_world \<Rightarrow> mailbox_system option" where
  "create_test_system w =
     (case cw_temp_dir w of
        Inl _ \<Rightarrow> None
      | Inr dir \<Rightarrow> (case mailbox_system_new (out_os (cw_out w)) dir of Inl _ \<Rightarrow> None | Inr sys \<Rightarrow> Some sys))"

text \<open>A system, with a mailbox for each user of the list.\<close>

fun create_users :: "os_answers \<Rightarrow> user list \<Rightarrow> chat_state \<Rightarrow> chat_state option" where
  "create_users os [] st = Some st"
| "create_users os (u # us) st =
     (case create_mailbox os (address_of u) (ch_system st) of
        (Inl _, _) \<Rightarrow> None
      | (Inr mb, sys) \<Rightarrow> create_users os us (st\<lparr>ch_system := sys, ch_handle := (ch_handle st)(u := mb)\<rparr>))"

definition test_start :: "chat_world \<Rightarrow> user list \<Rightarrow> chat_state option" where
  "test_start w us =
     (case create_test_system w of
        None \<Rightarrow> None
      | Some sys \<Rightarrow> create_users (out_os (cw_out w)) us
          \<lparr>ch_system = sys, ch_handle = (\<lambda>_. \<lparr>mb_address = [], mb_read_offset = 0\<rparr>), ch_printed = [], ch_calls = 0\<rparr>)"

definition test_passes :: "chat_world \<Rightarrow> user list \<Rightarrow> unit chat \<Rightarrow> bool" where
  "test_passes w us body =
     (case test_start w us of
        None \<Rightarrow> False
      | Some st \<Rightarrow> (case body st of Some (Inr _, _) \<Rightarrow> True | _ \<Rightarrow> False))"

definition receive_unwrap :: "chat_world \<Rightarrow> user \<Rightarrow> mailbox_message chat" where
  "receive_unwrap w u = run_bind (run_expect (chat_receive w u)) run_unwrap"

definition peek_unwrap :: "chat_world \<Rightarrow> user \<Rightarrow> mailbox_message chat" where
  "peek_unwrap w u = run_bind (run_expect (chat_peek w u)) run_unwrap"

definition test_create_mailbox :: "chat_world \<Rightarrow> bool" where
  "test_create_mailbox w =
     (case create_test_system w of
        None \<Rightarrow> False
      | Some sys \<Rightarrow>
          (case create_mailbox (out_os (cw_out w)) ''alice@dolda'' sys of
             (Inl _, _) \<Rightarrow> False
           | (Inr mb, _) \<Rightarrow> mb_address mb = ''alice@dolda''))"

definition test_send_and_receive :: "chat_world \<Rightarrow> bool" where
  "test_send_and_receive w = test_passes w [Alice, Bob]
     (run_bind (run_expect (chat_send w Alice ''bob@dolda'' ''Hello Bob!'')) (\<lambda>msg_id.
      run_bind (run_assert (msg_id \<noteq> [])) (\<lambda>_.
      run_bind (run_expect (chat_receive w Bob)) (\<lambda>received.
      run_bind (run_assert (received \<noteq> None)) (\<lambda>_.
      run_bind (run_unwrap received) (\<lambda>msg.
      run_bind (run_assert (mm_from msg = ''alice@dolda'')) (\<lambda>_.
      run_bind (run_assert (mm_to msg = ''bob@dolda'')) (\<lambda>_.
        run_assert (mm_body msg = string_bytes ''Hello Bob!'')))))))))"

definition test_multiple_messages :: "chat_world \<Rightarrow> bool" where
  "test_multiple_messages w = test_passes w [Alice, Bob]
     (run_bind (run_expect (chat_send w Alice ''bob@dolda'' ''Message 1'')) (\<lambda>_.
      run_bind (run_expect (chat_send w Alice ''bob@dolda'' ''Message 2'')) (\<lambda>_.
      run_bind (run_expect (chat_send w Alice ''bob@dolda'' ''Message 3'')) (\<lambda>_.
      run_bind (\<lambda>st. run_assert (0 < pending_count (chat_out w st) (ch_system st) (ch_handle st Bob))
        (st\<lparr>ch_calls := ch_calls st + 1\<rparr>)) (\<lambda>_.
      run_bind (receive_unwrap w Bob) (\<lambda>msg1.
      run_bind (run_assert (mm_body msg1 = string_bytes ''Message 1'')) (\<lambda>_.
      run_bind (receive_unwrap w Bob) (\<lambda>msg2.
      run_bind (run_assert (mm_body msg2 = string_bytes ''Message 2'')) (\<lambda>_.
      run_bind (receive_unwrap w Bob) (\<lambda>msg3.
      run_bind (run_assert (mm_body msg3 = string_bytes ''Message 3'')) (\<lambda>_.
      run_bind (run_expect (chat_receive w Bob)) (\<lambda>msg4.
        run_assert (msg4 = None)))))))))))))"

definition test_reply :: "chat_world \<Rightarrow> bool" where
  "test_reply w = test_passes w [Alice, Bob]
     (run_bind (run_expect (chat_send_subject w Alice ''bob@dolda'' ''Question'' ''How are you?'')) (\<lambda>_.
      run_bind (receive_unwrap w Bob) (\<lambda>msg.
      run_bind (run_expect (chat_reply w Bob msg (''I'' @ [CHR 0x27] @ ''m good, thanks!''))) (\<lambda>_.
      run_bind (receive_unwrap w Alice) (\<lambda>answer.
      run_bind (run_assert (mm_from answer = ''bob@dolda'')) (\<lambda>_.
      run_bind (run_assert (mm_body answer = string_bytes (''I'' @ [CHR 0x27] @ ''m good, thanks!''))) (\<lambda>_.
      run_bind (run_unwrap (mm_subject answer)) (\<lambda>subject.
        run_assert (take 3 subject = ''Re:'')))))))))"

definition test_peek :: "chat_world \<Rightarrow> bool" where
  "test_peek w = test_passes w [Alice, Bob]
     (run_bind (run_expect (chat_send w Alice ''bob@dolda'' ''Test'')) (\<lambda>_.
      run_bind (peek_unwrap w Bob) (\<lambda>msg1.
      run_bind (peek_unwrap w Bob) (\<lambda>msg2.
      run_bind (run_assert (mm_id msg1 = mm_id msg2)) (\<lambda>_.
      run_bind (receive_unwrap w Bob) (\<lambda>msg3.
      run_bind (run_assert (mm_id msg1 = mm_id msg3)) (\<lambda>_.
      run_bind (run_expect (chat_peek w Bob)) (\<lambda>peeked.
        run_assert (peeked = None)))))))))"

definition test_list_mailboxes :: "chat_world \<Rightarrow> bool" where
  "test_list_mailboxes w = test_passes w [Alice, Bob, Charlie]
     (\<lambda>st. let mailboxes = list_mailboxes (ch_system st)
       in run_bind (run_assert (length mailboxes = 3)) (\<lambda>_.
          run_bind (run_assert (''alice@dolda'' \<in> set mailboxes)) (\<lambda>_.
          run_bind (run_assert (''bob@dolda'' \<in> set mailboxes)) (\<lambda>_.
            run_assert (''charlie@dolda'' \<in> set mailboxes)))) st)"

definition test_mailbox_stats :: "chat_world \<Rightarrow> bool" where
  "test_mailbox_stats w = test_passes w [Alice, Bob]
     (run_bind (run_expect (chat_send w Alice ''bob@dolda'' ''msg1'')) (\<lambda>_.
      run_bind (run_expect (chat_send w Alice ''bob@dolda'' ''msg2'')) (\<lambda>_ st.
        (case mailbox_address_new ''bob@dolda'' of
           Inl _ \<Rightarrow> None
         | Inr bob_addr \<Rightarrow> run_assert (bob_addr \<in> fst ` set (mailbox_stats (ch_system st))) st))))"

section \<open>How they end\<close>

lemmas running = run_bind_def run_expect_def receive_unwrap_def peek_unwrap_def run_unwrap_def run_assert_def

lemma create_users_ok:
  assumes "mailbox_system_new (out_os (cw_out w)) dir = Inr sys0" "os_willing (out_os (cw_out w))"
    and "\<not> contains_str ''..'' dir" "CHR 0x00 \<notin> set dir"
    and "mx_default_config (ch_system st) = mx_default_config sys0" "mx_base_dir (ch_system st) = dir"
    and "chatting us w st (\<lambda>_. []) (\<lambda>_. 0)" "map fst (mx_mailboxes (ch_system st)) = as"
    and "distinct vs" "\<forall>v \<in> set vs. address_of v \<notin> set as" "set vs \<inter> us = {}"
  shows "\<exists>st'. create_users (out_os (cw_out w)) vs st = Some st' \<and> chatting (us \<union> set vs) w st' (\<lambda>_. []) (\<lambda>_. 0)
    \<and> map fst (mx_mailboxes (ch_system st')) = as @ map address_of vs \<and> ch_calls st' = ch_calls st"
  using assms(5-)
proof (induction vs arbitrary: us st as)
  case Nil
  then show ?case by simp
next
  case (Cons v vs)
  let ?new = "\<lparr>mb_address = address_of v, mb_read_offset = 0\<rparr>" and ?os = "out_os (cw_out w)"
  have none: "map_of (mx_mailboxes (ch_system st)) (address_of v) = None"
    using Cons.prems(4,6) by (simp add: map_of_eq_None_iff flip: Cons.prems(4))
  from create_user_ok [OF assms(1) Cons.prems(1,2) assms(2) none assms(3,4)] obtain sys where
    sys: "create_mailbox ?os (address_of v) (ch_system st) = (Inr ?new, sys)"
    "mailbox_holds (cw_out w) sys (address_of v) []"
    "\<forall>a. a \<noteq> address_of v \<longrightarrow> map_of (mx_mailboxes sys) a = map_of (mx_mailboxes (ch_system st)) a"
    "mx_default_config sys = mx_default_config sys0" "mx_base_dir sys = dir" by blast
  let ?st = "st\<lparr>ch_system := sys, ch_handle := (ch_handle st)(v := ?new)\<rparr>"
  have "mailbox_holds (cw_out w) sys (address_of u) []" if "u \<in> us" "u \<noteq> v" for u
    using Cons.prems(3) sys(3) that by (simp add: chatting_def mailbox_holds_def)
  then have chat: "chatting (insert v us) w ?st (\<lambda>_. []) (\<lambda>_. 0)"
    using Cons.prems(3,7) sys(2) by (auto simp: chatting_def)
  obtain q where q: "mx_mailboxes sys = hash_insert (address_of v) q (mx_mailboxes (ch_system st))"
    using sys(1) by (auto simp: create_mailbox_def Let_def split: sum.splits if_splits)
  have keys: "map fst (mx_mailboxes (ch_system ?st)) = as @ [address_of v]"
    using none Cons.prems(4) by (simp add: q hash_insert_new map_of_eq_None_iff)
  have "\<exists>st'. create_users ?os vs ?st = Some st' \<and> chatting (insert v us \<union> set vs) w st' (\<lambda>_. []) (\<lambda>_. 0)
    \<and> map fst (mx_mailboxes (ch_system st')) = (as @ [address_of v]) @ map address_of vs \<and> ch_calls st' = ch_calls ?st"
    by (rule Cons.IH [OF _ _ chat keys]) (use Cons.prems(5-7) sys(4,5) in auto)
  then show ?case by (simp add: sys(1))
qed

text \<open>The start of a test, when the system grants every request.\<close>

definition granted :: "chat_world \<Rightarrow> bool" where
  "granted w \<longleftrightarrow> os_willing (out_os (cw_out w))
     \<and> (\<exists>dir. cw_temp_dir w = Inr dir \<and> \<not> contains_str ''..'' dir \<and> CHR 0x00 \<notin> set dir)"

lemma test_start_ok:
  assumes "granted w" "distinct us"
  shows "\<exists>st. test_start w us = Some st \<and> chatting (set us) w st (\<lambda>_. []) (\<lambda>_. 0)
    \<and> list_mailboxes (ch_system st) = map address_of us \<and> ch_calls st = 0"
proof -
  obtain dir where dir: "cw_temp_dir w = Inr dir" "\<not> contains_str ''..'' dir" "CHR 0x00 \<notin> set dir"
    and os: "os_willing (out_os (cw_out w))" using assms(1) by (auto simp: granted_def)
  obtain sys0 where sys0: "mailbox_system_new (out_os (cw_out w)) dir = Inr sys0" "mx_base_dir sys0 = dir" "mx_mailboxes sys0 = []"
    using os by (simp add: mailbox_system_new_def os_willing_def)
  let ?st = "\<lparr>ch_system = sys0, ch_handle = (\<lambda>_. \<lparr>mb_address = [], mb_read_offset = 0\<rparr>), ch_printed = [], ch_calls = 0\<rparr>"
  have "test_start w us = create_users (out_os (cw_out w)) us ?st"
    by (simp add: test_start_def create_test_system_def dir(1) sys0(1))
  moreover have "\<exists>st'. create_users (out_os (cw_out w)) us ?st = Some st' \<and> chatting ({} \<union> set us) w st' (\<lambda>_. []) (\<lambda>_. 0)
    \<and> map fst (mx_mailboxes (ch_system st')) = [] @ map address_of us \<and> ch_calls st' = ch_calls ?st"
    by (rule create_users_ok [OF sys0(1) os dir(2,3)]) (simp_all add: sys0 chatting_def assms(2))
  ultimately show ?thesis by (simp add: list_mailboxes_def)
qed

lemma test_passes_started:
  "test_start w us = Some st \<Longrightarrow> test_passes w us body = (case body st of Some (Inr _, _) \<Rightarrow> True | _ \<Rightarrow> False)"
  by (simp add: test_passes_def)

text \<open>A message from one user to another, and one that arrives.\<close>

definition json_carries_message :: "chat_world \<Rightarrow> mailbox_message \<Rightarrow> bool" where
  "json_carries_message w m \<longleftrightarrow> (\<exists>b. to_json (out_json (cw_out w)) m = Inr b \<and> b \<noteq> [] \<and> length b \<le> 1000000
     \<and> from_json (out_json (cw_out w)) b = Inr m)"

definition json_bytes :: "chat_world \<Rightarrow> mailbox_message \<Rightarrow> bytes" where
  "json_bytes w m = (case to_json (out_json (cw_out w)) m of Inr b \<Rightarrow> b | Inl _ \<Rightarrow> [])"

lemma json_carriesD:
  assumes "json_carries_message w m"
  shows "to_json (out_json (cw_out w)) m = Inr (json_bytes w m)" "json_bytes w m \<noteq> []" "length (json_bytes w m) \<le> 1000000"
    "from_json (out_json (cw_out w)) (json_bytes w m) = Inr m"
  using assms by (auto simp: json_carries_message_def json_bytes_def)

lemma test_send_ok:
  assumes "chatting us w st boxes offs" "os_willing (out_os (cw_out w))" "json_carries_message w m"
    and "m = chat_message w (ch_calls st) u v text" "length (boxes v) < 10" "u \<in> us" "v \<in> us"
  shows "\<exists>st'. chat_send w u (address_of v) text st = Some (Inr (mm_id m), st')
    \<and> chatting us w st' (boxes(v := boxes v @ [json_bytes w m])) offs \<and> ch_calls st' = ch_calls st + 1"
proof -
  have to_v: "mm_to m = address_of v" by (simp add: assms(4) chat_message_def mailbox_message_new_def)
  from sending_ok [OF assms(1,2) _ to_v json_carriesD(1,3) [OF assms(3)] assms(5-7),
      of "\<lambda>out stamp. send_to out stamp (address_of v) (string_bytes text)"]
  show ?thesis by (auto simp: chat_send_def send_routes [OF assms(1,6)] assms(4) chat_message_def)
qed

lemma test_receive_ok:
  assumes "chatting us w st boxes offs" "boxes u = recs @ [json_bytes w m]" "offs u = length recs"
    and "json_carries_message w m" "u \<in> us"
  shows "\<exists>st'. chat_receive w u st = Some (Inr (Some m), st') \<and> chatting us w st' boxes (offs(u := offs u + 1))
    \<and> ch_calls st' = ch_calls st + 1"
  using receive_ok [OF assms(1-3) json_carriesD(2,4) [OF assms(4)] assms(5)] by blast

lemma test_peek_ok:
  assumes "chatting us w st boxes offs" "boxes u = recs @ [json_bytes w m]" "offs u = length recs"
    and "json_carries_message w m" "u \<in> us"
  shows "\<exists>st'. chat_peek w u st = Some (Inr (Some m), st') \<and> chatting us w st' boxes offs \<and> ch_calls st' = ch_calls st + 1"
proof -
  note j = json_carriesD [OF assms(4)]
  have "peek (chat_out w st) (ch_system st) (ch_handle st u) = Inr (Some m)"
    using reading_next [OF assms(1-3) j(2) assms(5)] j by (simp add: peek_def mailbox_message_from_bytes_def)
  moreover have "chatting us w (st\<lparr>ch_calls := ch_calls st + 1\<rparr>) boxes offs" using assms(1) by (simp add: chatting_def)
  ultimately show ?thesis by (simp add: chat_peek_def)
qed

lemma create_mailbox_passes: "granted w \<Longrightarrow> test_create_mailbox w"
proof -
  assume granted: "granted w"
  then obtain dir where dir: "cw_temp_dir w = Inr dir" "\<not> contains_str ''..'' dir" "CHR 0x00 \<notin> set dir"
    and os: "os_willing (out_os (cw_out w))" by (auto simp: granted_def)
  obtain sys0 where sys0: "mailbox_system_new (out_os (cw_out w)) dir = Inr sys0" "mx_base_dir sys0 = dir" "mx_mailboxes sys0 = []"
    using os by (simp add: mailbox_system_new_def os_willing_def)
  have "map_of (mx_mailboxes sys0) (address_of Alice) = None" by (simp add: sys0(3))
  from create_user_ok [where out = "cw_out w", OF sys0(1) refl sys0(2) os this dir(2,3)] show ?thesis
    by (auto simp: test_create_mailbox_def create_test_system_def dir(1) sys0(1))
qed

lemma list_mailboxes_passes: "granted w \<Longrightarrow> test_list_mailboxes w"
proof -
  assume "granted w"
  from test_start_ok [OF this, of "[Alice, Bob, Charlie]"] obtain st where
    "test_start w [Alice, Bob, Charlie] = Some st" "list_mailboxes (ch_system st) = map address_of [Alice, Bob, Charlie]" by auto
  then show ?thesis by (simp add: test_list_mailboxes_def test_passes_started Let_def running)
qed

lemma send_and_receive_passes:
  assumes "granted w" "m = chat_message w 0 Alice Bob ''Hello Bob!''" "json_carries_message w m" "mm_id m \<noteq> []"
  shows "test_send_and_receive w"
proof -
  have os: "os_willing (out_os (cw_out w))" using assms(1) by (simp add: granted_def)
  obtain st0 where st0: "test_start w [Alice, Bob] = Some st0" "chatting {Alice, Bob} w st0 (\<lambda>_. []) (\<lambda>_. 0)" "ch_calls st0 = 0"
    using test_start_ok [OF assms(1), of "[Alice, Bob]"] by auto
  from test_send_ok [OF st0(2) os assms(3), of Alice Bob "''Hello Bob!''"] obtain st1 where
    st1: "chat_send w Alice ''bob@dolda'' ''Hello Bob!'' st0 = Some (Inr (mm_id m), st1)"
    "chatting {Alice, Bob} w st1 ((\<lambda>_. [])(Bob := [json_bytes w m])) (\<lambda>_. 0)"
    using assms(2) st0(3) by auto
  from test_receive_ok [OF st1(2), of Bob "[]" m] assms(3) obtain st2 where
    "chat_receive w Bob st1 = Some (Inr (Some m), st2)" by auto
  moreover have "mm_from m = ''alice@dolda''" "mm_to m = ''bob@dolda''" "mm_body m = string_bytes ''Hello Bob!''"
    by (simp_all add: assms(2) chat_message_def mailbox_message_new_def)
  ultimately show ?thesis
    using assms(4)
    by (simp add: test_send_and_receive_def test_passes_started [OF st0(1)] running st1(1))
qed

lemma reply_passes:
  assumes "granted w" "m = with_subject ''Question'' (chat_message w 0 Alice Bob ''How are you?'')" "json_carries_message w m"
    and "a = with_subject ''Re: Question'' (chat_message w 2 Bob Alice (''I'' @ [CHR 0x27] @ ''m good, thanks!''))"
      "json_carries_message w a"
  shows "test_reply w"
proof -
  let ?us = "{Alice, Bob}"
  have os: "os_willing (out_os (cw_out w))" using assms(1) by (simp add: granted_def)
  obtain st0 where st0: "test_start w [Alice, Bob] = Some st0" "chatting ?us w st0 (\<lambda>_. []) (\<lambda>_. 0)" "ch_calls st0 = 0"
    using test_start_ok [OF assms(1), of "[Alice, Bob]"] by auto
  have m: "mm_to m = address_of Bob" "mm_from m = address_of Alice" "mm_reply_to m = None" "mm_subject m = Some ''Question''"
    and a: "mm_to a = address_of Alice" "mm_from a = ''bob@dolda''" "mm_subject a = Some ''Re: Question''"
      "mm_body a = string_bytes (''I'' @ [CHR 0x27] @ ''m good, thanks!'')"
    by (simp_all add: assms(2,4) chat_message_def mailbox_message_new_def with_subject_def)
  from sending_ok [OF st0(2) os _ m(1) json_carriesD(1,3) [OF assms(3)],
      of "\<lambda>out stamp. send_with_subject out stamp ''bob@dolda'' ''Question'' (string_bytes ''How are you?'')" Alice]
  obtain st1 where st1: "chat_send_subject w Alice ''bob@dolda'' ''Question'' ''How are you?'' st0 = Some (Inr (mm_id m), st1)"
    "chatting ?us w st1 ((\<lambda>_. [])(Bob := [json_bytes w m])) (\<lambda>_. 0)" "ch_calls st1 = 1"
    by (auto simp: chat_send_subject_def send_routes [OF st0(2)] assms(2) chat_message_def st0(3))
  from test_receive_ok [OF st1(2), of Bob "[]" m] assms(3) obtain st2 where
    st2: "chat_receive w Bob st1 = Some (Inr (Some m), st2)"
    "chatting ?us w st2 ((\<lambda>_. [])(Bob := [json_bytes w m])) ((\<lambda>_. 0)(Bob := 1))" "ch_calls st2 = 2" using st1(3) by auto
  have handle: "mb_address (ch_handle st2 Bob) = address_of Bob" using st2(2) by (simp add: chatting_def)
  have answer: "reply out (cw_stamp w 2) m (string_bytes (''I'' @ [CHR 0x27] @ ''m good, thanks!'')) (ch_handle st2 Bob) sys
      = route_message out a sys" for out sys
    by (simp add: reply_def m handle assms(4) chat_message_def)
  from sending_ok [OF st2(2) os _ a(1) json_carriesD(1,3) [OF assms(5)],
      of "\<lambda>out stamp. reply out stamp m (string_bytes (''I'' @ [CHR 0x27] @ ''m good, thanks!''))" Bob]
  obtain st3 where st3: "chat_reply w Bob m (''I'' @ [CHR 0x27] @ ''m good, thanks!'') st2 = Some (Inr (mm_id a), st3)"
    "chatting ?us w st3 ((\<lambda>_. [])(Bob := [json_bytes w m], Alice := [json_bytes w a])) ((\<lambda>_. 0)(Bob := 1))"
    using answer st2(3) by (auto simp: chat_reply_def)
  from test_receive_ok [OF st3(2), of Alice "[]" a] assms(5) obtain st4 where
    st4: "chat_receive w Alice st3 = Some (Inr (Some a), st4)" by auto
  show ?thesis
    by (simp add: test_reply_def test_passes_started [OF st0(1)] running st1(1) st2(1) st3(1) [simplified] st4 a(2-4))
qed

lemma peek_fails:
  assumes "granted w" "m = chat_message w 0 Alice Bob ''Test''" "json_carries_message w m"
  shows "\<not> test_peek w"
proof -
  let ?us = "{Alice, Bob}" and ?boxes = "(\<lambda>_. [])(Bob := [json_bytes w m])"
  have os: "os_willing (out_os (cw_out w))" using assms(1) by (simp add: granted_def)
  obtain st0 where st0: "test_start w [Alice, Bob] = Some st0" "chatting ?us w st0 (\<lambda>_. []) (\<lambda>_. 0)" "ch_calls st0 = 0"
    using test_start_ok [OF assms(1), of "[Alice, Bob]"] by auto
  from test_send_ok [OF st0(2) os assms(3), of Alice Bob "''Test''"] obtain st1 where
    st1: "chat_send w Alice ''bob@dolda'' ''Test'' st0 = Some (Inr (mm_id m), st1)" "chatting ?us w st1 ?boxes (\<lambda>_. 0)"
    using assms(2) st0(3) by auto
  from test_peek_ok [OF st1(2), of Bob "[]" m] assms(3) obtain st2 where
    st2: "chat_peek w Bob st1 = Some (Inr (Some m), st2)" "chatting ?us w st2 ?boxes (\<lambda>_. 0)" by auto
  from test_peek_ok [OF st2(2), of Bob "[]" m] assms(3) obtain st3 where
    st3: "chat_peek w Bob st2 = Some (Inr (Some m), st3)" "chatting ?us w st3 ?boxes (\<lambda>_. 0)" by auto
  from test_receive_ok [OF st3(2), of Bob "[]" m] assms(3) obtain st4 where
    st4: "chat_receive w Bob st3 = Some (Inr (Some m), st4)" "chatting ?us w st4 ?boxes ((\<lambda>_. 0)(Bob := 1))" by auto
  have "mailbox_holds (chat_out w st4) (ch_system st4) (mb_address (ch_handle st4 Bob)) [json_bytes w m]"
    "unat (mb_read_offset (ch_handle st4 Bob)) = 1" using st4(2) by (simp_all add: chatting_def)
  from read_next_beyond [OF this(1)] this(2) obtain e where
    "read_next (chat_out w st4) (ch_system st4) (ch_handle st4 Bob) = Inl (PersistQError e)" by auto
  then have "\<exists>st5. chat_peek w Bob st4 = Some (Inl (PersistQError e), st5)" by (simp add: chat_peek_def peek_def)
  then obtain st5 where "chat_peek w Bob st4 = Some (Inl (PersistQError e), st5)" by blast
  then show ?thesis
    by (simp add: test_peek_def test_passes_started [OF st0(1)] running st1(1) st2(1) st3(1) st4(1))
qed

text \<open>Three messages, of which the first receive gets the bytes of all.\<close>

lemma multiple_messages_fails:
  assumes "granted w" "m1 = chat_message w 0 Alice Bob ''Message 1''" "m2 = chat_message w 1 Alice Bob ''Message 2''"
      "m3 = chat_message w 2 Alice Bob ''Message 3''"
    and "json_carries_message w m1" "json_carries_message w m2" "json_carries_message w m3"
    and garbled: "from_json (out_json (cw_out w)) (json_bytes w m1 @ json_bytes w m2 @ json_bytes w m3) = Inl e"
  shows "\<not> test_multiple_messages w"
proof -
  let ?us = "{Alice, Bob}" and ?b1 = "json_bytes w m1" and ?b2 = "json_bytes w m2" and ?b3 = "json_bytes w m3"
  have os: "os_willing (out_os (cw_out w))" using assms(1) by (simp add: granted_def)
  obtain st0 where st0: "test_start w [Alice, Bob] = Some st0" "chatting ?us w st0 (\<lambda>_. []) (\<lambda>_. 0)" "ch_calls st0 = 0"
    using test_start_ok [OF assms(1), of "[Alice, Bob]"] by auto
  from test_send_ok [OF st0(2) os assms(5), of Alice Bob "''Message 1''"] obtain st1 where
    st1: "chat_send w Alice ''bob@dolda'' ''Message 1'' st0 = Some (Inr (mm_id m1), st1)"
    "chatting ?us w st1 ((\<lambda>_. [])(Bob := [?b1])) (\<lambda>_. 0)" "ch_calls st1 = 1" using assms(2) st0(3) by auto
  from test_send_ok [OF st1(2) os assms(6), of Alice Bob "''Message 2''"] obtain st2 where
    st2: "chat_send w Alice ''bob@dolda'' ''Message 2'' st1 = Some (Inr (mm_id m2), st2)"
    "chatting ?us w st2 ((\<lambda>_. [])(Bob := [?b1, ?b2])) (\<lambda>_. 0)" "ch_calls st2 = 2" using assms(3) st1(3) by auto
  from test_send_ok [OF st2(2) os assms(7), of Alice Bob "''Message 3''"] obtain st3 where
    st3: "chat_send w Alice ''bob@dolda'' ''Message 3'' st2 = Some (Inr (mm_id m3), st3)"
    "chatting ?us w st3 ((\<lambda>_. [])(Bob := [?b1, ?b2, ?b3])) (\<lambda>_. 0)" using assms(4) st2(3) by auto
  let ?st3 = "st3\<lparr>ch_calls := ch_calls st3 + 1\<rparr>"
  have chat: "chatting ?us w ?st3 ((\<lambda>_. [])(Bob := [?b1, ?b2, ?b3])) (\<lambda>_. 0)" using st3(2) by (simp add: chatting_def)
  from receive_garbled [OF chat, of Bob "[]" ?b1 "[?b2, ?b3]" e] garbled json_carriesD(2) [OF assms(5)] obtain st4 where
    "chat_receive w Bob ?st3 = Some (Inl (MailboxSerialization e), st4)" by auto
  then show ?thesis
    by (simp add: test_multiple_messages_def test_passes_started [OF st0(1)] running st1(1) st2(1) st3(1))
qed

lemma mailbox_stats_passes:
  assumes "granted w" "m1 = chat_message w 0 Alice Bob ''msg1''" "m2 = chat_message w 1 Alice Bob ''msg2''"
    and "json_carries_message w m1" "json_carries_message w m2"
  shows "test_mailbox_stats w"
proof -
  let ?us = "{Alice, Bob}" and ?b1 = "json_bytes w m1" and ?b2 = "json_bytes w m2"
  have os: "os_willing (out_os (cw_out w))" using assms(1) by (simp add: granted_def)
  obtain st0 where st0: "test_start w [Alice, Bob] = Some st0" "chatting ?us w st0 (\<lambda>_. []) (\<lambda>_. 0)" "ch_calls st0 = 0"
    using test_start_ok [OF assms(1), of "[Alice, Bob]"] by auto
  from test_send_ok [OF st0(2) os assms(4), of Alice Bob "''msg1''"] obtain st1 where
    st1: "chat_send w Alice ''bob@dolda'' ''msg1'' st0 = Some (Inr (mm_id m1), st1)"
    "chatting ?us w st1 ((\<lambda>_. [])(Bob := [?b1])) (\<lambda>_. 0)" "ch_calls st1 = 1" using assms(2) st0(3) by auto
  from test_send_ok [OF st1(2) os assms(5), of Alice Bob "''msg2''"] obtain st2 where
    st2: "chat_send w Alice ''bob@dolda'' ''msg2'' st1 = Some (Inr (mm_id m2), st2)"
    "chatting ?us w st2 ((\<lambda>_. [])(Bob := [?b1, ?b2])) (\<lambda>_. 0)" using assms(3) st1(3) by auto
  have "mailbox_holds (cw_out w) (ch_system st2) ''bob@dolda'' [?b1, ?b2]" using st2(2) by (simp add: chatting_def)
  then have "''bob@dolda'' \<in> fst ` set (mx_mailboxes (ch_system st2))"
    by (auto simp: mailbox_holds_def dest!: map_of_SomeD intro: rev_image_eqI)
  then have "''bob@dolda'' \<in> fst ` set (mailbox_stats (ch_system st2))"
    by (force simp: mailbox_stats_def)
  then show ?thesis
    by (simp add: test_mailbox_stats_def test_passes_started [OF st0(1)] running st1(1) st2(1) mailbox_address_new_def)
qed

section \<open>Which tests pass\<close>

text \<open>The messages that the tests send, in each test the first ones of their system.\<close>

definition test_messages :: "chat_world \<Rightarrow> mailbox_message list" where
  "test_messages w =
     [chat_message w 0 Alice Bob ''Message 1'', chat_message w 1 Alice Bob ''Message 2'', chat_message w 2 Alice Bob ''Message 3'',
      chat_message w 0 Alice Bob ''Hello Bob!'', with_subject ''Question'' (chat_message w 0 Alice Bob ''How are you?''),
      with_subject ''Re: Question'' (chat_message w 2 Bob Alice (''I'' @ [CHR 0x27] @ ''m good, thanks!'')),
      chat_message w 0 Alice Bob ''Test'', chat_message w 0 Alice Bob ''msg1'', chat_message w 1 Alice Bob ''msg2'']"

text \<open>C18: Of the seven unit tests of the mailbox system, five pass and two fail, on a system that grants
  every request, with ids that are not empty and a JSON library that reads back single messages
  and refuses three in a row: three messages cannot be received one by one, and a mailbox that was
  emptied cannot be peeked into.\<close>

theorem mailbox_tests_results:
  assumes "granted w" "json_reads_single (out_json (cw_out w)) (test_messages w)" "fst (cw_stamp w 0) \<noteq> []"
  shows "[test_create_mailbox w, test_send_and_receive w, test_multiple_messages w, test_reply w, test_peek w,
      test_list_mailboxes w, test_mailbox_stats w] = [True, True, False, True, False, True, True]"
proof -
  have carried: "\<forall>m \<in> set (test_messages w). json_carries_message w m"
    using assms(2) unfolding json_reads_single_def json_carries_message_def by blast
  note json = this [unfolded test_messages_def list.set]
  let ?m = "\<lambda>i text. chat_message w i Alice Bob text"
  have three: "json_carries_message w (?m 0 ''Message 1'')" "json_carries_message w (?m 1 ''Message 2'')"
    "json_carries_message w (?m 2 ''Message 3'')" using json by blast+
  have "?m 0 ''Message 1'' \<in> set (test_messages w)" "?m 1 ''Message 2'' \<in> set (test_messages w)"
    "?m 2 ''Message 3'' \<in> set (test_messages w)" unfolding test_messages_def list.set by blast+
  then obtain e where e: "from_json (out_json (cw_out w)) (json_bytes w (?m 0 ''Message 1'') @ json_bytes w (?m 1 ''Message 2'')
      @ json_bytes w (?m 2 ''Message 3'')) = Inl e"
    using conjunct2 [OF assms(2) [unfolded json_reads_single_def], rule_format, OF _ _ _
      json_carriesD(1) [OF three(1)] json_carriesD(1) [OF three(2)] json_carriesD(1) [OF three(3)]] by blast
  have "mm_id (?m 0 ''Hello Bob!'') \<noteq> []" using assms(3) by (simp add: chat_message_def mailbox_message_new_def)
  then have "test_send_and_receive w" using send_and_receive_passes [OF assms(1) refl] json by blast
  moreover have "\<not> test_multiple_messages w" by (rule multiple_messages_fails [OF assms(1) refl refl refl three e])
  moreover have "test_reply w" using reply_passes [OF assms(1) refl _ refl] json by blast
  moreover have "\<not> test_peek w" using peek_fails [OF assms(1) refl] json by blast
  moreover have "test_mailbox_stats w" using mailbox_stats_passes [OF assms(1) refl refl] json by blast
  ultimately show ?thesis using create_mailbox_passes [OF assms(1)] list_mailboxes_passes [OF assms(1)] by simp
qed

definition demo_tests :: chat_world where
  "demo_tests = (let w = chat_world_with two_message_json; w1 = w\<lparr>cw_stamp := (\<lambda>i. (''id'' @ nat_string i, of_nat i))\<rparr>
     in w1\<lparr>cw_out := (cw_out w1)\<lparr>out_json := listed_json (test_messages w1)\<rparr>\<rparr>)"

theorem mailbox_tests_results_witness:
  "\<not> test_multiple_messages demo_tests \<and> test_send_and_receive demo_tests"
proof -
  let ?w1 = "(chat_world_with two_message_json)\<lparr>cw_stamp := (\<lambda>i. (''id'' @ nat_string i, of_nat i))\<rparr>"
  have stamps: "cw_stamp demo_tests = cw_stamp ?w1" by (simp add: demo_tests_def Let_def)
  have same: "test_messages demo_tests = test_messages ?w1"
    by (simp only: test_messages_def chat_message_def stamps)
  have "length (test_messages demo_tests) < 256" by (simp add: test_messages_def)
  then have "json_reads_single (listed_json (test_messages demo_tests)) (test_messages demo_tests)" by (rule listed_json_single)
  moreover have "out_json (cw_out demo_tests) = listed_json (test_messages ?w1)" by (simp add: demo_tests_def Let_def)
  ultimately have json: "json_reads_single (out_json (cw_out demo_tests)) (test_messages demo_tests)" by (simp only: same)
  have granted: "granted demo_tests"
    by (simp add: granted_def demo_tests_def Let_def chat_world_with_def demo_os_willing contains_str_def)
  have "fst (cw_stamp demo_tests 0) \<noteq> []" by (simp add: stamps)
  from mailbox_tests_results [OF granted json this] show ?thesis by simp
qed

end
