(* ===== verification/SQL_Example.thy ===== *)
theory SQL_Example
  imports SQL_Layer Manager_Filling
begin

text \<open>
  The program \<open>examples/datafusion_example.rs\<close>: it stores events as records, registers a table over the
  storage and queries it. DataFusion and Arrow are the parameters of \<open>SQL_Layer\<close>; as exporting a
  table writes a file, the session context after an export is a further parameter, which may
  depend on what was written. The list of events is an argument. \<open>None\<close> is a run that does not return.
\<close>

section \<open>The program\<close>

datatype 'b sql_line = Inserted u64 | RegisteredTables "string list" | QueryResult "'b list"
  | Exported string | TableFields schema

datatype sql_example_error = ExampleIo string | ExampleRecord record_error | ExampleStorage storage_error
  | ExampleSql sql_error

record 'b sql_state =
  sx_printed :: "'b sql_line list"
  sx_calls :: nat

record sql_world =
  sw_crc :: "bytes \<Rightarrow> u32"
  sw_clock :: "nat \<Rightarrow> u64"
  sw_temp_dir :: "string + string"
  sw_mkdir :: "string \<Rightarrow> io_error + unit"
  sw_open :: "string \<Rightarrow> io_error + bytes"

type_synonym ('b, 'a) sql_run = "('b sql_state, sql_example_error, 'a) run"

definition sql_print :: "'b sql_line \<Rightarrow> ('b, unit) sql_run" where
  "sql_print line st = Some (Inr (), st\<lparr>sx_printed := sx_printed st @ [line]\<rparr>)"

definition example_events :: "(string \<times> string) list" where
  "example_events = [(''user_login'', ''alice''), (''page_view'', ''alice''), (''user_login'', ''bob''),
     (''purchase'', ''alice''), (''page_view'', ''bob''), (''user_login'', ''charlie''), (''purchase'', ''bob''),
     (''page_view'', ''charlie''), (''purchase'', ''alice''), (''user_login'', ''alice'')]"

definition quoted :: "string \<Rightarrow> string" where
  "quoted s = CHR 0x22 # s @ [CHR 0x22]"

definition event_text :: "string \<times> string \<Rightarrow> string" where
  "event_text e = ''{'' @ quoted ''event'' @ '':'' @ quoted (fst e) @ '','' @ quoted ''user'' @ '':'' @ quoted (snd e) @ ''}''"

definition insert_event :: "sql_world \<Rightarrow> string \<times> string \<Rightarrow> segment_manager \<Rightarrow> ('b, segment_manager) sql_run" where
  "insert_event w e storage st =
     (let st1 = st\<lparr>sx_calls := sx_calls st + 1\<rparr>
      in case record_new (sw_clock w (sx_calls st)) (string_bytes (event_text e)) of
           Inl err \<Rightarrow> Some (Inl (ExampleRecord err), st1)
         | Inr r \<Rightarrow> map_option (\<lambda>(res, storage'). (map_sum ExampleStorage (\<lambda>_. storage') res, st1))
             (manager_append_record (sw_crc w) (sw_open w) r storage))"

definition show_query :: "('c, 'd, 'b, 'p) session_api \<Rightarrow> 'c sql_layer \<Rightarrow> string \<Rightarrow> ('b, unit) sql_run" where
  "show_query session l sql = run_bind (run_try ExampleSql (sql_query session l sql)) (\<lambda>results. sql_print (QueryResult results))"

text \<open>Sections 4 and 5, on the layer with the table \<open>events\<close>.\<close>

definition sql_queries :: "('c, 'd, 'b, 'p) session_api \<Rightarrow> 'c sql_layer \<Rightarrow> ('b, unit) sql_run" where
  "sql_queries session l =
     run_bind (show_query session l ''SELECT COUNT(*) as total FROM events'') (\<lambda>_.
     run_bind (show_query session l ''SELECT data, COUNT(*) as count FROM events GROUP BY data LIMIT 5'') (\<lambda>_.
       show_query session l ''SELECT record_id, data FROM events''))"

definition parquet_round :: "('c, 'd, 'b, 'p) session_api \<Rightarrow> ('d \<Rightarrow> string \<Rightarrow> ('c, 'd, 'b, 'p) session_api) \<Rightarrow> string
    \<Rightarrow> 'c sql_layer \<Rightarrow> ('b, unit) sql_run" where
  "parquet_round session exported path l =
     run_bind (run_try ExampleSql (export_to_parquet session l ''SELECT * FROM events'' path)) (\<lambda>_.
     run_bind (sql_print (Exported path)) (\<lambda>_.
     run_bind (run_try ExampleSql (query_dataframe session l ''SELECT * FROM events'')) (\<lambda>df.
     let session' = exported df path
     in run_bind (run_try ExampleSql (register_parquet session' ''events_parquet'' path l)) (\<lambda>l'.
        run_bind (show_query session' l' ''SELECT COUNT(*) FROM events_parquet'') (\<lambda>_.
        run_bind (run_try ExampleSql (get_table_schema session' l' ''events'')) (\<lambda>schema.
          sql_print (TableFields schema)))))))"

definition sql_example :: "sql_world \<Rightarrow> ('c, 'd, 'b, 'p) session_api \<Rightarrow> ('d \<Rightarrow> string \<Rightarrow> ('c, 'd, 'b, 'p) session_api)
    \<Rightarrow> ('b, 'p) arrow_api \<Rightarrow> (string \<times> string) list \<Rightarrow> ((sql_example_error + unit) \<times> 'b sql_line list) option" where
  "sql_example w session exported arrow events =
     map_option (\<lambda>(res, st). (res, sx_printed st))
       (run_bind (run_try ExampleIo (sw_temp_dir w)) (\<lambda>dir.
        run_bind (run_try ExampleStorage
          (segment_manager_new (sw_mkdir w dir) (sw_open w) 1 (64 * 1024 * 1024) dir False)) (\<lambda>new_storage.
        run_bind (run_fold (insert_event w) events new_storage) (\<lambda>storage.
        run_bind (sql_print (Inserted (ms_total_records (manager_stats storage)))) (\<lambda>_.
        run_bind (run_try ExampleSql (sql_layer_new session storage)) (\<lambda>new_layer.
        run_bind (run_try ExampleSql (register_table session arrow ''events'' ''data'' ''timestamp'' new_layer)) (\<lambda>l.
        run_bind (sql_print (RegisteredTables (list_tables session l))) (\<lambda>_.
        run_bind (sql_queries session l) (\<lambda>_.
          parquet_round session exported (dir @ ''/events.parquet'') l))))))))
        \<lparr>sx_printed = [], sx_calls = 0\<rparr>)"

definition datafusion_example :: "sql_world \<Rightarrow> ('c, 'd, 'b, 'p) session_api \<Rightarrow> ('d \<Rightarrow> string \<Rightarrow> ('c, 'd, 'b, 'p) session_api)
    \<Rightarrow> ('b, 'p) arrow_api \<Rightarrow> ((sql_example_error + unit) \<times> 'b sql_line list) option" where
  "datafusion_example w session exported arrow = sql_example w session exported arrow example_events"

section \<open>The storage is never read\<close>

text \<open>What the operations on a layer use of it: the session context.\<close>

definition in_context :: "'c \<Rightarrow> segment_manager \<Rightarrow> 'c sql_layer" where
  "in_context ctx storage = \<lparr>dl_ctx = ctx, dl_storage = storage\<rparr>"

lemma layer_operations:
  "sql_query session (in_context ctx s) sql = sql_query session (in_context ctx s') sql"
  "query_dataframe session (in_context ctx s) sql = query_dataframe session (in_context ctx s') sql"
  "export_to_parquet session (in_context ctx s) sql path = export_to_parquet session (in_context ctx s') sql path"
  "get_table_schema session (in_context ctx s) name = get_table_schema session (in_context ctx s') name"
  "list_tables session (in_context ctx s) = list_tables session (in_context ctx s')"
  by (simp_all add: in_context_def sql_query_def query_dataframe_def export_to_parquet_def get_table_schema_def list_tables_def)

lemma queries_ignore_storage: "sql_queries session (in_context ctx s) = sql_queries session (in_context ctx s')"
  by (simp only: sql_queries_def show_query_def layer_operations(1) [of session ctx s _ s'])

lemma parquet_ignores_storage:
  fixes session :: "('c, 'd, 'b, 'p) session_api"
  shows "parquet_round session exported path (in_context ctx s) = parquet_round session exported path (in_context ctx s')"
proof -
  have register: "register_parquet session' name path (in_context ctx s)
      = map_sum (\<lambda>e. e) (\<lambda>c. in_context c s) (map_err DataFusionFailed (se_register_parquet session' name path ctx))"
    for session' :: "('c, 'd, 'b, 'p) session_api" and name and s
    by (cases "se_register_parquet session' name path ctx") (simp_all add: register_parquet_def in_context_def)
  have rest: "run_bind (run_try ExampleSql (register_parquet session' ''events_parquet'' path (in_context ctx s))) (\<lambda>l'.
        run_bind (show_query session' l' ''SELECT COUNT(*) FROM events_parquet'') (\<lambda>_.
        run_bind (run_try ExampleSql (get_table_schema session' l' ''events'')) (\<lambda>schema. sql_print (TableFields schema))))
    = run_bind (run_try ExampleSql (register_parquet session' ''events_parquet'' path (in_context ctx s'))) (\<lambda>l'.
        run_bind (show_query session' l' ''SELECT COUNT(*) FROM events_parquet'') (\<lambda>_.
        run_bind (run_try ExampleSql (get_table_schema session' l' ''events'')) (\<lambda>schema. sql_print (TableFields schema))))"
    for session' :: "('c, 'd, 'b, 'p) session_api"
    unfolding register
    by (cases "se_register_parquet session' ''events_parquet'' path ctx")
      (simp_all add: fun_eq_iff run_bind_def [of "run_try _ _"] run_try_def show_query_def
        layer_operations(1,4) [of session' _ s _ s'])
  show ?thesis
    by (simp only: parquet_round_def Let_def rest layer_operations(2) [of session ctx s _ s'] layer_operations(3) [of session ctx s _ _ s'])
qed

definition events_schema :: schema where
  "events_schema = [\<lparr>sf_name = ''data'', sf_data_type = Utf8Type, sf_nullable = False\<rparr>,
     \<lparr>sf_name = ''timestamp'', sf_data_type = TimestampMicros, sf_nullable = False\<rparr>,
     \<lparr>sf_name = ''record_id'', sf_data_type = UInt64Type, sf_nullable = False\<rparr>]"

lemma register_events:
  "register_table session arrow ''events'' ''data'' ''timestamp'' (in_context ctx s)
    = map_sum (\<lambda>e. e) (\<lambda>c. in_context c s)
        (map_err DataFusionFailed (se_register_table session ''events'' (empty_table arrow events_schema) ctx))"
  by (cases "se_register_table session ''events'' (empty_table arrow events_schema) ctx")
    (simp_all add: register_table_def provider_new_def table_object_empty in_context_def events_schema_def [symmetric])

text \<open>Inserting short events.\<close>

definition short_event :: "string \<times> string \<Rightarrow> bool" where
  "short_event e \<longleftrightarrow> length (fst e) + length (snd e) \<le> 900"

lemma insert_events:
  assumes "\<forall>p. \<exists>old. sw_open w p = Inr old" "\<forall>e \<in> set events. short_event e" "length events \<le> 60000"
    and "evenly (sw_crc w) 60000 0 1000 (64 * 1024 * 1024) m 0"
  shows "\<exists>m'. run_fold (insert_event w :: _ \<Rightarrow> _ \<Rightarrow> ('b, segment_manager) sql_run) events m \<lparr>sx_printed = [], sx_calls = 0\<rparr>
      = Some (Inr m', \<lparr>sx_printed = [], sx_calls = length events\<rparr>)
    \<and> ms_total_records (manager_stats m') = of_nat (length events)"
proof -
  let ?P = "\<lambda>i m' (st :: 'b sql_state). evenly (sw_crc w) 60000 0 1000 (64 * 1024 * 1024) m' i
    \<and> st = \<lparr>sx_printed = [], sx_calls = i\<rparr>"
  have "\<exists>m' st'. run_fold (insert_event w :: _ \<Rightarrow> _ \<Rightarrow> ('b, segment_manager) sql_run) events m \<lparr>sx_printed = [], sx_calls = 0\<rparr> = Some (Inr m', st') \<and> ?P (length events) m' st'"
  proof (rule run_fold_invariant [where P = ?P])
    show "?P 0 m \<lparr>sx_printed = [], sx_calls = 0\<rparr>" using assms(4) by simp
  next
    fix i m1 st
    assume P: "?P i m1 st" and i: "i < length events"
    let ?data = "string_bytes (event_text (events ! i))"
    let ?r = "\<lparr>rec_timestamp = sw_clock w i, rec_data = ?data\<rparr>"
    have "short_event (events ! i)" using assms(2) i by simp
    then have len: "length ?data \<le> 930" by (simp add: event_text_def quoted_def short_event_def)
    then have r: "record_ok ?r" "0 \<le> serialized_size ?r" "serialized_size ?r \<le> 1000"
      by (simp_all add: record_ok_def MAX_RECORD_SIZE_def serialized_size_def RECORD_HEADER_SIZE_def)
    have new: "record_new (sw_clock w i) ?data = Inr ?r" using len by (simp add: record_new_def MAX_RECORD_SIZE_def)
    have c: "1000 * 60000 \<le> unat (64 * 1024 * 1024 :: usize)" "unat (64 * 1024 * 1024 :: usize) < 0 * (60000 + 1) \<or> i < 60000"
      "(0::nat) < 60000" using i assms(3) by simp_all
    from evenly_append [OF conjunct1 [OF P] c r assms(1)] obtain off m2 where
      "manager_append_record (sw_crc w) (sw_open w) ?r m1 = Some (Inr off, m2)"
      "evenly (sw_crc w) 60000 0 1000 (64 * 1024 * 1024) m2 (i + 1)" by blast
    then show "\<exists>m2 st2. insert_event w (events ! i) m1 st = Some (Inr m2, st2) \<and> ?P (Suc i) m2 st2"
      using conjunct2 [OF P] by (simp add: insert_event_def new)
  qed
  then show ?thesis using evenly_total by blast
qed

text \<open>C39: What the DataFusion example prints does not depend on the events it stores: with any other events,
  as many and short enough, the answers to all its queries, the exported file and the errors are
  the same, because its table is always empty. (The system opens every file.)\<close>

theorem example_ignores_events:
  fixes session :: "('c, 'd, 'b, 'p) session_api"
  assumes "\<forall>p. \<exists>old. sw_open w p = Inr old" "\<forall>e \<in> set events. short_event e" "length events = 10"
  shows "sql_example w session exported arrow events = datafusion_example w session exported arrow"
proof -
  let ?st0 = "\<lparr>sx_printed = [], sx_calls = 0\<rparr> :: 'b sql_state"
  let ?rest = "\<lambda>dir storage. run_bind (sql_print (Inserted (ms_total_records (manager_stats storage)))) (\<lambda>_.
        run_bind (run_try ExampleSql (sql_layer_new session storage)) (\<lambda>new_layer.
        run_bind (run_try ExampleSql (register_table session arrow ''events'' ''data'' ''timestamp'' new_layer)) (\<lambda>l.
        run_bind (sql_print (RegisteredTables (list_tables session l))) (\<lambda>_.
        run_bind (sql_queries session l) (\<lambda>_.
          parquet_round session exported (dir @ ''/events.parquet'') l)))))"
  have short: "\<forall>e \<in> set example_events. short_event e" "length example_events = 10"
    by (simp_all add: example_events_def short_event_def)
  have rest: "?rest dir s st = ?rest dir s' st"
    if "ms_total_records (manager_stats s) = ms_total_records (manager_stats s')" for dir s s' st
  proof -
    have layer: "sql_layer_new session s = Inr (in_context (se_new session) s)" for s
      by (simp add: sql_layer_new_def in_context_def)
    show ?thesis
      unfolding layer that
      by (cases "se_register_table session ''events'' (empty_table arrow events_schema) (se_new session)")
        (simp_all add: register_events run_bind_def [of "sql_print _"] run_bind_def [of "run_try _ _"] run_try_def sql_print_def
          queries_ignore_storage [of session _ s s'] parquet_ignores_storage [of session exported _ _ s s']
          layer_operations(5) [of session _ s s'])
  qed
  show ?thesis
  proof (cases "sw_temp_dir w")
    case (Inl e)
    then show ?thesis by (simp add: sql_example_def datafusion_example_def run_bind_def run_try_def)
  next
    case (Inr dir)
    show ?thesis
    proof (cases "segment_manager_new (sw_mkdir w dir) (sw_open w) 1 (64 * 1024 * 1024) dir False")
      case (Inl e)
      then show ?thesis using Inr by (simp add: sql_example_def datafusion_example_def run_bind_def run_try_def)
    next
      case (Inr m)
      note new = this
      have "evenly (sw_crc w) 60000 0 1000 (64 * 1024 * 1024) m 0" by (rule evenly_new [OF new]) simp
      note fold = insert_events [OF assms(1) _ _ this]
      obtain s where s: "run_fold (insert_event w) events m ?st0 = Some (Inr s, \<lparr>sx_printed = [], sx_calls = 10\<rparr>)"
        "ms_total_records (manager_stats s) = of_nat 10" using fold [OF assms(2)] assms(3) by auto
      obtain s' where s': "run_fold (insert_event w) example_events m ?st0 = Some (Inr s', \<lparr>sx_printed = [], sx_calls = 10\<rparr>)"
        "ms_total_records (manager_stats s') = of_nat 10" using fold [OF short(1)] short(2) by auto
      have first: "run_bind (run_fold (insert_event w) events m) goes ?st0 = goes s \<lparr>sx_printed = [], sx_calls = 10\<rparr>"
        "run_bind (run_fold (insert_event w) example_events m) goes ?st0 = goes s' \<lparr>sx_printed = [], sx_calls = 10\<rparr>"
        for goes :: "segment_manager \<Rightarrow> ('b, unit) sql_run" by (simp_all add: run_bind_def s(1) s'(1))
      show ?thesis
        unfolding sql_example_def datafusion_example_def \<open>sw_temp_dir w = Inr dir\<close> new run_try_bind first
        by (rule arg_cong [OF rest]) (simp only: s(2) s'(2))
    qed
  qed
qed

text \<open>A session that answers every query with a scan of the first registered table.\<close>

type_synonym scan_context = "(string \<times> arrow_column list list list table_object) list"

definition scan_session :: "(scan_context, scan_context, arrow_column list, arrow_column list list list) session_api" where
  "scan_session = \<lparr>se_new = [], se_register_table = (\<lambda>name t ctx. Inr (ctx @ [(name, t)])),
     se_register_parquet = (\<lambda>name path ctx. Inr ctx), se_sql = (\<lambda>ctx sql. Inr ctx),
     se_collect = (\<lambda>df. case df of [] \<Rightarrow> Inl ''no table'' | (_, t) # _ \<Rightarrow> map_sum (\<lambda>e. e) concat (to_scan t None)),
     se_write_parquet = (\<lambda>df path. Inr ()),
     se_table_schema = (\<lambda>ctx name. case map_of ctx name of None \<Rightarrow> Inl ''no table'' | Some t \<Rightarrow> Inr (to_schema t)),
     se_table_names = map fst\<rparr>"

definition demo_sql_world :: sql_world where
  "demo_sql_world = \<lparr>sw_crc = sum_crc, sw_clock = of_nat, sw_temp_dir = Inr ''/tmp/d'', sw_mkdir = (\<lambda>_. Inr ()),
     sw_open = (\<lambda>_. Inr [])\<rparr>"

theorem example_ignores_events_witness:
  "sql_example demo_sql_world scan_session (\<lambda>_ _. scan_session) demo_arrow (replicate 10 (''a'', ''b''))
    = datafusion_example demo_sql_world scan_session (\<lambda>_ _. scan_session) demo_arrow"
proof (rule example_ignores_events)
  show "\<forall>p. \<exists>old. sw_open demo_sql_world p = Inr old" by (simp add: demo_sql_world_def)
  show "\<forall>e \<in> set (replicate 10 (''a'', ''b'')). short_event e" by (simp add: short_event_def)
  show "length (replicate 10 (''a'', ''b'')) = 10" by simp
qed

end
