(* ===== verification/Node_Load.thy ===== *)
theory Node_Load
  imports Cluster Float64
begin

text \<open>
  The rest of \<open>src/node.rs\<close>: the load factor of a node, the simulated use of its resources, connections
  to other nodes and the messages between nodes. Opening a TCP connection is a parameter.
\<close>

datatype node_message =
    HeartbeatMessage u32 u64
  | DataRequest u32 u64 usize
  | DataResponse bytes
  | MetadataSync string file_attrs
  | PartitionAssignment u32 u32

definition connect_to :: "(string \<Rightarrow> io_error + 'stream) \<Rightarrow> cnode \<Rightarrow> dolda_error + 'stream" where
  "connect_to connect target =
     (case ne_socket_addr (cn_endpoint target) of
        Some addr \<Rightarrow> map_err DoldaIo (connect addr)
      | None \<Rightarrow> Inl (DoldaNetwork ''Invalid socket address''))"

definition used_share :: "u64 \<Rightarrow> u64 \<Rightarrow> f64" where
  "used_share available all = f64_sub (Fin 1) (f64_div (f64_of_int (uint available)) (f64_of_int (uint all)))"

definition load_factor :: "cnode \<Rightarrow> f64" where
  "load_factor n =
     (let resources = nc_resources (cn_config n);
          memory_usage = used_share (nr_available_memory resources) (nr_total_memory resources);
          storage_usage = used_share (nr_available_storage resources) (nr_total_storage resources);
          cpu_usage = f64_div (nr_cpu_usage resources) (Fin 100)
      in f64_div (f64_add (f64_add memory_usage storage_usage) cpu_usage) (Fin 3))"

definition update_resources :: "cnode \<Rightarrow> cnode" where
  "update_resources n =
     (let config = cn_config n; resources = nc_resources config
      in n\<lparr>cn_config := config\<lparr>nc_resources := resources\<lparr>
           nr_cpu_usage := f64_rem (f64_add (nr_cpu_usage resources) (Fin 1)) (Fin 100),
           nr_available_memory := saturating_sub (nr_available_memory resources) (1024 * 1024)\<rparr>\<rparr>\<rparr>)"

section \<open>What the updates do\<close>

abbreviation resources_of :: "cnode \<Rightarrow> node_resources" where
  "resources_of n \<equiv> nc_resources (cn_config n)"

lemma cpu_usage_step:
  assumes "c < (100 :: nat)"
  shows "f64_rem (f64_add (Fin (of_nat c)) (Fin 1)) (Fin 100) = Fin (of_nat ((c + 1) mod 100))"
proof -
  have "f64_of_int (int (c + 1)) = Fin (of_int (int (c + 1)))" by (rule f64_of_int_exact) (use assms in simp)
  then have "f64_add (Fin (of_nat c)) (Fin 1) = Fin (of_nat (c + 1))" by (simp add: f64_of_int_def algebra_simps)
  moreover have "\<lfloor>rat_of_nat (c + 1) / 100\<rfloor> = int ((c + 1) div 100)"
    using floor_divide_of_nat_eq [of "c + 1" 100, where 'a = rat] by simp
  moreover have "rat_of_nat (c + 1) - 100 * of_nat ((c + 1) div 100) = of_nat ((c + 1) mod 100)"
    using arg_cong [OF mult_div_mod_eq [of 100 "c + 1"], of rat_of_nat]
    unfolding of_nat_add [of "100 * ((c + 1) div 100)"] of_nat_mult by linarith
  ultimately show ?thesis by (simp add: divide_less_0_iff del: of_nat_add of_nat_Suc)
qed

lemma update_resources_simps:
  "nr_cpu_usage (resources_of (update_resources n)) = f64_rem (f64_add (nr_cpu_usage (resources_of n)) (Fin 1)) (Fin 100)"
  "nr_available_memory (resources_of (update_resources n)) = saturating_sub (nr_available_memory (resources_of n)) (1024 * 1024)"
  by (simp_all add: update_resources_def Let_def)

text \<open>The simulated figures after \<open>k\<close> updates, which the load of a node follows: the CPU counts up and
  wraps at 100, and the memory runs out.\<close>

lemma updates_counted:
  assumes "nr_cpu_usage (resources_of n) = Fin (of_nat c)" "c < 100"
  shows "nr_cpu_usage (resources_of ((update_resources ^^ k) n)) = Fin (of_nat ((c + k) mod 100))"
    and "unat (nr_available_memory (resources_of ((update_resources ^^ k) n)))
      = unat (nr_available_memory (resources_of n)) - k * 2 ^ 20"
proof (induction k)
  case 0
  { case 1 show ?case using assms by simp }
  { case 2 show ?case by simp }
next
  case (Suc k)
  { case 1
    have "((c + k) mod 100 + 1) mod 100 = (c + Suc k) mod 100" by (simp add: mod_simps)
    then show ?case using cpu_usage_step [of "(c + k) mod 100"] Suc(1)
      by (simp add: update_resources_simps del: of_nat_Suc of_nat_add) }
  { case 2
    show ?case using Suc(2) by (simp add: update_resources_simps unat_saturating_sub) }
qed

end
