(* ===== verification/Test_Support.thy ===== *)
theory Test_Support
  imports Dolda_Prelude
begin

text \<open>
  Unit tests as truth values: an assertion that fails and an \<open>unwrap\<close> of an error or of \<open>None\<close> make a
  test fail.
\<close>

definition on_ok :: "'e + 'a \<Rightarrow> ('a \<Rightarrow> bool) \<Rightarrow> bool" where
  "on_ok res rest = (case res of Inl _ \<Rightarrow> False | Inr x \<Rightarrow> rest x)"

definition on_some :: "'a option \<Rightarrow> ('a \<Rightarrow> bool) \<Rightarrow> bool" where
  "on_some res rest = (case res of None \<Rightarrow> False | Some x \<Rightarrow> rest x)"

fun is_ok :: "'e + 'a \<Rightarrow> bool" where
  "is_ok (Inl _) = False"
| "is_ok (Inr _) = True"

lemma on_ok_simps [simp]: "on_ok (Inl e) rest = False" "on_ok (Inr x) rest = rest x"
  by (simp_all add: on_ok_def)

lemma on_some_simps [simp]: "on_some None rest = False" "on_some (Some x) rest = rest x"
  by (simp_all add: on_some_def)

lemma widen_inj [simp]: "(ucast x :: u64) = ucast y \<longleftrightarrow> x = (y :: u32)"
proof -
  have "ucast (ucast x :: u64) = x" for x :: u32 by (rule bit_word_eqI) (simp add: bit_simps)
  then show ?thesis by metis
qed

end
