(* ===== verification/Record_Tests.thy ===== *)
theory Record_Tests
  imports Record_Format Test_Support
begin

text \<open>
  The unit tests of \<open>src/record.rs\<close> (module \<open>tests\<close>), for a checksum function and the readings of the clock.
\<close>

section \<open>The tests\<close>

fun is_invalid_magic :: "record_error + 'a \<Rightarrow> bool" where
  "is_invalid_magic (Inl (InvalidMagic _)) = True"
| "is_invalid_magic _ = False"

fun is_checksum_mismatch :: "record_error + 'a \<Rightarrow> bool" where
  "is_checksum_mismatch (Inl (ChecksumMismatch _ _)) = True"
| "is_checksum_mismatch _ = False"

fun is_incomplete_record :: "record_error + 'a \<Rightarrow> bool" where
  "is_incomplete_record (Inl (IncompleteRecord _ _)) = True"
| "is_incomplete_record _ = False"

fun is_record_too_large :: "record_error + 'a \<Rightarrow> bool" where
  "is_record_too_large (Inl (RecordTooLarge _)) = True"
| "is_record_too_large _ = False"

text \<open>\<open>bytes[i] ^= 0xFF\<close>\<close>

definition flip_byte :: "nat \<Rightarrow> bytes \<Rightarrow> bytes" where
  "flip_byte i bs = bs[i := xor (bs ! i) 0xFF]"

definition test_record_roundtrip :: "(bytes \<Rightarrow> u32) \<Rightarrow> (nat \<Rightarrow> u64) \<Rightarrow> bool" where
  "test_record_roundtrip crc clock =
     (let data = string_bytes ''Hello, production world!''
      in on_ok (record_new (clock 0) data) (\<lambda>r.
         let framed = serialize crc r
         in on_ok (deserialize crc (fr_bytes framed)) (\<lambda>(deserialized, size).
            rec_data deserialized = data \<and> rec_timestamp deserialized = rec_timestamp r \<and> size = length (fr_bytes framed))))"

definition test_invalid_magic :: "(bytes \<Rightarrow> u32) \<Rightarrow> bool" where
  "test_invalid_magic crc =
     (let bytes = replicate (RECORD_HEADER_SIZE + 10) 0;
          bytes = le_bytes 4 (0xDEADBEEF :: u32) @ drop 4 bytes
      in is_invalid_magic (deserialize crc bytes))"

definition test_checksum_corruption :: "(bytes \<Rightarrow> u32) \<Rightarrow> (nat \<Rightarrow> u64) \<Rightarrow> bool" where
  "test_checksum_corruption crc clock =
     on_ok (record_new (clock 0) (string_bytes ''Test data'')) (\<lambda>r.
       is_checksum_mismatch (deserialize crc (flip_byte 8 (fr_bytes (serialize crc r)))))"

definition test_data_corruption :: "(bytes \<Rightarrow> u32) \<Rightarrow> (nat \<Rightarrow> u64) \<Rightarrow> bool" where
  "test_data_corruption crc clock =
     on_ok (record_new (clock 0) (string_bytes ''Test data'')) (\<lambda>r.
       is_checksum_mismatch (deserialize crc (flip_byte RECORD_HEADER_SIZE (fr_bytes (serialize crc r)))))"

definition test_incomplete_record :: "(bytes \<Rightarrow> u32) \<Rightarrow> (nat \<Rightarrow> u64) \<Rightarrow> bool" where
  "test_incomplete_record crc clock =
     on_ok (record_new (clock 0) (string_bytes ''Test data'')) (\<lambda>r.
       let framed = serialize crc r
       in is_incomplete_record (deserialize crc (take (length (fr_bytes framed) - 5) (fr_bytes framed))))"

definition test_max_record_size :: "(nat \<Rightarrow> u64) \<Rightarrow> bool" where
  "test_max_record_size clock = is_record_too_large (record_new (clock 0) (replicate (MAX_RECORD_SIZE + 1) 0))"

definition test_empty_record :: "(bytes \<Rightarrow> u32) \<Rightarrow> (nat \<Rightarrow> u64) \<Rightarrow> bool" where
  "test_empty_record crc clock =
     on_ok (record_new (clock 0) []) (\<lambda>r.
     on_ok (deserialize crc (fr_bytes (serialize crc r))) (\<lambda>(deserialized, _). length (rec_data deserialized) = 0))"

text \<open>The second loop of \<open>test_multiple_records\<close>, from an offset on.\<close>

fun check_records :: "(bytes \<Rightarrow> u32) \<Rightarrow> bytes \<Rightarrow> drecord list \<Rightarrow> nat \<Rightarrow> bool" where
  "check_records crc buffer [] offset = (offset = length buffer)"
| "check_records crc buffer (original # records) offset =
     on_ok (deserialize crc (drop offset buffer)) (\<lambda>(deserialized, size).
       rec_data deserialized = rec_data original \<and> check_records crc buffer records (offset + size))"

definition test_multiple_records :: "(bytes \<Rightarrow> u32) \<Rightarrow> (nat \<Rightarrow> u64) \<Rightarrow> bool" where
  "test_multiple_records crc clock =
     on_ok (record_new (clock 0) (string_bytes ''Record 1'')) (\<lambda>r1.
     on_ok (record_new (clock 1) (string_bytes ''Record 2 with more data'')) (\<lambda>r2.
     on_ok (record_new (clock 2) (string_bytes ''Record 3'')) (\<lambda>r3.
       let records = [r1, r2, r3]; buffer = concat (map (\<lambda>r. fr_bytes (serialize crc r)) records)
       in check_records crc buffer records 0)))"

section \<open>All of them pass\<close>

lemma flip_byte_differs: "xor b 0xFF \<noteq> (b :: u8)"
proof
  assume "xor b 0xFF = b"
  then have "xor b (xor b 0xFF) = 0" by simp
  then show False by (simp flip: xor.assoc)
qed

lemma check_records_frames:
  assumes "\<forall>r \<in> set rs. record_ok r"
  shows "check_records crc (pre @ concat (map (frame crc) rs)) rs (length pre)"
  using assms
proof (induction rs arbitrary: pre)
  case Nil
  then show ?case by simp
next
  case (Cons r rs)
  then have "deserialize crc (frame crc r @ concat (map (frame crc) rs)) = Inr (r, serialized_size r)"
    by (simp add: deserialize_frame)
  moreover have "check_records crc ((pre @ frame crc r) @ concat (map (frame crc) rs)) rs (length (pre @ frame crc r))"
    using Cons by (metis list.set_intros(2))
  ultimately show ?case by simp
qed

lemma record_new_short: "length data \<le> 1000 \<Longrightarrow> record_new now data = Inr \<lparr>rec_timestamp = now, rec_data = data\<rparr>"
  by (simp add: record_new_def MAX_RECORD_SIZE_def)

lemma short_record_ok [simp]: "length data \<le> 1000 \<Longrightarrow> record_ok \<lparr>rec_timestamp = now, rec_data = data\<rparr>"
  by (simp add: record_ok_def MAX_RECORD_SIZE_def)

lemma corrupted_is_mismatch:
  assumes "detects_byte_errors crc" "record_ok r" "8 \<le> i" "i < serialized_size r"
  shows "is_checksum_mismatch (deserialize crc (flip_byte i (frame crc r)))"
proof -
  obtain e a where "deserialize crc ((frame crc r)[i := xor (frame crc r ! i) 0xFF] @ []) = Inl (ChecksumMismatch e a)"
    using corrupt_frame_rejected [OF assms(2,1,4) _ flip_byte_differs, of "[]"] assms(3) by blast
  then show ?thesis by (simp add: flip_byte_def)
qed

text \<open>All unit tests of records pass, at any time, when the checksum detects changed bytes.\<close>

lemma record_tests_pass:
  assumes "detects_byte_errors crc"
  shows "[test_record_roundtrip crc clock, test_invalid_magic crc, test_checksum_corruption crc clock,
      test_data_corruption crc clock, test_incomplete_record crc clock, test_max_record_size clock,
      test_empty_record crc clock, test_multiple_records crc clock] = [True, True, True, True, True, True, True, True]"
proof -
  have trip: "deserialize crc (frame crc r) = Inr (r, serialized_size r)" if "record_ok r" for r
    using deserialize_frame [OF that, of crc "[]"] by simp
  let ?r = "\<lparr>rec_timestamp = clock 0, rec_data = string_bytes ''Test data''\<rparr>"
  have r: "record_ok ?r" "serialized_size ?r = 29" by (simp_all add: serialized_size_def RECORD_HEADER_SIZE_def)
  have roundtrip: "test_record_roundtrip crc clock"
    by (simp add: test_record_roundtrip_def record_new_short trip)
  have magic: "test_invalid_magic crc"
    by (simp add: test_invalid_magic_def deserialize_def RECORD_HEADER_SIZE_def RECORD_MAGIC_def slice_of_def le_word_le_bytes)
  have checksum: "test_checksum_corruption crc clock" and data: "test_data_corruption crc clock"
    using corrupted_is_mismatch [OF assms r(1)] r(2)
    by (simp_all add: test_checksum_corruption_def test_data_corruption_def record_new_short RECORD_HEADER_SIZE_def)
  have incomplete: "test_incomplete_record crc clock"
    using deserialize_truncated [OF r(1), of 24 crc] r(2)
    by (simp add: test_incomplete_record_def record_new_short Let_def)
  have large: "test_max_record_size clock"
    by (simp only: test_max_record_size_def record_new_def length_replicate) (simp add: MAX_RECORD_SIZE_def)
  have empty: "test_empty_record crc clock"
    by (simp add: test_empty_record_def record_new_short trip)
  let ?rs = "[\<lparr>rec_timestamp = clock 0, rec_data = string_bytes ''Record 1''\<rparr>,
    \<lparr>rec_timestamp = clock 1, rec_data = string_bytes ''Record 2 with more data''\<rparr>,
    \<lparr>rec_timestamp = clock 2, rec_data = string_bytes ''Record 3''\<rparr>]"
  have "check_records crc ([] @ concat (map (frame crc) ?rs)) ?rs (length ([] :: bytes))"
    by (rule check_records_frames) simp
  then have multiple: "test_multiple_records crc clock"
    by (simp add: test_multiple_records_def record_new_short Let_def del: check_records.simps)
  show ?thesis
    using roundtrip magic checksum data incomplete large empty multiple by simp
qed

lemma record_tests_pass_example: "test_data_corruption sum_crc of_nat"
  using record_tests_pass [OF sum_crc_detects, of of_nat] by simp

end
