(* ===== verification/Raft_Tests.thy ===== *)
theory Raft_Tests
  imports Raft Test_Support
begin

text \<open>
  The unit tests of \<open>src/raft.rs\<close> (module \<open>tests\<close>), for any readings of the clock.
\<close>

section \<open>The tests\<close>

definition test_node_creation :: "(nat \<Rightarrow> nanos) \<Rightarrow> bool" where
  "test_node_creation clock =
     (let node = raft_node_new (raft_config_default\<lparr>rc_node_id := 1, rc_cluster_nodes := [1, 2, 3]\<rparr>) (clock 0)
      in get_state node = Follower \<and> get_term node = 0 \<and> get_leader node = None \<and> \<not> is_leader node)"

definition test_term_management :: "(nat \<Rightarrow> nanos) \<Rightarrow> bool" where
  "test_term_management clock =
     (let node = raft_node_new raft_config_default (clock 0); (new_term, node1) = increment_term node; node2 = set_term 5 node1
      in get_term node = 0 \<and> new_term = 1 \<and> get_term node1 = 1 \<and> get_term node2 = 5)"

definition test_vote_handling :: "(nat \<Rightarrow> nanos) \<Rightarrow> bool" where
  "test_vote_handling clock =
     (let node = raft_node_new (raft_config_default\<lparr>rc_node_id := 1\<rparr>) (clock 0);
          request1 = \<lparr>vq_term = 1, vq_candidate_id = 2, vq_last_log_index = 0, vq_last_log_term = 0\<rparr>;
          (response1, node1) = handle_vote_request (clock 1) request1 node;
          request2 = \<lparr>vq_term = 1, vq_candidate_id = 3, vq_last_log_index = 0, vq_last_log_term = 0\<rparr>;
          (response2, node2) = handle_vote_request (clock 2) request2 node1
      in vr_vote_granted response1 \<and> vr_term response1 = 1 \<and> \<not> vr_vote_granted response2)"

definition test_heartbeat_handling :: "(nat \<Rightarrow> nanos) \<Rightarrow> bool" where
  "test_heartbeat_handling clock =
     (let node = raft_node_new (raft_config_default\<lparr>rc_node_id := 1\<rparr>) (clock 0);
          (response, node1) = handle_heartbeat (clock 1) \<lparr>hb_term = 1, hb_leader_id = 2\<rparr> node
      in hr_success response \<and> hr_term response = 1 \<and> get_leader node1 = Some 2)"

definition test_stale_term_rejection :: "(nat \<Rightarrow> nanos) \<Rightarrow> bool" where
  "test_stale_term_rejection clock =
     (let node = set_term 5 (raft_node_new raft_config_default (clock 0));
          request = \<lparr>vq_term = 3, vq_candidate_id = 2, vq_last_log_index = 0, vq_last_log_term = 0\<rparr>;
          (response, node1) = handle_vote_request (clock 1) request node
      in \<not> vr_vote_granted response \<and> vr_term response = 5)"

definition test_state_transitions :: "(nat \<Rightarrow> nanos) \<Rightarrow> bool" where
  "test_state_transitions clock =
     (let node = raft_node_new raft_config_default (clock 0); node1 = set_state Candidate node; node2 = set_state Leader node1
      in get_state node = Follower \<and> get_state node1 = Candidate \<and> get_state node2 = Leader)"

section \<open>All of them pass\<close>

lemma raft_tests_pass:
  "[test_node_creation clock, test_term_management clock, test_vote_handling clock, test_heartbeat_handling clock,
     test_stale_term_rejection clock, test_state_transitions clock] = [True, True, True, True, True, True]"
  by (simp add: test_node_creation_def test_term_management_def test_vote_handling_def test_heartbeat_handling_def
      test_stale_term_rejection_def test_state_transitions_def raft_node_new_def persistent_new_def volatile_new_def
      raft_config_default_def state_defs is_leader_def handle_vote_request_def handle_heartbeat_def)

end
