(* ===== verification/Resilience_Tests.thy ===== *)
theory Resilience_Tests
  imports Resilience Test_Support
begin

text \<open>
  The unit tests of \<open>src/resilience.rs\<close> (module \<open>tests\<close>). They depend on time: \<open>clock i\<close> is the reading of
  the clock at the operation number \<open>i\<close> of a test, \<open>ends_within nap duration\<close> says whether a task that
  sleeps for \<open>nap\<close> ends before the timeout after \<open>duration\<close> (all in nanoseconds).
\<close>

section \<open>The tests\<close>

definition millis :: "nat \<Rightarrow> nat" where
  "millis n = n * 10 ^ 6"

definition test_circuit_breaker_closed_to_open :: "(nat \<Rightarrow> nat) \<Rightarrow> bool" where
  "test_circuit_breaker_closed_to_open clock =
     (let breaker = circuit_breaker_new (clock 0) (breaker_config_default\<lparr>failure_threshold := 3\<rparr>);
          (allowed, breaker0) = can_proceed (clock 1) breaker;
          breaker1 = record_failure (clock 2) breaker0;
          breaker2 = record_failure (clock 3) breaker1;
          breaker3 = record_failure (clock 4) breaker2
      in cb_state breaker = Closed \<and> is_ok allowed \<and> cb_state breaker1 = Closed \<and> cb_state breaker2 = Closed
         \<and> cb_state breaker3 = Open \<and> \<not> is_ok (fst (can_proceed (clock 5) breaker3)))"

definition test_circuit_breaker_half_open_to_closed :: "(nat \<Rightarrow> nat) \<Rightarrow> bool" where
  "test_circuit_breaker_half_open_to_closed clock =
     (let config = breaker_config_default\<lparr>failure_threshold := 2, success_threshold := 2, breaker_timeout := millis 10\<rparr>;
          breaker = circuit_breaker_new (clock 0) config;
          breaker1 = record_failure (clock 2) (record_failure (clock 1) breaker);
          (allowed, breaker2) = can_proceed (clock 3) breaker1;
          breaker3 = record_success (clock 4) breaker2;
          breaker4 = record_success (clock 5) breaker3
      in cb_state breaker1 = Open \<and> is_ok allowed \<and> cb_state breaker2 = HalfOpen
         \<and> cb_state breaker3 = HalfOpen \<and> cb_state breaker4 = Closed)"

definition test_retry_config :: "nat \<Rightarrow> retry_config" where
  "test_retry_config n = \<lparr>max_retries = n, initial_backoff = millis 10, max_backoff = millis 100, backoff_multiplier = Fin 2\<rparr>"

text \<open>The operations count their calls in a \<open>usize\<close>.\<close>

definition third_time :: "usize \<Rightarrow> (string + int) \<times> usize" where
  "third_time count = (if count < 2 then Inl ''Not yet'' else Inr 42, count + 1)"

definition always_fails :: "usize \<Rightarrow> (string + int) \<times> usize" where
  "always_fails count = (Inl ''Always fails'', count + 1)"

definition test_retry_with_backoff_success :: "(nat \<Rightarrow> nat option) \<Rightarrow> bool" where
  "test_retry_with_backoff_success scale =
     on_some (retry_with_backoff scale (test_retry_config 3) third_time 0) (\<lambda>(res, counter, _).
       is_ok res \<and> res = Inr 42 \<and> counter = 3)"

definition test_retry_with_backoff_failure :: "(nat \<Rightarrow> nat option) \<Rightarrow> bool" where
  "test_retry_with_backoff_failure scale =
     on_some (retry_with_backoff scale (test_retry_config 2) always_fails 0) (\<lambda>(res, counter, _).
       \<not> is_ok res \<and> counter = 3)"

definition test_with_timeout_success :: "(nat \<Rightarrow> nat \<Rightarrow> bool) \<Rightarrow> bool" where
  "test_with_timeout_success ends_within =
     (let res = with_timeout (millis 1000) (if ends_within (millis 10) (millis 1000) then Some (42 :: int) else None)
      in is_ok res \<and> res = Inr 42)"

definition test_with_timeout_failure :: "(nat \<Rightarrow> nat \<Rightarrow> bool) \<Rightarrow> bool" where
  "test_with_timeout_failure ends_within =
     (\<not> is_ok (with_timeout (millis 10) (if ends_within (millis 1000) (millis 10) then Some (42 :: int) else None)))"

definition test_with_fallback :: bool where
  "test_with_fallback =
     (fst (with_fallback (\<lambda>s. (Inr (42 :: int), s)) (\<lambda>s. (Inr 0 :: string + int, s)) ()) = Inr 42
      \<and> fst (with_fallback (\<lambda>s. (Inl ''Primary failed'', s)) (\<lambda>s. (Inr (99 :: int), s)) ()) = Inr 99)"

section \<open>All of them pass\<close>

text \<open>All unit tests of the circuit breaker, the retries, the timeouts and the fallbacks pass, when the
  first breaker is asked again within a minute of opening, the second one only after 10 milliseconds,
  the doubled durations fit, and a sleep of 10 milliseconds ends within a second but not the other
  way round.\<close>

lemma resilience_tests_pass:
  assumes "clock1 5 < clock1 4 + 60 * 10 ^ 9" "clock2 2 + 10 * 10 ^ 6 \<le> clock2 3" "\<forall>d \<le> millis 100. scale d \<noteq> None"
    and "ends_within (millis 10) (millis 1000)" "\<not> ends_within (millis 1000) (millis 10)"
  shows "[test_circuit_breaker_closed_to_open clock1, test_circuit_breaker_half_open_to_closed clock2,
      test_retry_with_backoff_success scale, test_retry_with_backoff_failure scale,
      test_with_timeout_success ends_within, test_with_timeout_failure ends_within, test_with_fallback] = [True, True, True, True, True, True, True]"
proof -
  have opens: "test_circuit_breaker_closed_to_open clock1"
    using assms(1) by (simp add: test_circuit_breaker_closed_to_open_def circuit_breaker_new_def breaker_config_default_def
        can_proceed_def record_failure_def transition_to_open_def Let_def word_le_nat_alt)
  have closes: "test_circuit_breaker_half_open_to_closed clock2"
    using assms(2) by (simp add: test_circuit_breaker_half_open_to_closed_def circuit_breaker_new_def breaker_config_default_def
        can_proceed_def record_failure_def record_success_def transition_to_open_def transition_to_half_open_def
        transition_to_closed_def millis_def Let_def word_le_nat_alt)
  obtain d where d: "scale (millis 10) = Some d" using assms(3) by (force simp: millis_def)
  obtain d' where d': "scale (min d (millis 100)) = Some d'" using assms(3) by (metis min.cobounded2 not_None_eq)
  have retries: "test_retry_with_backoff_success scale" "test_retry_with_backoff_failure scale"
    by (simp_all add: test_retry_with_backoff_success_def test_retry_with_backoff_failure_def retry_with_backoff_def
        retry_loop.simps test_retry_config_def third_time_def always_fails_def d d')
  have rest: "test_with_timeout_success ends_within" "test_with_timeout_failure ends_within" test_with_fallback
    using assms(4,5) by (simp_all add: test_with_timeout_success_def test_with_timeout_failure_def test_with_fallback_def
        with_timeout_def with_fallback_def)
  show ?thesis using opens closes retries rest by simp
qed

lemma resilience_tests_pass_example:
  "test_retry_with_backoff_success (\<lambda>d. Some (2 * d)) \<and> test_circuit_breaker_half_open_to_closed (\<lambda>i. i * 20 * 10 ^ 6)"
  using resilience_tests_pass [of "\<lambda>i. i" "\<lambda>i. i * 20 * 10 ^ 6" "\<lambda>d. Some (2 * d)" "(<)"]
  by (simp add: millis_def)

end
