(* ===== verification/Storage_Tests.thy ===== *)
theory Storage_Tests
  imports Manager_Filling Compaction Test_Support
begin

text \<open>
  The unit tests of \<open>src/storage.rs\<close> and \<open>src/compaction.rs\<close> (modules \<open>tests\<close>), for a checksum, readings of
  the clock and the answers of the system to opening files. What a file held before plays no role.
\<close>

section \<open>The tests of segments\<close>

record test_world =
  tw_crc :: "bytes \<Rightarrow> u32"
  tw_clock :: "nat \<Rightarrow> u64"
  tw_mkdir :: "io_error + unit"
  tw_open :: "string \<Rightarrow> io_error + bytes"

text \<open>New records of these data are appended, the first one created at the reading \<open>i\<close> of the clock.\<close>

fun append_each :: "test_world \<Rightarrow> nat \<Rightarrow> bytes list \<Rightarrow> record_segment \<Rightarrow> record_segment option" where
  "append_each w i [] s = Some s"
| "append_each w i (data # ds) s =
     (case record_new (tw_clock w i) data of
        Inl _ \<Rightarrow> None
      | Inr r \<Rightarrow> (case append_record (tw_crc w) r s of (Inl _, _) \<Rightarrow> None | (Inr _, s') \<Rightarrow> append_each w (i + 1) ds s'))"

definition test_record_segment_basic :: "test_world \<Rightarrow> bool" where
  "test_record_segment_basic w =
     on_ok (record_segment_new (tw_open w) ''/tmp/dolda_storage_test/test.dat'' (1024 * 1024) True) (\<lambda>segment.
     on_ok (record_new (tw_clock w 0) (string_bytes ''Hello, production!'')) (\<lambda>r.
     let (appended, segment1) = append_record (tw_crc w) r segment
     in on_ok appended (\<lambda>offset.
        on_ok (read_record (tw_crc w) segment1 (ro_offset offset)) (\<lambda>retrieved.
        let stats = segment_stats segment1
        in rec_data retrieved = string_bytes ''Hello, production!'' \<and> st_record_count stats = 1 \<and> st_used_bytes stats > 0))))"

text \<open>The body of the loop over the records, with the counter as its state.\<close>

definition check_item :: "bytes list \<Rightarrow> nat \<Rightarrow> storage_error + record_offset \<times> drecord \<Rightarrow> unit + nat" where
  "check_item expected i item =
     (case item of
        Inl _ \<Rightarrow> Inl ()
      | Inr (_, r) \<Rightarrow> if i < length expected \<and> rec_data r = expected ! i then Inr (i + 1) else Inl ())"

definition test_record_iteration :: "test_world \<Rightarrow> bool" where
  "test_record_iteration w =
     on_ok (record_segment_new (tw_open w) ''/tmp/dolda_storage_iter/test.dat'' (1024 * 1024) False) (\<lambda>segment.
       let records = map string_bytes [''Record 1'', ''Record 2'', ''Record 3'']
       in on_some (append_each w 0 records segment) (\<lambda>segment1.
            for_records (tw_crc w) segment1 (check_item records) (iter_records segment1) 0 = Some (Inr 3)))"

fun append_large :: "test_world \<Rightarrow> nat \<Rightarrow> nat \<Rightarrow> segment_manager \<Rightarrow> segment_manager option" where
  "append_large w i 0 m = Some m"
| "append_large w i (Suc n) m =
     (case record_new (tw_clock w i) (replicate (10 * 1024) 0) of
        Inl _ \<Rightarrow> None
      | Inr r \<Rightarrow> (case manager_append_record (tw_crc w) (tw_open w) r m of
            Some (Inr _, m') \<Rightarrow> append_large w (i + 1) n m'
          | _ \<Rightarrow> None))"

definition test_segment_manager :: "test_world \<Rightarrow> bool" where
  "test_segment_manager w =
     on_ok (segment_manager_new (tw_mkdir w) (tw_open w) 1 (64 * 1024) ''/tmp/dolda_storage_manager'' True) (\<lambda>m.
     on_some (append_large w 0 10 m) (\<lambda>m'.
       let stats = manager_stats m'
       in ms_segment_count stats > 1 \<and> ms_total_records stats = 10))"

section \<open>The tests of compaction\<close>

definition test_compaction_policy_default :: bool where
  "test_compaction_policy_default =
     (cp_min_utilization compaction_policy_default = Fin 0.5 \<and> cp_auto_compact compaction_policy_default)"

definition test_needs_compaction :: bool where
  "test_needs_compaction =
     (let policy = compaction_policy_default\<lparr>cp_min_utilization := Fin 0.5, cp_min_age := 60 * 10 ^ 9\<rparr>;
          manager = compaction_manager_new policy;
          stats = \<lparr>st_path = ''test'', st_max_size = 1000, st_used_bytes = 400, st_record_count = 10,
                   st_index_enabled = False, st_index_size = 0\<rparr>
      in \<not> needs_compaction manager stats (30 * 10 ^ 9)
         \<and> needs_compaction manager stats (120 * 10 ^ 9)
         \<and> \<not> needs_compaction manager (stats\<lparr>st_used_bytes := 800\<rparr>) (120 * 10 ^ 9))"

definition test_compact_segment :: "test_world \<Rightarrow> nat \<times> nat \<Rightarrow> bool" where
  "test_compact_segment w clock =
     on_ok (record_segment_new (tw_open w) ''/tmp/dolda_compaction_test/source.dat'' (1024 * 1024) False) (\<lambda>new_source.
     on_some (append_each w 0 (map (\<lambda>i. string_bytes (''Record '' @ nat_string i)) [0..<100]) new_source) (\<lambda>source.
     on_some (compact_segment (tw_crc w) (tw_open w) clock source ''/tmp/dolda_compaction_test/compacted.dat''
         (compaction_manager_new compaction_policy_default)) (\<lambda>(res, manager).
     on_ok res (\<lambda>compacted.
       st_record_count (segment_stats compacted) = 100 \<and> cs_total_compactions (cm_stats manager) = 1))))"

definition merge_source :: "test_world \<Rightarrow> nat \<Rightarrow> record_segment option" where
  "merge_source w i =
     (case record_segment_new (tw_open w) (''/tmp/dolda_merge_test/segment_'' @ nat_string i @ ''.dat'') (1024 * 1024) False of
        Inl _ \<Rightarrow> None
      | Inr s \<Rightarrow> append_each w (10 * i)
          (map (\<lambda>j. string_bytes (''Segment '' @ nat_string i @ '' Record '' @ nat_string j)) [0..<10]) s)"

definition test_merge_segments :: "test_world \<Rightarrow> bool" where
  "test_merge_segments w =
     on_some (merge_source w 0) (\<lambda>s0. on_some (merge_source w 1) (\<lambda>s1. on_some (merge_source w 2) (\<lambda>s2.
     on_some (merge_segments (tw_crc w) (tw_open w) [s0, s1, s2] ''/tmp/dolda_merge_test/merged.dat'' (10 * 1024 * 1024) False) (\<lambda>res.
     on_ok res (\<lambda>merged. st_record_count (segment_stats merged) = 30)))))"

section \<open>All of them pass\<close>

fun records_at :: "test_world \<Rightarrow> nat \<Rightarrow> bytes list \<Rightarrow> drecord list" where
  "records_at w i [] = []"
| "records_at w i (d # ds) = \<lparr>rec_timestamp = tw_clock w i, rec_data = d\<rparr> # records_at w (i + 1) ds"

lemma length_records_at [simp]: "length (records_at w i ds) = length ds"
  by (induction ds arbitrary: i) simp_all

lemma records_at_size:
  "\<forall>d \<in> set ds. length d \<le> 80 \<Longrightarrow> records_size (records_at w i ds) \<le> 100 * length ds"
proof (induction ds arbitrary: i)
  case (Cons d ds)
  then have "records_size (records_at w (i + 1) ds) \<le> 100 * length ds" by simp
  then show ?case using Cons.prems by (simp add: serialized_size_def RECORD_HEADER_SIZE_def)
qed simp

lemma append_each_holds:
  assumes "segment_holds (tw_crc w) s rs" "\<forall>d \<in> set ds. length d \<le> 80"
    and "records_size rs + 100 * length ds \<le> unat (rs_max_size s)"
  shows "\<exists>s'. append_each w i ds s = Some s' \<and> segment_holds (tw_crc w) s' (rs @ records_at w i ds)
    \<and> rs_max_size s' = rs_max_size s"
  using assms
proof (induction ds arbitrary: i s rs)
  case Nil
  then show ?case by simp
next
  case (Cons d ds)
  let ?r = "\<lparr>rec_timestamp = tw_clock w i, rec_data = d\<rparr>"
  have new: "record_new (tw_clock w i) d = Inr ?r" and ok: "record_ok ?r" and size: "serialized_size ?r \<le> 100"
    using Cons.prems(2) by (simp_all add: record_new_def record_ok_def MAX_RECORD_SIZE_def serialized_size_def RECORD_HEADER_SIZE_def)
  have "records_size rs + serialized_size ?r \<le> unat (rs_max_size s)" using Cons.prems(3) size by simp
  from append_record_fits [OF Cons.prems(1) ok this] obtain off s1 where
    s1: "append_record (tw_crc w) ?r s = (Inr off, s1)" "segment_holds (tw_crc w) s1 (rs @ [?r])" "rs_max_size s1 = rs_max_size s"
    by blast
  have "\<exists>s'. append_each w (i + 1) ds s1 = Some s' \<and> segment_holds (tw_crc w) s' ((rs @ [?r]) @ records_at w (i + 1) ds)
    \<and> rs_max_size s' = rs_max_size s1"
    by (rule Cons.IH [OF s1(2)]) (use Cons.prems(2,3) size s1(3) in simp_all)
  then show ?case using s1(3) by (simp add: new s1(1))
qed

lemma new_segment_filled:
  assumes "\<forall>p. \<exists>old. tw_open w p = Inr old" "\<forall>d \<in> set ds. length d \<le> 80" "100 * length ds \<le> 1024 * 1024"
  shows "\<exists>s0 s. record_segment_new (tw_open w) path (1024 * 1024) idx = Inr s0 \<and> append_each w i ds s0 = Some s
    \<and> segment_holds (tw_crc w) s (records_at w i ds)"
proof -
  obtain s0 where s0: "record_segment_new (tw_open w) path (1024 * 1024) idx = Inr s0" "rs_max_size s0 = 1024 * 1024"
    using assms(1) [rule_format, of path] by (auto simp: record_segment_new_def)
  have holds: "segment_holds (tw_crc w) s0 []" by (rule record_segment_new_holds [OF s0(1)]) simp
  have "\<exists>s'. append_each w i ds s0 = Some s' \<and> segment_holds (tw_crc w) s' ([] @ records_at w i ds)
    \<and> rs_max_size s' = rs_max_size s0"
    by (rule append_each_holds [OF holds assms(2)]) (use assms(3) s0(2) in simp)
  with s0 show ?thesis by auto
qed

lemma holds_count: "segment_holds crc s rs \<Longrightarrow> st_record_count (segment_stats s) = of_nat (length rs)"
  by (simp add: segment_stats_def segment_holds_def)

lemma append_large_ok:
  assumes "evenly (tw_crc w) 6 10260 10260 (64 * 1024) m k" "\<forall>p. \<exists>old. tw_open w p = Inr old"
  shows "\<exists>m'. append_large w i n m = Some m' \<and> evenly (tw_crc w) 6 10260 10260 (64 * 1024) m' (k + n)"
  using assms(1)
proof (induction n arbitrary: i k m)
  case 0
  then show ?case by simp
next
  case (Suc n)
  let ?r = "\<lparr>rec_timestamp = tw_clock w i, rec_data = replicate (10 * 1024) 0\<rparr>"
  have r: "record_ok ?r" "10260 \<le> serialized_size ?r" "serialized_size ?r \<le> 10260"
    by (simp_all add: record_ok_def MAX_RECORD_SIZE_def serialized_size_def RECORD_HEADER_SIZE_def)
  have sizes: "10260 * 6 \<le> unat (64 * 1024 :: usize)" "unat (64 * 1024 :: usize) < 10260 * (6 + 1) \<or> k < 6" "0 < (6 :: nat)"
    by simp_all
  from evenly_append [OF Suc.prems sizes r assms(2)] obtain off m1 where
    m1: "manager_append_record (tw_crc w) (tw_open w) ?r m = Some (Inr off, m1)"
    "evenly (tw_crc w) 6 10260 10260 (64 * 1024) m1 (k + 1)" by blast
  have "record_new (tw_clock w i) (replicate (10 * 1024) 0) = Inr ?r" by (simp add: record_new_def MAX_RECORD_SIZE_def)
  then show ?case using Suc.IH [OF m1(2)] by (simp add: m1(1) [simplified])
qed

lemma segment_basic_passes:
  assumes "\<forall>p. \<exists>old. tw_open w p = Inr old"
  shows "test_record_segment_basic w"
proof -
  let ?data = "string_bytes ''Hello, production!''"
  let ?r = "\<lparr>rec_timestamp = tw_clock w 0, rec_data = ?data\<rparr>"
  obtain s0 where s0: "record_segment_new (tw_open w) ''/tmp/dolda_storage_test/test.dat'' (1024 * 1024) True = Inr s0"
    "rs_max_size s0 = 1024 * 1024"
    using assms [rule_format, of "''/tmp/dolda_storage_test/test.dat''"] by (auto simp: record_segment_new_def)
  have holds: "segment_holds (tw_crc w) s0 []" by (rule record_segment_new_holds [OF s0(1)]) simp
  have r: "record_new (tw_clock w 0) ?data = Inr ?r" "record_ok ?r" "serialized_size ?r = 38"
    by (simp_all add: record_new_def record_ok_def MAX_RECORD_SIZE_def serialized_size_def RECORD_HEADER_SIZE_def)
  from append_record_fits [OF holds r(2)] obtain s1 where
    s1: "append_record (tw_crc w) ?r s0 = (Inr \<lparr>ro_offset = 0, ro_size = 38\<rparr>, s1)" "segment_holds (tw_crc w) s1 [?r]"
    using s0(2) r(3) by auto
  have read: "read_record (tw_crc w) s1 0 = Inr ?r"
    using read_record_at [OF s1(2), of 0] by (simp add: record_offset_at_def)
  have "unat (rs_write_pos s1) = 38" using s1(2) r(3) by (simp add: segment_holds_def)
  then have "0 < rs_write_pos s1" by (simp add: word_less_nat_alt)
  then show ?thesis
    using holds_count [OF s1(2)] by (simp add: test_record_segment_basic_def s0(1) [simplified] r(1) s1(1) read segment_stats_def)
qed

lemma iteration_passes:
  assumes "\<forall>p. \<exists>old. tw_open w p = Inr old"
  shows "test_record_iteration w"
proof -
  let ?ds = "map string_bytes [''Record 1'', ''Record 2'', ''Record 3'']"
  have "\<forall>d \<in> set ?ds. length d \<le> 80" "100 * length ?ds \<le> 1024 * 1024" by simp_all
  from new_segment_filled [OF assms this] obtain s0 s where
    s: "record_segment_new (tw_open w) ''/tmp/dolda_storage_iter/test.dat'' (1024 * 1024) False = Inr s0"
    "append_each w 0 ?ds s0 = Some s" "segment_holds (tw_crc w) s (records_at w 0 ?ds)" by blast
  have "for_records (tw_crc w) s (check_item ?ds) (iter_records s) 0 = Some (Inr 3)"
    by (simp add: for_records_all [OF s(3)] segment_items_def check_item_def upt_rec)
  then show ?thesis using s(2) unfolding test_record_iteration_def s(1) by (simp only: on_ok_simps on_some_simps Let_def)
qed

lemma manager_passes:
  assumes "\<forall>p. \<exists>old. tw_open w p = Inr old" "tw_mkdir w = Inr ()"
  shows "test_segment_manager w"
proof -
  obtain m where m: "segment_manager_new (tw_mkdir w) (tw_open w) 1 (64 * 1024) ''/tmp/dolda_storage_manager'' True = Inr m"
    using segment_manager_new_total [OF assms(1)] assms(2) by metis
  have "evenly (tw_crc w) 6 10260 10260 (64 * 1024) m 0" by (rule evenly_new [OF m]) simp
  from append_large_ok [OF this assms(1), of 0 10] obtain m' where
    m': "append_large w 0 10 m = Some m'" "evenly (tw_crc w) 6 10260 10260 (64 * 1024) m' 10" by auto
  show ?thesis
    using evenly_stats(1,2) [OF m'(2)] by (simp add: test_segment_manager_def m [simplified] m'(1))
qed

lemma ratio_near:
  assumes "0 < b" "a < 2 ^ 53" "b < 2 ^ 53"
  shows "\<exists>t. f64_ratio a b = Fin t \<and> \<bar>t - of_nat a / of_nat b\<bar> \<le> of_nat a / of_nat b / 2 ^ 53"
proof -
  obtain p q where pq: "quotient_of (of_nat a / of_nat b) = (p, q)" by force
  then have "0 < q" and x: "rat_of_nat a / of_nat b = of_int p / of_int q"
    using quotient_of_denom_pos quotient_of_div by blast+
  moreover have "0 \<le> p"
  proof -
    have "0 \<le> rat_of_int p / of_int q" by (simp flip: x)
    then show ?thesis using \<open>0 < q\<close> by (simp add: zero_le_divide_iff)
  qed
  ultimately have q: "0 < nat q" and eq: "rat_of_nat a / of_nat b = of_nat (nat p) / of_nat (nat q)" by simp_all
  have "f64_ratio a b = Fin (round_f64 (nat p) (nat q))"
    using round_f64_dyadic [OF assms(2), of 0] round_f64_dyadic [OF assms(3), of 0] by (simp add: f64_ratio_def pq)
  then show ?thesis using round_f64_error [OF q, of "nat p"] unfolding eq by blast
qed

lemma compaction_policies_pass: "test_compaction_policy_default" "test_needs_compaction"
proof -
  obtain t where t: "f64_ratio 400 1000 = Fin t" "\<bar>t - 400 / 1000\<bar> \<le> 400 / 1000 / 2 ^ 53" using ratio_near [of 1000 400] by auto
  obtain u where u: "f64_ratio 800 1000 = Fin u" "\<bar>u - 800 / 1000\<bar> \<le> 800 / 1000 / 2 ^ 53" using ratio_near [of 1000 800] by auto
  have "t < 1 / 2" using abs_le_D1 [OF t(2)] by simp
  moreover have "1 / 2 \<le> u" using abs_le_D2 [OF u(2)] by simp
  ultimately have "f64_less (f64_ratio 400 1000) (Fin 0.5)" "\<not> f64_less (f64_ratio 800 1000) (Fin 0.5)"
    using t(1) u(1) by simp_all
  then show "test_needs_compaction"
    by (simp add: test_needs_compaction_def needs_compaction_def compaction_manager_new_def Let_def word_less_nat_alt)
qed (simp add: test_compaction_policy_default_def compaction_policy_default_def)

lemma compact_segment_passes:
  assumes "\<forall>p. \<exists>old. tw_open w p = Inr old"
  shows "test_compact_segment w clock"
proof -
  let ?ds = "map (\<lambda>i. string_bytes (''Record '' @ nat_string i)) [0..<100]"
  let ?m = "compaction_manager_new compaction_policy_default"
  have short: "\<forall>d \<in> set ?ds. length d \<le> 80" using length_nat_string [of _ 2] by (force simp: le_Suc_eq)
  have "100 * length ?ds \<le> 1024 * 1024" by simp
  from new_segment_filled [OF assms short this] obtain s0 s where
    s: "record_segment_new (tw_open w) ''/tmp/dolda_compaction_test/source.dat'' (1024 * 1024) False = Inr s0"
    "append_each w 0 ?ds s0 = Some s" "segment_holds (tw_crc w) s (records_at w 0 ?ds)" by blast
  obtain old where old: "tw_open w ''/tmp/dolda_compaction_test/compacted.dat'' = Inr old" using assms by blast
  have "records_size (records_at w 0 ?ds) \<le> 100 * length ?ds" by (rule records_at_size [OF short])
  then have size: "records_size (records_at w 0 ?ds) \<le> 10 * 1024 * 1024" by simp
  have policy: "cp_target_segment_size (cm_policy ?m) = 10 * 1024 * 1024" "\<not> cm_in_progress ?m"
    by (simp_all add: compaction_manager_new_def compaction_policy_default_def)
  obtain s' m' where c: "compact_segment (tw_crc w) (tw_open w) clock s ''/tmp/dolda_compaction_test/compacted.dat'' ?m = Some (Inr s', m')"
    "segment_holds (tw_crc w) s' (records_at w 0 ?ds)" "cs_total_compactions (cm_stats m') = cs_total_compactions (cm_stats ?m) + 1"
    using compact_segment_copies [where io = "tw_open w" and now = "fst clock" and elapsed = "snd clock", OF s(3) policy(2) old] size by (auto simp: policy(1))
  show ?thesis
    using s(2) c(1,3) holds_count [OF c(2)] unfolding test_compact_segment_def s(1)
    by (simp add: compaction_manager_new_def compaction_stats_default_def)
qed

lemma merge_source_ok:
  assumes "\<forall>p. \<exists>old. tw_open w p = Inr old" "i < 3"
  shows "\<exists>s rs. merge_source w i = Some s \<and> segment_holds (tw_crc w) s rs \<and> length rs = 10 \<and> records_size rs \<le> 1000"
proof -
  let ?ds = "map (\<lambda>j. string_bytes (''Segment '' @ nat_string i @ '' Record '' @ nat_string j)) [0..<10]"
  let ?path = "''/tmp/dolda_merge_test/segment_'' @ nat_string i @ ''.dat''"
  have digit: "n < 10 \<Longrightarrow> length (nat_string n) = 1" for n using length_nat_string_digits(1) by blast
  have short: "\<forall>d \<in> set ?ds. length d \<le> 80"
    using assms(2) by (auto simp: digit [simplified])
  have "100 * length ?ds \<le> 1024 * 1024" by simp
  from new_segment_filled [OF assms(1) short this, of ?path False "10 * i"] obtain s0 s where
    s: "record_segment_new (tw_open w) ?path (1024 * 1024) False = Inr s0"
    "append_each w (10 * i) ?ds s0 = Some s" "segment_holds (tw_crc w) s (records_at w (10 * i) ?ds)" by blast
  have "length (records_at w (10 * i) ?ds) = 10" by simp
  moreover have "records_size (records_at w (10 * i) ?ds) \<le> 1000" using records_at_size [OF short, of w "10 * i"] by simp
  moreover have "merge_source w i = Some s" unfolding merge_source_def s(1) by (simp only: sum.case s(2))
  ultimately show ?thesis using s(3) by blast
qed

lemma merge_segments_passes:
  assumes "\<forall>p. \<exists>old. tw_open w p = Inr old"
  shows "test_merge_segments w"
proof -
  obtain s0 rs0 where s0: "merge_source w 0 = Some s0" "segment_holds (tw_crc w) s0 rs0" "length rs0 = 10" "records_size rs0 \<le> 1000"
    using merge_source_ok [OF assms, of 0] by auto
  obtain s1 rs1 where s1: "merge_source w 1 = Some s1" "segment_holds (tw_crc w) s1 rs1" "length rs1 = 10" "records_size rs1 \<le> 1000"
    using merge_source_ok [OF assms, of 1] by auto
  obtain s2 rs2 where s2: "merge_source w 2 = Some s2" "segment_holds (tw_crc w) s2 rs2" "length rs2 = 10" "records_size rs2 \<le> 1000"
    using merge_source_ok [OF assms, of 2] by auto
  obtain old where old: "tw_open w ''/tmp/dolda_merge_test/merged.dat'' = Inr old" using assms by blast
  have "list_all2 (segment_holds (tw_crc w)) [s0, s1, s2] [rs0, rs1, rs2]" using s0 s1 s2 by simp
  from merge_concatenates_segments [where io = "tw_open w" and seg_size = "10 * 1024 * 1024" and idx = False, OF this old] obtain s where
    s: "merge_segments (tw_crc w) (tw_open w) [s0, s1, s2] ''/tmp/dolda_merge_test/merged.dat'' (10 * 1024 * 1024) False = Some (Inr s)"
    "segment_holds (tw_crc w) s (rs0 @ rs1 @ rs2)" using s0(4) s1(4) s2(4) by auto
  have "st_record_count (segment_stats s) = 30" using holds_count [OF s(2)] s0(3) s1(3) s2(3) by simp
  then show ?thesis by (simp add: test_merge_segments_def s0(1) s1(1) [simplified] s2(1) s(1) [simplified])
qed

text \<open>All unit tests of segments, segment managers and compaction pass when the system opens every file,
  whatever the files held before, the checksum function and the clock.\<close>

lemma storage_tests_pass:
  assumes "\<forall>p. \<exists>old. tw_open w p = Inr old" "tw_mkdir w = Inr ()"
  shows "[test_record_segment_basic w, test_record_iteration w, test_segment_manager w, test_compaction_policy_default,
      test_needs_compaction, test_compact_segment w clock, test_merge_segments w] = [True, True, True, True, True, True, True]"
  using segment_basic_passes [OF assms(1)] iteration_passes [OF assms(1)] manager_passes [OF assms] compaction_policies_pass
    compact_segment_passes [OF assms(1)] merge_segments_passes [OF assms(1)] by simp

lemma storage_tests_pass_example:
  "test_segment_manager \<lparr>tw_crc = sum_crc, tw_clock = of_nat, tw_mkdir = Inr (), tw_open = (\<lambda>_. Inr [1, 2])\<rparr>"
  using storage_tests_pass [of "\<lparr>tw_crc = sum_crc, tw_clock = of_nat, tw_mkdir = Inr (), tw_open = (\<lambda>_. Inr [1, 2])\<rparr>"] by simp

end
