(* ===== verification/Queue_Tests.thy ===== *)
theory Queue_Tests
  imports Queue_Performance Utf8 Test_Support "HOL-Library.Multiset"
begin

text \<open>
  The unit tests of \<open>src/persistq.rs\<close> (module \<open>tests\<close>), for a checksum, the answers of the system and the
  readings of the clock. The concurrent writers append in any order, one append at a time.
\<close>

section \<open>Segments, managers and configurations\<close>

text \<open>\<open>data[..n] == expected\<close>, which panics when there are fewer bytes.\<close>

definition starts_with_bytes :: "bytes \<Rightarrow> bytes \<Rightarrow> bool" where
  "starts_with_bytes expected data \<longleftrightarrow> length expected \<le> length data \<and> take (length expected) data = expected"

definition test_segment_operations :: "os_answers \<Rightarrow> bool" where
  "test_segment_operations os =
     on_ok (pq_segment_new os ''/tmp/dolda_test_segment/test_segment.dat'' 1024) (\<lambda>segment.
     let data = string_bytes ''Hello, World!''; (appended, segment1) = pq_segment_append data segment
     in on_ok appended (\<lambda>offset. offset = 0
        \<and> on_ok (pq_segment_read segment1 0) (\<lambda>read_bytes. starts_with_bytes data read_bytes
        \<and> is_ok (pq_segment_flush os segment1))))"

definition test_queue_manager :: "os_answers \<Rightarrow> bool" where
  "test_queue_manager os =
     on_ok (pq_manager_new os 1 1024 ''/tmp/dolda_test_manager'') (\<lambda>manager.
     let data = string_bytes ''Test record''
     in on_some (pq_manager_append os data manager) (\<lambda>(appended, manager1).
        on_ok appended (\<lambda>offset. on_ok (pq_manager_read manager1 offset) (starts_with_bytes data))))"

definition test_persistq_config :: bool where
  "test_persistq_config \<longleftrightarrow> pc_num_partitions default_config = 8 \<and> pc_segment_size default_config = 64 * 1024 * 1024
     \<and> pc_replication_factor default_config = 3"

definition test_config_validation :: bool where
  "test_config_validation =
     (let valid_config = \<lparr>pc_storage_dir = ''/tmp/test'', pc_segment_size = 1024 * 1024, pc_num_partitions = 4,
            pc_replication_factor = 2, pc_cache_config = \<lparr>cc_enabled = True, cc_size_bytes = 1024,
              cc_hot_data_threshold = Fin 0.5\<rparr>\<rparr>
      in is_ok (validate_config valid_config)
         \<and> \<not> is_ok (validate_config (valid_config\<lparr>pc_num_partitions := 0\<rparr>))
         \<and> \<not> is_ok (validate_config (valid_config\<lparr>pc_num_partitions := 2000\<rparr>))
         \<and> \<not> is_ok (validate_config (valid_config\<lparr>pc_segment_size := 100\<rparr>))
         \<and> \<not> is_ok (validate_config (valid_config\<lparr>pc_storage_dir := ''../etc/passwd''\<rparr>))
         \<and> \<not> is_ok (validate_config (valid_config\<lparr>pc_cache_config := (pc_cache_config valid_config)\<lparr>cc_hot_data_threshold := Fin 1.5\<rparr>\<rparr>)))"

section \<open>Queues\<close>

definition test_queue_config :: "string \<Rightarrow> usize \<Rightarrow> u32 \<Rightarrow> persistq_config" where
  "test_queue_config test_dir segment_size partitions =
     \<lparr>pc_storage_dir = test_dir, pc_segment_size = segment_size, pc_num_partitions = partitions, pc_replication_factor = 1,
      pc_cache_config = \<lparr>cc_enabled = False, cc_size_bytes = 0, cc_hot_data_threshold = Fin 0\<rparr>\<rparr>"

record queue_world =
  qw_crc :: "bytes \<Rightarrow> u32"
  qw_os :: os_answers
  qw_clock :: clock
  qw_read_clock :: clock

text \<open>A new queue to which the data are appended, with the results.\<close>

definition with_appended :: "queue_world \<Rightarrow> persistq_config \<Rightarrow> bytes list \<Rightarrow> (append_result list \<Rightarrow> persist_q \<Rightarrow> bool) \<Rightarrow> bool" where
  "with_appended w config ds test =
     on_ok (persistq_new (qw_os w) config) (\<lambda>q.
     on_some (append_loop (qw_crc w) (qw_os w) (qw_clock w) 0 ds q) (\<lambda>(res, q1). on_ok res (\<lambda>results. test results q1)))"

text \<open>The loop that reads the records back: \<open>check\<close> judges what is read against the data and the result.\<close>

fun read_each :: "clock \<Rightarrow> persist_q \<Rightarrow> (bytes \<Rightarrow> append_result \<Rightarrow> queue_record \<Rightarrow> bool) \<Rightarrow> nat \<Rightarrow> (bytes \<times> append_result) list \<Rightarrow> bool" where
  "read_each clock q check i [] = True"
| "read_each clock q check i ((data, result) # rest) =
     (on_ok (persistq_read (clock i) (ar_global_offset result) q) (\<lambda>r. check data result (rr_record r))
      \<and> read_each clock q check (i + 1) rest)"

definition test_persistq_append_and_read :: "queue_world \<Rightarrow> bool" where
  "test_persistq_append_and_read w =
     (let test_data = map string_bytes [''Record 1'', ''Record 2'', ''Record 3'']
      in with_appended w (test_queue_config ''/tmp/dolda_test_persistq'' (1024 * 1024) 2) test_data (\<lambda>results q.
           list_all (\<lambda>result. 0 < ar_partition_id result \<and> ar_partition_id result \<le> 2) results
           \<and> read_each (qw_read_clock w) q (\<lambda>data result r. starts_with_bytes data (qr_data r)) 0 (zip test_data results)))"

definition test_offset_mapping_correctness :: "queue_world \<Rightarrow> bool" where
  "test_offset_mapping_correctness w =
     (let texts = [''Record A'', ''Record B'', ''Record C'', ''Record D'', ''Record E'']; records = map string_bytes texts
      in with_appended w (test_queue_config ''/tmp/dolda_test_offset_mapping'' (1024 * 1024) 4) records (\<lambda>results q.
           read_each (qw_read_clock w) q (\<lambda>data result r. length data \<le> length (qr_data r)
               \<and> utf8_lossy (take (length data) (qr_data r)) = data \<and> qr_partition_id r = ar_partition_id result)
             0 (zip records results)))"

definition test_segment_rollover :: "queue_world \<Rightarrow> bool" where
  "test_segment_rollover w =
     with_appended w (test_queue_config ''/tmp/dolda_test_rollover'' 1024 1) (replicate 5 (replicate 512 0)) (\<lambda>results q.
       on_some (map_of (q_segment_managers q) 1) (\<lambda>m. length (pm_segments m) > 1))"

text \<open>The writers' turns: each entry of the schedule is the writer that appends its next record.\<close>

definition writer_data :: "nat \<Rightarrow> nat \<Rightarrow> bytes" where
  "writer_data writer_id i = string_bytes (''Writer '' @ nat_string writer_id @ '' Record '' @ nat_string i)"

definition scheduled_data :: "nat list \<Rightarrow> bytes list" where
  "scheduled_data schedule = map (\<lambda>k. writer_data (schedule ! k) (count_list (take k schedule) (schedule ! k))) [0..<length schedule]"

definition test_concurrent_appends :: "queue_world \<Rightarrow> nat list \<Rightarrow> bool" where
  "test_concurrent_appends w schedule =
     with_appended w (test_queue_config ''/tmp/dolda_test_concurrent'' (1024 * 1024) 4) (scheduled_data schedule) (\<lambda>results q.
       let offsets_of = (\<lambda>writer_id. map (ar_global_offset \<circ> snd) (filter (\<lambda>(w, _). w = writer_id) (zip schedule results)));
           all_offsets = concat (map offsets_of [0..<10]);
           unique_offsets = remdups_adj (sort all_offsets)
       in length all_offsets = 10 * 100 \<and> length unique_offsets = length all_offsets)"

definition test_performance_framework :: bool where
  "test_performance_framework =
     on_some (perf_results_new ''test'' [100, 200, 150, 300, 250] 1024 1000) (\<lambda>results.
       pr_operations results = 5 \<and> pr_total_bytes results = 1024 \<and> f64_less (Fin 0) (pr_avg_latency_us results))"

section \<open>Which of them pass\<close>

lemma starts_with_bytes_append [simp]: "starts_with_bytes d (d @ rest)"
  by (simp add: starts_with_bytes_def)

lemma segment_operations_pass:
  assumes "os_willing os" "os_flushes os"
  shows "test_segment_operations os"
proof -
  obtain old where "os_open os ''/tmp/dolda_test_segment/test_segment.dat'' = Inr old" using os_willing_open [OF assms(1)] by blast
  from pq_segment_new_holds [where os = os, OF this, of 1024] obtain s where
    s: "pq_segment_new os ''/tmp/dolda_test_segment/test_segment.dat'' 1024 = Inr s" "pq_segment_holds s []" "ps_max_size s = 1024"
    by auto
  let ?data = "string_bytes ''Hello, World!''"
  from pq_append_fits [OF s(2), of ?data] s(3) obtain s' where
    s': "pq_segment_append ?data s = (Inr 0, s')" "pq_segment_holds s' [?data]" by auto
  have "pq_segment_read s' 0 = Inr ?data" using pq_read_at [OF s'(2), of 0] by simp
  then show ?thesis
    using assms(2) by (simp add: test_segment_operations_def s(1) s'(1) starts_with_bytes_def pq_segment_flush_def os_flushes_def)
qed

lemma queue_manager_passes:
  assumes "os_willing os"
  shows "test_queue_manager os"
proof -
  obtain m where m: "pq_manager_new os 1 1024 ''/tmp/dolda_test_manager'' = Inr m" "pq_manager_holds m [[]]" "pm_segment_size m = 1024"
    using pq_manager_new_holds [OF assms, of 1024 1 "''/tmp/dolda_test_manager''"] by auto
  let ?data = "string_bytes ''Test record''"
  from pq_manager_append_fits [OF m(2), of ?data os] m(3) obtain m' where
    m': "pq_manager_append os ?data m = Some (Inr 0, m')" "pq_manager_holds m' [[?data]]" by auto
  have "pq_manager_read m' 0 = Inr ?data" using read_first_segment [OF m'(2), of 0] by simp
  then show ?thesis by (simp add: test_queue_manager_def m(1) m'(1) starts_with_bytes_def)
qed

lemma config_tests_pass: test_persistq_config test_config_validation
  by (simp_all add: test_persistq_config_def test_config_validation_def default_config_def validate_config_def contains_str_def Let_def)

lemma test_queue_new:
  assumes "os_willing (qw_os w)" "segment_size \<in> {1024, 1024 * 1024}" "partitions \<in> {1, 2, 4}"
    and "dir \<noteq> []" "\<not> contains_str ''..'' dir" "\<not> contains_str [CHR 0x00] dir"
  shows "\<exists>q. persistq_new (qw_os w) (test_queue_config dir segment_size partitions) = Inr q \<and> queue_holds (qw_crc w) q [] (\<lambda>_. [[]])
    \<and> pc_segment_size (q_config q) = segment_size \<and> pc_num_partitions (q_config q) = partitions"
proof -
  have "validate_config (test_queue_config dir segment_size partitions) = Inr ()"
    using assms(2-) by (auto simp: test_queue_config_def validate_config_def)
  from queue_new_ok [OF assms(1) this] show ?thesis by (auto simp: test_queue_config_def)
qed

lemma map_sum_Inr_iff: "map_sum f g x = Inr y \<longleftrightarrow> (\<exists>z. x = Inr z \<and> y = g z)"
  by (cases x) auto

lemma appended_partitions:
  "append_loop crc os clock i ds q = Some (Inr rs, q') \<Longrightarrow> map ar_partition_id rs = map (partition_for_data crc q) ds"
proof (induction ds arbitrary: i q rs)
  case Nil
  then show ?case by simp
next
  case (Cons d ds)
  then obtain r q1 rs1 where r: "persistq_append crc os (clock i) d q = Some (Inr r, q1)" "rs = r # rs1"
    "append_loop crc os clock (i + 1) ds q1 = Some (Inr rs1, q')"
    by (auto simp: map_sum_Inr_iff split: option.splits sum.splits prod.splits)
  have "ar_partition_id r = partition_for_data crc q d \<and> q_config q1 = q_config q"
    using r(1) by (auto simp: persistq_append_def Let_def split: prod.splits option.splits sum.splits)
  then show ?case using Cons.IH [OF r(3)] by (simp add: r(2) partition_for_data_def fun_eq_iff)
qed

lemma read_each_iff:
  "read_each clock q check k xs \<longleftrightarrow> (\<forall>i < length xs. on_ok (persistq_read (clock (k + i)) (ar_global_offset (snd (xs ! i))) q)
    (\<lambda>r. check (fst (xs ! i)) (snd (xs ! i)) (rr_record r)))"
proof (induction xs arbitrary: k)
  case (Cons x xs)
  obtain d r where "x = (d, r)" by force
  then show ?case using Cons by (simp add: All_less_Suc2)
qed simp

lemma read_partition:
  assumes "queue_holds crc q recs dsm" "g < length recs" "length recs < 2 ^ 64" "persistq_read clock (of_nat g) q = Inr r"
  shows "qr_partition_id (rr_record r) = partition_for_data crc q (recs ! g)"
proof -
  have g: "unat (of_nat g :: u64) = g" using assms(2,3) by (simp add: unat_of_nat64)
  obtain lo where "map_of (q_offset_map q) (of_nat g) = Some \<lparr>om_partition_id = partition_for_data crc q (recs ! g), om_local_offset = lo\<rparr>"
    using queue_mapping [OF assms(1), of "of_nat g"] assms(2) g by metis
  then show ?thesis
    using assms(4) by (auto simp: persistq_read_def result_iffs Let_def split: prod.splits option.splits sum.splits)
qed

text \<open>Few records stay in one segment each, and every one reads back with what follows it.\<close>

lemma with_appended_ok:
  assumes "os_willing (qw_os w)" "partitions \<in> {1, 2, 4}" "dir \<noteq> []" "\<not> contains_str ''..'' dir" "\<not> contains_str [CHR 0x00] dir"
    and "length (concat ds) \<le> 1024 * 1024" "\<forall>d \<in> set ds. d \<noteq> []"
    and test: "\<And>rs q. length rs = length ds \<Longrightarrow> map ar_global_offset rs = map of_nat [0..<length ds] \<Longrightarrow>
      \<forall>r \<in> set rs. 1 \<le> ar_partition_id r \<and> ar_partition_id r \<le> partitions \<Longrightarrow>
      (\<And>i clock. i < length ds \<Longrightarrow> \<exists>r rest. persistq_read clock (ar_global_offset (rs ! i)) q = Inr r
        \<and> qr_data (rr_record r) = ds ! i @ rest \<and> qr_partition_id (rr_record r) = ar_partition_id (rs ! i)) \<Longrightarrow> test rs q"
  shows "with_appended w (test_queue_config dir (1024 * 1024) partitions) ds test"
proof -
  obtain q where q: "persistq_new (qw_os w) (test_queue_config dir (1024 * 1024) partitions) = Inr q"
    "queue_holds (qw_crc w) q [] (\<lambda>_. [[]])" "pc_segment_size (q_config q) = 1024 * 1024" "pc_num_partitions (q_config q) = partitions"
    using test_queue_new [OF assms(1) _ assms(2-5), of "1024 * 1024"] by blast
  have "length ds \<le> length (concat ds)" using assms(7) by (induction ds) (auto simp: Suc_le_eq add_strict_increasing)
  then have len: "length ds \<le> 1024 * 1024" using assms(6) by linarith
  have single: "single_segments (\<lambda>_. [[]])" by (simp add: single_segments_def)
  obtain rs q' dsm where rs: "append_loop (qw_crc w) (qw_os w) (qw_clock w) 0 ds q = Some (Inr rs, q')"
    "queue_holds (qw_crc w) q' ds dsm" "single_segments dsm" "q_config q' = q_config q"
    "map ar_global_offset rs = map of_nat [0..<length ds]"
    using append_loop_ok [OF q(2) single assms(1), of ds "qw_clock w" 0] len assms(6) q(3) by auto
  have lrs: "length rs = length ds" using arg_cong [OF rs(5), of length] by simp
  note parts = appended_partitions [OF rs(1)]
  have same: "partition_for_data (qw_crc w) q' = partition_for_data (qw_crc w) q"
    by (simp add: partition_for_data_def rs(4) fun_eq_iff)
  have "0 < pc_num_partitions (q_config q)" using q(2) by (simp add: queue_holds_def)
  note range = partition_range [OF this, of "qw_crc w", unfolded q(4)]
  have "test rs q'"
  proof (rule test [OF lrs rs(5)])
    show "\<forall>r \<in> set rs. 1 \<le> ar_partition_id r \<and> ar_partition_id r \<le> partitions"
    proof
      fix r assume "r \<in> set rs"
      then have "ar_partition_id r \<in> set (map (partition_for_data (qw_crc w) q) ds)" by (simp flip: parts)
      then show "1 \<le> ar_partition_id r \<and> ar_partition_id r \<le> partitions" using range by auto
    qed
    fix i clock
    assume i: "i < length ds"
    have offset: "ar_global_offset (rs ! i) = of_nat i" and part: "ar_partition_id (rs ! i) = partition_for_data (qw_crc w) q (ds ! i)"
      using arg_cong [OF rs(5), of "\<lambda>xs. xs ! i"] arg_cong [OF parts, of "\<lambda>xs. xs ! i"] i lrs by simp_all
    have "length ds < 2 ^ 64" "ds ! i \<noteq> []" using len assms(7) i by simp_all
    with read_back [OF rs(2,3) i, of clock] read_partition [OF rs(2) i, of clock]
    show "\<exists>r rest. persistq_read clock (ar_global_offset (rs ! i)) q' = Inr r
        \<and> qr_data (rr_record r) = ds ! i @ rest \<and> qr_partition_id (rr_record r) = ar_partition_id (rs ! i)"
      unfolding offset part same by (auto simp: read_data_def)
  qed
  then show ?thesis using rs(1) unfolding with_appended_def q(1) by simp
qed

lemma read_each_ok:
  assumes "length rs = length ds"
    and "\<And>i clock. i < length ds \<Longrightarrow> \<exists>r rest. persistq_read clock (ar_global_offset (rs ! i)) q = Inr r
        \<and> qr_data (rr_record r) = ds ! i @ rest \<and> qr_partition_id (rr_record r) = ar_partition_id (rs ! i)"
    and "\<And>d result r rest. d \<in> set ds \<Longrightarrow> qr_data r = d @ rest \<Longrightarrow> qr_partition_id r = ar_partition_id result \<Longrightarrow> check d result r"
  shows "read_each clock q check k (zip ds rs)"
  unfolding read_each_iff
proof (intro allI impI)
  fix i
  assume "i < length (zip ds rs)"
  then have i: "i < length ds" using assms(1) by simp
  then show "on_ok (persistq_read (clock (k + i)) (ar_global_offset (snd (zip ds rs ! i))) q)
      (\<lambda>r. check (fst (zip ds rs ! i)) (snd (zip ds rs ! i)) (rr_record r))"
    using assms(2) [OF i, of "clock (k + i)"] assms(1,3) by (metis fst_conv nth_mem nth_zip on_ok_simps(2) snd_conv)
qed

lemma append_and_read_passes:
  assumes "os_willing (qw_os w)"
  shows "test_persistq_append_and_read w"
  unfolding test_persistq_append_and_read_def Let_def
proof (rule with_appended_ok [OF assms])
  fix rs :: "append_result list" and q
  assume "\<forall>r \<in> set rs. 1 \<le> ar_partition_id r \<and> ar_partition_id r \<le> 2"
  then have "list_all (\<lambda>result. 0 < ar_partition_id result \<and> ar_partition_id result \<le> 2) rs"
    by (auto simp: list_all_iff word_le_nat_alt word_less_nat_alt)
  moreover assume "length rs = length (map string_bytes [''Record 1'', ''Record 2'', ''Record 3''])"
    and "\<And>i clock. i < length (map string_bytes [''Record 1'', ''Record 2'', ''Record 3'']) \<Longrightarrow>
        \<exists>r rest. persistq_read clock (ar_global_offset (rs ! i)) q = Inr r
        \<and> qr_data (rr_record r) = map string_bytes [''Record 1'', ''Record 2'', ''Record 3''] ! i @ rest
        \<and> qr_partition_id (rr_record r) = ar_partition_id (rs ! i)"
  then have "read_each (qw_read_clock w) q (\<lambda>data result r. starts_with_bytes data (qr_data r)) 0
      (zip (map string_bytes [''Record 1'', ''Record 2'', ''Record 3'']) rs)"
    by (rule read_each_ok) (simp_all only: starts_with_bytes_append)
  ultimately show "list_all (\<lambda>result. 0 < ar_partition_id result \<and> ar_partition_id result \<le> 2) rs
      \<and> read_each (qw_read_clock w) q (\<lambda>data result r. starts_with_bytes data (qr_data r)) 0
          (zip (map string_bytes [''Record 1'', ''Record 2'', ''Record 3'']) rs)" by blast
qed (simp_all add: contains_str_def string_bytes_def)

lemma offset_mapping_passes:
  assumes "os_willing (qw_os w)"
  shows "test_offset_mapping_correctness w"
  unfolding test_offset_mapping_correctness_def Let_def
proof (rule with_appended_ok [OF assms])
  let ?ds = "map string_bytes [''Record A'', ''Record B'', ''Record C'', ''Record D'', ''Record E'']"
  fix rs :: "append_result list" and q
  assume "length rs = length ?ds" and "\<And>i clock. i < length ?ds \<Longrightarrow>
        \<exists>r rest. persistq_read clock (ar_global_offset (rs ! i)) q = Inr r
        \<and> qr_data (rr_record r) = ?ds ! i @ rest \<and> qr_partition_id (rr_record r) = ar_partition_id (rs ! i)"
  then show "read_each (qw_read_clock w) q (\<lambda>data result r. length data \<le> length (qr_data r)
               \<and> utf8_lossy (take (length data) (qr_data r)) = data \<and> qr_partition_id r = ar_partition_id result) 0 (zip ?ds rs)"
  proof (rule read_each_ok)
    fix d result r rest
    assume d: "d \<in> set ?ds" "qr_data r = d @ rest" "qr_partition_id r = ar_partition_id (result :: append_result)"
    have "\<forall>d \<in> set ?ds. \<forall>b \<in> set d. b < 0x80" by (simp add: string_bytes_def)
    then have "utf8_lossy d = d" using d(1) by (intro utf8_lossy_id ascii_valid) blast
    then show "length d \<le> length (qr_data r) \<and> utf8_lossy (take (length d) (qr_data r)) = d \<and> qr_partition_id r = ar_partition_id result"
      using d(2,3) by simp
  qed
qed (simp_all add: contains_str_def string_bytes_def)

text \<open>The writers' records, whatever their order.\<close>

lemma mset_grouped:
  "mset (concat (map (\<lambda>i. filter (\<lambda>x. f x = i) xs) [0..<n])) = mset (filter (\<lambda>x. f x < n) xs)"
proof (induction n)
  case (Suc n)
  have "mset (filter (\<lambda>x. f x < Suc n) xs) = mset (filter (\<lambda>x. f x < n) xs) + mset (filter (\<lambda>x. f x = n) xs)"
    by (induction xs) auto
  with Suc show ?case by simp
qed simp

lemma scheduled_lengths:
  assumes "\<forall>i < 10. count_list schedule i = 100" "\<forall>i \<in> set schedule. i < 10"
  shows "length (scheduled_data schedule) = 1000" "\<forall>d \<in> set (scheduled_data schedule). d \<noteq> [] \<and> length d \<le> 19"
proof -
  have "length schedule = sum (count_list schedule) {..<10}"
    using sum_count_set [of schedule "{..<10}"] assms(2) by (simp add: subset_eq)
  then show len: "length (scheduled_data schedule) = 1000" using assms(1) by (simp add: scheduled_data_def)
  have "writer_data v i \<noteq> [] \<and> length (writer_data v i) \<le> 19" if "v < 10" "i < 100" for v i
    using length_nat_string [of v 1] length_nat_string [of i 2] that by (simp add: writer_data_def string_bytes_def)
  moreover have "count_list (take k schedule) (schedule ! k) < 100" if "k < length schedule" for k
  proof -
    have "count_list schedule (schedule ! k) = count_list (take k schedule) (schedule ! k) + count_list (drop k schedule) (schedule ! k)"
      by (metis append_take_drop_id count_list_append)
    moreover have "drop k schedule = schedule ! k # drop (k + 1) schedule" using that by (simp add: Cons_nth_drop_Suc)
    ultimately show ?thesis using assms that by (simp del: Suc_eq_plus1)
  qed
  ultimately show "\<forall>d \<in> set (scheduled_data schedule). d \<noteq> [] \<and> length d \<le> 19"
    using assms(2) by (auto simp: scheduled_data_def)
qed

lemma concurrent_appends_pass:
  assumes "os_willing (qw_os w)" "\<forall>i < 10. count_list schedule i = 100" "\<forall>i \<in> set schedule. i < 10"
  shows "test_concurrent_appends w schedule"
  unfolding test_concurrent_appends_def
proof (rule with_appended_ok [OF assms(1)])
  note len = scheduled_lengths [OF assms(2,3)]
  show "length (concat (scheduled_data schedule)) \<le> 1024 * 1024"
    using length_concat_le [of "scheduled_data schedule" 19] len by simp
  show "\<forall>d \<in> set (scheduled_data schedule). d \<noteq> []" using len(2) by blast
  fix rs :: "append_result list" and q
  assume rs: "length rs = length (scheduled_data schedule)" "map ar_global_offset rs = map of_nat [0..<length (scheduled_data schedule)]"
  let ?group = "\<lambda>i. filter (\<lambda>(v, _). v = i) (zip schedule rs)"
  let ?all = "concat (map (\<lambda>i. map (ar_global_offset \<circ> snd) (?group i)) [0..<10])"
  have "mset (concat (map ?group [0..<10])) = mset (filter (\<lambda>x. fst x < 10) (zip schedule rs))"
    using mset_grouped [of fst "zip schedule rs" 10] by (simp only: case_prod_unfold)
  also have "filter (\<lambda>x. fst x < 10) (zip schedule rs) = zip schedule rs"
    using assms(3) by (intro filter_True) (auto dest: set_zip_leftD)
  finally have "image_mset (ar_global_offset \<circ> snd) (mset (concat (map ?group [0..<10]))) = mset (map (ar_global_offset \<circ> snd) (zip schedule rs))"
    by simp
  moreover have "map (ar_global_offset \<circ> snd) (zip schedule rs) = map ar_global_offset rs"
    using rs(1) by (simp add: scheduled_data_def flip: map_map)
  moreover have "map (ar_global_offset \<circ> snd) (concat (map ?group [0..<10])) = ?all" by (simp only: map_concat map_map comp_def)
  ultimately have "mset ?all = mset (map ar_global_offset rs)" by (metis mset_map)
  then have all: "mset ?all = mset (map of_nat [0..<length rs])" using rs by simp
  have n: "length rs = 1000" using rs(1) len(1) by simp
  then have "distinct (map of_nat [0..<length rs] :: u64 list)" by (simp add: distinct_map inj_on_def of_nat_eq_iff64)
  then have "distinct ?all" using mset_eq_imp_distinct_iff [OF all] by blast
  moreover have "length ?all = 10 * 100" using mset_eq_length [OF all] n by simp
  ultimately have "length ?all = 10 * 100 \<and> length (remdups_adj (sort ?all)) = length ?all"
    by (simp only: remdups_adj_distinct distinct_sort length_sort)
  then show "let offsets_of = (\<lambda>writer_id. map (ar_global_offset \<circ> snd) (filter (\<lambda>(w, _). w = writer_id) (zip schedule rs)));
           all_offsets = concat (map offsets_of [0..<10]); unique_offsets = remdups_adj (sort all_offsets)
       in length all_offsets = 10 * 100 \<and> length unique_offsets = length all_offsets"
    unfolding Let_def .
qed (simp_all add: contains_str_def string_bytes_def)

lemma append_loop_placed:
  assumes "queue_holds crc q recs dsm" "os_willing os" "pc_num_partitions (q_config q) = 1" "length recs + length ds < 2 ^ 64"
    and "\<forall>d \<in> set ds. length d \<le> unat (pc_segment_size (q_config q))"
  shows "\<exists>rs q' dsm'. append_loop crc os clock i ds q = Some (Inr rs, q') \<and> queue_holds crc q' (recs @ ds) dsm'
    \<and> q_config q' = q_config q \<and> dsm' 1 = foldl (\<lambda>dss d. placed (pc_segment_size (q_config q)) d dss) (dsm 1) ds"
  using assms(1,3-)
proof (induction ds arbitrary: i q recs dsm)
  case Nil
  then show ?case by auto
next
  case (Cons d ds)
  let ?n = "pc_segment_size (q_config q)"
  have p: "partition_for_data crc q d = 1" by (rule partition_one(1) [OF Cons.prems(2)])
  have "length d \<le> unat ?n" "length recs + 1 < 2 ^ 64" using Cons.prems(3,4) by simp_all
  from queue_append_ok [OF Cons.prems(1) assms(2) this p [symmetric] refl, of "clock i"] obtain r q1 where
    r: "persistq_append crc os (clock i) d q = Some (Inr r, q1)" "queue_holds crc q1 (recs @ [d]) (dsm(1 := placed ?n d (dsm 1)))"
    "q_config q1 = q_config q" by blast
  have "\<exists>rs q' dsm'. append_loop crc os clock (i + 1) ds q1 = Some (Inr rs, q') \<and> queue_holds crc q' ((recs @ [d]) @ ds) dsm'
    \<and> q_config q' = q_config q1 \<and> dsm' 1 = foldl (\<lambda>dss d. placed (pc_segment_size (q_config q1)) d dss) ((dsm(1 := placed ?n d (dsm 1))) 1) ds"
    by (rule Cons.IH [OF r(2)]) (use Cons.prems(2-4) r(3) in simp_all)
  then show ?case using r by auto
qed

lemma rollover_passes:
  assumes "os_willing (qw_os w)"
  shows "test_segment_rollover w"
proof -
  let ?d = "replicate 512 0 :: bytes"
  define ds where "ds = replicate 5 ?d"
  obtain q where q: "persistq_new (qw_os w) (test_queue_config ''/tmp/dolda_test_rollover'' 1024 1) = Inr q"
    "queue_holds (qw_crc w) q [] (\<lambda>_. [[]])" "pc_segment_size (q_config q) = 1024" "pc_num_partitions (q_config q) = 1"
    using test_queue_new [OF assms, of 1024 1 "''/tmp/dolda_test_rollover''"] by (auto simp: contains_str_def)
  have "length ([] :: bytes list) + length ds < 2 ^ 64" "\<forall>d \<in> set ds. length d \<le> unat (pc_segment_size (q_config q))"
    by (simp_all add: ds_def q(3))
  from append_loop_placed [OF q(2) assms q(4) this, of "qw_clock w" 0] obtain rs q' dsm where
    q': "append_loop (qw_crc w) (qw_os w) (qw_clock w) 0 ds q = Some (Inr rs, q')" "queue_holds (qw_crc w) q' ds dsm"
    "q_config q' = q_config q" "dsm 1 = foldl (\<lambda>dss d. placed 1024 d dss) [[]] ds" by (auto simp: q(3))
  have place: "placed 1024 ?d [[]] = [[?d]]" "placed 1024 ?d [[?d]] = [[?d, ?d]]" "placed 1024 ?d [[?d, ?d]] = [[?d, ?d], [?d]]"
    "placed 1024 ?d [[?d, ?d], [?d]] = [[?d, ?d], [?d, ?d]]" "placed 1024 ?d [[?d, ?d], [?d, ?d]] = [[?d, ?d], [?d, ?d], [?d]]"
    by (simp_all add: placed_def)
  have five: "replicate 5 x = [x, x, x, x, x]" for x :: bytes by (simp add: numeral_eq_Suc)
  have three: "length (dsm 1) = 3" unfolding q'(4) ds_def five by (simp only: foldl_Cons foldl_Nil place) simp
  have "partition_holds (qw_crc w) q' ds (dsm 1) 1"
    using q'(2) by (simp add: queue_holds_def q'(3) q(4))
  then obtain m where "map_of (q_segment_managers q') 1 = Some m" "pq_manager_holds m (dsm 1)" by (auto simp: partition_holds_def)
  moreover from this have "length (pm_segments m) = 3" using pq_manager_holds_length three by fastforce
  ultimately show ?thesis
    unfolding test_segment_rollover_def with_appended_def q(1) ds_def [symmetric] by (simp add: q'(1))
qed

lemma performance_framework_passes: test_performance_framework
proof -
  let ?ls = "[100, 200, 150, 300, 250] :: u64 list"
  have len: "of_nat (length ?ls) = (5 :: u64)" "length ?ls < 2 ^ 53" "?ls \<noteq> []" "sum_list ?ls = 1000" by simp_all
  have "u64_as_f64 1000 = Fin 1000" "u64_as_f64 5 = Fin 5" using f64_of_int_exact [of 1000] f64_of_int_exact [of 5] by (simp_all add: u64_as_f64_def)
  moreover have "f64_round 200 = Fin 200" using f64_round_dyadic [of 200 0] by simp
  ultimately have avg: "f64_div (u64_as_f64 (sum_list ?ls)) (u64_as_f64 5) = Fin 200" unfolding len(4) by simp
  obtain i j k where "percentile 5 (f64_lit 1 2) (sort ?ls) = Some (sort ?ls ! i)"
    "percentile 5 (f64_lit 95 100) (sort ?ls) = Some (sort ?ls ! j)" "percentile 5 (f64_lit 99 100) (sort ?ls) = Some (sort ?ls ! k)"
    using percentile_positions [OF len(3,2)] unfolding len(1) by blast
  then show ?thesis
    unfolding test_performance_framework_def perf_results_new_def Let_def len(1) avg by (simp only: option.case on_some_simps) simp
qed

text \<open>C35: All unit tests of the queue pass when the system grants its requests: data read back start with what
  was appended, and appends from ten writers, in whatever order, get a thousand different numbers.\<close>

theorem queue_tests_pass:
  assumes "os_willing (qw_os w)" "os_flushes (qw_os w)" "\<forall>i < 10. count_list schedule i = 100" "\<forall>i \<in> set schedule. i < 10"
  shows "[test_segment_operations (qw_os w), test_queue_manager (qw_os w), test_persistq_config, test_config_validation,
      test_persistq_append_and_read w, test_concurrent_appends w schedule, test_offset_mapping_correctness w,
      test_segment_rollover w, test_performance_framework] = [True, True, True, True, True, True, True, True, True]"
  using segment_operations_pass [OF assms(1,2)] queue_manager_passes [OF assms(1)] config_tests_pass append_and_read_passes [OF assms(1)]
    concurrent_appends_pass [OF assms(1,3,4)] offset_mapping_passes [OF assms(1)] rollover_passes [OF assms(1)] performance_framework_passes
  by simp

definition demo_queue_world :: queue_world where
  "demo_queue_world = \<lparr>qw_crc = (\<lambda>bs. of_nat (length bs)), qw_os = demo_os, qw_clock = (\<lambda>i. (of_nat i, of_nat i + 1)),
     qw_read_clock = (\<lambda>i. (of_nat i, of_nat i + 1))\<rparr>"

lemma count_rounds: "count_list (concat (replicate k [0..<10])) i = (if i < 10 then k else 0)"
proof (induction k)
  case (Suc k)
  have "count_list [0..<10] i = (if i < 10 then 1 else 0)" by (simp add: upt_rec less_Suc_eq numeral_eq_Suc)
  with Suc show ?case by (simp add: count_list_append)
qed simp

theorem queue_tests_pass_witness: "test_concurrent_appends demo_queue_world (concat (replicate 100 [0..<10]))"
proof -
  have "os_flushes demo_os" by (simp add: os_flushes_def demo_os_def)
  then show ?thesis
    using queue_tests_pass [of demo_queue_world "concat (replicate 100 [0..<10])"] demo_os_willing
    by (auto simp: demo_queue_world_def count_rounds)
qed

end
