(* ===== verification/Cluster_Tests.thy ===== *)
theory Cluster_Tests
  imports Partitions Filesystem Test_Support
begin

text \<open>
  The unit tests of \<open>src/node.rs\<close>, \<open>src/cluster.rs\<close>, \<open>src/partition.rs\<close> and \<open>src/filesystem.rs\<close> (modules
  \<open>tests\<close>). The answers to attempts to listen, the clock, the checksum and the generated names are
  arguments. (A test of \<open>load_factor\<close> awaits a future outside an asynchronous function and so does not
  compile.)
\<close>

section \<open>The tests of nodes and the cluster\<close>

record cluster_world =
  cw_parse :: "string \<Rightarrow> string option"
  cw_bind :: "string \<Rightarrow> io_error + unit"
  cw_now :: "nat \<Rightarrow> u64"

definition test_cnode_creation :: "cluster_world \<Rightarrow> bool" where
  "test_cnode_creation w =
     (let node = cnode_new (cw_parse w) (cw_now w 0) node_config_default
      in cn_node_id node = 0 \<and> nc_node_type (cn_config node) = DataNode \<and> cn_state node = Init)"

definition test_node_start_stop :: "cluster_world \<Rightarrow> bool" where
  "test_node_start_stop w =
     (let node = cnode_new (cw_parse w) (cw_now w 0) node_config_default;
          (started, node1) = node_start (cw_bind w) (cw_now w 1) node
      in on_ok started (\<lambda>_. cn_state node1 = Active \<and> cn_state (node_stop node1) = Offline))"

definition test_cluster_creation :: bool where
  "test_cluster_creation =
     (let stats = cl_stats (node_cluster_new cluster_config_default) in ct_active_nodes stats = 0 \<and> ct_total_memory stats = 0)"

definition test_add_remove_node :: "cluster_world \<Rightarrow> bool" where
  "test_add_remove_node w =
     (let cluster = node_cluster_new cluster_config_default;
          node = cnode_new (cw_parse w) (cw_now w 0) node_config_default;
          (added, cluster1) = add_node (cw_bind w) (cw_now w 1) node cluster
      in on_ok added (\<lambda>node_id.
           get_node node_id cluster1 \<noteq> None \<and> ct_active_nodes (cl_stats cluster1) = 1
           \<and> (let (removed, cluster2) = remove_node False node_id cluster1
              in on_ok removed (\<lambda>_. get_node node_id cluster2 = None))))"

text \<open>The selected node is still held when it is removed.\<close>

definition test_data_node_selection :: "cluster_world \<Rightarrow> bool" where
  "test_data_node_selection w =
     (let cluster = node_cluster_new cluster_config_default;
          node = cnode_new (cw_parse w) (cw_now w 0) (node_config_default\<lparr>nc_node_type := DataNode\<rparr>);
          (added, cluster1) = add_node (cw_bind w) (cw_now w 1) node cluster
      in on_ok added (\<lambda>node_id.
         on_some (select_data_node 42 cluster1) (\<lambda>selected.
           cn_node_id selected = node_id \<and> is_ok (fst (remove_node True node_id cluster1)))))"

section \<open>The tests of partitions\<close>

definition test_partition_key_hash :: "(bytes \<Rightarrow> u32) \<Rightarrow> bool" where
  "test_partition_key_hash crc =
     (let key1 = RString ''test''; key2 = RInteger 42; key3 = RTimestamp 1234567890; key1_copy = RString ''test''
      in routing_hash crc key1 \<noteq> routing_hash crc key2 \<and> routing_hash crc key2 \<noteq> routing_hash crc key3
         \<and> routing_hash crc key1 = routing_hash crc key1_copy)"

definition test_partition_manager :: "(bytes \<Rightarrow> u32) \<Rightarrow> nat \<Rightarrow> bool" where
  "test_partition_manager crc now_ms =
     (let cluster = node_cluster_new cluster_config_default;
          (created, pm) = create_partition now_ms cluster HashStrategy None None partition_manager_new
      in on_ok created (\<lambda>partition_id.
           map_of (pn_partitions pm) partition_id \<noteq> None
           \<and> get_partition_for_key crc (RString ''test_key'') pm = Some partition_id
           \<and> pt_total_partitions (pn_stats pm) = 1))"

definition test_data_shard_creation :: bool where
  "test_data_shard_creation =
     (let shard = data_shard_new 1 100 True
      in ds_shard_id shard = 1 \<and> ds_node_id shard = 100 \<and> ds_is_primary shard \<and> ds_size_bytes shard = 0 \<and> ds_record_count shard = 0)"

section \<open>The tests of the filesystem\<close>

definition test_filesystem_creation :: bool where
  "test_filesystem_creation =
     (let stats = fs_stats (file_system_new None) in fst_total_files stats = 0 \<and> fst_total_size stats = 0)"

text \<open>\<open>Arc::try_unwrap\<close> of a file, while the table of files holds it or not.\<close>

definition arc_try_unwrap :: "bool \<Rightarrow> 'a \<Rightarrow> string + 'a" where
  "arc_try_unwrap held x = (if held then Inl ''File still has references'' else Inr x)"

definition test_file_operations :: "string \<Rightarrow> u64 \<Rightarrow> bool" where
  "test_file_operations uuid now =
     (let cluster = node_cluster_new cluster_config_default; fs = file_system_new None;
          (created, fs1) = create_file cluster uuid now ''/test/data.txt'' DataFile 3 fs
      in on_ok created (\<lambda>file.
           df_logical_path file = ''/test/data.txt'' \<and> fa_file_type (df_attrs file) = DataFile
           \<and> on_ok (open_file ''/test/data.txt'' fs1) (\<lambda>opened_file. df_logical_path opened_file = df_logical_path file
           \<and> on_ok (arc_try_unwrap (map_of (fs_file_table fs1) ''/test/data.txt'' \<noteq> None) file) (\<lambda>file_mut.
             let (written, _, fs2) = write_file cluster now file_mut 0 (string_bytes ''Hello, World!'') fs1
             in on_ok written (\<lambda>n. n = 13
                \<and> (let (deleted, fs3) = delete_file ''/test/data.txt'' fs2
                   in on_ok deleted (\<lambda>_. \<not> is_ok (open_file ''/test/data.txt'' fs3))))))))"

definition test_list_directory :: "string \<times> string \<Rightarrow> u64 \<Rightarrow> bool" where
  "test_list_directory uuids now =
     (let cluster = node_cluster_new cluster_config_default; fs = file_system_new None;
          (created, fs1) = create_file cluster (fst uuids) now ''/data/table1'' DataFile 3 fs
      in on_ok created (\<lambda>_.
         let (created2, fs2) = create_file cluster (snd uuids) now ''/index/primary'' IndexFile 2 fs1
         in on_ok created2 (\<lambda>_. on_ok (list_directory ''/'' fs2) (\<lambda>entries. entries \<noteq> []))))"

section \<open>Which of them pass\<close>

text \<open>C22: Of the unit tests of nodes, cluster, partitions and filesystem, four fail: removing a node that the
  test still holds, creating a partition and files without any data node. The others pass, when the
  node may listen and the checksum tells the three keys apart.\<close>

theorem cluster_tests_results:
  assumes "\<forall>address. cw_bind w address = Inr ()"
    and "crc (string_bytes ''test'') \<noteq> crc (be_bytes 8 (42 :: u64))" "crc (be_bytes 8 (42 :: u64)) \<noteq> crc (be_bytes 8 (1234567890 :: u64))"
  shows "[test_cnode_creation w, test_node_start_stop w, test_cluster_creation, test_add_remove_node w, test_data_node_selection w,
      test_partition_key_hash crc, test_partition_manager crc now_ms, test_data_shard_creation,
      test_filesystem_creation, test_file_operations uuid now, test_list_directory uuids now]
    = [True, True, True, True, False, True, False, True, True, False, False]"
proof -
  let ?node = "cnode_new (cw_parse w) (cw_now w 0) node_config_default"
  let ?started = "?node\<lparr>cn_node_id := 1, cn_state := Active, cn_last_heartbeat := cw_now w 1, cn_listening := True\<rparr>"
  have start: "node_start (cw_bind w) (cw_now w 1) (?node\<lparr>cn_node_id := i\<rparr>)
      = (Inr (), ?node\<lparr>cn_node_id := i, cn_state := Active, cn_last_heartbeat := cw_now w 1, cn_listening := True\<rparr>)" for i
    using assms(1) by (simp add: node_start_def cnode_new_def node_config_default_def)
  have add: "add_node (cw_bind w) (cw_now w 1) ?node (node_cluster_new cluster_config_default)
      = (Inr 1, update_stats ((node_cluster_new cluster_config_default)\<lparr>cl_next_node_id := 2, cl_nodes := [(1, ?started)]\<rparr>))"
    by (simp add: add_node_def node_cluster_new_def start Let_def del: One_nat_def) (simp add: cnode_new_def node_config_default_def)
  have node: "test_cnode_creation w" "test_node_start_stop w"
    using start [of 0] assms(1) by (simp_all add: test_cnode_creation_def test_node_start_stop_def cnode_new_def node_config_default_def node_stop_def node_start_def del: One_nat_def)
  have removal: "test_add_remove_node w"
    unfolding test_add_remove_node_def Let_def add
    by (simp add: get_node_def remove_node_def update_stats_def stats_of_def count_state_def node_cluster_new_def hash_remove_def)
  have data: "node_config_default\<lparr>nc_node_type := DataNode\<rparr> = node_config_default" by (simp add: node_config_default_def)
  have data_node: "nc_node_type (cn_config ?started) = DataNode" by (simp add: cnode_new_def node_config_default_def)
  have selection: "\<not> test_data_node_selection w"
    unfolding test_data_node_selection_def Let_def data add
    by (simp add: select_data_node_def get_data_nodes_def remove_node_def update_stats_def node_cluster_new_def data_node [simplified])
  have keys: "test_partition_key_hash crc"
    using assms(2,3) by (simp add: test_partition_key_hash_def string_bytes_def)
  have no_nodes: "get_data_nodes (node_cluster_new cluster_config_default) = []"
    by (simp add: get_data_nodes_def node_cluster_new_def)
  have "create_partition now_ms (node_cluster_new cluster_config_default) HashStrategy None None partition_manager_new
      = (Inl (DoldaPartition ''No data nodes available''), partition_manager_new)"
    by (simp add: create_partition_def assign_nodes_to_partition_def no_nodes)
  then have partitions: "\<not> test_partition_manager crc now_ms" by (simp add: test_partition_manager_def)
  have "fst (create_file (node_cluster_new cluster_config_default) u now path ftype n (file_system_new None))
      = Inl (DoldaFilesystem ''No data nodes available'')" for u path ftype n
    by (simp add: create_file_def file_system_new_def allocate_blocks_def select_data_node_def no_nodes Let_def)
  then have files: "\<not> test_file_operations uuid now" "\<not> test_list_directory uuids now"
    by (simp_all add: test_file_operations_def test_list_directory_def Let_def case_prod_unfold)
  show ?thesis
    using node removal selection keys partitions files
    by (simp add: test_cluster_creation_def node_cluster_new_def cluster_stats_default_def test_data_shard_creation_def
        data_shard_new_def test_filesystem_creation_def file_system_new_def)
qed

theorem cluster_tests_results_witness:
  "\<not> test_data_node_selection \<lparr>cw_parse = Some, cw_bind = (\<lambda>_. Inr ()), cw_now = of_nat\<rparr>"
proof -
  let ?w = "\<lparr>cw_parse = Some, cw_bind = (\<lambda>_. Inr ()), cw_now = of_nat\<rparr>"
  let ?crc = "\<lambda>bs. if bs = be_bytes 8 (42 :: u64) then 1 else if length bs = 8 then 2 else 3 :: u32"
  have "le_bytes 8 (1234567890 :: u64) \<noteq> le_bytes 8 (42 :: u64)"
  proof
    assume "le_bytes 8 (1234567890 :: u64) = le_bytes 8 (42 :: u64)"
    then have "le_word (le_bytes 8 (1234567890 :: u64)) = (le_word (le_bytes 8 (42 :: u64)) :: u64)" by simp
    then show False unfolding le_word64 by simp
  qed
  then have crc: "?crc (string_bytes ''test'') \<noteq> ?crc (be_bytes 8 (42 :: u64))" "?crc (be_bytes 8 (42 :: u64)) \<noteq> ?crc (be_bytes 8 (1234567890 :: u64))"
    by (auto simp: be_bytes_def string_bytes_def dest: arg_cong [where f = length])
  have "\<forall>address. cw_bind ?w address = Inr ()" by simp
  from cluster_tests_results [OF this, of ?crc 0 "[]" 0 "([], [])", OF crc] show ?thesis by simp
qed

end
