(* ===== verification/Service_Tests.thy ===== *)
theory Service_Tests
  imports Network Health Utilities Test_Support
begin

text \<open>
  The unit tests of \<open>src/network.rs\<close>, \<open>src/health.rs\<close> and \<open>src/utils.rs\<close> (modules \<open>tests\<close>). The checksum, the
  clock and the parser of IP addresses are arguments.
\<close>

section \<open>The tests of the protocol\<close>

fun is_invalid_message :: "network_error + 'a \<Rightarrow> bool" where
  "is_invalid_message (Inl (InvalidMessage _)) = True"
| "is_invalid_message _ = False"

definition test_message_header_roundtrip :: bool where
  "test_message_header_roundtrip =
     on_ok (header_from_bytes (header_to_bytes (message_header_new Ping 100 42))) (\<lambda>decoded.
       mh_magic decoded = PROTOCOL_MAGIC \<and> mh_version decoded = PROTOCOL_VERSION \<and> mh_msg_type decoded = Ping
       \<and> mh_payload_len decoded = 100 \<and> mh_request_id decoded = 42)"

definition test_message_serialization :: bool where
  "test_message_serialization =
     (let payload = [1, 2, 3, 4, 5]; bytes = message_to_bytes (message_new AppendRequest payload 123)
      in length bytes = HEADER_SIZE + length payload \<and> take 4 bytes = be_bytes 4 PROTOCOL_MAGIC)"

definition test_header_magic :: bool where
  "test_header_magic =
     (let bytes = be_bytes 4 (0xDEADBEEF :: u32) @ drop 4 (replicate HEADER_SIZE 0)
      in is_invalid_message (header_from_bytes bytes))"

definition test_unsupported_version :: bool where
  "test_unsupported_version =
     (let bytes = be_bytes 4 PROTOCOL_MAGIC @ be_bytes 2 (999 :: u16) @ drop 6 (replicate HEADER_SIZE 0)
      in header_from_bytes bytes = Inl (UnsupportedVersion 999))"

definition test_connection_pool :: bool where
  "test_connection_pool \<longleftrightarrow> connection_count pool_new = 0"

section \<open>The tests of the health server\<close>

definition test_health_status :: bool where
  "test_health_status \<longleftrightarrow> is_healthy_status Healthy \<and> \<not> is_healthy_status Unhealthy
     \<and> http_code Healthy = 200 \<and> http_code Unhealthy = 503"

definition test_component_registration :: "(nat \<Rightarrow> u64) \<Rightarrow> bool" where
  "test_component_registration clock =
     (let server = register_component ''test'' (health_server_new (clock 0) ''1.0.0'');
          health = get_health (clock 1) server
      in length (sh_components health) = 1 \<and> ch_name (sh_components health ! 0) = ''test'')"

definition test_component_update :: "(nat \<Rightarrow> u64) \<Rightarrow> bool" where
  "test_component_update clock =
     (let server = update_component (clock 1) ''test'' Healthy ''All good''
            (register_component ''test'' (health_server_new (clock 0) ''1.0.0''));
          health = get_health (clock 2) server
      in 0 < length (sh_components health) \<and> ch_status (sh_components health ! 0) = Healthy
         \<and> ch_message (sh_components health ! 0) = ''All good'')"

definition test_system_health_aggregation :: "(nat \<Rightarrow> u64) \<Rightarrow> bool" where
  "test_system_health_aggregation clock =
     (let server = register_component ''comp2'' (register_component ''comp1'' (health_server_new (clock 0) ''1.0.0''));
          server = update_component (clock 2) ''comp2'' DegradedHealth ''Slow'' (update_component (clock 1) ''comp1'' Healthy ''Good'' server)
      in sh_status (get_health (clock 3) server) = DegradedHealth)"

definition test_http_parsing :: "(system_health \<Rightarrow> string option) \<Rightarrow> (nat \<Rightarrow> u64) \<Rightarrow> bool" where
  "test_http_parsing json clock =
     (let response = handle_request json (clock 1) (''GET /health HTTP/1.1'' @ crlf @ ''Host: localhost'' @ crlf @ crlf)
            (health_server_new (clock 0) ''1.0.0'')
      in contains_str ''200 OK'' response \<and> contains_str ''alive'' response)"

section \<open>The tests of the utilities\<close>

definition test_path_utils :: bool where
  "test_path_utils \<longleftrightarrow> is_absolute ''/absolute/path'' \<and> \<not> is_absolute ''relative/path''
     \<and> get_basename ''/path/to/file.txt'' = ''file.txt'' \<and> get_basename ''file.txt'' = ''file.txt''
     \<and> join_paths ''/base'' ''relative'' = ''/base/relative''"

definition test_hash_utils :: "(bytes \<Rightarrow> u32) \<Rightarrow> bool" where
  "test_hash_utils crc =
     (let hash1 = string_hash crc ''test''; hash2 = string_hash crc ''test''; hash3 = string_hash crc ''different''
      in hash1 = hash2 \<and> hash1 \<noteq> hash3 \<and> int_hash crc 42 \<noteq> 0)"

definition test_validation_utils :: "(string \<Rightarrow> bool) \<Rightarrow> bool" where
  "test_validation_utils is_valid_ip \<longleftrightarrow>
     is_valid_port 8080 \<and> \<not> is_valid_port 0 \<and> \<not> is_valid_port 65535
     \<and> is_valid_ip ''127.0.0.1'' \<and> is_valid_ip ''::1'' \<and> \<not> is_valid_ip ''invalid''
     \<and> is_valid_path ''/valid/path'' \<and> \<not> is_valid_path ''../invalid'' \<and> \<not> is_valid_path []
     \<and> is_valid_node_name ''valid-node-1'' \<and> \<not> is_valid_node_name ''invalid@node'' \<and> \<not> is_valid_node_name []"

definition test_time_utils :: "(nat \<Rightarrow> nat option) \<Rightarrow> bool" where
  "test_time_utils clock =
     (let now = current_timestamp_ms (clock 0); past = now - 1000
      in now > 0 \<and> is_older_than (clock 1) past 500 \<and> \<not> is_older_than (clock 2) past 2000)"

section \<open>All of them pass\<close>

lemma protocol_tests_pass: test_message_header_roundtrip test_message_serialization test_header_magic
    test_unsupported_version test_connection_pool
proof -
  have "header_from_bytes (header_to_bytes (message_header_new Ping 100 42)) = Inr (message_header_new Ping 100 42)"
    using header_from_to [of "message_header_new Ping 100 42" "[]"] by (simp add: header_ok_def message_header_new_def)
  then show test_message_header_roundtrip by (simp add: test_message_header_roundtrip_def message_header_new_def)
  have "take 4 (header_to_bytes h) = be_bytes 4 (mh_magic h)" for h by (simp add: header_to_bytes_def)
  then show test_message_serialization
    by (simp add: test_message_serialization_def message_to_bytes_def message_new_def message_header_new_def HEADER_SIZE_def)
  show test_header_magic test_unsupported_version
    by (simp_all add: test_header_magic_def test_unsupported_version_def header_from_bytes_def HEADER_SIZE_def slice_of_def
        PROTOCOL_MAGIC_def PROTOCOL_VERSION_def Let_def)
  show test_connection_pool by (simp add: test_connection_pool_def connection_count_def pool_new_def)
qed

lemma health_tests_pass: test_health_status "test_component_registration clock" "test_component_update clock"
    "test_system_health_aggregation clock" "test_http_parsing json clock"
proof -
  show test_health_status "test_component_registration clock" "test_component_update clock" "test_system_health_aggregation clock"
    by (simp_all add: test_health_status_def is_healthy_status_def test_component_registration_def test_component_update_def
        test_system_health_aggregation_def health_server_new_def register_component_def update_component_def get_health_def Let_def)
  have "split_whitespace (first_line (''GET /health HTTP/1.1'' @ crlf @ ''Host: localhost'' @ crlf @ crlf))
      = [''GET'', ''/health'', ''HTTP/1.1'']"
    by (simp add: first_line_def crlf_def split_whitespace.simps is_space_def Let_def)
  then have "handle_request json (clock 1) (''GET /health HTTP/1.1'' @ crlf @ ''Host: localhost'' @ crlf @ crlf) s = handle_liveness" for s
    by (simp add: handle_request_def)
  moreover have "contains_str ''200 OK'' handle_liveness"
  proof -
    have "nat_string (unat (200 :: u16)) = ''200''" by code_simp
    then show ?thesis
      unfolding contains_str_iff handle_liveness_def http_response_def http_text_def
      by - (rule exI [of _ "''HTTP/1.1 ''"], simp)
  qed
  moreover have "contains_str ''alive'' handle_liveness"
    unfolding contains_str_iff handle_liveness_def http_response_def http_text_def by (metis append.assoc append_Nil2)
  ultimately show "test_http_parsing json clock" by (simp add: test_http_parsing_def)
qed

lemma utility_tests_pass:
  "test_path_utils"
  "crc (string_bytes ''test'') \<noteq> crc (string_bytes ''different'') \<Longrightarrow> crc (be_bytes 8 (42 :: u64)) \<noteq> 0 \<Longrightarrow> test_hash_utils crc"
  "is_valid_ip ''127.0.0.1'' \<Longrightarrow> is_valid_ip ''::1'' \<Longrightarrow> \<not> is_valid_ip ''invalid'' \<Longrightarrow> test_validation_utils is_valid_ip"
proof -
  show test_path_utils
    by (simp add: test_path_utils_def is_absolute_def get_basename_def split_path_def path_lead_def trim_right.simps
        after_sep_def upto_sep_def join_paths_def Let_def)
  have "(ucast x :: u64) = 0 \<longleftrightarrow> x = 0" for x :: u32 using widen_inj [of x 0] by (simp del: widen_inj)
  then show "crc (string_bytes ''test'') \<noteq> crc (string_bytes ''different'') \<Longrightarrow> crc (be_bytes 8 (42 :: u64)) \<noteq> 0 \<Longrightarrow> test_hash_utils crc"
    by (simp add: test_hash_utils_def string_hash_def int_hash_def crc32_hash_def string_bytes_def)
  show "is_valid_ip ''127.0.0.1'' \<Longrightarrow> is_valid_ip ''::1'' \<Longrightarrow> \<not> is_valid_ip ''invalid'' \<Longrightarrow> test_validation_utils is_valid_ip"
    by (simp add: test_validation_utils_def is_valid_port_def is_valid_path_def is_valid_node_name_def contains_str_def
        ascii_alphanumeric_def Let_def)
qed

lemma time_tests_pass:
  assumes "\<forall>i. clock i = Some (t i)" "10 ^ 9 \<le> t 0" "t 0 \<le> t 1" "t 0 \<le> t 2" "t 2 \<le> t 0 + 10 ^ 9" "t 1 < 2 ^ 63" "t 2 < 2 ^ 63"
  shows "test_time_utils clock"
proof -
  let ?m = "\<lambda>i. t i div 1000000"
  have now: "current_timestamp_ms (clock i) = of_nat (?m i)" for i using assms(1) by (simp add: current_timestamp_ms_def)
  have m: "1000 \<le> ?m 0" "?m 0 \<le> ?m 1" "?m 0 \<le> ?m 2" using assms(2-4) by (simp_all add: div_le_mono)
  have "?m 2 \<le> (t 0 + 10 ^ 9) div 1000000" using assms(5) by (rule div_le_mono)
  then have m2: "?m 2 \<le> ?m 0 + 1000" by simp
  have small: "?m 0 < 2 ^ 63" "?m 1 < 2 ^ 63" "?m 2 < 2 ^ 63" using assms(3,6,7) by simp_all
  then have unat: "unat (of_nat (?m 0) :: u64) = ?m 0" "unat (of_nat (?m 1) :: u64) = ?m 1" "unat (of_nat (?m 2) :: u64) = ?m 2"
    by (simp_all add: unat_of_nat64)
  have past: "unat (of_nat (?m 0) - 1000 :: u64) = ?m 0 - 1000"
    using m(1) unat(1) by (subst unat_sub) (simp_all add: word_le_nat_alt)
  have sub: "unat (saturating_sub (of_nat (?m i)) (of_nat (?m 0) - 1000) :: u64) = ?m i - (?m 0 - 1000)" if "i \<in> {1, 2}" for i
    using that past unat by (auto simp: unat_saturating_sub)
  have "500 < ?m 1 + 1000 - ?m 0" "\<not> 2000 < ?m 2 + 1000 - ?m 0" using m m2 by linarith+
  then show ?thesis
    using m m2 unat(1) sub [of 1] sub [of 2] past
    by (simp add: test_time_utils_def now is_older_than_def word_less_nat_alt)
qed

text \<open>All unit tests of the protocol, the health server and the utilities pass, when the checksum is not
  zero for the number 42 and tells two words apart, the parser of addresses judges three texts right,
  and at most a second passes between two readings of the clock.\<close>

lemma service_tests_pass:
  assumes "crc (string_bytes ''test'') \<noteq> crc (string_bytes ''different'')" "crc (be_bytes 8 (42 :: u64)) \<noteq> 0"
    and "is_valid_ip ''127.0.0.1''" "is_valid_ip ''::1''" "\<not> is_valid_ip ''invalid''"
    and "\<forall>i. now i = Some (t i)" "10 ^ 9 \<le> t 0" "t 0 \<le> t 1" "t 0 \<le> t 2" "t 2 \<le> t 0 + 10 ^ 9" "t 1 < 2 ^ 63" "t 2 < 2 ^ 63"
  shows "[test_message_header_roundtrip, test_message_serialization, test_header_magic, test_unsupported_version,
      test_connection_pool, test_health_status, test_component_registration clock, test_component_update clock,
      test_system_health_aggregation clock, test_http_parsing json clock, test_path_utils, test_hash_utils crc,
      test_validation_utils is_valid_ip, test_time_utils now]
    = [True, True, True, True, True, True, True, True, True, True, True, True, True, True]"
  using protocol_tests_pass health_tests_pass utility_tests_pass(1) utility_tests_pass(2) [OF assms(1,2)]
    utility_tests_pass(3) [OF assms(3-5)] time_tests_pass [OF assms(6-12)] by simp

lemma service_tests_pass_example: "test_time_utils (\<lambda>i. Some (10 ^ 9 + i))"
proof -
  let ?crc = "\<lambda>bs. of_nat (length bs) :: u32"
  have "?crc (string_bytes ''test'') \<noteq> ?crc (string_bytes ''different'')" "?crc (be_bytes 8 (42 :: u64)) \<noteq> 0"
    by (simp_all add: string_bytes_def be_bytes_def)
  from service_tests_pass [OF this, of "\<lambda>s. s \<noteq> ''invalid''" "\<lambda>i. Some (10 ^ 9 + i)" "\<lambda>i. 10 ^ 9 + i" of_nat "\<lambda>_. None"]
  show ?thesis by simp
qed

end
