(* ===== verification/Spec2Isabelle.thy ===== *)
theory Spec2Isabelle
  imports Storage Append_Race Compaction PersistQ Mailbox Mailbox_Network Mailbox_Processor Raft
    Network Resilience Health Cluster Partitions Filesystem Trading_Server Traders
    Main_Program SQL_Layer Utilities Processor_Examples Network_Example Production_Demo
    Mailbox_Tests SQL_Example Node_Load Record_Tests Raft_Tests Resilience_Tests Storage_Tests
    Queue_Tests Cluster_Tests Service_Tests
begin

text \<open>
  A verification development for Dolda, a log-structured storage and messaging system in Rust.

  \<^bold>\<open>The program.\<close> Records are framed with a magic number, a length, a checksum and a timestamp
  (\<open>src/record.rs\<close>) and appended to memory-mapped segments, which a manager creates as they fill
  up (\<open>src/storage.rs\<close>); compaction copies the records of segments into new ones
  (\<open>src/compaction.rs\<close>). Beside it, a persistent queue keeps raw bytes in segments of its own,
  with a map from record numbers to offsets (\<open>src/persistq.rs\<close>). Mailboxes keep their messages,
  as JSON, each in a queue (\<open>src/mailbox.rs\<close>); a server and a client carry them over TCP and UDP
  (\<open>src/mailbox_network.rs\<close>), and processors poll them and answer
  (\<open>src/mailbox_processor.rs\<close>). A separate request and response protocol is in
  \<open>src/network.rs\<close>, leader election in \<open>src/raft.rs\<close>, retries and the circuit breaker in
  \<open>src/resilience.rs\<close>, the health server in \<open>src/health.rs\<close>. Nodes, cluster, partitions and the
  logical filesystem (\<open>src/types.rs\<close>, \<open>src/node.rs\<close>, \<open>src/cluster.rs\<close>, \<open>src/partition.rs\<close>,
  \<open>src/filesystem.rs\<close>) and utilities (\<open>src/utils.rs\<close>) are in the repository, but \<open>src/lib.rs\<close> does not
  declare these modules. SQL tables over the storage are in \<open>src/datafusion_layer.rs\<close>. The binary
  (\<open>src/main.rs\<close>) runs workloads on the queue or the demonstration of \<open>src/demo.rs\<close>.
  The example programs use all this: messages between three users
  (\<open>examples/mailbox_example.rs\<close>), the same over TCP and UDP
  (\<open>examples/mailbox_network_example.rs\<close>) a demonstration of the storage
  (\<open>examples/production_demo.rs\<close>) and SQL over it (\<open>examples/datafusion_example.rs\<close>). Three of them carry logic of their own on top of the mailboxes:
  processors that count, route and filter (\<open>examples/mailbox_processor_example.rs\<close>), a matching engine
  served through mailboxes (\<open>examples/hft_trading_server.rs\<close>) and a competition of three traders over
  one order book (\<open>examples/two_traders_competition.rs\<close>).

  \<^bold>\<open>The theories\<close>, in the order in which they build on one another:
  \<^item> \<open>Dolda_Prelude\<close>: machine integers, byte strings and their encodings, propagation of errors,
    slices, maps as lists of entries, doubles, texts; the collections \<open>result_iffs\<close>, \<open>slice_simps\<close>
    and \<open>no_wrap\<close> that carry the proofs of the components.
  \<^item> \<open>Frame_Codec\<close>: the contract (locale \<open>frame_codec\<close>) of a format of self-delimiting frames, with
    the lemmas on sequences of frames. Interpreted for records in \<open>Storage\<close> (\<open>rc\<close>), for the
    messages of the protocol in \<open>Network\<close> (\<open>wire\<close>) and for the requests of mailbox clients in
    \<open>Mailbox_Network\<close> (\<open>len_prefixed\<close>).
  \<^item> \<open>Byte_Queue\<close>: the contract (locale \<open>byte_queue\<close>) of the queue that keeps a mailbox's messages,
    fulfilled by queues of one partition in \<open>PersistQ\<close> (interpretation \<open>single\<close>).
  \<^item> \<open>Record_Format\<close>: \<open>src/record.rs\<close>. The decoder inverts the encoder and accepts nothing else;
    single corrupted bytes are detected.
  \<^item> \<open>Storage\<close>: \<open>src/storage.rs\<close>. \<open>segment_holds\<close> and \<open>manager_holds\<close> are the abstractions of a
    segment and a manager to lists of records; every operation is shown to refine its list
    operation, and the loop of the manager's append to end when the record fits a segment, and
    not to end otherwise.
  \<^item> \<open>Append_Race\<close>: several threads in \<open>RecordSegment::append_record\<close>, which takes no lock: its two
    atomic steps, all interleavings, the invariant of disjoint ranges when all frames fit, and a
    run that loses a stored record when they do not.
  \<^item> \<open>Compaction\<close>: \<open>src/compaction.rs\<close>, on the contract \<open>append_log\<close> of a log one appends to, which
    \<open>Storage\<close>'s segments fulfil (interpretation \<open>seg\<close>): compaction and merging keep the records,
    and what failures leave behind.
  \<^item> \<open>PersistQ\<close>: \<open>src/persistq.rs\<close>. \<open>queue_holds\<close> is the abstraction of a queue to its list of byte
    strings and their placement in partitions and segments; what appending adds, and what reading
    really returns.
  \<^item> \<open>Queue_Workloads\<close>, \<open>Queue_Performance\<close>: the programs that drive a queue, in \<open>src/main.rs\<close> and in the
    modules \<open>large_scale_test\<close> and \<open>perf\<close> of \<open>src/persistq.rs\<close>, as compositions of the operations of
    \<open>PersistQ\<close>. The demonstration and the performance suite run through, the large-scale test always
    fails; percentiles are taken at positions in bounds.
  \<^item> \<open>Demo_Cluster\<close>: \<open>src/demo.rs\<close>. Writes keep the invariant of the cluster and its routing, and count
    each record once.
  \<^item> \<open>Main_Program\<close>: \<open>src/main.rs\<close>, which chooses among these programs: it ends in an error exactly when
    the large-scale test is asked for.
  \<^item> \<open>Utf8\<close>, \<open>SQL_Layer\<close>: lossy conversion of bytes to text, and \<open>src/datafusion_layer.rs\<close>: the batches
    that records become, and that tables never show any record.
  \<^item> \<open>Utilities\<close>: \<open>src/utils.rs\<close>; joining and splitting paths are inverse, and what validation admits.
  \<^item> \<open>Mailbox\<close>, \<open>Mailbox_Network\<close>, \<open>Mailbox_Processor\<close>, \<open>Processor_Examples\<close>: delivery of messages, from \<open>send_to\<close> to
    \<open>receive\<close>, across two TCP connections, and through the processors (the built-in ones and
    those of the example), with the conditions under which a message is lost or circulates for ever.
  \<^item> \<open>Mailbox_Example\<close>, \<open>Network_Example\<close>, \<open>Production_Demo\<close>, \<open>SQL_Example\<close>: the examples on mailboxes and
    storage, as sequences of the operations above (\<open>Manager_Filling\<close> holds what the last two share, a
    manager that is filled evenly). The first two end with an error, at the first receive that finds
    more than one message, or none; the third runs to its end, whatever the order of its writers;
    the fourth prints the same whatever it stores.
  \<^item> \<open>Mailbox_Tests\<close>, \<open>Record_Tests\<close>, \<open>Storage_Tests\<close>, \<open>Queue_Tests\<close>, \<open>Raft_Tests\<close>, \<open>Resilience_Tests\<close>,
    \<open>Cluster_Tests\<close>, \<open>Service_Tests\<close>: the unit tests in the modules \<open>tests\<close> of the sources, as programs or
    truth values on the model (\<open>Test_Support\<close> has their assertions), and which of them pass: all but two
    of mailboxes and four of the cluster.
  \<^item> \<open>Raft\<close>: \<open>src/raft.rs\<close>. A cluster is a step relation over node states in which any reply may be
    delivered at any time; one vote per node and term is an invariant, and with intersecting
    majorities (locale \<open>quorum_system\<close>, interpretation \<open>majority\<close>) it gives election safety.
  \<^item> \<open>Network\<close>: headers, messages, connections and the server loop over streams of bytes.
  \<^item> \<open>Resilience\<close>: the circuit breaker as a state machine, that an open breaker closes again after
    enough successes, and the calls that retrying makes.
  \<^item> \<open>Health\<close>: the overall state as the worst of the components' states, and the answers to probes.
  \<^item> \<open>Cluster\<close>, \<open>Partitions\<close>, \<open>Filesystem\<close>: unique node ids, routing of keys, layout of blocks.
    \<open>Node_Load\<close>: the load of a node and its simulated resources.
  \<^item> \<open>Float64\<close>: the doubles that the example programs compute with. An \<open>f64\<close> is a rational, an
    infinity or NaN (zero has one sign), each operation rounds the exact result to the nearest
    double, ties to even, and comparisons are those of IEEE 754. A partial comparison that the code
    unwraps is an option, with \<open>None\<close> for the panic. Lemmas bound the rounding error and say which
    integers and dyadic numbers are exact.
  \<^item> \<open>Offers\<close>: taking a quantity from offers in sequence (\<open>taken\<close>, \<open>left_over\<close>), the specification that
    both matching algorithms are compared with.
  \<^item> \<open>Matching_Engine\<close>, \<open>Trading_Server\<close>: \<open>MatchingEngine\<close> with its two books, maps from symbols to price
    levels in ascending order, the processors that \<open>main\<close> registers, and the feed. Every resting
    order is open, has its level's price and is filled in part at most; a match takes the offers at
    the lowest acceptable price first; an order that is killed still empties the book.
  \<^item> \<open>Order_Book\<close>, \<open>Traders\<close>: \<open>SharedOrderBook\<close> with its sorted entries, the three traders and an
    iteration of the loop. The book stays sorted, an order takes the best entries first; the
    positions of all traders add up to the quantity that traders bought from themselves.

  \<^bold>\<open>Conventions.\<close> A struct is a record, an enum a datatype, an operation a function that returns
  its result and the new state. Integers are words of their width, with the wrap-around of a
  release build; \<open>usize\<close> has 64 bits. Errors are the left of a sum, and \<open>?\<close> is \<open>and_then\<close>. Definitions
  are named after the code's, with a prefix where names clash (\<open>pq_\<close> for \<open>src/persistq.rs\<close>).

  \<^bold>\<open>Termination.\<close> Loops over data in hand are total functions. Loops that may not end are partial
  functions into options, with \<open>None\<close> for a run that never returns: the appends of \<open>Storage\<close> and
  \<open>PersistQ\<close>, and the loop over a segment's records. (In \<open>Queue_Performance\<close> and in the trading programs,
  \<open>None\<close> also stands for a panic.) That they return is proved where they do, as
  an equation with \<open>Some\<close>, and so is that they do not. No fuel is used. What calls such a loop
  returns an option too.

  \<^bold>\<open>Parameters.\<close> The checksum (\<open>crc\<close>), the answers of the operating system (\<open>os_answers\<close>, \<open>bind\<close>), the
  clock, random ids, the libraries for JSON, \<open>bincode\<close>, DataFusion and Arrow, the handlers that
  users supply and what the network delivers are arguments. Hypotheses about them are
  premises of the theorems that need them: that the system does not refuse a file, that a library
  reads back what it wrote, or that a checksum tells two given byte strings apart. Each such
  theorem comes with an instance where its premises hold.

  \<^bold>\<open>Not modelled:\<close> timers, sockets and spawning of tasks, beyond the interleavings of \<open>Append_Race\<close>
  and \<open>Raft\<close>; logging and metrics (\<open>src/observability.rs\<close>); \<open>is_valid_ip\<close> and \<open>get_cpu_usage\<close> of
  \<open>src/utils.rs\<close>, which only call libraries; the functions of \<open>perf\<close> that print fixed texts; the set-up
  and the reports in the \<open>main\<close> functions of the trading examples; stress tests and benchmarks.
  Random draws, the tables of Unicode and JSON texts are parameters there too. Locks that are held for
  a whole operation make that operation atomic.
\<close>

end
